(* ===== verification/Clib.thy ===== *)
theory Clib
  imports Main "HOL-Library.Word" "HOL-Library.Monad_Syntax"
begin

text \<open>
  The C prelude of the development: how the memory, the pointers, the strings and the
  machine integers of the client are represented, and the lemmas every component shares.

  The platform is the one README.md names, Raspbian on a Raspberry Pi 3: 32-bit ARM, little
  endian, \<open>int\<close> and \<open>long\<close> of 32 bits, plain \<open>char\<close> unsigned. A \<open>char\<close> is \<open>byte\<close>.

  A computation of C has type \<open>'a option\<close>: \<open>None\<close> is a computation that the C standard
  leaves undefined (an access outside an object, through a null or an indeterminate pointer,
  or to an indeterminate value), \<open>Some x\<close> one that returns \<open>x\<close>. The do-notation of
  \<open>Monad_Syntax\<close> sequences them. What the code itself treats as an error (a NULL result, a
  message on stderr, an early return) is an ordinary value.

  The input buffers are byte lists and are read at \<open>int\<close> offsets (\<open>rd\<close>, \<open>rd_n\<close>). A buffer that
  the code allocates and fills is a list of \<open>byte option\<close>, \<open>None\<close> for a byte never written; a
  writer is such a list with the index \<open>i\<close> of the next byte.
\<close>

unbundle bit_operations_syntax

type_synonym byte = "8 word"
type_synonym u16 = "16 word"
type_synonym u32 = "32 word"

named_theorems cmem "reads and writes of the memory model, evaluated on lists"

lemma unat_exp32: "k < 32 \<Longrightarrow> unat ((2 :: u32) ^ k) = 2 ^ k"
proof -
  assume k: "k < 32"
  have "(2 :: nat) ^ k < 2 ^ 32"
    using k by (rule power_strict_increasing) simp
  then have "unat (of_nat (2 ^ k) :: u32) = 2 ^ k"
    by (simp only: unat_of_nat) (simp del: of_nat_power of_nat_numeral)
  then show ?thesis by simp
qed

lemma ucast_ucast_byte [simp]: "ucast (ucast (c :: byte) :: u32) = c"
  by (rule bit_word_eqI) (simp add: bit_simps)

subsection \<open>Pointers and strings\<close>

datatype 'a ptr = Null | Wild | Ref 'a

fun deref :: "'a ptr \<Rightarrow> 'a option" where
  "deref (Ref x) = Some x"
| "deref Null = None"
| "deref Wild = None"

lemma deref_Some_iff [simp]: "deref p = Some x \<longleftrightarrow> p = Ref x"
  by (cases p) auto

text \<open>A C string is the list of its bytes before the terminating zero.\<close>

type_synonym cstr = "byte list"

definition cstr_ok :: "cstr \<Rightarrow> bool" where
  "cstr_ok s \<longleftrightarrow> 0 \<notin> set s"

definition c_strlen :: "cstr ptr \<Rightarrow> nat option" where
  "c_strlen p = map_option length (deref p)"

text \<open>The string that starts at the first of \<open>bs\<close>, where a zero byte follows \<open>bs\<close>.\<close>

definition cstr_of :: "byte list \<Rightarrow> cstr" where
  "cstr_of bs = takeWhile (\<lambda>c. c \<noteq> 0) bs"

lemma cstr_of_ok [simp]: "cstr_ok s \<Longrightarrow> cstr_of s = s"
  by (induction s) (auto simp: cstr_ok_def cstr_of_def)

lemma cstr_ok_cstr_of [simp]: "cstr_ok (cstr_of bs)"
  by (auto simp: cstr_ok_def cstr_of_def dest: set_takeWhileD)

lemma cstr_ok_Nil [simp]: "cstr_ok []"
  by (simp add: cstr_ok_def)

lemma c_strlen_Ref [simp]: "c_strlen (Ref s) = Some (length s)"
  by (simp add: c_strlen_def)

lemma c_strlen_Null [simp]: "c_strlen Null = None"
  by (simp add: c_strlen_def)

lemma c_strlen_Wild [simp]: "c_strlen Wild = None"
  by (simp add: c_strlen_def)

subsection \<open>Reading a buffer\<close>

definition rd :: "byte list \<Rightarrow> int \<Rightarrow> byte option" where
  "rd buf i = (if 0 \<le> i \<and> i < int (length buf) then Some (buf ! nat i) else None)"

text \<open>The source side of \<open>memcpy(dst, &buf[i], n)\<close>; a negative \<open>n\<close> is a huge \<open>size_t\<close>.\<close>

definition rd_n :: "byte list \<Rightarrow> int \<Rightarrow> int \<Rightarrow> byte list option" where
  "rd_n buf i n =
     (if 0 \<le> i \<and> 0 \<le> n \<and> i + n \<le> int (length buf)
      then Some (take (nat n) (drop (nat i) buf)) else None)"

lemma rd_0 [simp]: "rd (b # bs) 0 = Some b"
  by (simp add: rd_def)

lemma rd_append: "i = int (length xs) \<Longrightarrow> rd (xs @ y # ys) i = Some y"
  by (simp add: rd_def nth_append)

lemma rd_append_nat: "rd (xs @ y # ys) (int (length xs)) = Some y"
  by (simp add: rd_append)

lemma rd_Some_iff: "rd buf i = Some b \<longleftrightarrow> 0 \<le> i \<and> i < int (length buf) \<and> b = buf ! nat i"
  by (auto simp: rd_def)

lemma rd_None_iff: "rd buf i = None \<longleftrightarrow> i < 0 \<or> int (length buf) \<le> i"
  by (auto simp: rd_def)

lemma rd_n_append:
  assumes "i = int (length xs)" and "n = int (length ys)"
  shows "rd_n (xs @ ys @ zs) i n = Some ys"
  using assms by (simp add: rd_n_def)

lemma rd_n_length: "rd_n buf i n = Some bs \<Longrightarrow> length bs = nat n"
  by (auto simp: rd_n_def split: if_splits)

lemma rd_n_neg: "n < 0 \<Longrightarrow> rd_n buf i n = None"
  by (simp add: rd_n_def)

text \<open>Cursor form: reading at \<open>int (length pre)\<close> what follows the prefix \<open>pre\<close>.\<close>

lemma rd_cons_pos: "0 < i \<Longrightarrow> rd (b # bs) i = rd bs (i - 1)"
  by (auto simp: rd_def nth_Cons nat_diff_distrib split: nat.splits)

lemma rd_numeral [cmem]: "rd (b # bs) (numeral n) = rd bs (numeral n - 1)"
  by (simp add: rd_cons_pos)

lemma rd_one [cmem]: "rd (b # bs) 1 = rd bs 0"
  by (simp add: rd_cons_pos)

text \<open>Reading behind a prefix is reading what follows it.\<close>

lemma rd_shift: "0 \<le> k \<Longrightarrow> rd (pre @ buf) (int (length pre) + k) = rd buf k"
  by (auto simp: rd_def nth_append nat_add_distrib)

lemma rd_n_shift: "0 \<le> k \<Longrightarrow> rd_n (pre @ buf) (int (length pre) + k) n = rd_n buf k n"
  by (simp add: rd_n_def nat_add_distrib ac_simps)

lemma rd_n_here: "n = int (length bs) \<Longrightarrow> rd_n (bs @ rest) 0 n = Some bs"
  by (simp add: rd_n_def)

lemma rd_n_tl: "1 \<le> k \<Longrightarrow> rd_n (b # bs) k n = rd_n bs (k - 1) n"
  using rd_n_shift [of "k - 1" "[b]" bs] by simp

subsection \<open>Writing a buffer\<close>

type_synonym mem = "byte option list"
type_synonym wbuf = "mem \<times> nat"

definition c_malloc :: "nat \<Rightarrow> mem" where
  "c_malloc n = replicate n None"

text \<open>\<open>buf[i++] = b\<close>, \<open>memcpy(&buf[i], bs, n); i += n\<close>, and the two without the increment.\<close>

definition wr_at :: "nat \<Rightarrow> byte list \<Rightarrow> mem \<Rightarrow> mem option" where
  "wr_at i bs m =
     (if i + length bs \<le> length m
      then Some (take i m @ map Some bs @ drop (i + length bs) m) else None)"

fun put :: "byte list \<Rightarrow> wbuf \<Rightarrow> wbuf option" where
  "put bs (m, i) = map_option (\<lambda>m'. (m', i + length bs)) (wr_at i bs m)"

fun poke :: "byte list \<Rightarrow> wbuf \<Rightarrow> wbuf option" where
  "poke bs (m, i) = map_option (\<lambda>m'. (m', i)) (wr_at i bs m)"

text \<open>
  The writer whose first \<open>length out\<close> bytes are written and whose next \<open>k\<close> are not: the shape
  every encoder keeps while it only appends.
\<close>

definition wstate :: "byte list \<Rightarrow> nat \<Rightarrow> wbuf" where
  "wstate out k = (map Some out @ replicate k None, length out)"

lemma wstate_malloc: "(c_malloc n, 0) = wstate [] n"
  by (simp add: wstate_def c_malloc_def)

lemma wr_at_wstate:
  "wr_at (length out) bs (map Some out @ replicate k None) =
     (if length bs \<le> k then Some (map Some (out @ bs) @ replicate (k - length bs) None)
      else None)"
  by (simp add: wr_at_def)

lemma put_wstate [cmem]:
  "put bs (wstate out k) =
     (if length bs \<le> k then Some (wstate (out @ bs) (k - length bs)) else None)"
  by (simp add: wstate_def wr_at_wstate)

lemma put_wstate_fits:
  "length bs \<le> k \<Longrightarrow> put bs (wstate out k) = Some (wstate (out @ bs) (k - length bs))"
  by (simp add: put_wstate)

lemma poke_wstate:
  "poke bs (wstate out k) =
     (if length bs \<le> k
      then Some (fst (wstate (out @ bs) (k - length bs)), length out) else None)"
  by (simp add: wstate_def wr_at_wstate)

text \<open>Two writes in a row are one write: an encoder is one \<open>put\<close> of all its bytes.\<close>

lemma put_put: "Option.bind (put bs w) (put cs) = put (bs @ cs) w"
proof (cases w)
  case (Pair m i)
  show ?thesis
  proof (cases "i + length bs \<le> length m")
    case True
    define m1 where "m1 = take i m @ map Some bs @ drop (i + length bs) m"
    have i: "i \<le> length m" using True by simp
    have len: "length m1 = length m" using True by (simp add: m1_def)
    have t: "take (i + length bs) m1 = take i m @ map Some bs"
      using i by (simp add: m1_def min_def)
    have d: "drop (i + length bs + length cs) m1 = drop (i + length (bs @ cs)) m"
      using i by (simp add: m1_def min_def add.commute add.left_commute)
    have "wr_at (i + length bs) cs m1 = wr_at i (bs @ cs) m"
      using len t d by (simp add: wr_at_def ac_simps)
    then show ?thesis
      using True Pair by (simp add: wr_at_def [of i bs] m1_def [symmetric] option.map_comp comp_def
          ac_simps)
  qed (simp add: Pair wr_at_def)
qed

lemma put_put_bind [simp]:
  "Option.bind (put bs w) (\<lambda>w. Option.bind (put cs w) f) = Option.bind (put (bs @ cs) w) f"
  by (simp flip: put_put)

lemma put_put_eta [simp]: "Option.bind (put bs w) (\<lambda>w. put cs w) = put (bs @ cs) w"
  by (simp add: put_put)

lemma map_fst_poke: "map_option fst (poke bs w) = map_option fst (put bs w)"
  by (cases w) (simp add: option.map_comp comp_def)

text \<open>A last write that leaves the index alone leaves the same bytes.\<close>

lemma put_poke_fst:
  "map_option fst (Option.bind (put bs w) (poke cs)) = map_option fst (put (bs @ cs) w)"
  by (cases "put bs w") (simp_all add: map_fst_poke flip: put_put)

lemma put_Nil_wstate [simp]: "put [] (wstate out k) = Some (wstate out k)"
  by (simp add: put_wstate)

lemma fst_wstate_pair: "fst (wstate out k) = map Some out @ replicate k None"
  by (simp add: wstate_def)

lemma put_length: "put bs (m, i) = Some (m', j) \<Longrightarrow> length m' = length m \<and> j = i + length bs"
  by (auto simp: wr_at_def split: if_splits)

lemma poke_length: "poke bs (m, i) = Some (m', j) \<Longrightarrow> length m' = length m \<and> j = i"
  by (auto simp: wr_at_def split: if_splits)

subsection \<open>Control\<close>

text \<open>\<open>c_assert b\<close> is undefined unless \<open>b\<close>: the access that a check of the model stands for.\<close>

definition c_assert :: "bool \<Rightarrow> unit option" where
  "c_assert b = (if b then Some () else None)"

lemma c_assert_simps [simp]:
  "c_assert True = Some ()" "c_assert False = None"
  by (simp_all add: c_assert_def)

lemma c_assert_Some_iff [simp]: "c_assert b = Some u \<longleftrightarrow> b"
  by (simp add: c_assert_def)

lemma bind_Some_iff: "Option.bind m f = Some y \<longleftrightarrow> (\<exists>x. m = Some x \<and> f x = Some y)"
  by (cases m) auto

lemma bind_Some_fst: "Option.bind x (\<lambda>w. Some (fst w)) = map_option fst x"
  by (cases x) simp_all

definition b2i :: "bool \<Rightarrow> int" where
  "b2i b = (if b then 1 else 0)"

lemma b2i_eq_0 [simp]: "b2i b = 0 \<longleftrightarrow> \<not> b"
  by (simp add: b2i_def)

lemma b2i_eq_1 [simp]: "b2i b = 1 \<longleftrightarrow> b"
  by (simp add: b2i_def)

subsection \<open>Decimal strings\<close>

text \<open>The digits \<open>sprintf(str, "%d", n)\<close> writes for a non-negative \<open>n\<close>.\<close>

fun dec_digits :: "nat \<Rightarrow> byte list" where
  "dec_digits n =
     (if n < 10 then [of_nat (48 + n)]
      else dec_digits (n div 10) @ [of_nat (48 + n mod 10)])"

declare dec_digits.simps [simp del]

text \<open>Reading the digits back, the inverse on digit strings.\<close>

definition dec_value :: "byte list \<Rightarrow> nat" where
  "dec_value s = foldl (\<lambda>a c. 10 * a + (unat c - 48)) 0 s"

lemma dec_value_append [simp]: "dec_value (s @ [c]) = 10 * dec_value s + (unat c - 48)"
  by (simp add: dec_value_def)

lemma unat_digit: "d < 10 \<Longrightarrow> unat (of_nat (48 + d) :: byte) = 48 + d"
  by (simp add: unat_of_nat del: of_nat_add)

lemma dec_value_digits: "dec_value (dec_digits n) = n"
proof (induction n rule: dec_digits.induct)
  case (1 n)
  show ?case
  proof (cases "n < 10")
    case True
    then show ?thesis
      using unat_digit [of n] by (subst dec_digits.simps) (simp add: dec_value_def)
  next
    case False
    then show ?thesis
      using 1 unat_digit [of "n mod 10"]
      by (subst dec_digits.simps) (simp del: of_nat_add)
  qed
qed

lemma dec_digits_inject [simp]: "dec_digits m = dec_digits n \<longleftrightarrow> m = n"
  by (metis dec_value_digits)

lemma dec_digits_ok [simp]: "cstr_ok (dec_digits n)"
proof (induction n rule: dec_digits.induct)
  case (1 n)
  have dig: "(of_nat (48 + d) :: byte) \<noteq> 0" if "d < 10" for d
    using unat_digit [OF that] by (metis add_is_0 unat_0 zero_neq_numeral)
  show ?case
  proof (cases "n < 10")
    case True
    then show ?thesis using dig [of n] by (subst dec_digits.simps) (simp add: cstr_ok_def)
  next
    case False
    then show ?thesis using 1 dig [of "n mod 10"]
      by (subst dec_digits.simps) (auto simp: cstr_ok_def)
  qed
qed

lemma dec_digits_length:
  "length (dec_digits n) = (if n < 10 then 1 else Suc (length (dec_digits (n div 10))))"
  by (subst dec_digits.simps) simp

lemma dec_digits_short: "length (dec_digits n) \<le> Suc k \<longleftrightarrow> n < 10 ^ Suc k"
proof (induction k arbitrary: n)
  case 0
  show ?case using dec_digits_length [of n] dec_digits_length [of "n div 10"] by (auto split: if_splits)
next
  case (Suc k)
  have "n div 10 < 10 ^ Suc k \<longleftrightarrow> n < 10 ^ Suc (Suc k)"
    by (simp add: div_less_iff_less_mult)
  moreover have "n < 10 \<Longrightarrow> n < 10 ^ Suc (Suc k)"
    using less_le_trans [of n 10 "10 ^ Suc (Suc k)"] self_le_power [of "10 :: nat" "Suc (Suc k)"] by simp
  ultimately show ?case
    using Suc.IH [of "n div 10"] dec_digits_length [of n] by (cases "n < 10") simp_all
qed

end
