(* ===== verification/HashMap.thy ===== *)
theory HashMap
  imports Clib "HOL-Library.Multiset"
begin

text \<open>
  src/src/map/map.c: the string-keyed hash table in which every protocol keeps the messages
  that wait for an acknowledgement and the topic tables. A bucket is the list of its chained
  nodes. \<open>malloc\<close> and \<open>realloc\<close> may fail: their outcomes are arguments. \<open>map_deinit\<close> frees the
  nodes and the bucket array and leaves the pointers, so the table remembers that it is
  \<open>freed\<close> and every later access is undefined.

  \<open>hm_inv\<close> is the invariant, \<open>hm_abs\<close> the partial map the table stands for; the interface the
  clients rely on is the locale \<open>c_map\<close>, interpreted on the code's operations at the end.
\<close>

subsection \<open>The table\<close>

record 'v map_node =
  nhash :: u32
  nkey :: cstr
  nvalue :: 'v

record 'v map_base =
  buckets :: "'v map_node list list"
  nbuckets :: u32
  nnodes :: u32
  freed :: bool

definition map_init :: "'v map_base" where
  "map_init = \<lparr>buckets = [], nbuckets = 0, nnodes = 0, freed = False\<rparr>"

fun hash_loop :: "u32 \<Rightarrow> cstr \<Rightarrow> u32" where
  "hash_loop h [] = h"
| "hash_loop h (c # str) = hash_loop ((push_bit 5 h + h) XOR ucast c) str"

definition map_hash :: "cstr \<Rightarrow> u32" where
  "map_hash str = hash_loop 5381 str"

text \<open>Where the value starts after a key of \<open>ksize\<close> bytes; \<open>sizeof(void*)\<close> is 4.\<close>

definition map_voffset :: "u32 \<Rightarrow> u32" where
  "map_voffset ksize = ksize + ((4 - ksize) mod 4)"

definition map_newnode :: "bool \<Rightarrow> cstr \<Rightarrow> 'v \<Rightarrow> 'v map_node ptr" where
  "map_newnode malloc_ok key v =
     (if malloc_ok then Ref \<lparr>nhash = map_hash key, nkey = key, nvalue = v\<rparr> else Null)"

definition map_bucketidx :: "'v map_base \<Rightarrow> u32 \<Rightarrow> nat" where
  "map_bucketidx m h = unat (h AND (nbuckets m - 1))"

definition map_addnode :: "'v map_base \<Rightarrow> 'v map_node \<Rightarrow> 'v map_base option" where
  "map_addnode m node = do {
     c_assert (\<not> freed m);
     let n = map_bucketidx m (nhash node);
     c_assert (n < length (buckets m));
     Some (m\<lparr>buckets := (buckets m)[n := node # buckets m ! n]\<rparr>)
   }"

text \<open>The two nested loops that chain all nodes together, last bucket first.\<close>

fun chain_nodes :: "'v map_node list \<Rightarrow> 'v map_node list \<Rightarrow> 'v map_node list" where
  "chain_nodes [] nodes = nodes"
| "chain_nodes (x # node) nodes = chain_nodes node (x # nodes)"

fun chain_buckets ::
    "nat \<Rightarrow> 'v map_node list list \<Rightarrow> 'v map_node list \<Rightarrow> 'v map_node list option" where
  "chain_buckets 0 bs nodes = Some nodes"
| "chain_buckets (Suc i) bs nodes = do {
     c_assert (i < length bs);
     chain_buckets i bs (chain_nodes (bs ! i) nodes)
   }"

fun readd_nodes :: "'v map_node list \<Rightarrow> 'v map_base \<Rightarrow> 'v map_base option" where
  "readd_nodes [] m = Some m"
| "readd_nodes (node # next) m = do { m' \<leftarrow> map_addnode m node; readd_nodes next m' }"

definition map_resize :: "bool \<Rightarrow> 'v map_base \<Rightarrow> u32 \<Rightarrow> ('v map_base \<times> int) option" where
  "map_resize realloc_ok m n = do {
     c_assert (\<not> freed m);
     nodes \<leftarrow> chain_buckets (unat (nbuckets m)) (buckets m) [];
     let m1 = (if realloc_ok then m\<lparr>nbuckets := n\<rparr> else m);
     m2 \<leftarrow> readd_nodes nodes (m1\<lparr>buckets := replicate (unat (nbuckets m1)) []\<rparr>);
     Some (m2, if realloc_ok then 0 else - 1)
   }"

text \<open>\<open>map_getref\<close> returns the place of the node: its bucket and its index in the chain.\<close>

fun chain_find :: "u32 \<Rightarrow> cstr \<Rightarrow> nat \<Rightarrow> 'v map_node list \<Rightarrow> nat ptr" where
  "chain_find h key k [] = Null"
| "chain_find h key k (x # next) =
     (if nhash x = h \<and> nkey x = key then Ref k else chain_find h key (Suc k) next)"

definition map_getref :: "'v map_base \<Rightarrow> cstr \<Rightarrow> (nat \<times> nat) ptr option" where
  "map_getref m key =
     (if nbuckets m > 0 then do {
        c_assert (\<not> freed m);
        let n = map_bucketidx m (map_hash key);
        c_assert (n < length (buckets m));
        (case chain_find (map_hash key) key 0 (buckets m ! n) of
           Ref k \<Rightarrow> Some (Ref (n, k))
         | _ \<Rightarrow> Some Null)
      } else Some Null)"

definition map_deinit :: "'v map_base \<Rightarrow> 'v map_base option" where
  "map_deinit m =
     (if nbuckets m = 0 then Some m
      else do { c_assert (\<not> freed m); Some (m\<lparr>freed := True\<rparr>) })"

definition map_get :: "'v map_base \<Rightarrow> cstr \<Rightarrow> 'v ptr option" where
  "map_get m key = do {
     r \<leftarrow> map_getref m key;
     (case r of Ref (n, k) \<Rightarrow> Some (Ref (nvalue (buckets m ! n ! k))) | _ \<Rightarrow> Some Null)
   }"

definition map_set ::
    "bool \<Rightarrow> bool \<Rightarrow> 'v map_base \<Rightarrow> cstr \<Rightarrow> 'v \<Rightarrow> ('v map_base \<times> int) option" where
  "map_set malloc_ok realloc_ok m key v = do {
     r \<leftarrow> map_getref m key;
     (case r of
        Ref (n, k) \<Rightarrow>
          Some (m\<lparr>buckets := (buckets m)[n := (buckets m ! n)[k := (buckets m ! n ! k)
                    \<lparr>nvalue := v\<rparr>]]\<rparr>, 0)
      | _ \<Rightarrow>
          (case map_newnode malloc_ok key v of
             Ref node \<Rightarrow> do {
               (m1, err) \<leftarrow>
                 (if nnodes m \<ge> nbuckets m
                  then map_resize realloc_ok m
                         (if nbuckets m > 0 then push_bit 1 (nbuckets m) else 1)
                  else Some (m, 0));
               if err \<noteq> 0 then Some (m1, - 1)
               else do {
                 m2 \<leftarrow> map_addnode m1 node;
                 Some (m2\<lparr>nnodes := nnodes m2 + 1\<rparr>, 0)
               }
             }
           | _ \<Rightarrow> Some (m, - 1)))
   }"

definition map_remove :: "'v map_base \<Rightarrow> cstr \<Rightarrow> 'v map_base option" where
  "map_remove m key = do {
     r \<leftarrow> map_getref m key;
     (case r of
        Ref (n, k) \<Rightarrow>
          Some (m\<lparr>buckets := (buckets m)[n := take k (buckets m ! n) @ drop (Suc k) (buckets m ! n)],
                  nnodes := nnodes m - 1\<rparr>)
      | _ \<Rightarrow> Some m)
   }"

subsection \<open>Iteration\<close>

text \<open>The node pointer of an iterator is the rest of the chain from that node.\<close>

record 'v iter_state =
  bucketidx :: u32
  inode :: "'v map_node list"

definition map_iter :: "'v iter_state" where
  "map_iter = \<lparr>bucketidx = - 1, inode = []\<rparr>"

function next_bucket :: "'v map_base \<Rightarrow> u32 \<Rightarrow> (cstr ptr \<times> 'v iter_state) option" where
  "next_bucket m idx =
     (let i = idx + 1 in
      if i \<ge> nbuckets m then Some (Null, \<lparr>bucketidx = i, inode = []\<rparr>)
      else do {
        c_assert (\<not> freed m \<and> unat i < length (buckets m));
        (case buckets m ! unat i of
           [] \<Rightarrow> next_bucket m i
         | node # next \<Rightarrow> Some (Ref (nkey node), \<lparr>bucketidx = i, inode = node # next\<rparr>))
      })"
  by pat_completeness auto
termination
proof (relation "measure (\<lambda>(m, idx). unat (nbuckets m) - unat (idx + 1))")
  show "wf (measure (\<lambda>(m :: 'v map_base, idx :: u32). unat (nbuckets m) - unat (idx + 1)))"
    by simp
next
  fix m :: "'v map_base" and idx x :: u32 and u :: unit
  assume "x = idx + 1" and "\<not> nbuckets m \<le> x"
  then have lt: "unat x < unat (nbuckets m)" by (simp add: not_le word_less_nat_alt)
  then have "unat (x + 1) = Suc (unat x)"
    using unsigned_less [of "nbuckets m", where 'a = nat]
    by (simp add: unat_word_ariths mod_less)
  then show "((m, x), m, idx) \<in> measure (\<lambda>(m, idx). unat (nbuckets m) - unat (idx + 1))"
    using lt \<open>x = idx + 1\<close> by simp
qed

declare next_bucket.simps [simp del]

definition map_next :: "'v map_base \<Rightarrow> 'v iter_state \<Rightarrow> (cstr ptr \<times> 'v iter_state) option" where
  "map_next m iter =
     (case inode iter of
        node # next \<Rightarrow> do {
          c_assert (\<not> freed m);
          (case next of
             [] \<Rightarrow> next_bucket m (bucketidx iter)
           | node' # _ \<Rightarrow> Some (Ref (nkey node'), iter\<lparr>inode := next\<rparr>))
        }
      | [] \<Rightarrow> next_bucket m (bucketidx iter))"

subsection \<open>Invariant and abstraction\<close>

definition hm_nodes :: "'v map_base \<Rightarrow> 'v map_node list" where
  "hm_nodes m = concat (buckets m)"

definition hm_placed :: "'v map_base \<Rightarrow> bool" where
  "hm_placed m \<longleftrightarrow>
     (\<forall>i < length (buckets m). \<forall>x \<in> set (buckets m ! i).
        nhash x = map_hash (nkey x) \<and> map_bucketidx m (nhash x) = i)"

definition hm_shape :: "'v map_base \<Rightarrow> bool" where
  "hm_shape m \<longleftrightarrow>
     \<not> freed m \<and> length (buckets m) = unat (nbuckets m) \<and>
     (nbuckets m = 0 \<or> (\<exists>k < 32. nbuckets m = 2 ^ k))"

definition hm_inv :: "'v map_base \<Rightarrow> bool" where
  "hm_inv m \<longleftrightarrow>
     hm_shape m \<and> hm_placed m \<and> distinct (map nkey (hm_nodes m)) \<and>
     unat (nnodes m) = length (hm_nodes m) \<and> nnodes m \<le> nbuckets m"

definition hm_abs :: "'v map_base \<Rightarrow> cstr \<rightharpoonup> 'v" where
  "hm_abs m = map_of (map (\<lambda>x. (nkey x, nvalue x)) (hm_nodes m))"

lemma mset_concat_update:
  "n < length bs \<Longrightarrow>
   mset (concat (bs[n := xs])) + mset (bs ! n) = mset (concat bs) + mset xs"
proof (induction bs arbitrary: n)
  case (Cons b bs)
  then show ?case by (cases n) (auto simp: add.commute add.left_commute)
qed simp

lemma map_bucketidx_less:
  assumes "hm_shape m" and "nbuckets m \<noteq> 0"
  shows "map_bucketidx m h < length (buckets m)"
proof -
  from assms obtain k where k: "k < 32" "nbuckets m = 2 ^ k"
    by (auto simp: hm_shape_def)
  have "(2 :: u32) ^ k - 1 = mask k" by (simp add: mask_eq_exp_minus_1)
  then have "unat (h AND (2 ^ k - 1)) < 2 ^ k"
    by (simp add: unsigned_take_bit_eq flip: take_bit_eq_mask)
  moreover have "unat ((2 :: u32) ^ k) = 2 ^ k"
    using k(1) by (rule unat_exp32)
  ultimately show ?thesis using assms k by (simp add: map_bucketidx_def hm_shape_def)
qed

lemma set_hm_nodes: "set (hm_nodes m) = (\<Union>i < length (buckets m). set (buckets m ! i))"
proof -
  have "set (hm_nodes m) = \<Union> (set ` set (buckets m))" by (simp add: hm_nodes_def)
  also have "set (buckets m) = (\<lambda>i. buckets m ! i) ` {..<length (buckets m)}"
    by (simp add: set_conv_nth image_def lessThan_def) metis
  finally show ?thesis by (simp add: image_image)
qed

lemma hm_nodes_bucket:
  assumes "hm_placed m" and "x \<in> set (hm_nodes m)"
  shows "nhash x = map_hash (nkey x)"
    and "x \<in> set (buckets m ! map_bucketidx m (map_hash (nkey x)))"
proof -
  from assms(2) obtain i where i: "i < length (buckets m)" "x \<in> set (buckets m ! i)"
    by (auto simp: set_hm_nodes)
  with assms(1) have h: "nhash x = map_hash (nkey x)" "map_bucketidx m (nhash x) = i"
    unfolding hm_placed_def by blast+
  from h(1) show "nhash x = map_hash (nkey x)" .
  from h i(2) show "x \<in> set (buckets m ! map_bucketidx m (map_hash (nkey x)))" by simp
qed

lemma hm_abs_Some_iff:
  assumes "distinct (map nkey (hm_nodes m))"
  shows "hm_abs m key = Some v \<longleftrightarrow> (\<exists>x \<in> set (hm_nodes m). nkey x = key \<and> nvalue x = v)"
proof -
  have "map fst (map (\<lambda>x. (nkey x, nvalue x)) (hm_nodes m)) = map nkey (hm_nodes m)"
    by (simp add: comp_def)
  then have "distinct (map fst (map (\<lambda>x. (nkey x, nvalue x)) (hm_nodes m)))"
    using assms by (simp add: comp_def)
  from map_of_eq_Some_iff [OF this] show ?thesis
    by (auto simp: hm_abs_def image_iff)
qed

lemma hm_abs_None_iff: "hm_abs m key = None \<longleftrightarrow> key \<notin> nkey ` set (hm_nodes m)"
  by (auto simp: hm_abs_def map_of_eq_None_iff image_iff)

lemma hm_abs_cong:
  assumes "mset (hm_nodes m) = mset (hm_nodes m')" and "distinct (map nkey (hm_nodes m))"
  shows "hm_abs m = hm_abs m'"
proof -
  have "mset (map nkey (hm_nodes m)) = mset (map nkey (hm_nodes m'))"
    using assms(1) by simp
  then have "distinct (map nkey (hm_nodes m'))"
    using assms(2) mset_eq_imp_distinct_iff by blast
  moreover have "set (hm_nodes m) = set (hm_nodes m')"
    using assms(1) by (rule mset_eq_setD)
  ultimately have "hm_abs m key = Some v \<longleftrightarrow> hm_abs m' key = Some v" for key v
    using assms(2) by (simp add: hm_abs_Some_iff)
  then show ?thesis by (intro ext) (metis not_None_eq)
qed

subsection \<open>Lookup\<close>

lemma chain_find_Ref:
  "chain_find h key k xs = Ref j \<Longrightarrow>
   k \<le> j \<and> j - k < length xs \<and> nhash (xs ! (j - k)) = h \<and> nkey (xs ! (j - k)) = key"
proof (induction h key k xs rule: chain_find.induct)
  case (2 h key k x xs)
  show ?case
  proof (cases "nhash x = h \<and> nkey x = key")
    case False
    with 2 have "Suc k \<le> j \<and> j - Suc k < length xs \<and>
        nhash (xs ! (j - Suc k)) = h \<and> nkey (xs ! (j - Suc k)) = key" by auto
    moreover from this have "j - k = Suc (j - Suc k)" by linarith
    ultimately show ?thesis by simp
  qed (use 2 in auto)
qed simp

lemma chain_find_not_Wild [simp]: "chain_find h key k xs \<noteq> Wild"
  by (induction h key k xs rule: chain_find.induct) auto

lemma chain_find_Null: "chain_find h key k xs = Null \<longleftrightarrow> (\<forall>x \<in> set xs. \<not> (nhash x = h \<and> nkey x = key))"
  by (induction h key k xs rule: chain_find.induct) auto

text \<open>What \<open>map_getref\<close> finds under the invariant: the node of the key, or nothing.\<close>

lemma map_getref_inv:
  assumes "hm_shape m" and "hm_placed m"
  obtains (found) n k where "map_getref m key = Some (Ref (n, k))" "n < length (buckets m)"
      "n = map_bucketidx m (map_hash key)"
      "k < length (buckets m ! n)" "nkey (buckets m ! n ! k) = key"
  | (missing) "map_getref m key = Some Null" "key \<notin> nkey ` set (hm_nodes m)"
proof (cases "nbuckets m = 0")
  case True
  then have "buckets m = []" using assms(1) by (simp add: hm_shape_def)
  then have "key \<notin> nkey ` set (hm_nodes m)" by (simp add: hm_nodes_def)
  with True show ?thesis by (intro missing) (simp_all add: map_getref_def)
next
  case False
  define n where "n = map_bucketidx m (map_hash key)"
  have n: "n < length (buckets m)"
    using map_bucketidx_less assms(1) False by (simp add: n_def)
  have nf: "\<not> freed m" using assms(1) by (simp add: hm_shape_def)
  have nb: "nbuckets m > 0" using False by (simp add: word_gt_0)
  show ?thesis
  proof (cases "chain_find (map_hash key) key 0 (buckets m ! n)")
    case (Ref k)
    with n nf nb chain_find_Ref [OF Ref] show ?thesis
      by (intro found [of n k]) (simp_all add: map_getref_def n_def)
  next
    case Null
    have "key \<notin> nkey ` set (hm_nodes m)"
    proof
      assume "key \<in> nkey ` set (hm_nodes m)"
      then obtain x where x: "x \<in> set (hm_nodes m)" "nkey x = key" by auto
      with hm_nodes_bucket [OF assms(2) x(1)] Null show False
        by (auto simp: chain_find_Null n_def)
    qed
    with Null n nf nb show ?thesis
      by (intro missing) (simp_all add: map_getref_def n_def)
  qed simp
qed

lemma hm_inv_parts:
  assumes "hm_inv m"
  shows "hm_shape m" "hm_placed m" "distinct (map nkey (hm_nodes m))"
    "unat (nnodes m) = length (hm_nodes m)" "nnodes m \<le> nbuckets m"
  using assms by (simp_all add: hm_inv_def)

lemma nth_bucket_in_nodes:
  "n < length (buckets m) \<Longrightarrow> k < length (buckets m ! n) \<Longrightarrow> buckets m ! n ! k \<in> set (hm_nodes m)"
  by (simp add: set_hm_nodes) (rule bexI [of _ n], simp_all)

lemma map_get_abs:
  assumes "hm_inv m"
  shows "map_get m key = Some (case hm_abs m key of None \<Rightarrow> Null | Some v \<Rightarrow> Ref v)"
  using hm_inv_parts(1,2) [OF assms]
proof (cases rule: map_getref_inv [of m key])
  case (found n k)
  have "buckets m ! n ! k \<in> set (hm_nodes m)"
    using found by (simp add: nth_bucket_in_nodes)
  then have "hm_abs m key = Some (nvalue (buckets m ! n ! k))"
    using found hm_inv_parts(3) [OF assms] by (auto simp: hm_abs_Some_iff)
  with found show ?thesis by (simp add: map_get_def)
next
  case missing
  then have "hm_abs m key = None" by (simp add: hm_abs_None_iff)
  with missing show ?thesis by (simp add: map_get_def)
qed

subsection \<open>Node multisets\<close>

text \<open>Adding and taking out one node, on the multiset of nodes: the update and the removal.\<close>

lemma hm_insert_nodes:
  assumes "mset (hm_nodes m') = add_mset x (mset (hm_nodes m))"
    and "distinct (map nkey (hm_nodes m))" and "nkey x \<notin> nkey ` set (hm_nodes m)"
  shows "distinct (map nkey (hm_nodes m'))"
    and "hm_abs m' = (hm_abs m)(nkey x \<mapsto> nvalue x)"
proof -
  obtain c :: "'a map_base" where c: "hm_nodes c = x # hm_nodes m"
  proof
    show "hm_nodes \<lparr>buckets = [x # hm_nodes m], nbuckets = 1, nnodes = 0, freed = False\<rparr> =
        x # hm_nodes m"
      by (simp add: hm_nodes_def)
  qed
  have d: "distinct (map nkey (hm_nodes c))" using assms(2,3) by (simp add: c)
  have ms: "mset (hm_nodes c) = mset (hm_nodes m')" using assms(1) by (simp add: c)
  have "mset (map nkey (hm_nodes c)) = mset (map nkey (hm_nodes m'))"
    using arg_cong [OF ms, of "image_mset nkey"] by (simp only: mset_map)
  then show "distinct (map nkey (hm_nodes m'))"
    using d mset_eq_imp_distinct_iff by blast
  have "hm_abs c = (hm_abs m)(nkey x \<mapsto> nvalue x)"
    by (simp add: hm_abs_def c)
  then show "hm_abs m' = (hm_abs m)(nkey x \<mapsto> nvalue x)"
    using hm_abs_cong [OF ms d] by simp
qed

lemma hm_delete_nodes:
  assumes "mset (hm_nodes m) = add_mset x (mset (hm_nodes m'))"
    and "distinct (map nkey (hm_nodes m))"
  shows "distinct (map nkey (hm_nodes m'))" and "nkey x \<notin> nkey ` set (hm_nodes m')"
    and "hm_abs m' = (hm_abs m)(nkey x := None)"
proof -
  have "mset (map nkey (hm_nodes m)) = mset (map nkey (x # hm_nodes m'))"
    using arg_cong [OF assms(1), of "image_mset nkey"] by (simp only: mset_map) simp
  then have "distinct (map nkey (x # hm_nodes m'))"
    using assms(2) mset_eq_imp_distinct_iff by blast
  then show d: "distinct (map nkey (hm_nodes m'))" and n: "nkey x \<notin> nkey ` set (hm_nodes m')"
    by simp_all
  have "hm_abs m = (hm_abs m')(nkey x \<mapsto> nvalue x)"
    by (rule hm_insert_nodes(2) [OF assms(1) d n])
  moreover have "hm_abs m' (nkey x) = None"
    by (rule iffD2 [OF hm_abs_None_iff n])
  ultimately show "hm_abs m' = (hm_abs m)(nkey x := None)"
    by (simp only: fun_upd_upd fun_upd_idem)
qed

subsection \<open>Insertion and growth\<close>

definition hash_ok :: "'v map_node \<Rightarrow> bool" where
  "hash_ok x \<longleftrightarrow> nhash x = map_hash (nkey x)"

lemma map_addnode_ok:
  assumes "hm_shape m" and "hm_placed m" and "nbuckets m \<noteq> 0" and "hash_ok x"
  obtains m' where "map_addnode m x = Some m'" "hm_shape m'" "hm_placed m'"
    "nbuckets m' = nbuckets m" "nnodes m' = nnodes m"
    "mset (hm_nodes m') = add_mset x (mset (hm_nodes m))"
proof -
  define n where "n = map_bucketidx m (nhash x)"
  have n: "n < length (buckets m)"
    using assms by (simp add: n_def map_bucketidx_less)
  define m' where "m' = m\<lparr>buckets := (buckets m)[n := x # buckets m ! n]\<rparr>"
  have nf: "\<not> freed m" using assms(1) by (simp add: hm_shape_def)
  show ?thesis
  proof (rule that [of m'])
    show "map_addnode m x = Some m'"
      using nf n by (simp add: map_addnode_def n_def m'_def Let_def)
    show "hm_shape m'" using assms(1) by (simp add: m'_def hm_shape_def)
    have same: "map_bucketidx m' h = map_bucketidx m h" for h
      by (simp add: m'_def map_bucketidx_def)
    show "hm_placed m'"
      unfolding hm_placed_def same
    proof (intro allI impI ballI)
      fix i y assume "i < length (buckets m')" and "y \<in> set (buckets m' ! i)"
      then have "i < length (buckets m)" "y \<in> set (buckets m ! i) \<or> (i = n \<and> y = x)"
        using n by (auto simp: m'_def nth_list_update split: if_splits)
      then show "nhash y = map_hash (nkey y) \<and> map_bucketidx m (nhash y) = i"
        using assms(2,4) by (auto simp: hm_placed_def hash_ok_def n_def)
    qed
    show "nbuckets m' = nbuckets m" "nnodes m' = nnodes m" by (simp_all add: m'_def)
    have "mset (hm_nodes m') + mset (buckets m ! n) = mset (hm_nodes m) + mset (x # buckets m ! n)"
      using mset_concat_update [OF n, of "x # buckets m ! n"] by (simp add: m'_def hm_nodes_def)
    then show "mset (hm_nodes m') = add_mset x (mset (hm_nodes m))" by simp
  qed
qed

lemma readd_nodes_ok:
  assumes "hm_shape m" and "hm_placed m" and "nbuckets m \<noteq> 0" and "\<forall>x \<in> set nodes. hash_ok x"
  shows "\<exists>m'. readd_nodes nodes m = Some m' \<and> hm_shape m' \<and> hm_placed m' \<and>
    nbuckets m' = nbuckets m \<and> nnodes m' = nnodes m \<and>
    mset (hm_nodes m') = mset nodes + mset (hm_nodes m)"
  using assms
proof (induction nodes arbitrary: m)
  case (Cons x nodes)
  from Cons.prems have "hash_ok x" by simp
  with Cons.prems(1-3) obtain m1 where m1: "map_addnode m x = Some m1" "hm_shape m1"
    "hm_placed m1" "nbuckets m1 = nbuckets m" "nnodes m1 = nnodes m"
    "mset (hm_nodes m1) = add_mset x (mset (hm_nodes m))"
    by (rule map_addnode_ok)
  with Cons.IH [of m1] Cons.prems show ?case by auto
qed simp

lemma chain_nodes_rev: "chain_nodes xs nodes = rev xs @ nodes"
  by (induction xs nodes rule: chain_nodes.induct) auto

lemma chain_buckets_ok:
  "i \<le> length bs \<Longrightarrow>
   \<exists>nodes'. chain_buckets i bs nodes = Some nodes' \<and>
     mset nodes' = mset (concat (take i bs)) + mset nodes"
proof (induction i bs nodes rule: chain_buckets.induct)
  case (2 i bs nodes)
  then have "i < length bs" by simp
  then have "mset (concat (take (Suc i) bs)) = mset (concat (take i bs)) + mset (bs ! i)"
    by (simp add: take_Suc_conv_app_nth)
  with 2 \<open>i < length bs\<close> show ?case
    by (auto simp: chain_nodes_rev)
qed simp

lemma hm_nodes_hash_ok: "hm_placed m \<Longrightarrow> x \<in> set (hm_nodes m) \<Longrightarrow> hash_ok x"
  by (simp add: hash_ok_def hm_nodes_bucket)

lemma hm_nodes_empty_buckets: "hm_nodes (m\<lparr>buckets := replicate n []\<rparr>) = []"
  by (simp add: hm_nodes_def)

lemma map_resize_ok:
  assumes "hm_shape m" and "hm_placed m" and "k < 32" and "n = 2 ^ k"
  shows "\<exists>m'. map_resize ok m n = Some (m', if ok then 0 else - 1) \<and> hm_shape m' \<and> hm_placed m' \<and>
    nbuckets m' = (if ok then n else nbuckets m) \<and> nnodes m' = nnodes m \<and>
    mset (hm_nodes m') = mset (hm_nodes m)"
proof -
  have len: "length (buckets m) = unat (nbuckets m)" and nf: "\<not> freed m"
    using assms(1) by (simp_all add: hm_shape_def)
  obtain nodes where nodes: "chain_buckets (unat (nbuckets m)) (buckets m) [] = Some nodes"
    "mset nodes = mset (hm_nodes m)"
    using chain_buckets_ok [of "unat (nbuckets m)" "buckets m" "[]"] len
    by (auto simp: hm_nodes_def)
  define m1 where "m1 = (if ok then m\<lparr>nbuckets := n\<rparr> else m)"
  define m2 where "m2 = m1\<lparr>buckets := replicate (unat (nbuckets m1)) []\<rparr>"
  have "unat n > 0" using assms(3,4) by (simp add: unat_exp32)
  then have "n \<noteq> 0" by auto
  have sh: "hm_shape m2"
    using assms(1,3,4) nf by (auto simp: m2_def m1_def hm_shape_def)
  have pl: "hm_placed m2" by (simp add: m2_def hm_placed_def)
  have hk: "\<forall>x \<in> set nodes. hash_ok x"
    using nodes(2) assms(2) by (metis hm_nodes_hash_ok mset_eq_setD)
  have e: "hm_nodes m2 = []" by (simp add: m2_def hm_nodes_empty_buckets)
  have "\<exists>m'. readd_nodes nodes m2 = Some m' \<and> hm_shape m' \<and> hm_placed m' \<and>
      nbuckets m' = nbuckets m2 \<and> nnodes m' = nnodes m2 \<and> mset (hm_nodes m') = mset nodes"
  proof (cases "nbuckets m2 = 0")
    case True
    then have "buckets m = []"
      using len \<open>n \<noteq> 0\<close> by (auto simp: m2_def m1_def split: if_splits)
    then have "nodes = []" using nodes(2) by (simp add: hm_nodes_def)
    then show ?thesis using sh pl e by simp
  next
    case False
    then show ?thesis using readd_nodes_ok [OF sh pl False hk] e by simp
  qed
  then obtain m' where m': "readd_nodes nodes m2 = Some m'" "hm_shape m'" "hm_placed m'"
    "nbuckets m' = nbuckets m2" "nnodes m' = nnodes m2" "mset (hm_nodes m') = mset nodes"
    by blast
  have "map_resize ok m n = Some (m', if ok then 0 else - 1)"
    using nf nodes(1) m'(1) by (simp add: map_resize_def m2_def m1_def Let_def)
  then show ?thesis
    using m' nodes(2) by (intro exI [of _ m']) (simp add: m2_def m1_def)
qed


lemma map_bucketidx_buckets [simp]: "map_bucketidx (m\<lparr>buckets := b\<rparr>) h = map_bucketidx m h"
  by (simp add: map_bucketidx_def)

lemma hm_placed_nnodes [simp]: "hm_placed (m\<lparr>nnodes := k\<rparr>) = hm_placed m"
  by (simp add: hm_placed_def map_bucketidx_def)

lemma hm_nodes_nnodes [simp]: "hm_nodes (m\<lparr>nnodes := k\<rparr>) = hm_nodes m"
  by (simp add: hm_nodes_def)

lemma hm_placedD:
  assumes "hm_placed m" and "i < length (buckets m)" and "x \<in> set (buckets m ! i)"
  shows "nhash x = map_hash (nkey x) \<and> map_bucketidx m (nhash x) = i"
  using assms unfolding hm_placed_def by blast

text \<open>The first node of a key that is not in the table.\<close>

lemma add_new_ok:
  assumes "hm_shape m" "hm_placed m" "distinct (map nkey (hm_nodes m))"
    and "unat (nnodes m) = length (hm_nodes m)" and "nnodes m < nbuckets m"
    and "hash_ok x" and "nkey x \<notin> nkey ` set (hm_nodes m)"
  obtains m' where "map_addnode m x = Some m'"
    "hm_inv (m'\<lparr>nnodes := nnodes m' + 1\<rparr>)"
    "hm_abs (m'\<lparr>nnodes := nnodes m' + 1\<rparr>) = (hm_abs m)(nkey x \<mapsto> nvalue x)"
    "nbuckets m' = nbuckets m"
proof -
  have "nbuckets m \<noteq> 0" using assms(5) by auto
  from map_addnode_ok [OF assms(1,2) this assms(6)] obtain m' where
    m': "map_addnode m x = Some m'" "hm_shape m'" "hm_placed m'"
    "nbuckets m' = nbuckets m" "nnodes m' = nnodes m"
    "mset (hm_nodes m') = add_mset x (mset (hm_nodes m))" by blast
  note ins = hm_insert_nodes [OF m'(6) assms(3) assms(7)]
  have len: "length (hm_nodes m') = Suc (length (hm_nodes m))"
    using arg_cong [OF m'(6), of size] by simp
  have "unat (nnodes m) < unat (nbuckets m)"
    using assms(5) by (simp add: word_less_nat_alt)
  then have inc: "unat (nnodes m + 1) = Suc (unat (nnodes m))"
    using unsigned_less [of "nbuckets m", where 'a = nat]
    by (simp add: unat_word_ariths)
  have le: "nnodes m + 1 \<le> nbuckets m"
    using \<open>unat (nnodes m) < unat (nbuckets m)\<close> inc by (simp add: word_le_nat_alt)
  let ?m = "m'\<lparr>nnodes := nnodes m' + 1\<rparr>"
  have "hm_shape ?m" using m'(2) by (simp add: hm_shape_def)
  moreover have "hm_placed ?m" using m'(3) by simp
  ultimately have "hm_inv ?m"
    using ins(1) len inc le assms(4) m'(4,5) by (simp add: hm_inv_def)
  moreover have "hm_abs ?m = (hm_abs m)(nkey x \<mapsto> nvalue x)"
    using ins(2) by (simp add: hm_abs_def)
  ultimately show ?thesis using that m'(1,4) by blast
qed

text \<open>Overwriting the value of a node keeps its key, so the table keeps its shape.\<close>

lemma hm_inv_nodes_eq:
  assumes "hm_inv m" "n < length (buckets m)" "map nkey xs = map nkey (buckets m ! n)"
    "map nhash xs = map nhash (buckets m ! n)"
  shows "hm_inv (m\<lparr>buckets := (buckets m)[n := xs]\<rparr>)"
proof -
  let ?m = "m\<lparr>buckets := (buckets m)[n := xs]\<rparr>"
  have keys: "map nkey (hm_nodes ?m) = map nkey (hm_nodes m)"
  proof -
    have "map (map nkey) ((buckets m)[n := xs]) = map (map nkey) (buckets m)"
      using assms(2,3) by (simp add: map_update list_update_same_conv)
    then show ?thesis
      by (simp add: hm_nodes_def map_concat)
  qed
  then have len: "length (hm_nodes ?m) = length (hm_nodes m)"
    by (metis length_map)
  have hash: "nhash (xs ! j) = nhash (buckets m ! n ! j) \<and> nkey (xs ! j) = nkey (buckets m ! n ! j)
      \<and> length xs = length (buckets m ! n)"
    if "j < length xs" for j
    using assms(3,4) that by (metis length_map nth_map)
  have "hm_placed ?m"
    unfolding hm_placed_def
  proof (intro allI impI ballI)
    fix i x assume i: "i < length (buckets ?m)" "x \<in> set (buckets ?m ! i)"
    have idx: "map_bucketidx ?m h = map_bucketidx m h" for h by (simp add: map_bucketidx_def)
    show "nhash x = map_hash (nkey x) \<and> map_bucketidx ?m (nhash x) = i"
    proof (cases "i = n")
      case True
      then obtain j where "j < length xs" "x = xs ! j"
        using i assms(2) by (auto simp: in_set_conv_nth)
      with hash [of j] have j: "buckets m ! n ! j \<in> set (buckets m ! n)"
        "nhash x = nhash (buckets m ! n ! j)" "nkey x = nkey (buckets m ! n ! j)" by auto
      have "nhash y = map_hash (nkey y) \<and> map_bucketidx m (nhash y) = n"
        if "y \<in> set (buckets m ! n)" for y
        using hm_placedD [OF hm_inv_parts(2) [OF assms(1)] assms(2) that] .
      from this [OF j(1)] j(2,3) True show ?thesis by (metis idx)
    next
      case False
      with i have "i < length (buckets m)" "x \<in> set (buckets m ! i)" by simp_all
      from hm_placedD [OF hm_inv_parts(2) [OF assms(1)] this] show ?thesis
        unfolding idx .
    qed
  qed
  moreover have "hm_shape ?m" using assms(1) by (simp add: hm_inv_def hm_shape_def)
  ultimately show ?thesis
    using assms(1) keys len by (simp add: hm_inv_def)
qed

lemma hm_abs_update_value:
  assumes "hm_inv m" "n < length (buckets m)" "k < length (buckets m ! n)"
  shows "hm_abs (m\<lparr>buckets := (buckets m)[n := (buckets m ! n)[k := (buckets m ! n ! k)\<lparr>nvalue := v\<rparr>]]\<rparr>) =
           (hm_abs m)(nkey (buckets m ! n ! k) \<mapsto> v)"
proof -
  let ?x = "buckets m ! n ! k"
  let ?m = "m\<lparr>buckets := (buckets m)[n := (buckets m ! n)[k := ?x\<lparr>nvalue := v\<rparr>]]\<rparr>"
  let ?d = "m\<lparr>buckets := (buckets m)[n := take k (buckets m ! n) @ drop (Suc k) (buckets m ! n)]\<rparr>"
  have split: "buckets m ! n = take k (buckets m ! n) @ ?x # drop (Suc k) (buckets m ! n)"
    using assms(3) by (simp add: id_take_nth_drop)
  have b: "mset (buckets m ! n) = add_mset ?x (mset (take k (buckets m ! n) @ drop (Suc k) (buckets m ! n)))"
    by (subst split) simp
  have u: "mset ((buckets m ! n)[k := ?x\<lparr>nvalue := v\<rparr>]) =
      add_mset (?x\<lparr>nvalue := v\<rparr>) (mset (take k (buckets m ! n) @ drop (Suc k) (buckets m ! n)))"
    using assms(3) by (simp add: upd_conv_take_nth_drop)
  have "mset (hm_nodes m) = add_mset ?x (mset (hm_nodes ?d))"
    using mset_concat_update [OF assms(2), of "take k (buckets m ! n) @ drop (Suc k) (buckets m ! n)"] b
    by (simp add: hm_nodes_def)
  note del = hm_delete_nodes [OF this hm_inv_parts(3) [OF assms(1)]]
  have "mset (hm_nodes ?m) + mset (buckets m ! n) =
      mset (hm_nodes m) + mset ((buckets m ! n)[k := ?x\<lparr>nvalue := v\<rparr>])"
    using mset_concat_update [OF assms(2)] by (simp add: hm_nodes_def)
  then have "mset (hm_nodes ?m) = add_mset (?x\<lparr>nvalue := v\<rparr>) (mset (hm_nodes ?d))"
    using u b \<open>mset (hm_nodes m) = add_mset ?x (mset (hm_nodes ?d))\<close> by simp
  from hm_insert_nodes(2) [OF this del(1)] del(2,3) show ?thesis by simp
qed

lemma grow_size:
  assumes "hm_shape m" and "unat (nbuckets m) < 2 ^ 28"
  shows "\<exists>j < 32. (if nbuckets m > 0 then push_bit 1 (nbuckets m) else 1 :: u32) = 2 ^ j \<and>
    unat (nbuckets m) < unat (if nbuckets m > 0 then push_bit 1 (nbuckets m) else 1 :: u32) \<and>
    unat (if nbuckets m > 0 then push_bit 1 (nbuckets m) else 1 :: u32) \<le> 2 * unat (nbuckets m) + 1"
proof (cases "nbuckets m = 0")
  case True
  then show ?thesis by (intro exI [of _ 0]) simp
next
  case False
  then obtain k where k: "k < 32" "nbuckets m = 2 ^ k"
    using assms(1) by (auto simp: hm_shape_def)
  have "k < 28"
  proof (rule ccontr)
    assume "\<not> k < 28"
    then have "(2 :: nat) ^ 28 \<le> 2 ^ k" by (intro power_increasing) simp_all
    moreover have "unat (nbuckets m) = 2 ^ k" using k by (simp add: unat_exp32)
    ultimately show False using assms(2) by linarith
  qed
  have p: "push_bit 1 (nbuckets m) = 2 ^ Suc k"
    using k by (simp only: push_bit_eq_mult power_Suc mult.commute power_one_right)
  have "unat ((2 :: u32) ^ Suc k) = 2 ^ Suc k" "unat ((2 :: u32) ^ k) = 2 ^ k"
    by (rule unat_exp32, use \<open>k < 28\<close> in simp)+
  then have "unat (nbuckets m) < unat (push_bit 1 (nbuckets m)) \<and>
      unat (push_bit 1 (nbuckets m)) \<le> 2 * unat (nbuckets m) + 1"
    using p k(2) by (simp only:) simp
  moreover have "nbuckets m > 0" using False by (simp add: word_gt_0)
  ultimately show ?thesis
    using p \<open>k < 28\<close> by (intro exI [of _ "Suc k"]) (simp only:, simp)
qed

lemma map_set_ok:
  assumes "hm_inv m" and "unat (nbuckets m) < 2 ^ 28"
  obtains m' r where "map_set ok1 ok2 m key v = Some (m', r)" "hm_inv m'"
    "(r = 0 \<and> hm_abs m' = (hm_abs m)(key \<mapsto> v)) \<or>
     (r = - 1 \<and> hm_abs m' = hm_abs m \<and> key \<notin> dom (hm_abs m) \<and> \<not> (ok1 \<and> ok2))"
    "nbuckets m' = nbuckets m \<or>
     (nbuckets m \<le> nnodes m \<and> key \<notin> dom (hm_abs m) \<and>
      unat (nbuckets m') \<le> 2 * unat (nbuckets m) + 1)"
  using hm_inv_parts(1,2) [OF assms(1)]
proof (cases rule: map_getref_inv [of m key])
  case (found n k)
  let ?xs = "(buckets m ! n)[k := (buckets m ! n ! k)\<lparr>nvalue := v\<rparr>]"
  have "map nkey ?xs = map nkey (buckets m ! n)" "map nhash ?xs = map nhash (buckets m ! n)"
    using found(4) by (simp_all add: map_update list_update_same_conv)
  with hm_inv_nodes_eq [OF assms(1) found(2)]
  have "hm_inv (m\<lparr>buckets := (buckets m)[n := ?xs]\<rparr>)" by simp
  moreover have "map_set ok1 ok2 m key v = Some (m\<lparr>buckets := (buckets m)[n := ?xs]\<rparr>, 0)"
    using found(1) by (simp add: map_set_def)
  ultimately show ?thesis
    using that hm_abs_update_value [OF assms(1) found(2,4), of v] found(5) by auto
next
  case missing
  have nd: "key \<notin> dom (hm_abs m)"
    using missing(2) by (simp add: domIff hm_abs_None_iff)
  let ?x = "\<lparr>nhash = map_hash key, nkey = key, nvalue = v\<rparr>"
  have hx: "hash_ok ?x" by (simp add: hash_ok_def)
  note inv = hm_inv_parts [OF assms(1)]
  show ?thesis
  proof (cases "\<not> ok1")
    case True
    then have "map_set ok1 ok2 m key v = Some (m, - 1)"
      using missing(1) by (simp add: map_set_def map_newnode_def)
    with that assms(1) nd True show ?thesis by blast
  next
    case False
    show ?thesis
    proof (cases "nnodes m \<ge> nbuckets m")
      case full: True
      let ?n = "if nbuckets m > 0 then push_bit 1 (nbuckets m) else 1 :: u32"
      have "\<exists>j < 32. ?n = 2 ^ j \<and> unat (nnodes m) < unat ?n \<and> unat ?n \<le> 2 * unat (nbuckets m) + 1"
        using grow_size [OF inv(1) assms(2)] inv(5) by (simp add: word_le_nat_alt) fastforce
      then obtain j where j: "j < 32" "?n = 2 ^ j" "unat (nnodes m) < unat ?n"
        "unat ?n \<le> 2 * unat (nbuckets m) + 1" by blast
      from map_resize_ok [OF inv(1,2) j(1,2), of ok2] obtain m1 where
        m1: "map_resize ok2 m ?n = Some (m1, if ok2 then 0 else - 1)" "hm_shape m1" "hm_placed m1"
        "nbuckets m1 = (if ok2 then ?n else nbuckets m)" "nnodes m1 = nnodes m"
        "mset (hm_nodes m1) = mset (hm_nodes m)" by blast
      have abs: "hm_abs m1 = hm_abs m" and d1: "distinct (map nkey (hm_nodes m1))"
        using hm_abs_cong [OF m1(6) [symmetric] inv(3)] inv(3) m1(6)
          mset_eq_imp_distinct_iff [OF arg_cong [OF m1(6), of "image_mset nkey", folded mset_map]]
        by simp_all
      have n1: "unat (nnodes m1) = length (hm_nodes m1)"
        using inv(4) m1(5) arg_cong [OF m1(6), of size] by simp
      show ?thesis
      proof (cases ok2)
        case True
        have "nnodes m1 < nbuckets m1"
          using m1(4,5) j(3) True by (simp add: word_less_nat_alt)
        moreover have "nkey ?x \<notin> nkey ` set (hm_nodes m1)"
          using missing(2) mset_eq_setD [OF m1(6)] by simp
        ultimately obtain m2 where m2: "map_addnode m1 ?x = Some m2"
          "hm_inv (m2\<lparr>nnodes := nnodes m2 + 1\<rparr>)"
          "hm_abs (m2\<lparr>nnodes := nnodes m2 + 1\<rparr>) = (hm_abs m1)(nkey ?x \<mapsto> nvalue ?x)"
          "nbuckets m2 = nbuckets m1"
          using add_new_ok [OF m1(2,3) d1 n1 _ hx] by metis
        have "map_set ok1 ok2 m key v = Some (m2\<lparr>nnodes := nnodes m2 + 1\<rparr>, 0)"
          using missing(1) False full m1(1) m2(1) True
          by (simp add: map_set_def map_newnode_def)
        moreover have "unat (nbuckets m2) \<le> 2 * unat (nbuckets m) + 1"
          using j(4) m1(4) m2(4) True by simp
        ultimately show ?thesis using that m2(2,3) abs full nd by auto
      next
        case no: False
        have "hm_inv m1"
          using m1 d1 n1 inv(5) no by (simp add: hm_inv_def)
        moreover have "map_set ok1 ok2 m key v = Some (m1, - 1)"
          using missing(1) False full m1(1) no
          by (simp add: map_set_def map_newnode_def)
        ultimately show ?thesis using that abs nd no m1(4) by auto
      qed
    next
      case room: False
      then have "nnodes m < nbuckets m" by simp
      then obtain m2 where m2: "map_addnode m ?x = Some m2"
        "hm_inv (m2\<lparr>nnodes := nnodes m2 + 1\<rparr>)"
        "hm_abs (m2\<lparr>nnodes := nnodes m2 + 1\<rparr>) = (hm_abs m)(nkey ?x \<mapsto> nvalue ?x)"
        "nbuckets m2 = nbuckets m"
        using add_new_ok [OF inv(1-4) _ hx] missing(2) by (metis map_node.select_convs(2))
      have "map_set ok1 ok2 m key v = Some (m2\<lparr>nnodes := nnodes m2 + 1\<rparr>, 0)"
        using missing(1) False room m2(1) by (simp add: map_set_def map_newnode_def)
      with that m2 show ?thesis by auto
    qed
  qed
qed

subsection \<open>Removal and disposal\<close>

lemma map_remove_ok:
  assumes "hm_inv m"
  obtains m' where "map_remove m key = Some m'" "hm_inv m'" "hm_abs m' = (hm_abs m)(key := None)"
    "nbuckets m' = nbuckets m"
  using hm_inv_parts(1,2) [OF assms]
proof (cases rule: map_getref_inv [of m key])
  case (found n k)
  note inv = hm_inv_parts [OF assms]
  let ?xs = "take k (buckets m ! n) @ drop (Suc k) (buckets m ! n)"
  let ?b = "m\<lparr>buckets := (buckets m)[n := ?xs]\<rparr>"
  let ?m = "?b\<lparr>nnodes := nnodes m - 1\<rparr>"
  have "buckets m ! n = take k (buckets m ! n) @ buckets m ! n ! k # drop (Suc k) (buckets m ! n)"
    using found(4) by (rule id_take_nth_drop)
  then have "mset (buckets m ! n) = add_mset (buckets m ! n ! k) (mset ?xs)"
    by (metis (no_types) mset_append mset.simps(2) union_mset_add_mset_right)
  with mset_concat_update [OF found(2), of ?xs]
  have ms: "mset (hm_nodes m) = add_mset (buckets m ! n ! k) (mset (hm_nodes ?b))"
    by (simp add: hm_nodes_def)
  note del = hm_delete_nodes [OF ms inv(3)]
  have len: "length (hm_nodes m) = Suc (length (hm_nodes ?b))"
    using arg_cong [OF ms, of size] by simp
  have pl: "hm_placed ?b"
    unfolding hm_placed_def
  proof (intro allI impI ballI)
    fix i x assume i: "i < length (buckets ?b)" "x \<in> set (buckets ?b ! i)"
    then have "x \<in> set (buckets m ! i)" "i < length (buckets m)"
      using found(2) by (auto simp: nth_list_update split: if_splits
          dest: in_set_takeD in_set_dropD)
    from hm_placedD [OF inv(2) this(2,1)]
    show "nhash x = map_hash (nkey x) \<and> map_bucketidx ?b (nhash x) = i"
      unfolding map_bucketidx_buckets .
  qed
  have dec: "unat (nnodes m - 1) = length (hm_nodes ?b)" "nnodes m - 1 \<le> nbuckets m"
  proof -
    have "nnodes m \<noteq> 0" using inv(4) len by auto
    then have "unat (nnodes m - 1) = unat (nnodes m) - 1" by (rule unat_minus_one)
    then show "unat (nnodes m - 1) = length (hm_nodes ?b)" "nnodes m - 1 \<le> nbuckets m"
      using inv(4,5) len by (simp_all add: word_le_nat_alt)
  qed
  have "hm_inv ?m"
    using inv(1) pl del(1) dec by (simp add: hm_inv_def hm_shape_def)
  moreover have "hm_abs ?m = (hm_abs m)(key := None)"
    using del(3) found(5) by (simp add: hm_abs_def)
  moreover have "map_remove m key = Some ?m"
    using found(1) by (simp add: map_remove_def)
  ultimately show ?thesis using that by simp
next
  case missing
  then have "hm_abs m key = None" by (simp add: hm_abs_None_iff)
  with missing assms that show ?thesis by (simp add: map_remove_def fun_upd_idem)
qed

lemma map_init_ok: "hm_inv map_init" "hm_abs map_init = Map.empty"
  by (simp_all add: map_init_def hm_inv_def hm_shape_def hm_placed_def hm_nodes_def hm_abs_def)

lemma map_deinit_ok: "hm_inv m \<Longrightarrow> \<exists>m'. map_deinit m = Some m'"
  by (simp add: map_deinit_def hm_inv_def hm_shape_def)

text \<open>After \<open>map_deinit\<close> of a table that has buckets, every operation is a use after free.\<close>

lemma map_after_deinit:
  assumes "map_deinit m = Some m'" and "nbuckets m \<noteq> 0"
  shows "map_deinit m' = None" "map_get m' key = None" "map_set ok1 ok2 m' key v = None"
    "map_remove m' key = None"
proof -
  have m': "m' = m\<lparr>freed := True\<rparr>" and nb: "nbuckets m > 0"
    using assms by (auto simp: map_deinit_def bind_Some_iff word_gt_0)
  then have "map_getref m' key = None" by (simp add: map_getref_def)
  then show "map_get m' key = None" "map_set ok1 ok2 m' key v = None" "map_remove m' key = None"
    by (simp_all add: map_get_def map_set_def map_remove_def)
  show "map_deinit m' = None" using m' assms(2) by (simp add: map_deinit_def)
qed

text \<open>The value starts at a multiple of the pointer size, past the terminated key.\<close>

lemma map_voffset_aligned:
  assumes "unat ksize < 2 ^ 31"
  shows "unat (map_voffset ksize) mod 4 = 0" "ksize \<le> map_voffset ksize"
    "unat (map_voffset ksize) < unat ksize + 4"
proof -
  have four: "(4 :: u32) = 2 ^ 2" by simp
  have vo: "map_voffset ksize = ksize + take_bit 2 (4 - ksize)"
    unfolding map_voffset_def four by (simp only: take_bit_eq_mod)
  have "unat (take_bit 2 (4 - ksize)) = unat (4 - ksize) mod 4"
    by (simp add: unsigned_take_bit_eq take_bit_nat_def)
  then have lt: "unat (take_bit 2 (4 - ksize)) < 4" by simp
  then have un: "unat (map_voffset ksize) = unat ksize + unat (take_bit 2 (4 - ksize))"
    using assms by (simp add: vo unat_word_ariths)
  have "unat (4 - ksize) + unat ksize = 4 \<or> unat (4 - ksize) + unat ksize = 2 ^ 32 + 4"
    using assms unat_sub_if_size [of 4 ksize]
    by (auto simp: word_size split: if_splits)
  then have "(unat (4 - ksize) + unat ksize) mod 4 = 0" by (elim disjE) simp_all
  then have "(unat ksize + unat (4 - ksize) mod 4) mod 4 = 0"
    by (metis add.commute mod_add_left_eq)
  then show "unat (map_voffset ksize) mod 4 = 0"
    using un \<open>unat (take_bit 2 (4 - ksize)) = unat (4 - ksize) mod 4\<close> by simp
  from un lt show "ksize \<le> map_voffset ksize" "unat (map_voffset ksize) < unat ksize + 4"
    by (simp_all add: word_le_nat_alt)
qed

subsection \<open>The iterator visits every key once\<close>

definition keys_from :: "'v map_base \<Rightarrow> nat \<Rightarrow> cstr list" where
  "keys_from m i = map nkey (concat (drop i (buckets m)))"

definition iter_ok :: "'v map_base \<Rightarrow> 'v iter_state \<Rightarrow> bool" where
  "iter_ok m it \<longleftrightarrow>
     (inode it = [] \<and> bucketidx it = - 1) \<or>
     (inode it \<noteq> [] \<and> unat (bucketidx it) < length (buckets m))"

text \<open>The keys the iterator has still to yield.\<close>

definition iter_rest :: "'v map_base \<Rightarrow> 'v iter_state \<Rightarrow> cstr list" where
  "iter_rest m it = map nkey (tl (inode it)) @ keys_from m (unat (bucketidx it + 1))"

definition yields ::
    "'v map_base \<Rightarrow> (cstr ptr \<times> 'v iter_state) option \<Rightarrow> cstr list \<Rightarrow> bool" where
  "yields m r ks \<longleftrightarrow>
     (case ks of
        [] \<Rightarrow> \<exists>it. r = Some (Null, it)
      | k # ks \<Rightarrow> \<exists>it. r = Some (Ref k, it) \<and> iter_ok m it \<and> iter_rest m it = ks)"

lemma yields_Nil [simp]: "yields m r [] \<longleftrightarrow> (\<exists>it. r = Some (Null, it))"
  by (simp add: yields_def)

lemma yields_Cons [simp]:
  "yields m r (k # ks) \<longleftrightarrow> (\<exists>it. r = Some (Ref k, it) \<and> iter_ok m it \<and> iter_rest m it = ks)"
  by (simp add: yields_def)

lemma unat_Suc_less: "unat (i :: u32) < unat (n :: u32) \<Longrightarrow> unat (i + 1) = Suc (unat i)"
proof -
  assume "unat i < unat n"
  moreover have "unat n < 4294967296"
    using unsigned_less [of n, where 'a = nat] by simp
  ultimately have "Suc (unat i) < 4294967296" by linarith
  then show ?thesis by (simp add: unat_word_ariths)
qed

lemma keys_from_Suc:
  "i < length (buckets m) \<Longrightarrow> keys_from m i = map nkey (buckets m ! i) @ keys_from m (Suc i)"
  by (simp add: keys_from_def flip: Cons_nth_drop_Suc)

lemma next_bucket_ok:
  assumes "hm_shape m" and "unat (idx + 1) \<le> length (buckets m)"
  shows "yields m (next_bucket m idx) (keys_from m (unat (idx + 1)))"
  using assms
proof (induction m idx rule: next_bucket.induct)
  case (1 m idx)
  have len: "length (buckets m) = unat (nbuckets m)" and nf: "\<not> freed m"
    using 1 by (simp_all add: hm_shape_def)
  show ?case
  proof (cases "nbuckets m \<le> idx + 1")
    case True
    then have "keys_from m (unat (idx + 1)) = []"
      by (simp add: keys_from_def len word_le_nat_alt)
    then show ?thesis using True by (simp add: next_bucket.simps Let_def)
  next
    case False
    then have lt: "unat (idx + 1) < length (buckets m)"
      by (simp add: len not_le word_less_nat_alt)
    then have suc: "unat (idx + 1 + 1) = Suc (unat (idx + 1))"
      using unat_Suc_less [of "idx + 1" "nbuckets m"] len by simp
    show ?thesis
    proof (cases "buckets m ! unat (idx + 1)")
      case Nil
      have "next_bucket m idx = next_bucket m (idx + 1)"
        using False nf lt Nil by (subst next_bucket.simps) (simp add: Let_def)
      moreover have "keys_from m (unat (idx + 1)) = keys_from m (unat (idx + 1 + 1))"
        using keys_from_Suc [OF lt] Nil suc by simp
      ultimately show ?thesis
        using "1.IH" [OF refl False _ Nil] lt nf suc 1(2) by simp
    next
      case (Cons node nxt)
      have "next_bucket m idx = Some (Ref (nkey node), \<lparr>bucketidx = idx + 1, inode = node # nxt\<rparr>)"
        using False nf lt Cons by (subst next_bucket.simps) (simp add: Let_def)
      then show ?thesis
        using keys_from_Suc [OF lt] Cons suc lt by (simp add: iter_ok_def iter_rest_def)
    qed
  qed
qed

lemma map_next_ok:
  assumes "hm_shape m" and "iter_ok m it"
  shows "yields m (map_next m it) (iter_rest m it)"
proof -
  have nf: "\<not> freed m" using assms(1) by (simp add: hm_shape_def)
  have bound: "unat (bucketidx it + 1) \<le> length (buckets m)"
    using assms unat_Suc_less [of "bucketidx it" "nbuckets m"]
    by (auto simp: iter_ok_def hm_shape_def)
  note nb = next_bucket_ok [OF assms(1) bound]
  show ?thesis
  proof (cases "inode it")
    case Nil
    then have "map_next m it = next_bucket m (bucketidx it)" by (simp add: map_next_def)
    with nb Nil show ?thesis by (simp add: iter_rest_def)
  next
    case (Cons node nxt)
    show ?thesis
    proof (cases nxt)
      case Nil
      then have "map_next m it = next_bucket m (bucketidx it)"
        using Cons nf by (simp add: map_next_def)
      with nb Cons Nil show ?thesis by (simp add: iter_rest_def)
    next
      case (Cons node' nxt')
      then have "map_next m it = Some (Ref (nkey node'), it\<lparr>inode := nxt\<rparr>)"
        using \<open>inode it = node # nxt\<close> nf by (simp add: map_next_def)
      moreover have "iter_ok m (it\<lparr>inode := nxt\<rparr>)"
        using assms(2) \<open>inode it = node # nxt\<close> Cons by (simp add: iter_ok_def)
      ultimately show ?thesis
        using \<open>inode it = node # nxt\<close> Cons by (simp add: iter_rest_def)
    qed
  qed
qed

text \<open>
  The two loops the clients write over \<open>map_next\<close>: a visit of every entry, and a scan that
  fetches every value on the way and stops at the key it looks for.
\<close>

partial_function (option) map_walk :: "'v map_base \<Rightarrow> 'v iter_state \<Rightarrow> (cstr \<times> 'v) list option" where
  "map_walk m it = Option.bind (map_next m it) (\<lambda>r.
     (case fst r of
        Ref key \<Rightarrow> Option.bind (Option.bind (map_get m key) deref) (\<lambda>v.
          Option.bind (map_walk m (snd r)) (\<lambda>rest. Some ((key, v) # rest)))
      | _ \<Rightarrow> Some []))"

partial_function (option) map_scan :: "'v map_base \<Rightarrow> cstr \<Rightarrow> 'v iter_state \<Rightarrow> 'v ptr option" where
  "map_scan m str it = Option.bind (map_next m it) (\<lambda>r.
     (case fst r of
        Ref key \<Rightarrow> Option.bind (Option.bind (map_get m key) deref) (\<lambda>v.
          if key = str then Some (Ref v) else map_scan m str (snd r))
      | _ \<Rightarrow> Some Null))"

lemma iter_start: "hm_shape m \<Longrightarrow> iter_ok m map_iter \<and> iter_rest m map_iter = map nkey (hm_nodes m)"
  by (simp add: iter_ok_def map_iter_def iter_rest_def keys_from_def hm_nodes_def)

lemma dom_hm_abs: "dom (hm_abs m) = nkey ` set (hm_nodes m)"
proof -
  have "k \<in> dom (hm_abs m) \<longleftrightarrow> k \<in> nkey ` set (hm_nodes m)" for k
    using hm_abs_None_iff [of m k] by (simp add: domIff)
  then show ?thesis by blast
qed

lemma map_get_value:
  assumes "hm_inv m" and "key \<in> dom (hm_abs m)"
  shows "Option.bind (map_get m key) deref = Some (the (hm_abs m key))"
  using assms by (auto simp: map_get_abs)

lemma map_walk_rest:
  assumes "hm_inv m" and "iter_ok m it" and "set (iter_rest m it) \<subseteq> dom (hm_abs m)"
  shows "map_walk m it = Some (map (\<lambda>k. (k, the (hm_abs m k))) (iter_rest m it))"
  using assms
proof (induction "iter_rest m it" arbitrary: it)
  case Nil
  then obtain it' where "map_next m it = Some (Null, it')"
    using map_next_ok [OF hm_inv_parts(1)] by fastforce
  with Nil show ?case by (simp add: map_walk.simps [of m it])
next
  case (Cons k ks)
  have "yields m (map_next m it) (k # ks)"
    using map_next_ok [OF hm_inv_parts(1) [OF Cons.prems(1)] Cons.prems(2)] Cons.hyps(2) by simp
  then obtain it' where it': "map_next m it = Some (Ref k, it')" "iter_ok m it'" "iter_rest m it' = ks"
    by auto
  have k: "k \<in> dom (hm_abs m)" and ks: "set ks \<subseteq> dom (hm_abs m)"
    using Cons.prems(3) Cons.hyps(2) [symmetric] by auto
  have "map_walk m it' = Some (map (\<lambda>k. (k, the (hm_abs m k))) ks)"
    using Cons.hyps(1) [of it'] Cons.prems(1) it' ks by simp
  then show ?case
    using it'(1) map_get_value [OF Cons.prems(1) k] Cons.hyps(2) [symmetric]
    by (simp add: map_walk.simps [of m it])
qed

lemma map_walk_ok:
  assumes "hm_inv m"
  shows "map_walk m map_iter = Some (map (\<lambda>x. (nkey x, the (hm_abs m (nkey x)))) (hm_nodes m))"
  using map_walk_rest [OF assms, of map_iter] iter_start [OF hm_inv_parts(1) [OF assms]]
  by (simp add: dom_hm_abs comp_def)

lemma map_scan_rest:
  assumes "hm_inv m" and "iter_ok m it" and "set (iter_rest m it) \<subseteq> dom (hm_abs m)"
  shows "map_scan m str it =
           Some (if str \<in> set (iter_rest m it) then Ref (the (hm_abs m str)) else Null)"
  using assms
proof (induction "iter_rest m it" arbitrary: it)
  case Nil
  then obtain it' where "map_next m it = Some (Null, it')"
    using map_next_ok [OF hm_inv_parts(1)] by fastforce
  with Nil show ?case by (simp add: map_scan.simps [of m str it])
next
  case (Cons k ks)
  have "yields m (map_next m it) (k # ks)"
    using map_next_ok [OF hm_inv_parts(1) [OF Cons.prems(1)] Cons.prems(2)] Cons.hyps(2) by simp
  then obtain it' where it': "map_next m it = Some (Ref k, it')" "iter_ok m it'" "iter_rest m it' = ks"
    by auto
  have k: "k \<in> dom (hm_abs m)" and ks: "set ks \<subseteq> dom (hm_abs m)"
    using Cons.prems(3) Cons.hyps(2) [symmetric] by auto
  have "map_scan m str it' = Some (if str \<in> set ks then Ref (the (hm_abs m str)) else Null)"
    using Cons.hyps(1) [of it'] Cons.prems(1) it' ks by simp
  then show ?case
    using it'(1) map_get_value [OF Cons.prems(1) k] Cons.hyps(2) [symmetric]
    by (simp add: map_scan.simps [of m str it])
qed

text \<open>The scan is the lookup.\<close>

lemma map_scan_get:
  assumes "hm_inv m"
  shows "map_scan m str map_iter = map_get m str"
proof -
  have start: "iter_ok m map_iter" "iter_rest m map_iter = map nkey (hm_nodes m)"
    using iter_start [OF hm_inv_parts(1) [OF assms]] by simp_all
  then have "map_scan m str map_iter =
      Some (if str \<in> dom (hm_abs m) then Ref (the (hm_abs m str)) else Null)"
    using map_scan_rest [OF assms start(1), of str] by (simp add: dom_hm_abs)
  then show ?thesis
    by (cases "hm_abs m str") (simp_all add: map_get_abs [OF assms] domIff)
qed

subsection \<open>The table as its clients see it\<close>

text \<open>
  What the protocol clients rely on: a finite map from strings, through an invariant \<open>inv\<close> that
  every operation keeps and an abstraction \<open>abs\<close> to the partial map it stands for.
\<close>

definition ptr_of :: "'a option \<Rightarrow> 'a ptr" where
  "ptr_of x = (case x of None \<Rightarrow> Null | Some y \<Rightarrow> Ref y)"

lemma ptr_of_simps [simp]: "ptr_of None = Null" "ptr_of (Some y) = Ref y"
  by (simp_all add: ptr_of_def)

locale c_map =
  fixes inv :: "'m \<Rightarrow> bool"
    and abs :: "'m \<Rightarrow> 'k \<rightharpoonup> 'v"
    and init :: "'m"
    and get :: "'m \<Rightarrow> 'k \<Rightarrow> 'v ptr option"
    and put :: "'m \<Rightarrow> 'k \<Rightarrow> 'v \<Rightarrow> ('m \<times> int) option"
    and del :: "'m \<Rightarrow> 'k \<Rightarrow> 'm option"
  assumes init_inv: "inv init"
    and init_abs: "abs init = Map.empty"
    and get_abs: "inv m \<Longrightarrow> get m k = Some (ptr_of (abs m k))"
    and put_ok: "inv m \<Longrightarrow> \<exists>m'. put m k v = Some (m', 0) \<and> inv m' \<and> abs m' = (abs m)(k \<mapsto> v)"
    and del_ok: "inv m \<Longrightarrow> \<exists>m'. del m k = Some m' \<and> inv m' \<and> abs m' = (abs m)(k := None)"
begin

lemma putE:
  assumes "inv m"
  obtains m' where "put m k v = Some (m', 0)" "inv m'" "abs m' = (abs m)(k \<mapsto> v)"
  using put_ok [OF assms] by blast

lemma delE:
  assumes "inv m"
  obtains m' where "del m k = Some m'" "inv m'" "abs m' = (abs m)(k := None)"
  using del_ok [OF assms] by blast

lemma get_put:
  assumes "inv m" and "put m k v = Some (m', r)"
  shows "get m' k' = (if k' = k then Some (Ref v) else get m k')"
proof -
  from put_ok [OF assms(1)] assms(2) have "inv m'" "abs m' = (abs m)(k \<mapsto> v)"
    by (metis option.inject prod.inject)+
  then show ?thesis using assms(1) by (simp add: get_abs)
qed

lemma get_del:
  assumes "inv m" and "del m k = Some m'"
  shows "get m' k' = (if k' = k then Some Null else get m k')"
proof -
  from del_ok [OF assms(1)] assms(2) have "inv m'" "abs m' = (abs m)(k := None)"
    by (metis option.inject)+
  then show ?thesis using assms(1) by (simp add: get_abs)
qed

lemma put_inv: "inv m \<Longrightarrow> put m k v = Some (m', r) \<Longrightarrow> inv m'"
  using put_ok [of m k v] by (auto simp: prod_eq_iff)

lemma del_inv: "inv m \<Longrightarrow> del m k = Some m' \<Longrightarrow> inv m'"
  using del_ok [of m k] by auto

end

text \<open>
  The tables of the clients are keyed by packet ids, written in decimal. There are at most
  \<open>2 ^ 16\<close> of them, so such a table never grows past \<open>2 ^ 17\<close> buckets, and while \<open>malloc\<close>
  succeeds its operations succeed.
\<close>

definition id_key :: "u16 \<Rightarrow> cstr" where
  "id_key i = dec_digits (unat i)"

lemma id_key_inject [simp]: "id_key i = id_key j \<longleftrightarrow> i = j"
  by (simp add: id_key_def word_unat_eq_iff)

lemma id_key_ok [simp]: "cstr_ok (id_key i)"
  by (simp add: id_key_def)

definition id_table :: "'v map_base \<Rightarrow> bool" where
  "id_table m \<longleftrightarrow> hm_inv m \<and> dom (hm_abs m) \<subseteq> range id_key \<and> unat (nbuckets m) \<le> 2 ^ 17"

definition id_abs :: "'v map_base \<Rightarrow> u16 \<rightharpoonup> 'v" where
  "id_abs m i = hm_abs m (id_key i)"

definition id_get :: "'v map_base \<Rightarrow> u16 \<Rightarrow> 'v ptr option" where
  "id_get m i = map_get m (id_key i)"

definition id_set :: "'v map_base \<Rightarrow> u16 \<Rightarrow> 'v \<Rightarrow> ('v map_base \<times> int) option" where
  "id_set m i v = map_set True True m (id_key i) v"

definition id_remove :: "'v map_base \<Rightarrow> u16 \<Rightarrow> 'v map_base option" where
  "id_remove m i = map_remove m (id_key i)"

lemma hm_nodes_card:
  assumes "hm_inv m"
  shows "unat (nnodes m) = card (dom (hm_abs m))"
  using hm_inv_parts [OF assms] distinct_card [of "map nkey (hm_nodes m)"]
  by (simp add: dom_hm_abs)

lemma finite_ids: "finite (range id_key)" "card (range id_key) = 2 ^ 16"
  using card_image [of id_key UNIV] by (simp_all add: inj_def card_word)

lemma id_table_set:
  assumes "id_table m"
  shows "\<exists>m'. id_set m i v = Some (m', 0) \<and> id_table m' \<and> id_abs m' = (id_abs m)(i \<mapsto> v)"
proof -
  have inv: "hm_inv m" and dom: "dom (hm_abs m) \<subseteq> range id_key" and nb: "unat (nbuckets m) \<le> 2 ^ 17"
    using assms by (simp_all add: id_table_def)
  have "unat (nbuckets m) < 2 ^ 28" using nb by simp
  from map_set_ok [OF inv this, of True True "id_key i" v] obtain m' where
    m': "map_set True True m (id_key i) v = Some (m', 0)" "hm_inv m'"
    "hm_abs m' = (hm_abs m)(id_key i \<mapsto> v)"
    "nbuckets m' = nbuckets m \<or> (nbuckets m \<le> nnodes m \<and> id_key i \<notin> dom (hm_abs m) \<and>
       unat (nbuckets m') \<le> 2 * unat (nbuckets m) + 1)"
    by auto
  have "unat (nbuckets m') \<le> 2 ^ 17"
    using m'(4)
  proof
    assume grow: "nbuckets m \<le> nnodes m \<and> id_key i \<notin> dom (hm_abs m) \<and>
       unat (nbuckets m') \<le> 2 * unat (nbuckets m) + 1"
    then have "dom (hm_abs m) \<subset> range id_key" using dom by blast
    then have "card (dom (hm_abs m)) < 2 ^ 16"
      using psubset_card_mono [OF finite_ids(1)] finite_ids(2) by simp
    then have "unat (nbuckets m) < 2 ^ 16"
      using grow hm_nodes_card [OF inv] by (simp add: word_le_nat_alt)
    then show ?thesis using grow by simp
  qed (use nb in simp)
  moreover have "id_abs m' = (id_abs m)(i \<mapsto> v)"
    using m'(3) by (auto simp: id_abs_def)
  moreover have "dom (hm_abs m') \<subseteq> range id_key"
    using m'(3) dom by auto
  ultimately show ?thesis using m'(1,2) by (simp add: id_set_def id_table_def)
qed

lemma id_table_remove:
  assumes "id_table m"
  shows "\<exists>m'. id_remove m i = Some m' \<and> id_table m' \<and> id_abs m' = (id_abs m)(i := None)"
proof -
  have inv: "hm_inv m" and dom: "dom (hm_abs m) \<subseteq> range id_key" and nb: "unat (nbuckets m) \<le> 2 ^ 17"
    using assms by (simp_all add: id_table_def)
  from map_remove_ok [OF inv, of "id_key i"] obtain m' where
    m': "map_remove m (id_key i) = Some m'" "hm_inv m'" "hm_abs m' = (hm_abs m)(id_key i := None)"
    "nbuckets m' = nbuckets m" by blast
  then show ?thesis
    using dom nb by (auto simp: id_remove_def id_table_def id_abs_def)
qed

interpretation ids: c_map id_table id_abs map_init id_get id_set id_remove
proof
  show "id_table map_init" "id_abs map_init = Map.empty"
    by (auto simp: id_table_def map_init_ok id_abs_def) (simp add: map_init_def)
  show "id_get m k = Some (ptr_of (id_abs m k))" if "id_table m" for m k
    using that by (simp add: id_get_def id_table_def map_get_abs id_abs_def ptr_of_def)
qed (rule id_table_set id_table_remove; assumption)+

text \<open>
  A table whose keys are not bounded in number keeps the same promises while it has \<open>room\<close>; every
  \<open>c_map\<close> is such a table that always has room.
\<close>

locale c_map_room =
  fixes inv :: "'m \<Rightarrow> bool"
    and abs :: "'m \<Rightarrow> 'k \<rightharpoonup> 'v"
    and init :: "'m"
    and get :: "'m \<Rightarrow> 'k \<Rightarrow> 'v ptr option"
    and put :: "'m \<Rightarrow> 'k \<Rightarrow> 'v \<Rightarrow> ('m \<times> int) option"
    and room :: "'m \<Rightarrow> bool"
  assumes init_inv: "inv init"
    and init_abs: "abs init = Map.empty"
    and get_abs: "inv m \<Longrightarrow> get m k = Some (ptr_of (abs m k))"
    and put_ok: "inv m \<Longrightarrow> room m \<Longrightarrow>
          \<exists>m'. put m k v = Some (m', 0) \<and> inv m' \<and> abs m' = (abs m)(k \<mapsto> v)"
begin

lemma putE:
  assumes "inv m" "room m"
  obtains m' where "put m k v = Some (m', 0)" "inv m'" "abs m' = (abs m)(k \<mapsto> v)"
  using put_ok [OF assms] by blast

lemma put_inv: "inv m \<Longrightarrow> room m \<Longrightarrow> put m k v = Some (m', r) \<Longrightarrow> inv m'"
  using put_ok [of m k v] by (auto simp: prod_eq_iff)

end

sublocale c_map \<subseteq> bounded: c_map_room inv abs init get put "\<lambda>_. True"
  by unfold_locales (simp_all add: init_inv init_abs get_abs put_ok)

text \<open>
  The table of topic names: it has room as long as the next array of buckets is at most
  \<open>2 ^ 29\<close> pointers, the whole address space.
\<close>

definition name_set :: "'v map_base \<Rightarrow> cstr \<Rightarrow> 'v \<Rightarrow> ('v map_base \<times> int) option" where
  "name_set m key v = map_set True True m key v"

definition name_room :: "'v map_base \<Rightarrow> bool" where
  "name_room m \<longleftrightarrow> unat (nbuckets m) < 2 ^ 28"

interpretation names: c_map_room hm_inv hm_abs map_init map_get name_set name_room
proof
  show "map_get m k = Some (ptr_of (hm_abs m k))" if "hm_inv m" for m :: "'b map_base" and k
    using that by (simp add: map_get_abs ptr_of_def)
  show "\<exists>m'. name_set m k v = Some (m', 0) \<and> hm_inv m' \<and> hm_abs m' = (hm_abs m)(k \<mapsto> v)"
    if "hm_inv m" "name_room m" for m :: "'b map_base" and k v
    using map_set_ok [of m True True k v] that by (auto simp: name_set_def name_room_def)
qed (rule map_init_ok)+

end
