(* ===== verification/Helpers.thy ===== *)
theory Helpers
  imports Clib
begin

text \<open>
  src/src/helpers.c: the byte-order helpers, the MQTT remaining-length field (its writer
  \<open>add_packet_length\<close> and, from src/src/mqtt/parser.c, its reader
  \<open>decode_remaining_length\<close>), the in-place \<open>reverse\<close> and the UTF-8 scanner.
  The MQTT variable byte integer is specified by \<open>vbi\<close> and \<open>vbi_decode\<close>.
\<close>

subsection \<open>Big-endian shorts and ints\<close>

definition short_bytes :: "u16 \<Rightarrow> byte list" where
  "short_bytes s = [ucast (drop_bit 8 s AND 0xff), ucast (s AND 0xff)]"

text \<open>\<open>i += add_short(&buf[i], s)\<close>; \<open>poke_short\<close> is the call whose result is dropped.\<close>

definition add_short :: "u16 \<Rightarrow> wbuf \<Rightarrow> wbuf option" where
  "add_short s w = put (short_bytes s) w"

definition poke_short :: "u16 \<Rightarrow> wbuf \<Rightarrow> wbuf option" where
  "poke_short s w = poke (short_bytes s) w"

text \<open>helpers.h declares the result \<open>unsigned short\<close>, which is how every caller reads it.\<close>

definition get_short :: "byte list \<Rightarrow> int \<Rightarrow> u16 option" where
  "get_short array i = do {
     hi \<leftarrow> rd array i;
     lo \<leftarrow> rd array (i + 1);
     Some (push_bit 8 (ucast hi) OR (ucast lo AND 0xff))
   }"

definition get_int :: "byte list \<Rightarrow> int \<Rightarrow> u32 option" where
  "get_int array i = do {
     a \<leftarrow> rd array i;
     b \<leftarrow> rd array (i + 1);
     c \<leftarrow> rd array (i + 2);
     d \<leftarrow> rd array (i + 3);
     Some (push_bit 24 (ucast a) OR push_bit 16 (ucast b) OR push_bit 8 (ucast c) OR ucast d)
   }"

text \<open>
  \<open>get_long\<close>, \<open>get_double\<close> and \<open>get_float\<close> copy the bytes of the message into a pointer
  variable and then read through it: the pointer is whatever the message says.
\<close>

definition get_long :: "byte list \<Rightarrow> int \<Rightarrow> u32 option" where
  "get_long array i = do { bs \<leftarrow> rd_n array i 4; deref Wild }"

definition get_double :: "byte list \<Rightarrow> int \<Rightarrow> 64 word option" where
  "get_double array i = do { bs \<leftarrow> rd_n array i 8; deref Wild }"

definition get_float :: "byte list \<Rightarrow> int \<Rightarrow> u32 option" where
  "get_float array i = do { bs \<leftarrow> rd_n array i 4; deref Wild }"

lemma length_short_bytes [simp]: "length (short_bytes s) = 2"
  by (simp add: short_bytes_def)

lemma and_0xff [simp]: "(x :: 'a::len word) AND 0xff = take_bit 8 x"
  by (simp add: take_bit_eq_mask mask_eq_exp_minus_1)

lemma short_bytes_join:
  "push_bit 8 (ucast (hi :: byte)) OR (ucast (lo :: byte) AND 0xff) = (s :: u16) \<longleftrightarrow>
   short_bytes s = [hi, lo]"
proof
  assume "push_bit 8 (ucast hi) OR (ucast lo AND 0xff) = s"
  then have s: "s = push_bit 8 (ucast hi) OR (ucast lo AND 0xff)" ..
  show "short_bytes s = [hi, lo]"
    unfolding short_bytes_def s
    by (auto intro!: bit_word_eqI simp: bit_simps)
next
  assume "short_bytes s = [hi, lo]"
  then have "hi = ucast (drop_bit 8 s AND 0xff)" "lo = ucast (s AND 0xff)"
    by (auto simp: short_bytes_def)
  then show "push_bit 8 (ucast hi) OR (ucast lo AND 0xff) = s"
    by (auto intro!: bit_word_eqI simp: bit_simps)
qed

lemma get_short_short_bytes:
  "i = int (length xs) \<Longrightarrow> get_short (xs @ short_bytes s @ ys) i = Some s"
proof -
  assume i: "i = int (length xs)"
  obtain hi lo where sb: "short_bytes s = [hi, lo]"
    by (simp add: short_bytes_def)
  have "rd (xs @ hi # lo # ys) i = Some hi" "rd (xs @ hi # lo # ys) (i + 1) = Some lo"
    using i by (simp_all add: rd_def nth_append nat_add_distrib)
  then show ?thesis
    using short_bytes_join [of hi lo s] sb by (simp add: get_short_def)
qed

lemma unat_short_bytes:
  "unat s = 256 * unat (short_bytes s ! 0) + unat (short_bytes s ! 1)"
proof -
  have "unat s < 65536" using unsigned_less [of s, where 'a = nat] by simp
  then show ?thesis
    by (simp add: short_bytes_def unsigned_ucast_eq unat_drop_bit_eq unsigned_take_bit_eq
        take_bit_nat_def drop_bit_nat_def)
qed

lemma short_bytes_inject [simp]: "short_bytes s = short_bytes t \<longleftrightarrow> s = t"
  by (metis unat_short_bytes word_unat_eq_iff)

lemma short_bytes_not_Nil [simp]: "short_bytes s \<noteq> []" "[] \<noteq> short_bytes s"
  by (simp_all add: short_bytes_def)

lemma get_short_shift: "0 \<le> k \<Longrightarrow> get_short (pre @ buf) (int (length pre) + k) = get_short buf k"
  using rd_shift [of k pre buf] rd_shift [of "k + 1" pre buf]
  by (simp add: get_short_def add.assoc)

lemma get_short_skip: "2 \<le> k \<Longrightarrow> get_short (short_bytes s @ bs) k = get_short bs (k - 2)"
  using get_short_shift [of "k - 2" "short_bytes s" bs] by simp

lemma rd_skip: "2 \<le> k \<Longrightarrow> rd (short_bytes s @ bs) k = rd bs (k - 2)"
  using rd_shift [of "k - 2" "short_bytes s" bs] by simp

lemma rd_n_skip: "2 \<le> k \<Longrightarrow> rd_n (short_bytes s @ bs) k n = rd_n bs (k - 2) n"
  using rd_n_shift [of "k - 2" "short_bytes s" bs] by simp

lemma get_short_tl: "1 \<le> k \<Longrightarrow> get_short (b # bs) k = get_short bs (k - 1)"
  using get_short_shift [of "k - 1" "[b]" bs] by simp

lemma get_short_here: "get_short (short_bytes s @ bs) 0 = Some s"
  using get_short_short_bytes [of 0 "[]"] by simp

lemmas byte_skips = get_short_skip rd_skip rd_n_skip get_short_tl rd_n_tl rd_cons_pos get_short_here
  rd_n_here

subsection \<open>The remaining-length field\<close>

definition remaining_length :: "int \<Rightarrow> int" where
  "remaining_length l =
     (if l \<le> 127 then 1
      else if l \<le> 16383 then 2
      else if l \<le> 2097151 then 3
      else if l \<le> 26843545 then 4
      else 0)"

fun apl_loop :: "nat \<Rightarrow> nat \<Rightarrow> mem \<Rightarrow> (mem \<times> nat) option" where
  "apl_loop l pos m =
     (let enc_byte = of_nat (l mod 128) :: byte; l' = l div 128 in
      do {
        m' \<leftarrow> wr_at pos [if l' > 0 then enc_byte OR 128 else enc_byte] m;
        if l' > 0 then apl_loop l' (pos + 1) m' else Some (m', pos + 1)
      })"

declare apl_loop.simps [simp del]

text \<open>\<open>i = add_packet_length(length, buf)\<close>: the field always starts at index 1.\<close>

definition add_packet_length :: "nat \<Rightarrow> mem \<Rightarrow> wbuf option" where
  "add_packet_length l m = apl_loop l 1 m"

record length_details =
  ld_length :: int
  ld_bytes_used :: int

text \<open>
  The loop of \<open>decode_remaining_length\<close>. The index \<open>i\<close> is not advanced by the source's loop, so
  it is a parameter here that no call changes.
\<close>

partial_function (option) drl_loop ::
    "byte list \<Rightarrow> int \<Rightarrow> int \<Rightarrow> int \<Rightarrow> int \<Rightarrow> length_details option" where
  "drl_loop buf i len multiplier bytes_used =
     (if multiplier > 128 * 128 * 128
      then Some \<lparr>ld_length = - 1, ld_bytes_used = - 1\<rparr>
      else do {
        enc \<leftarrow> rd buf i;
        if enc AND 0x80 \<noteq> 0
        then drl_loop buf i (len + int (unat (enc AND 0x7f)) * multiplier) (multiplier * 128)
               (bytes_used + 1)
        else Some \<lparr>ld_length = len + int (unat (enc AND 0x7f)) * multiplier + 2,
                   ld_bytes_used = bytes_used + 1\<rparr>
      })"

definition decode_remaining_length :: "byte list \<Rightarrow> length_details option" where
  "decode_remaining_length buf = drl_loop buf 1 0 1 0"

text \<open>The variable byte integer of MQTT: seven bits a byte, the eighth bit says more follow.\<close>

fun vbi :: "nat \<Rightarrow> byte list" where
  "vbi n = (if n < 128 then [of_nat n] else (of_nat (n mod 128) OR 128) # vbi (n div 128))"

declare vbi.simps [simp del]

fun vbi_decode :: "byte list \<Rightarrow> (nat \<times> byte list) option" where
  "vbi_decode [] = None"
| "vbi_decode (b # bs) =
     (if unat b < 128 then Some (unat b, bs)
      else do { (n, rest) \<leftarrow> vbi_decode bs; Some ((unat b - 128) + 128 * n, rest) })"

lemma vbi_small: "n < 128 \<Longrightarrow> vbi n = [of_nat n]"
  by (simp add: vbi.simps)

lemma length_vbi_pos [simp]: "0 < length (vbi n)"
  by (simp add: vbi.simps [of n])

lemma unat_low7: "k < 128 \<Longrightarrow> unat (of_nat k :: byte) = k"
  by (simp add: unat_of_nat)

lemma unat_or_128: "k < 128 \<Longrightarrow> unat ((of_nat k :: byte) OR 128) = k + 128"
proof -
  assume k: "k < 128"
  have "(of_nat k :: byte) AND 128 = 0"
  proof (rule bit_word_eqI)
    fix n assume "n < LENGTH(8)"
    have "bit (128 :: byte) n \<longleftrightarrow> n = 7"
      using bit_exp_iff [of 7 n, where 'a = byte] \<open>n < LENGTH(8)\<close> by simp
    moreover have "\<not> bit (of_nat k :: byte) 7"
    proof -
      have "\<not> bit k 7" using k by (simp add: bit_iff_odd)
      then show ?thesis by (simp add: bit_of_nat_iff)
    qed
    ultimately show "bit ((of_nat k :: byte) AND 128) n = bit (0 :: byte) n"
      by (auto simp: bit_simps)
  qed
  then have "(of_nat k :: byte) OR 128 = of_nat k + 128"
    by (simp add: disjunctive_add_eq_or)
  also have "\<dots> = of_nat (k + 128)" by simp
  finally show ?thesis using k by (simp only: unat_of_nat) simp
qed

lemma apl_loop_wstate:
  assumes "pos = length out"
  shows "apl_loop l pos (fst (wstate out k)) =
           (if length (vbi l) \<le> k then Some (wstate (out @ vbi l) (k - length (vbi l))) else None)"
  using assms
proof (induction l arbitrary: pos out k rule: vbi.induct)
  case (1 l)
  show ?case
  proof (cases "l < 128")
    case True
    then show ?thesis
      using 1(2) by (simp add: apl_loop.simps [of l] vbi_small wstate_def wr_at_wstate)
  next
    case False
    then have l: "l div 128 > 0" by simp
    define b where "b = ((of_nat (l mod 128) :: byte) OR 128)"
    have v: "vbi l = b # vbi (l div 128)"
      using False by (simp add: vbi.simps [of l] b_def)
    show ?thesis
    proof (cases "k = 0")
      case True
      then show ?thesis
        using 1(2) l by (simp add: apl_loop.simps [of l] v wstate_def wr_at_def Let_def)
    next
      case False
      have "apl_loop l pos (fst (wstate out k)) =
              apl_loop (l div 128) (pos + 1) (fst (wstate (out @ [b]) (k - 1)))"
        using 1(2) l False
        by (simp add: apl_loop.simps [of l] wstate_def wr_at_wstate Let_def b_def)
      also have "\<dots> = (if length (vbi (l div 128)) \<le> k - 1
          then Some (wstate ((out @ [b]) @ vbi (l div 128)) (k - 1 - length (vbi (l div 128))))
          else None)"
        using 1(1) [of "pos + 1" "out @ [b]" "k - 1"] 1(2) \<open>\<not> l < 128\<close> by simp
      finally show ?thesis using False by (auto simp: v)
    qed
  qed
qed

lemma add_packet_length_wstate [cmem]:
  "add_packet_length l (fst (wstate [b] k)) =
     (if length (vbi l) \<le> k then Some (wstate (b # vbi l) (k - length (vbi l))) else None)"
  using apl_loop_wstate [of 1 "[b]" l k] by (simp add: add_packet_length_def)

lemma vbi_roundtrip: "vbi_decode (vbi n @ rest) = Some (n, rest)"
proof (induction n rule: vbi.induct)
  case (1 n)
  show ?case
  proof (cases "n < 128")
    case True
    then show ?thesis by (simp add: vbi_small unat_low7)
  next
    case False
    have "n mod 128 < 128" by simp
    from unat_or_128 [OF this] 1 False show ?thesis
      by (subst vbi.simps) simp
  qed
qed

lemma unat_and_0x7f: "unat ((b :: byte) AND 0x7f) = unat b mod 128"
proof -
  have "(0x7f :: byte) = mask 7" by (simp add: mask_eq_exp_minus_1)
  then have "b AND 0x7f = take_bit 7 b" by (simp add: take_bit_eq_mask)
  then show ?thesis by (simp add: unsigned_take_bit_eq take_bit_nat_def)
qed

lemma high_bit_iff: "(b :: byte) AND 0x80 \<noteq> 0 \<longleftrightarrow> 128 \<le> unat b"
proof -
  have "b AND 2 ^ 7 = 0 \<longleftrightarrow> \<not> bit b 7"
    by (rule and_exp_eq_0_iff_not_bit)
  then have b7: "b AND 0x80 \<noteq> 0 \<longleftrightarrow> odd (unat b div 128)"
    using bit_iff_odd [of "unat b" 7] by (simp add: bit_unsigned_iff)
  have lt: "unat b < 256"
    using unsigned_less [of b, where 'a = nat] by simp
  have "odd (unat b div 128) \<longleftrightarrow> 128 \<le> unat b"
  proof (cases "128 \<le> unat b")
    case True
    with lt have "unat b div 128 = 1" by linarith
    then show ?thesis using True by simp
  next
    case False
    then show ?thesis by simp
  qed
  with b7 show ?thesis by simp
qed

lemma drl_loop_stop:
  assumes "rd buf i = Some b" and "unat b < 128" and "multiplier \<le> 2097152"
  shows "drl_loop buf i len multiplier bytes_used =
           Some \<lparr>ld_length = len + int (unat b) * multiplier + 2, ld_bytes_used = bytes_used + 1\<rparr>"
proof -
  have "unat (b AND 0x7f) = unat b"
    using assms(2) by (simp add: unat_and_0x7f)
  then show ?thesis
    using assms high_bit_iff [of b] by (simp add: drl_loop.simps)
qed

lemma drl_loop_more:
  assumes "rd buf i = Some b" and "128 \<le> unat b" and "multiplier \<le> 2097152"
  shows "drl_loop buf i len multiplier bytes_used =
           drl_loop buf i (len + int (unat (b AND 0x7f)) * multiplier) (multiplier * 128)
             (bytes_used + 1)"
  using assms high_bit_iff [of b] by (simp add: drl_loop.simps [of buf i len multiplier])

lemma drl_loop_over:
  "2097152 < multiplier \<Longrightarrow>
   drl_loop buf i len multiplier bytes_used = Some \<lparr>ld_length = - 1, ld_bytes_used = - 1\<rparr>"
  by (simp add: drl_loop.simps)

lemma drl_loop_end: "rd buf i = None \<Longrightarrow> multiplier \<le> 2097152 \<Longrightarrow>
   drl_loop buf i len multiplier bytes_used = None"
  by (simp add: drl_loop.simps)

lemma decode_remaining_length_short:
  "rd buf 1 = Some b \<Longrightarrow> unat b < 128 \<Longrightarrow>
   decode_remaining_length buf = Some \<lparr>ld_length = int (unat b) + 2, ld_bytes_used = 1\<rparr>"
  by (simp add: decode_remaining_length_def drl_loop_stop)

lemma decode_remaining_length_long:
  "rd buf 1 = Some b \<Longrightarrow> 128 \<le> unat b \<Longrightarrow>
   decode_remaining_length buf = Some \<lparr>ld_length = - 1, ld_bytes_used = - 1\<rparr>"
  by (simp add: decode_remaining_length_def drl_loop_more drl_loop_over)

lemma decode_remaining_length_eq:
  "decode_remaining_length buf =
     (case rd buf 1 of
        None \<Rightarrow> None
      | Some b \<Rightarrow>
          if unat b < 128 then Some \<lparr>ld_length = int (unat b) + 2, ld_bytes_used = 1\<rparr>
          else Some \<lparr>ld_length = - 1, ld_bytes_used = - 1\<rparr>)"
proof (cases "rd buf 1")
  case None
  then show ?thesis by (simp add: decode_remaining_length_def drl_loop_end)
next
  case (Some b)
  then show ?thesis
    by (simp add: decode_remaining_length_short decode_remaining_length_long)
qed

subsection \<open>Reversal in place\<close>

function rev_loop :: "byte list \<Rightarrow> int \<Rightarrow> int \<Rightarrow> byte list option" where
  "rev_loop a i j =
     (if i > j then do {
        x \<leftarrow> rd a i;
        y \<leftarrow> rd a j;
        rev_loop (a[nat i := y, nat j := x]) (i - 1) (j + 1)
      } else Some a)"
  by pat_completeness auto
termination
  by (relation "measure (\<lambda>(a, i, j). nat (i - j))") auto

declare rev_loop.simps [simp del]

definition reverse :: "byte list \<Rightarrow> int \<Rightarrow> byte list option" where
  "reverse a len = rev_loop a (len - 1) 0"

lemma rev_loop_spec:
  assumes "length (pre @ mid @ post) = length a"
    and "a = pre @ mid @ post" and "j = int (length pre)" and "i = j + int (length mid) - 1"
  shows "rev_loop a i j = Some (pre @ rev mid @ post)"
  using assms
proof (induction "length mid" arbitrary: a pre mid post i j rule: less_induct)
  case less
  show ?case
  proof (cases "length mid < 2")
    case True
    then have "rev mid = mid" by (cases mid) auto
    then show ?thesis using less True by (simp add: rev_loop.simps)
  next
    case False
    then obtain x mid' y where mid: "mid = x # mid' @ [y]"
      by (metis append_butlast_last_id length_0_conv less_2_cases_iff list.exhaust list.size(3)
          list.size(4) One_nat_def add.commute plus_1_eq_Suc)
    have i: "i = int (length (pre @ x # mid'))" and ij: "i > j"
      using less.prems mid by simp_all
    have ri: "rd a i = Some y"
      using rd_append [OF i, of y post] less.prems mid by simp
    have rj: "rd a j = Some x"
      using rd_append [OF less.prems(3), of x "mid' @ y # post"] less.prems mid by simp
    have upd: "a[nat i := x, nat j := y] = (pre @ [y]) @ mid' @ (x # post)"
    proof -
      have "nat i = length pre + Suc (length mid')" and "nat j = length pre"
        using i less.prems by simp_all
      then show ?thesis
        using less.prems(2) mid by (simp add: list_update_append)
    qed
    have "rev_loop a i j = rev_loop (a[nat i := x, nat j := y]) (i - 1) (j + 1)"
      using ri rj ij by (simp add: rev_loop.simps [of a])
    also have "\<dots> = Some ((pre @ [y]) @ rev mid' @ (x # post))"
      by (rule less.hyps) (use less.prems mid i upd in simp_all)
    finally show ?thesis by (simp add: mid)
  qed
qed

lemma reverse_prefix:
  assumes "0 \<le> len" and "len \<le> int (length a)"
  shows "reverse a len = Some (rev (take (nat len) a) @ drop (nat len) a)"
  unfolding reverse_def
  by (rule rev_loop_spec [where pre = "[]", simplified]) (use assms in simp_all)

subsection \<open>The UTF-8 scanner\<close>

text \<open>
  \<open>c_or\<close> and \<open>c_and\<close> are the short-circuit operators: the second operand is only evaluated,
  and so only reads its bytes, when the first does not decide.
\<close>

definition c_or :: "bool option \<Rightarrow> bool option \<Rightarrow> bool option" where
  "c_or a b = do { x \<leftarrow> a; if x then Some True else b }"

definition c_and :: "bool option \<Rightarrow> bool option \<Rightarrow> bool option" where
  "c_and a b = do { x \<leftarrow> a; if x then b else Some False }"

text \<open>One comparison \<open>(s[k] & mask) == v\<close>, \<open>s\<close> being at offset \<open>i\<close> of the object.\<close>

definition mask_is :: "byte list \<Rightarrow> int \<Rightarrow> byte \<Rightarrow> byte \<Rightarrow> bool option" where
  "mask_is s i mk v = do { b \<leftarrow> rd s i; Some (b AND mk = v) }"

definition mask_not :: "byte list \<Rightarrow> int \<Rightarrow> byte \<Rightarrow> byte \<Rightarrow> bool option" where
  "mask_not s i mk v = map_option Not (mask_is s i mk v)"

definition bad2 :: "byte list \<Rightarrow> int \<Rightarrow> bool option" where
  "bad2 s i = c_or (mask_not s (i + 1) 0xc0 0x80) (mask_is s i 0xfe 0xc0)"

definition bad3 :: "byte list \<Rightarrow> int \<Rightarrow> bool option" where
  "bad3 s i =
     c_or (mask_not s (i + 1) 0xc0 0x80)
    (c_or (mask_not s (i + 2) 0xc0 0x80)
    (c_or (c_and (mask_is s i 0xff 0xe0) (mask_is s (i + 1) 0xe0 0x80))
    (c_or (c_and (mask_is s i 0xff 0xed) (mask_is s (i + 1) 0xe0 0xa0))
          (c_and (c_and (mask_is s i 0xff 0xef) (mask_is s (i + 1) 0xff 0xbf))
                 (mask_is s (i + 2) 0xfe 0xbe)))))"

definition bad4 :: "byte list \<Rightarrow> int \<Rightarrow> bool option" where
  "bad4 s i =
     c_or (mask_not s (i + 1) 0xc0 0x80)
    (c_or (mask_not s (i + 2) 0xc0 0x80)
    (c_or (mask_not s (i + 3) 0xc0 0x80)
    (c_or (c_and (mask_is s i 0xff 0xf0) (mask_is s (i + 1) 0xf0 0x80))
    (c_or (c_and (mask_is s i 0xff 0xf4) (do { b \<leftarrow> rd s (i + 1); Some (b > 0x8f) }))
          (do { b \<leftarrow> rd s i; Some (b > 0xf4) })))))"

text \<open>\<open>Null\<close> for a well-formed string, else the offset of the first bad sequence.\<close>

function utf8_check :: "byte list \<Rightarrow> nat \<Rightarrow> nat ptr option" where
  "utf8_check s i =
     (if length s \<le> i then None
      else let b = s ! i in
        if b = 0 then Some Null
        else if b < 0x80 then utf8_check s (i + 1)
        else if b AND 0xe0 = 0xc0 then
          do { bad \<leftarrow> bad2 s (int i); if bad then Some (Ref i) else utf8_check s (i + 2) }
        else if b AND 0xf0 = 0xe0 then
          do { bad \<leftarrow> bad3 s (int i); if bad then Some (Ref i) else utf8_check s (i + 3) }
        else if b AND 0xf8 = 0xf0 then
          do { bad \<leftarrow> bad4 s (int i); if bad then Some (Ref i) else utf8_check s (i + 4) }
        else Some (Ref i))"
  by pat_completeness auto
termination
  by (relation "measure (\<lambda>(s, i). length s - i)") auto

declare utf8_check.simps [simp del]

end
