(* ===== verification/MqttTypes.thy ===== *)
theory MqttTypes
  imports Helpers
begin

text \<open>
  The data of the MQTT client: the structs and enums of src/src/mqtt/packets/*.h and
  src/src/account.h. An enum-typed variable of C holds any integer, so the enums that only
  travel (QoS, return codes) are 32-bit words, with the named values as abbreviations; the
  message type, on which the code switches, is a datatype, and the \<open>void *packet\<close> of a message
  is a pointer to one of the packet structs. A field the code may leave unset is an option.
\<close>

subsection \<open>Message types\<close>

datatype MessageType =
    CONNECT | CONNACK | PUBLISH | PUBACK | PUBREC | PUBREL | PUBCOMP
  | SUBSCRIBE | SUBACK | UNSUBSCRIBE | UNSUBACK | PINGREQ | PINGRESP | DISCONNECT

fun mt_code :: "MessageType \<Rightarrow> nat" where
  "mt_code CONNECT = 1"
| "mt_code CONNACK = 2"
| "mt_code PUBLISH = 3"
| "mt_code PUBACK = 4"
| "mt_code PUBREC = 5"
| "mt_code PUBREL = 6"
| "mt_code PUBCOMP = 7"
| "mt_code SUBSCRIBE = 8"
| "mt_code SUBACK = 9"
| "mt_code UNSUBSCRIBE = 10"
| "mt_code UNSUBACK = 11"
| "mt_code PINGREQ = 12"
| "mt_code PINGRESP = 13"
| "mt_code DISCONNECT = 14"

definition all_message_types :: "MessageType list" where
  "all_message_types =
     [CONNECT, CONNACK, PUBLISH, PUBACK, PUBREC, PUBREL, PUBCOMP, SUBSCRIBE, SUBACK,
      UNSUBSCRIBE, UNSUBACK, PINGREQ, PINGRESP, DISCONNECT]"

text \<open>The case label of \<open>switch (type)\<close> that an integer selects, if any.\<close>

definition mt_of :: "nat \<Rightarrow> MessageType option" where
  "mt_of n = (if 1 \<le> n \<and> n \<le> 14 then Some (all_message_types ! (n - 1)) else None)"

lemma mt_of_code [simp]: "mt_of (mt_code t) = Some t"
  by (cases t) (simp_all add: mt_of_def all_message_types_def)

lemma mt_code_bound: "1 \<le> mt_code t \<and> mt_code t \<le> 14"
  by (cases t) simp_all

lemma mt_code_inject [simp]: "mt_code s = mt_code t \<longleftrightarrow> s = t"
  by (metis mt_of_code option.inject)

instantiation MessageType :: linorder
begin

definition less_eq_MessageType :: "MessageType \<Rightarrow> MessageType \<Rightarrow> bool" where
  "less_eq_MessageType s t \<longleftrightarrow> mt_code s \<le> mt_code t"

definition less_MessageType :: "MessageType \<Rightarrow> MessageType \<Rightarrow> bool" where
  "less_MessageType s t \<longleftrightarrow> mt_code s < mt_code t"

instance
  by standard (auto simp: less_eq_MessageType_def less_MessageType_def)

end

subsection \<open>Packets\<close>

type_synonym QoS = u32

abbreviation AT_MOST_ONCE :: QoS where "AT_MOST_ONCE \<equiv> 0"
abbreviation AT_LEAST_ONCE :: QoS where "AT_LEAST_ONCE \<equiv> 1"
abbreviation EXACTLY_ONCE :: QoS where "EXACTLY_ONCE \<equiv> 2"

record Topic =
  topic_name :: "cstr ptr"
  qos :: QoS

record Will =
  will_topic :: Topic
  will_content :: "cstr ptr"
  will_retain :: int

record Connect =
  username :: "cstr ptr"
  password :: "cstr ptr"
  client_id :: "cstr ptr"
  clean_session :: int
  will_flag :: int
  keepalive :: u16
  protocol_level :: u16
  will :: Will

abbreviation ACCEPTED :: u32 where "ACCEPTED \<equiv> 0"

record Connack =
  session_present :: int
  return_code :: u32

record Publish =
  pub_topic :: Topic
  pub_content :: "cstr ptr"
  pub_retain :: int
  pub_dup :: int
  is_incoming :: "int option"
  pub_packet_id :: "u16 option"
  pub_time_stamp :: "int option"

record Subscribe =
  sub_topics :: "Topic list"
  sub_packet_id :: u16

abbreviation FAILURE :: u32 where "FAILURE \<equiv> 128"

record Suback =
  suback_packet_id :: u16
  codes :: "u32 list"

record Unsubscribe =
  unsub_topics :: "Topic list"
  unsub_packet_id :: u16

text \<open>
  The arrays \<open>topics\<close> and \<open>codes\<close> are lists: the fields \<open>topics_number\<close> and \<open>codes_number\<close> are
  their lengths, as every place that builds such a packet sets them.
\<close>

datatype packet =
    PConnect Connect
  | PConnack Connack
  | PPublish Publish
  | PPuback u16
  | PPubrec u16
  | PPubrel u16
  | PPubcomp u16
  | PSubscribe Subscribe
  | PSuback Suback
  | PUnsubscribe Unsubscribe
  | PUnsuback u16

record Message =
  message_type :: "MessageType option"
  packet :: "packet ptr"

text \<open>The casts \<open>*(struct X*) message->packet\<close>.\<close>

definition as_connect :: "Message \<Rightarrow> Connect option" where
  "as_connect m = do { p \<leftarrow> deref (packet m); (case p of PConnect c \<Rightarrow> Some c | _ \<Rightarrow> None) }"

definition as_connack :: "Message \<Rightarrow> Connack option" where
  "as_connack m = do { p \<leftarrow> deref (packet m); (case p of PConnack c \<Rightarrow> Some c | _ \<Rightarrow> None) }"

definition as_publish :: "Message \<Rightarrow> Publish option" where
  "as_publish m = do { p \<leftarrow> deref (packet m); (case p of PPublish c \<Rightarrow> Some c | _ \<Rightarrow> None) }"

definition as_subscribe :: "Message \<Rightarrow> Subscribe option" where
  "as_subscribe m = do { p \<leftarrow> deref (packet m); (case p of PSubscribe c \<Rightarrow> Some c | _ \<Rightarrow> None) }"

definition as_suback :: "Message \<Rightarrow> Suback option" where
  "as_suback m = do { p \<leftarrow> deref (packet m); (case p of PSuback c \<Rightarrow> Some c | _ \<Rightarrow> None) }"

definition as_unsubscribe :: "Message \<Rightarrow> Unsubscribe option" where
  "as_unsubscribe m = do { p \<leftarrow> deref (packet m); (case p of PUnsubscribe c \<Rightarrow> Some c | _ \<Rightarrow> None) }"

text \<open>The structs that hold a packet id only have one layout, and are read through it.\<close>

definition as_packet_id :: "Message \<Rightarrow> u16 option" where
  "as_packet_id m = do {
     p \<leftarrow> deref (packet m);
     (case p of
        PPuback i \<Rightarrow> Some i | PPubrec i \<Rightarrow> Some i | PPubrel i \<Rightarrow> Some i | PPubcomp i \<Rightarrow> Some i
      | PUnsuback i \<Rightarrow> Some i | _ \<Rightarrow> None)
   }"

lemmas as_packet_defs =
  as_connect_def as_connack_def as_publish_def as_subscribe_def as_suback_def
  as_unsubscribe_def as_packet_id_def

subsection \<open>The account\<close>

datatype Protocol = MQTT | MQTT_SN | COAP | AMQP | WEBSOCKETS

record Account =
  acc_id :: int
  acc_protocol :: Protocol
  acc_username :: "cstr ptr"
  acc_password :: "cstr ptr"
  acc_client_id :: "cstr ptr"
  acc_server_host :: "cstr ptr"
  acc_server_port :: int
  acc_clean_session :: int
  acc_keep_alive :: int
  acc_will_topic :: "cstr ptr"
  acc_is_retain :: int
  acc_qos :: QoS
  acc_is_default :: int
  acc_will :: "cstr ptr"
  acc_is_secure :: int
  acc_certificate :: "cstr ptr"
  acc_certificate_password :: "cstr ptr"

text \<open>An account for the examples.\<close>

definition sample_account :: Account where
  "sample_account = \<lparr>acc_id = 1, acc_protocol = MQTT, acc_username = Ref [], acc_password = Ref [],
     acc_client_id = Ref [0x63], acc_server_host = Ref [0x68], acc_server_port = 1883,
     acc_clean_session = 1, acc_keep_alive = 60, acc_will_topic = Null, acc_is_retain = 0,
     acc_qos = 0, acc_is_default = 1, acc_will = Null, acc_is_secure = 0, acc_certificate = Null,
     acc_certificate_password = Null\<rparr>"

end
