(* ===== verification/MqttParser.thy ===== *)
theory MqttParser
  imports MqttTypes
begin

text \<open>
  src/src/mqtt/parser.c: \<open>get_length\<close>, \<open>encode\<close> and \<open>decode\<close>, one definition for each case of
  their switches. The encoder writes into a buffer of \<open>length + 2\<close> bytes; the decoder reads the
  object \<open>buf\<close> and is undefined when it leaves it. \<open>packet_bytes\<close> and the bodies after it are
  the packet formats of MQTT 3.1.1, the specification the encoder is compared with.
\<close>

subsection \<open>Lengths\<close>

fun topics_length :: "nat \<Rightarrow> Topic list \<Rightarrow> nat option" where
  "topics_length extra [] = Some 0"
| "topics_length extra (t # ts) = do {
     n \<leftarrow> c_strlen (topic_name t);
     r \<leftarrow> topics_length extra ts;
     Some (n + extra + r)
   }"

definition get_length :: "Message \<Rightarrow> nat option" where
  "get_length message = do {
     t \<leftarrow> message_type message;
     (case t of
        CONNECT \<Rightarrow> do {
          c \<leftarrow> as_connect message;
          cl \<leftarrow> c_strlen (client_id c);
          wl \<leftarrow> (if will_flag c \<noteq> 0 then do {
                   a \<leftarrow> c_strlen (will_content (will c));
                   b \<leftarrow> c_strlen (topic_name (will_topic (will c)));
                   Some (a + b + 4)
                 } else Some 0);
          ul \<leftarrow> c_strlen (username c);
          pl \<leftarrow> c_strlen (password c);
          Some (10 + (cl + 2) + wl + (if ul \<noteq> 0 then ul + 2 else 0)
                + (if pl \<noteq> 0 then pl + 2 else 0))
        }
      | PUBLISH \<Rightarrow> do {
          p \<leftarrow> as_publish message;
          pid \<leftarrow> pub_packet_id p;
          tl \<leftarrow> c_strlen (topic_name (pub_topic p));
          cl \<leftarrow> c_strlen (pub_content p);
          Some ((if pid \<noteq> 0 then 2 else 0) + (tl + 2) + cl)
        }
      | SUBSCRIBE \<Rightarrow> do {
          s \<leftarrow> as_subscribe message;
          n \<leftarrow> topics_length 3 (sub_topics s);
          Some (2 + n)
        }
      | SUBACK \<Rightarrow> do { sa \<leftarrow> as_suback message; Some (2 + length (codes sa)) }
      | UNSUBSCRIBE \<Rightarrow> do {
          us \<leftarrow> as_unsubscribe message;
          n \<leftarrow> topics_length 2 (unsub_topics us);
          Some (2 + n)
        }
      | PINGREQ \<Rightarrow> Some 0
      | PINGRESP \<Rightarrow> Some 0
      | DISCONNECT \<Rightarrow> Some 0
      | _ \<Rightarrow> Some 2)
   }"

subsection \<open>Encoding\<close>

definition type_byte :: "MessageType \<Rightarrow> byte" where
  "type_byte t = push_bit 4 (of_nat (mt_code t))"

text \<open>
  The block that is repeated for every string: its length as \<open>unsigned short\<close>, and, unless that
  is zero, the length and the bytes.
\<close>

definition put_string :: "cstr ptr \<Rightarrow> wbuf \<Rightarrow> wbuf option" where
  "put_string p w = do {
     s \<leftarrow> deref p;
     let string_length = (of_nat (length s) :: u16);
     (if string_length \<noteq> 0 then do {
        w \<leftarrow> add_short string_length w;
        put (take (unat string_length) s) w
      } else Some w)
   }"

definition connect_flags :: "Connect \<Rightarrow> byte option" where
  "connect_flags c = do {
     ul \<leftarrow> c_strlen (username c);
     pl \<leftarrow> c_strlen (password c);
     Some ((if clean_session c \<noteq> 0 then 0x02 else 0)
         + (if will_flag c \<noteq> 0
            then 0x04 + push_bit 3 (ucast (qos (will_topic (will c))))
                 + (if will_retain (will c) \<noteq> 0 then 0x20 else 0)
            else 0)
         + (if ul \<noteq> 0 then 0x40 else 0)
         + (if pl \<noteq> 0 then 0x80 else 0))
   }"

definition PROTOCOL_NAME :: cstr where
  "PROTOCOL_NAME = [0x4d, 0x51, 0x54, 0x54]"

definition DEFAULT_PROTOCOL_LEVEL :: byte where
  "DEFAULT_PROTOCOL_LEVEL = 4"

definition encode_connect :: "Message \<Rightarrow> nat \<Rightarrow> wbuf \<Rightarrow> wbuf option" where
  "encode_connect message l w = do {
     c \<leftarrow> as_connect message;
     w \<leftarrow> put [type_byte CONNECT] w;
     w \<leftarrow> add_packet_length l (fst w);
     w \<leftarrow> put [0] w;
     w \<leftarrow> put [of_nat (length PROTOCOL_NAME)] w;
     w \<leftarrow> put PROTOCOL_NAME w;
     w \<leftarrow> put [DEFAULT_PROTOCOL_LEVEL] w;
     contentFlags \<leftarrow> connect_flags c;
     w \<leftarrow> put [contentFlags] w;
     w \<leftarrow> add_short (keepalive c) w;
     cid \<leftarrow> deref (client_id c);
     let client_id_length = (of_nat (length cid) :: u16);
     w \<leftarrow> add_short client_id_length w;
     w \<leftarrow> put (take (unat client_id_length) cid) w;
     w \<leftarrow> (if will_flag c \<noteq> 0 then do {
              w \<leftarrow> put_string (topic_name (will_topic (will c))) w;
              put_string (will_content (will c)) w
            } else Some w);
     w \<leftarrow> put_string (username c) w;
     put_string (password c) w
   }"

definition encode_connack :: "Message \<Rightarrow> nat \<Rightarrow> wbuf \<Rightarrow> wbuf option" where
  "encode_connack message l w = do {
     ca \<leftarrow> as_connack message;
     w \<leftarrow> put [type_byte CONNACK] w;
     n \<leftarrow> get_length message;
     w \<leftarrow> put [of_nat n] w;
     w \<leftarrow> put [of_int (session_present ca)] w;
     put [ucast (return_code ca)] w
   }"

definition encode_publish :: "Message \<Rightarrow> nat \<Rightarrow> wbuf \<Rightarrow> wbuf option" where
  "encode_publish message l w = do {
     p \<leftarrow> as_publish message;
     let firstByte = type_byte PUBLISH
           + (if pub_dup p \<noteq> 0 then 0x08 else 0)
           + push_bit 1 (ucast (qos (pub_topic p)))
           + (if pub_retain p \<noteq> 0 then 0x01 else 0);
     w \<leftarrow> poke [firstByte] w;
     w \<leftarrow> add_packet_length l (fst w);
     w \<leftarrow> put_string (topic_name (pub_topic p)) w;
     pid \<leftarrow> pub_packet_id p;
     w \<leftarrow> (if pid \<noteq> 0 then add_short pid w else Some w);
     content \<leftarrow> deref (pub_content p);
     poke content w
   }"

text \<open>PUBACK, PUBREC, PUBREL and PUBCOMP differ in their first byte only.\<close>

definition encode_ack :: "byte \<Rightarrow> Message \<Rightarrow> nat \<Rightarrow> wbuf \<Rightarrow> wbuf option" where
  "encode_ack first message l w = do {
     pid \<leftarrow> as_packet_id message;
     w \<leftarrow> put [first] w;
     w \<leftarrow> put [of_nat l] w;
     poke_short pid w
   }"

fun encode_sub_topics :: "Topic list \<Rightarrow> wbuf \<Rightarrow> wbuf option" where
  "encode_sub_topics [] w = Some w"
| "encode_sub_topics (t # ts) w = do {
     w \<leftarrow> put_string (topic_name t) w;
     w \<leftarrow> poke [ucast (qos t)] w;
     encode_sub_topics ts w
   }"

definition encode_subscribe :: "Message \<Rightarrow> nat \<Rightarrow> wbuf \<Rightarrow> wbuf option" where
  "encode_subscribe message l w = do {
     s \<leftarrow> as_subscribe message;
     w \<leftarrow> put [type_byte SUBSCRIBE OR 0x2] w;
     w \<leftarrow> add_packet_length l (fst w);
     w \<leftarrow> add_short (sub_packet_id s) w;
     encode_sub_topics (sub_topics s) w
   }"

definition encode_suback :: "Message \<Rightarrow> nat \<Rightarrow> wbuf \<Rightarrow> wbuf option" where
  "encode_suback message l w = do {
     sa \<leftarrow> as_suback message;
     w \<leftarrow> put [type_byte SUBACK] w;
     w \<leftarrow> add_short (suback_packet_id sa) w;
     put (map ucast (codes sa)) w
   }"

fun encode_unsub_topics :: "Topic list \<Rightarrow> wbuf \<Rightarrow> wbuf option" where
  "encode_unsub_topics [] w = Some w"
| "encode_unsub_topics (t # ts) w = do {
     w \<leftarrow> put_string (topic_name t) w;
     encode_unsub_topics ts w
   }"

definition encode_unsubscribe :: "Message \<Rightarrow> nat \<Rightarrow> wbuf \<Rightarrow> wbuf option" where
  "encode_unsubscribe message l w = do {
     us \<leftarrow> as_unsubscribe message;
     w \<leftarrow> put [type_byte UNSUBSCRIBE OR 0x2] w;
     w \<leftarrow> add_packet_length l (fst w);
     w \<leftarrow> add_short (unsub_packet_id us) w;
     encode_unsub_topics (unsub_topics us) w
   }"

definition encode_unsuback :: "Message \<Rightarrow> nat \<Rightarrow> wbuf \<Rightarrow> wbuf option" where
  "encode_unsuback message l w = do {
     pid \<leftarrow> as_packet_id message;
     w \<leftarrow> put [type_byte UNSUBACK] w;
     w \<leftarrow> add_packet_length l (fst w);
     poke_short pid w
   }"

definition encode_empty :: "MessageType \<Rightarrow> wbuf \<Rightarrow> wbuf option" where
  "encode_empty t w = do {
     w \<leftarrow> put [type_byte t OR 0x2] w;
     poke [0] w
   }"

definition encode :: "Message \<Rightarrow> nat \<Rightarrow> mem option" where
  "encode message l = do {
     t \<leftarrow> message_type message;
     let w = (c_malloc (l + 2), 0);
     w \<leftarrow> (case t of
         CONNECT \<Rightarrow> encode_connect message l w
       | CONNACK \<Rightarrow> encode_connack message l w
       | PUBLISH \<Rightarrow> encode_publish message l w
       | PUBACK \<Rightarrow> encode_ack (type_byte PUBACK) message l w
       | PUBREC \<Rightarrow> encode_ack (type_byte PUBREC) message l w
       | PUBREL \<Rightarrow> encode_ack (type_byte PUBREL OR 0x2) message l w
       | PUBCOMP \<Rightarrow> encode_ack (type_byte PUBCOMP) message l w
       | SUBSCRIBE \<Rightarrow> encode_subscribe message l w
       | SUBACK \<Rightarrow> encode_suback message l w
       | UNSUBSCRIBE \<Rightarrow> encode_unsubscribe message l w
       | UNSUBACK \<Rightarrow> encode_unsuback message l w
       | _ \<Rightarrow> encode_empty t w);
     Some (fst w)
   }"

subsection \<open>Decoding\<close>

text \<open>\<open>strcmp(s, a) == 0\<close> for a string \<open>s\<close> and an array \<open>a\<close> that need not be terminated.\<close>

fun strcmp_eq :: "cstr \<Rightarrow> byte list \<Rightarrow> bool option" where
  "strcmp_eq [] [] = None"
| "strcmp_eq [] (b # bs) = Some (b = 0)"
| "strcmp_eq (c # cs) [] = None"
| "strcmp_eq (c # cs) (b # bs) = (if b = c then strcmp_eq cs bs else Some False)"

definition arr_set :: "byte list \<Rightarrow> int \<Rightarrow> byte \<Rightarrow> byte list option" where
  "arr_set a i b = (if 0 \<le> i \<and> i < int (length a) then Some (a[nat i := b]) else None)"

text \<open>\<open>char a[n]; memcpy(a, &buf[i], n); a[n] = '\<bar>0'\<close> and the array it leaves.\<close>

definition vla_copy :: "byte list \<Rightarrow> int \<Rightarrow> int \<Rightarrow> byte list option" where
  "vla_copy buf i n = do { c_assert (0 < n); rd_n buf i n }"

definition vla_string :: "byte list \<Rightarrow> int \<Rightarrow> int \<Rightarrow> cstr ptr option" where
  "vla_string buf i n = do {
     a \<leftarrow> vla_copy buf i n;
     a \<leftarrow> arr_set a n 0;
     Some (Ref (cstr_of a))
   }"

definition no_packet :: "MessageType \<Rightarrow> Message" where
  "no_packet t = \<lparr>message_type = Some t, packet = Wild\<rparr>"

text \<open>
  CONNECT. The strings are copied into arrays without room for their terminator, so \<open>vla_string\<close>
  never returns (\<open>vla_string_None\<close>), and \<open>m->packet = &c\<close> would leave a dangling pointer.
\<close>

definition decode_will ::
    "byte list \<Rightarrow> int \<Rightarrow> int \<Rightarrow> (int \<times> cstr ptr \<times> cstr ptr) option option" where
  "decode_will buf len i =
     (if len - i < 2 then Some None
      else do {
        n \<leftarrow> get_short buf i;
        let will_topic_length = int (unat n);
        let i = i + 2;
        (if len - i < will_topic_length \<or> will_topic_length < 1 then Some None
         else do {
           t \<leftarrow> vla_string buf i will_topic_length;
           let i = i + will_topic_length;
           (if len - i < 2 then Some None
            else do {
              k \<leftarrow> get_short buf i;
              let will_message_length = int (unat k);
              let i = i + 2;
              (if len - i < will_message_length then Some None
               else do {
                 c \<leftarrow> vla_string buf i will_message_length;
                 Some (Some (i + will_message_length, t, c))
               })
            })
         })
      })"

text \<open>The blocks for the user name and for the password.\<close>

definition decode_cred :: "bool \<Rightarrow> byte list \<Rightarrow> int \<Rightarrow> int \<Rightarrow> (int \<times> cstr ptr) option option" where
  "decode_cred present buf len i =
     (if \<not> present then Some (Some (i, Wild))
      else if len - i < 2 then Some None
      else do {
        n \<leftarrow> get_short buf i;
        let i = i + 2;
        (if len - i < int (unat n) then Some None
         else do {
           u \<leftarrow> vla_string buf i (int (unat n));
           Some (Some (i + int (unat n), u))
         })
      })"

definition decode_connect_strings ::
    "byte list \<Rightarrow> int \<Rightarrow> int \<Rightarrow> int \<Rightarrow> int \<Rightarrow> int \<Rightarrow> Message option" where
  "decode_connect_strings buf len i wflag user_name_flag user_pass_flag = do {
     n \<leftarrow> get_short buf i;
     let i = i + 2;
     cid \<leftarrow> vla_string buf i (int (unat n));
     let i = i + int (unat n);
     w \<leftarrow> (if wflag \<noteq> 0 then decode_will buf len i else Some (Some (i, Wild, Wild)));
     (case w of None \<Rightarrow> Some (no_packet CONNECT)
      | Some (i, _) \<Rightarrow> do {
          u \<leftarrow> decode_cred (user_name_flag \<noteq> 0) buf len i;
          (case u of None \<Rightarrow> Some (no_packet CONNECT)
           | Some (i, _) \<Rightarrow> do {
               p \<leftarrow> decode_cred (user_pass_flag \<noteq> 0) buf len i;
               Some (no_packet CONNECT)
             })
        })
   }"

definition bit_at :: "nat \<Rightarrow> byte \<Rightarrow> int" where
  "bit_at k b = b2i (bit b k)"

definition decode_connect :: "byte list \<Rightarrow> Message option" where
  "decode_connect buf = do {
     ld \<leftarrow> decode_remaining_length buf;
     let i = 1 + ld_bytes_used ld;
     n \<leftarrow> get_short buf i;
     let protocol_name_size = int (unat n);
     let i = i + 2;
     protocol_name \<leftarrow> vla_copy buf i protocol_name_size;
     same \<leftarrow> strcmp_eq PROTOCOL_NAME protocol_name;
     (if \<not> same then Some (no_packet CONNECT)
      else do {
        let i = i + protocol_name_size;
        level \<leftarrow> rd buf i;
        contentFlags \<leftarrow> rd buf (i + 1);
        let i = i + 2;
        let user_name_flag = bit_at 7 contentFlags;
        let user_pass_flag = bit_at 6 contentFlags;
        let retain = bit_at 5 contentFlags;
        let will_qos = drop_bit 3 (contentFlags AND 0x1f) AND 3;
        let wflag = bit_at 2 contentFlags;
        (if will_qos > 2 then Some (no_packet CONNECT)
         else if will_qos \<noteq> 0 \<and> wflag = 0 then Some (no_packet CONNECT)
         else if retain = 1 \<and> wflag = 0 then Some (no_packet CONNECT)
         else if bit_at 0 contentFlags = 1 then Some (no_packet CONNECT)
         else do {
           ka \<leftarrow> get_short buf i;
           decode_connect_strings buf (ld_length ld) (i + 2)
             wflag user_name_flag user_pass_flag
         })
      })
   }"

definition decode_connack :: "byte list \<Rightarrow> Message option" where
  "decode_connack buf = do {
     sp \<leftarrow> rd buf 2;
     (if sp \<noteq> 0 \<and> sp \<noteq> 1 then Some (no_packet CONNACK)
      else do {
        code \<leftarrow> rd buf 3;
        (if code > 5 then Some (no_packet CONNACK)
         else Some \<lparr>message_type = Some CONNACK,
                    packet = Ref (PConnack \<lparr>session_present = uint sp, return_code = ucast code\<rparr>)\<rparr>)
      })
   }"

definition decode_publish :: "byte list \<Rightarrow> Message option" where
  "decode_publish buf = do {
     fixedHeader \<leftarrow> rd buf 0;
     ld \<leftarrow> decode_remaining_length buf;
     let i = 1 + ld_bytes_used ld;
     let fixedHeader = fixedHeader AND 0xf;
     let dup = bit_at 3 fixedHeader;
     let q = drop_bit 1 (fixedHeader AND 0x07);
     (if q > 2 then Some (no_packet PUBLISH)
      else if dup \<noteq> 0 \<and> q = 0 then Some (no_packet PUBLISH)
      else do {
        n \<leftarrow> get_short buf i;
        let topic_length = int (unat n);
        let i = i + 2;
        name \<leftarrow> rd_n buf i topic_length;
        let i = i + topic_length;
        (pid, i) \<leftarrow> (if q \<noteq> 0 then do { x \<leftarrow> get_short buf i; Some (Some x, i + 2) }
                     else Some (None, i));
        let data_length = ld_length ld - i;
        content \<leftarrow> (if data_length > 0
                   then do { data \<leftarrow> rd_n buf i data_length; Some (Ref (cstr_of data)) }
                   else Some Wild);
        Some \<lparr>message_type = Some PUBLISH,
              packet = Ref (PPublish
                \<lparr>pub_topic = \<lparr>topic_name = Ref (cstr_of name), qos = ucast q\<rparr>,
                 pub_content = content, pub_retain = bit_at 0 fixedHeader, pub_dup = dup,
                 is_incoming = None, pub_packet_id = pid, pub_time_stamp = None\<rparr>)\<rparr>
      })
   }"

text \<open>PUBACK, PUBREC, PUBREL, PUBCOMP and UNSUBACK: \<open>get_short(buf, ++i)\<close> with \<open>i = 1\<close>.\<close>

definition decode_ack :: "MessageType \<Rightarrow> (u16 \<Rightarrow> packet) \<Rightarrow> byte list \<Rightarrow> Message option" where
  "decode_ack t con buf = do {
     pid \<leftarrow> get_short buf 2;
     Some \<lparr>message_type = Some t, packet = Ref (con pid)\<rparr>
   }"

text \<open>
  SUBSCRIBE. The array \<open>s.topics\<close> is never allocated, \<open>deref Wild\<close> is the access through it; the
  index \<open>topics_index\<close> stays 0 because no round of the loop returns to its head.
\<close>

function subscribe_loop :: "byte list \<Rightarrow> int \<Rightarrow> int \<Rightarrow> nat \<Rightarrow> nat option option" where
  "subscribe_loop buf topics_size i topics_index =
     (if i < topics_size then do {
        n \<leftarrow> get_short buf i;
        let topic_filter_length = int (unat n);
        topic_filter \<leftarrow> vla_copy buf (i + 2) topic_filter_length;
        q \<leftarrow> rd buf (i + 2 + topic_filter_length);
        (if q > 2 then Some None
         else do {
           _ \<leftarrow> arr_set topic_filter topic_filter_length 0;
           _ \<leftarrow> deref (Wild :: Topic ptr);
           subscribe_loop buf topics_size (i + 3 + topic_filter_length) (topics_index + 1)
         })
      } else Some (Some topics_index))"
  by pat_completeness auto
termination
  by (relation "measure (\<lambda>(buf, ts, i, k). nat (ts - i))") auto

declare subscribe_loop.simps [simp del]

definition decode_subscribe :: "byte list \<Rightarrow> Message option" where
  "decode_subscribe buf = do {
     ld \<leftarrow> decode_remaining_length buf;
     let i = 1 + ld_bytes_used ld;
     pid \<leftarrow> get_short buf i;
     let i = i + 2;
     r \<leftarrow> subscribe_loop buf (ld_length ld - i) i 0;
     Some (no_packet SUBSCRIBE)
   }"

fun suback_codes :: "byte list \<Rightarrow> int \<Rightarrow> nat \<Rightarrow> u32 list option option" where
  "suback_codes buf i 0 = Some (Some [])"
| "suback_codes buf i (Suc k) = do {
     code \<leftarrow> rd buf i;
     (if code \<noteq> 128 \<and> code > 2 then Some None
      else do {
        r \<leftarrow> suback_codes buf (i + 1) k;
        Some (map_option ((#) (ucast code)) r)
      })
   }"

definition decode_suback :: "byte list \<Rightarrow> Message option" where
  "decode_suback buf = do {
     ld \<leftarrow> decode_remaining_length buf;
     let i = 1 + ld_bytes_used ld;
     pid \<leftarrow> get_short buf i;
     let i = i + 2;
     let codes_size = ld_length ld - i;
     r \<leftarrow> suback_codes buf i (nat codes_size);
     (case r of
        None \<Rightarrow> Some (no_packet SUBACK)
      | Some [] \<Rightarrow> Some (no_packet SUBACK)
      | Some cs \<Rightarrow> Some \<lparr>message_type = Some SUBACK,
                        packet = Ref (PSuback \<lparr>suback_packet_id = pid, codes = cs\<rparr>)\<rparr>)
   }"

function unsubscribe_loop :: "byte list \<Rightarrow> int \<Rightarrow> int \<Rightarrow> nat \<Rightarrow> nat option option" where
  "unsubscribe_loop buf topics_size i topics_index =
     (if i < topics_size then do {
        n \<leftarrow> get_short buf i;
        let topic_length = int (unat n);
        topic \<leftarrow> vla_copy buf (i + 2) topic_length;
        bad \<leftarrow> utf8_check topic 0;
        (if bad \<noteq> Null then Some None
         else do {
           _ \<leftarrow> arr_set topic topic_length 0;
           _ \<leftarrow> deref (Wild :: Topic ptr);
           unsubscribe_loop buf topics_size (i + 2 + topic_length) (topics_index + 1)
         })
      } else Some (Some topics_index))"
  by pat_completeness auto
termination
  by (relation "measure (\<lambda>(buf, ts, i, k). nat (ts - i))") auto

declare unsubscribe_loop.simps [simp del]

definition decode_unsubscribe :: "byte list \<Rightarrow> Message option" where
  "decode_unsubscribe buf = do {
     ld \<leftarrow> decode_remaining_length buf;
     let i = 1 + ld_bytes_used ld;
     pid \<leftarrow> get_short buf i;
     let i = i + 2;
     r \<leftarrow> unsubscribe_loop buf (ld_length ld - i) i 0;
     Some (no_packet UNSUBSCRIBE)
   }"

text \<open>The switch of \<open>decode\<close>.\<close>

definition decode_case :: "MessageType \<Rightarrow> byte list \<Rightarrow> Message option" where
  "decode_case t buf =
     (case t of
        CONNECT \<Rightarrow> decode_connect buf
      | CONNACK \<Rightarrow> decode_connack buf
      | PUBLISH \<Rightarrow> decode_publish buf
      | PUBACK \<Rightarrow> decode_ack PUBACK PPuback buf
      | PUBREC \<Rightarrow> decode_ack PUBREC PPubrec buf
      | PUBREL \<Rightarrow> decode_ack PUBREL PPubrel buf
      | PUBCOMP \<Rightarrow> decode_ack PUBCOMP PPubcomp buf
      | SUBSCRIBE \<Rightarrow> decode_subscribe buf
      | SUBACK \<Rightarrow> decode_suback buf
      | UNSUBSCRIBE \<Rightarrow> decode_unsubscribe buf
      | UNSUBACK \<Rightarrow> decode_ack UNSUBACK PUnsuback buf
      | _ \<Rightarrow> Some (no_packet t))"

definition decode :: "byte list \<Rightarrow> Message option" where
  "decode buf = do {
     fixedHeader \<leftarrow> rd buf 0;
     (case mt_of (unat (drop_bit 4 fixedHeader AND 0xf)) of
        None \<Rightarrow> Some \<lparr>message_type = None, packet = Wild\<rparr>
      | Some t \<Rightarrow> decode_case t buf)
   }"

subsection \<open>The packet formats\<close>

definition str_bytes :: "cstr \<Rightarrow> byte list" where
  "str_bytes s = short_bytes (of_nat (length s)) @ s"

text \<open>A fixed header byte, the remaining length, and what it is the length of.\<close>

definition packet_bytes :: "byte \<Rightarrow> byte list \<Rightarrow> byte list" where
  "packet_bytes first body = first # vbi (length body) @ body"

definition opt_string :: "cstr \<Rightarrow> byte list" where
  "opt_string s = (if s = [] then [] else str_bytes s)"

text \<open>The body of a CONNECT; \<open>u\<close> and \<open>p\<close> are the flags that announce a user name and a password.\<close>

definition connect_body :: "byte \<Rightarrow> byte \<Rightarrow> Connect \<Rightarrow> cstr \<Rightarrow> cstr \<Rightarrow> cstr \<Rightarrow> cstr \<Rightarrow> cstr \<Rightarrow> byte list" where
  "connect_body u p c cid topic content user pass =
     [0, 4, 0x4d, 0x51, 0x54, 0x54, 4,
      (if clean_session c \<noteq> 0 then 2 else 0)
      + (if will_flag c \<noteq> 0
         then 4 + push_bit 3 (ucast (qos (will_topic (will c))))
              + (if will_retain (will c) \<noteq> 0 then 0x20 else 0)
         else 0)
      + (if user \<noteq> [] then u else 0) + (if pass \<noteq> [] then p else 0)]
     @ short_bytes (keepalive c) @ str_bytes cid
     @ (if will_flag c \<noteq> 0 then opt_string topic @ opt_string content else [])
     @ opt_string user @ opt_string pass"

definition publish_first :: "Publish \<Rightarrow> byte" where
  "publish_first p =
     0x30 + (if pub_dup p \<noteq> 0 then 8 else 0) + push_bit 1 (ucast (qos (pub_topic p)))
       + (if pub_retain p \<noteq> 0 then 1 else 0)"

definition publish_body :: "cstr \<Rightarrow> u16 \<Rightarrow> cstr \<Rightarrow> byte list" where
  "publish_body topic pid content =
     opt_string topic @ (if pid \<noteq> 0 then short_bytes pid else []) @ content"

lemma length_opt_string: "length (opt_string s) = (if s = [] then 0 else length s + 2)"
  by (simp add: opt_string_def str_bytes_def)

lemma length_str_bytes [simp]: "length (str_bytes s) = length s + 2"
  by (simp add: str_bytes_def)

lemma u16_length_0: "length s < 65536 \<Longrightarrow> (of_nat (length s) :: u16) = 0 \<longleftrightarrow> s = []"
  by (simp add: word_of_nat_eq_0_iff) (auto dest: dvd_imp_le)

lemma unat_u16_length: "length s < 65536 \<Longrightarrow> unat (of_nat (length s) :: u16) = length s"
  by (simp add: unat_of_nat)

lemma uint_u16_length: "length s < 65536 \<Longrightarrow> uint (of_nat (length s) :: u16) = int (length s)"
  using unat_u16_length [of s] by (simp add: uint_nat)

lemma put_then_string:
  assumes "length s < 65536"
  shows "Option.bind (put bs w) (\<lambda>w. Option.bind (put_string (Ref s) w) f) =
           Option.bind (put (bs @ opt_string s) w) f"
  using assms
  by (simp add: put_string_def u16_length_0 unat_u16_length opt_string_def str_bytes_def add_short_def
      Let_def)

lemma put_then_string_last:
  assumes "length s < 65536"
  shows "Option.bind (put bs w) (put_string (Ref s)) = put (bs @ opt_string s) w"
  using put_then_string [OF assms, of bs w Some] by simp

lemma connect_flags_eq:
  assumes "username c = Ref user" "password c = Ref pass"
  shows "connect_flags c = Some (connect_body 0x40 0x80 c cid topic content user pass ! 7)"
  using assms by (simp add: connect_flags_def connect_body_def)

lemma header_put:
  "Option.bind (put [b] (wstate [] n)) (\<lambda>w. Option.bind (add_packet_length l (fst w)) f) =
   Option.bind (put (b # vbi l) (wstate [] n)) f"
  by (auto simp: cmem)

lemma header_poke:
  "Option.bind (poke [b] (wstate [] n)) (\<lambda>w. Option.bind (add_packet_length l (fst w)) f) =
   Option.bind (put (b # vbi l) (wstate [] n)) f"
  by (auto simp: cmem poke_wstate split: if_splits)

subsection \<open>The encoder writes the packet formats\<close>

text \<open>
  A buffer of \<open>l + 2\<close> bytes holds the first byte, a one-byte length field and \<open>l\<close> bytes: a
  packet fits exactly when \<open>l\<close> is below 128.
\<close>

lemma vbi_fits: "length (vbi l) \<le> 1 \<longleftrightarrow> l < 128"
proof (cases "l < 128")
  case False
  have "vbi (l div 128) \<noteq> []" using length_vbi_pos [of "l div 128"] by auto
  with False show ?thesis by (simp add: vbi.simps [of l])
qed (simp add: vbi_small)

lemma put_packet:
  assumes "length body = l"
  shows "put (first # vbi l @ body) (wstate [] (l + 2)) =
           (if l < 128 then Some (wstate (packet_bytes first body) 0) else None)"
proof -
  have "length (vbi l) + l \<le> Suc l \<longleftrightarrow> l < 128"
    using vbi_fits [of l] by linarith
  moreover have "l < 128 \<Longrightarrow> length (vbi l) = 1" by (simp add: vbi_small)
  ultimately show ?thesis using assms by (simp add: put_wstate packet_bytes_def)
qed

lemma encode_connect_eq:
  assumes "as_connect m = Some c"
    and "username c = Ref user" "password c = Ref pass" "client_id c = Ref cid"
    and "will_flag c \<noteq> 0 \<Longrightarrow> topic_name (will_topic (will c)) = Ref topic"
    and "will_flag c \<noteq> 0 \<Longrightarrow> will_content (will c) = Ref content"
    and "length user < 65536" "length pass < 65536" "length cid < 65536" "length topic < 65536"
      "length content < 65536"
  shows "encode_connect m l (wstate [] n) =
           put (type_byte CONNECT # vbi l @ connect_body 0x40 0x80 c cid topic content user pass) (wstate [] n)"
proof -
  have flags: "connect_flags c = Some (connect_body 0x40 0x80 c cid topic content user pass ! 7)"
    using assms(2,3) by (rule connect_flags_eq)
  show ?thesis
    using assms
    by (cases "will_flag c = 0")
      (simp_all add: encode_connect_def flags header_put PROTOCOL_NAME_def DEFAULT_PROTOCOL_LEVEL_def
        add_short_def unat_u16_length put_then_string put_then_string_last Let_def connect_body_def
        str_bytes_def)
qed

lemma encode_publish_eq:
  assumes "as_publish m = Some p" and "topic_name (pub_topic p) = Ref topic"
    and "pub_content p = Ref content" and "pub_packet_id p = Some pid"
    and "length topic < 65536"
  shows "map_option fst (encode_publish m l (wstate [] n)) =
           map_option fst (put (publish_first p # vbi l @ publish_body topic pid content) (wstate [] n))"
proof -
  have "encode_publish m l (wstate [] n) =
      Option.bind (put (publish_first p # vbi l @ opt_string topic
        @ (if pid \<noteq> 0 then short_bytes pid else [])) (wstate [] n)) (poke content)"
    using assms
    by (cases "pid = 0")
      (simp_all add: encode_publish_def header_poke put_then_string add_short_def Let_def
        publish_first_def type_byte_def)
  then show ?thesis
    by (simp add: put_poke_fst publish_body_def)
qed

lemma encode_ack_eq:
  assumes "as_packet_id m = Some pid"
  shows "map_option fst (encode_ack first m l (wstate [] n)) =
           map_option fst (put (first # of_nat l # short_bytes pid) (wstate [] n))"
proof -
  have "encode_ack first m l (wstate [] n) =
      Option.bind (put [first, of_nat l] (wstate [] n)) (poke (short_bytes pid))"
    using assms by (simp add: encode_ack_def poke_short_def)
  then show ?thesis by (simp add: put_poke_fst)
qed

lemma encode_unsuback_eq:
  assumes "as_packet_id m = Some pid"
  shows "map_option fst (encode_unsuback m l (wstate [] n)) =
           map_option fst (put (type_byte UNSUBACK # vbi l @ short_bytes pid) (wstate [] n))"
proof -
  have "encode_unsuback m l (wstate [] n) =
      Option.bind (put (type_byte UNSUBACK # vbi l) (wstate [] n)) (poke (short_bytes pid))"
    using assms by (simp add: encode_unsuback_def header_put poke_short_def)
  then show ?thesis by (simp add: put_poke_fst)
qed

lemma encode_sub_topics_one:
  "encode_sub_topics [t] =
     (\<lambda>w. Option.bind (put_string (topic_name t) w) (poke [ucast (qos t)]))"
proof -
  have "encode_sub_topics [] = Some" by (rule ext) simp
  then show ?thesis by (intro ext) simp
qed

lemma encode_unsub_topics_fun:
  "encode_unsub_topics [] = Some"
  "encode_unsub_topics (t # ts) =
     (\<lambda>w. Option.bind (put_string (topic_name t) w) (encode_unsub_topics ts))"
  by (rule ext, simp)+

lemma encode_subscribe_eq:
  assumes "as_subscribe m = Some s" and "sub_topics s = [t]" and "topic_name t = Ref topic"
    and "length topic < 65536"
  shows "map_option fst (encode_subscribe m l (wstate [] n)) =
           map_option fst (put ((type_byte SUBSCRIBE OR 2) # vbi l @ short_bytes (sub_packet_id s)
             @ opt_string topic @ [ucast (qos t)]) (wstate [] n))"
proof -
  have "encode_subscribe m l (wstate [] n) =
      Option.bind (put ((type_byte SUBSCRIBE OR 2) # vbi l @ short_bytes (sub_packet_id s)
        @ opt_string topic) (wstate [] n)) (poke [ucast (qos t)])"
    using assms by (simp add: encode_subscribe_def header_put put_then_string add_short_def
        encode_sub_topics_one)
  then show ?thesis by (simp add: put_poke_fst)
qed

lemma encode_unsub_topics_eq:
  assumes "map topic_name ts = map Ref ss" and "\<forall>s \<in> set ss. length s < 65536"
  shows "Option.bind (put bs w) (encode_unsub_topics ts) = put (bs @ concat (map opt_string ss)) w"
  using assms
proof (induction ts arbitrary: ss bs)
  case (Cons t ts)
  then obtain s ss' where "ss = s # ss'" "topic_name t = Ref s" by (cases ss) auto
  with Cons show ?case by (simp add: encode_unsub_topics_fun put_then_string)
qed (simp add: encode_unsub_topics_fun)

lemma encode_unsubscribe_eq:
  assumes "as_unsubscribe m = Some us" and "map topic_name (unsub_topics us) = map Ref ss"
    and "\<forall>s \<in> set ss. length s < 65536"
  shows "encode_unsubscribe m l (wstate [] n) =
           put ((type_byte UNSUBSCRIBE OR 2) # vbi l @ short_bytes (unsub_packet_id us)
             @ concat (map opt_string ss)) (wstate [] n)"
  using assms encode_unsub_topics_eq [OF assms(2,3)]
  by (simp add: encode_unsubscribe_def header_put add_short_def)

subsection \<open>The wire format of every packet\<close>

text \<open>
  The first byte and the body of the MQTT 3.1.1 packet of a message, where the message is one
  the protocol allows: strings below 64 KB, a will with topic and payload, a topic name in a
  PUBLISH and in every subscription.
\<close>

definition wire_string :: "cstr ptr \<Rightarrow> cstr option" where
  "wire_string p = do { s \<leftarrow> deref p; c_assert (length s < 65536); Some s }"

definition wire_topic :: "cstr ptr \<Rightarrow> cstr option" where
  "wire_topic p = do { s \<leftarrow> wire_string p; c_assert (s \<noteq> []); Some s }"

fun wire_topics :: "(Topic \<Rightarrow> byte list) \<Rightarrow> Topic list \<Rightarrow> byte list option" where
  "wire_topics options [] = Some []"
| "wire_topics options (t # ts) = do {
     s \<leftarrow> wire_topic (topic_name t);
     r \<leftarrow> wire_topics options ts;
     Some (str_bytes s @ options t @ r)
   }"

definition wire_ack :: "byte \<Rightarrow> Message \<Rightarrow> (byte \<times> byte list) option" where
  "wire_ack first m = do { i \<leftarrow> as_packet_id m; Some (first, short_bytes i) }"

definition mqtt_layout :: "byte \<Rightarrow> byte \<Rightarrow> Message \<Rightarrow> (byte \<times> byte list) option" where
  "mqtt_layout u p m = do {
     t \<leftarrow> message_type m;
     (case t of
        CONNECT \<Rightarrow> do {
          c \<leftarrow> as_connect m;
          user \<leftarrow> wire_string (username c);
          pass \<leftarrow> wire_string (password c);
          cid \<leftarrow> wire_string (client_id c);
          (topic, content) \<leftarrow> (if will_flag c \<noteq> 0 then do {
              a \<leftarrow> wire_topic (topic_name (will_topic (will c)));
              b \<leftarrow> wire_topic (will_content (will c));
              Some (a, b)
            } else Some ([], []));
          Some (0x10, connect_body u p c cid topic content user pass)
        }
      | CONNACK \<Rightarrow> do {
          ca \<leftarrow> as_connack m;
          Some (0x20, [of_int (session_present ca), ucast (return_code ca)])
        }
      | PUBLISH \<Rightarrow> do {
          p \<leftarrow> as_publish m;
          topic \<leftarrow> wire_topic (topic_name (pub_topic p));
          content \<leftarrow> deref (pub_content p);
          pid \<leftarrow> pub_packet_id p;
          Some (publish_first p, publish_body topic pid content)
        }
      | PUBACK \<Rightarrow> wire_ack 0x40 m
      | PUBREC \<Rightarrow> wire_ack 0x50 m
      | PUBREL \<Rightarrow> wire_ack 0x62 m
      | PUBCOMP \<Rightarrow> wire_ack 0x70 m
      | SUBSCRIBE \<Rightarrow> do {
          s \<leftarrow> as_subscribe m;
          r \<leftarrow> wire_topics (\<lambda>t. [ucast (qos t)]) (sub_topics s);
          Some (0x82, short_bytes (sub_packet_id s) @ r)
        }
      | SUBACK \<Rightarrow> do {
          sa \<leftarrow> as_suback m;
          Some (0x90, short_bytes (suback_packet_id sa) @ map ucast (codes sa))
        }
      | UNSUBSCRIBE \<Rightarrow> do {
          us \<leftarrow> as_unsubscribe m;
          r \<leftarrow> wire_topics (\<lambda>t. []) (unsub_topics us);
          Some (0xa2, short_bytes (unsub_packet_id us) @ r)
        }
      | UNSUBACK \<Rightarrow> wire_ack 0xb0 m
      | PINGREQ \<Rightarrow> Some (0xc0, [])
      | PINGRESP \<Rightarrow> Some (0xd0, [])
      | DISCONNECT \<Rightarrow> Some (0xe0, []))
   }"

text \<open>
  MQTT 3.1.1 announces the user name by the highest bit of the connect flags and the password by the next one;
  \<open>encode\<close> (src/src/mqtt/parser.c:137) has them the other way round, \<open>decode\<close> (line 332) has not. \<open>mqtt_wire\<close> is
  the packet of the protocol, for the messages the protocol allows; \<open>mqtt_sent\<close> is what the client writes.
\<close>

definition mqtt_valid :: "Message \<Rightarrow> bool" where
  "mqtt_valid m =
     (case message_type m of
        None \<Rightarrow> False
      | Some CONNECT \<Rightarrow> (case as_connect m of None \<Rightarrow> False | Some c \<Rightarrow>
          (will_flag c = 0 \<or> qos (will_topic (will c)) < 3) \<and>
          (password c = Ref [] \<or> username c \<noteq> Ref []) \<and>
          (client_id c \<noteq> Ref [] \<or> clean_session c \<noteq> 0))
      | Some CONNACK \<Rightarrow> (case as_connack m of None \<Rightarrow> False | Some a \<Rightarrow>
          session_present a \<in> {0, 1} \<and> return_code a \<le> 5 \<and> (return_code a = 0 \<or> session_present a = 0))
      | Some PUBLISH \<Rightarrow> (case as_publish m of None \<Rightarrow> False | Some b \<Rightarrow>
          qos (pub_topic b) < 3 \<and> (pub_dup b = 0 \<or> qos (pub_topic b) \<noteq> 0) \<and>
          (pub_packet_id b = Some 0 \<longleftrightarrow> qos (pub_topic b) = 0))
      | Some SUBSCRIBE \<Rightarrow> (case as_subscribe m of None \<Rightarrow> False | Some s \<Rightarrow>
          sub_packet_id s \<noteq> 0 \<and> sub_topics s \<noteq> [] \<and> list_all (\<lambda>t. qos t < 3) (sub_topics s))
      | Some SUBACK \<Rightarrow> (case as_suback m of None \<Rightarrow> False | Some a \<Rightarrow>
          suback_packet_id a \<noteq> 0 \<and> codes a \<noteq> [] \<and> list_all (\<lambda>x. x < 3 \<or> x = 128) (codes a))
      | Some UNSUBSCRIBE \<Rightarrow> (case as_unsubscribe m of None \<Rightarrow> False | Some s \<Rightarrow>
          unsub_packet_id s \<noteq> 0 \<and> unsub_topics s \<noteq> [])
      | Some PINGREQ \<Rightarrow> True | Some PINGRESP \<Rightarrow> True | Some DISCONNECT \<Rightarrow> True
      | Some _ \<Rightarrow> as_packet_id m \<noteq> Some 0)"

definition mqtt_wire :: "Message \<Rightarrow> (byte \<times> byte list) option" where
  "mqtt_wire m = (if mqtt_valid m then mqtt_layout 0x80 0x40 m else None)"

definition mqtt_sent :: "Message \<Rightarrow> (byte \<times> byte list) option" where
  "mqtt_sent m = mqtt_layout 0x40 0x80 m"

text \<open>A CONNECT with a user name and without a password is the valid one on which they differ.\<close>

definition user_only :: "Message \<Rightarrow> bool" where
  "user_only m =
     (message_type m = Some CONNECT \<and>
      (case as_connect m of None \<Rightarrow> False | Some c \<Rightarrow> username c \<noteq> Ref [] \<and> password c = Ref []))"

text \<open>The messages whose wire format the encoder produces: see \<open>encode_divergence\<close> for the rest.\<close>

definition encoder_supports :: "Message \<Rightarrow> bool" where
  "encoder_supports m =
     (case message_type m of
        None \<Rightarrow> False
      | Some t \<Rightarrow>
          t \<notin> {SUBACK, PINGREQ, PINGRESP, DISCONNECT} \<and>
          (t = SUBSCRIBE \<longrightarrow> (case as_subscribe m of
              Some s \<Rightarrow> length (sub_topics s) = 1 | None \<Rightarrow> False)))"

lemma wire_string_Some [simp]: "wire_string p = Some s \<longleftrightarrow> p = Ref s \<and> length s < 65536"
  by (auto simp: wire_string_def bind_Some_iff)

lemma wire_topic_Some [simp]:
  "wire_topic p = Some s \<longleftrightarrow> p = Ref s \<and> length s < 65536 \<and> s \<noteq> []"
  by (auto simp: wire_topic_def bind_Some_iff)

lemma wire_topics_Some:
  "wire_topics options ts = Some r \<Longrightarrow>
   \<exists>ss. map topic_name ts = map Ref ss \<and> (\<forall>s \<in> set ss. length s < 65536 \<and> s \<noteq> []) \<and>
     r = concat (map2 (\<lambda>s t. str_bytes s @ options t) ss ts) \<and>
     topics_length k ts = Some (sum_list (map (\<lambda>s. length s + k) ss)) \<and> length ss = length ts"
proof (induction ts arbitrary: r)
  case (Cons t ts)
  then obtain s r' where s: "topic_name t = Ref s" "length s < 65536" "s \<noteq> []"
    "wire_topics options ts = Some r'" "r = str_bytes s @ options t @ r'"
    by (auto simp: bind_Some_iff)
  with Cons.IH obtain ss where ss: "map topic_name ts = map Ref ss"
    "\<forall>s \<in> set ss. length s < 65536 \<and> s \<noteq> []"
    "r' = concat (map2 (\<lambda>s t. str_bytes s @ options t) ss ts)"
    "topics_length k ts = Some (sum_list (map (\<lambda>s. length s + k) ss))" "length ss = length ts"
    by blast
  with s show ?case by (intro exI [of _ "s # ss"]) simp
qed simp

lemma type_bytes:
  "type_byte CONNECT = 0x10" "type_byte CONNACK = 0x20" "type_byte PUBLISH = 0x30"
  "type_byte PUBACK = 0x40" "type_byte PUBREC = 0x50" "type_byte PUBREL = 0x60"
  "type_byte PUBCOMP = 0x70" "type_byte SUBSCRIBE = 0x80" "type_byte SUBACK = 0x90"
  "type_byte UNSUBSCRIBE = 0xa0" "type_byte UNSUBACK = 0xb0" "type_byte PINGREQ = 0xc0"
  "type_byte PINGRESP = 0xd0" "type_byte DISCONNECT = 0xe0"
  by (simp_all add: type_byte_def push_bit_eq_mult)

lemma length_wire_topics:
  "wire_topics options ts = Some r \<Longrightarrow> (\<And>t. length (options t) = j) \<Longrightarrow> k = j + 2 \<Longrightarrow>
   topics_length k ts = Some (length r)"
proof (induction ts arbitrary: r)
  case (Cons t ts)
  then show ?case by (auto simp: bind_Some_iff)
qed simp

lemma length_connect_body:
  "length (connect_body u p c cid topic content user pass) =
     10 + (length cid + 2)
     + (if will_flag c \<noteq> 0 then length (opt_string topic @ opt_string content) else 0)
     + length (opt_string user) + length (opt_string pass)"
  by (simp add: connect_body_def)

text \<open>What a message with a wire format looks like, type by type.\<close>

lemma wire_connectE:
  assumes "mqtt_sent m = Some (first, body)" and "message_type m = Some CONNECT"
  obtains c user pass cid topic content where
    "as_connect m = Some c" "username c = Ref user" "password c = Ref pass" "client_id c = Ref cid"
    "will_flag c \<noteq> 0 \<longrightarrow> topic_name (will_topic (will c)) = Ref topic \<and> topic \<noteq> []"
    "will_flag c \<noteq> 0 \<longrightarrow> will_content (will c) = Ref content \<and> content \<noteq> []"
    "length user < 65536" "length pass < 65536" "length cid < 65536" "length topic < 65536"
    "length content < 65536" "first = 0x10" "body = connect_body 0x40 0x80 c cid topic content user pass"
proof -
  from assms obtain c user pass cid where c: "as_connect m = Some c" "username c = Ref user"
    "password c = Ref pass" "client_id c = Ref cid"
    "length user < 65536" "length pass < 65536" "length cid < 65536"
    by (auto simp: mqtt_sent_def mqtt_layout_def bind_Some_iff)
  show thesis
  proof (cases "will_flag c = 0")
    case True
    with c assms that [of c user pass cid "[]" "[]"] show thesis
      by (auto simp: mqtt_sent_def mqtt_layout_def bind_Some_iff)
  next
    case False
    with c assms obtain topic content where
      "topic_name (will_topic (will c)) = Ref topic" "will_content (will c) = Ref content"
      "topic \<noteq> []" "content \<noteq> []" "length topic < 65536" "length content < 65536"
      "first = 0x10" "body = connect_body 0x40 0x80 c cid topic content user pass"
      by (auto simp: mqtt_sent_def mqtt_layout_def bind_Some_iff)
    with c that [of c user pass cid topic content] show thesis by simp
  qed
qed

lemma wire_publishE:
  assumes "mqtt_sent m = Some (first, body)" and "message_type m = Some PUBLISH"
  obtains p topic content pid where
    "as_publish m = Some p" "topic_name (pub_topic p) = Ref topic" "topic \<noteq> []"
    "pub_content p = Ref content" "pub_packet_id p = Some pid" "length topic < 65536"
    "first = publish_first p" "body = publish_body topic pid content"
  using assms by (auto simp: mqtt_sent_def mqtt_layout_def bind_Some_iff)

lemma wire_subscribeE:
  assumes "mqtt_sent m = Some (first, body)" and "message_type m = Some SUBSCRIBE"
  obtains s r where "as_subscribe m = Some s"
    "wire_topics (\<lambda>t. [ucast (qos t)]) (sub_topics s) = Some r"
    "first = 0x82" "body = short_bytes (sub_packet_id s) @ r"
  using assms by (auto simp: mqtt_sent_def mqtt_layout_def bind_Some_iff)

lemma wire_unsubscribeE:
  assumes "mqtt_sent m = Some (first, body)" and "message_type m = Some UNSUBSCRIBE"
  obtains us r where "as_unsubscribe m = Some us"
    "wire_topics (\<lambda>t. []) (unsub_topics us) = Some r"
    "first = 0xa2" "body = short_bytes (unsub_packet_id us) @ r"
  using assms by (auto simp: mqtt_sent_def mqtt_layout_def bind_Some_iff)

lemma wire_typeE:
  assumes "mqtt_sent m = Some x"
  obtains t where "message_type m = Some t"
  using assms by (auto simp: mqtt_sent_def mqtt_layout_def bind_Some_iff)

text \<open>\<open>get_length\<close> is the length of the body.\<close>

lemma get_length_wire:
  assumes "mqtt_sent m = Some (first, body)"
  shows "get_length m = Some (length body)"
proof -
  from assms obtain t where t: "message_type m = Some t" by (auto elim: wire_typeE)
  show ?thesis
  proof (cases t)
    case CONNECT
    with t have "message_type m = Some CONNECT" by simp
    from wire_connectE [OF assms this] obtain c user pass cid topic content where
      "as_connect m = Some c" "username c = Ref user" "password c = Ref pass" "client_id c = Ref cid"
      "will_flag c \<noteq> 0 \<longrightarrow> topic_name (will_topic (will c)) = Ref topic \<and> topic \<noteq> []"
      "will_flag c \<noteq> 0 \<longrightarrow> will_content (will c) = Ref content \<and> content \<noteq> []"
      "body = connect_body 0x40 0x80 c cid topic content user pass" .
    with t CONNECT show ?thesis
      by (cases "will_flag c = 0") (simp_all add: get_length_def length_connect_body length_opt_string)
  next
    case PUBLISH
    with t have "message_type m = Some PUBLISH" by simp
    from wire_publishE [OF assms this] obtain p topic content pid where
      "as_publish m = Some p" "topic_name (pub_topic p) = Ref topic" "topic \<noteq> []"
      "pub_content p = Ref content" "pub_packet_id p = Some pid"
      "body = publish_body topic pid content" .
    with t PUBLISH show ?thesis
      by (simp add: get_length_def publish_body_def length_opt_string)
  next
    case SUBSCRIBE
    with t have "message_type m = Some SUBSCRIBE" by simp
    from wire_subscribeE [OF assms this] obtain s r where
      "as_subscribe m = Some s" "wire_topics (\<lambda>t. [ucast (qos t)]) (sub_topics s) = Some r"
      "body = short_bytes (sub_packet_id s) @ r" .
    with t SUBSCRIBE length_wire_topics [of _ "sub_topics s" r 1 3] show ?thesis
      by (simp add: get_length_def)
  next
    case UNSUBSCRIBE
    with t have "message_type m = Some UNSUBSCRIBE" by simp
    from wire_unsubscribeE [OF assms this] obtain us r where
      "as_unsubscribe m = Some us" "wire_topics (\<lambda>t. []) (unsub_topics us) = Some r"
      "body = short_bytes (unsub_packet_id us) @ r" .
    with t UNSUBSCRIBE length_wire_topics [of _ "unsub_topics us" r 0 2] show ?thesis
      by (simp add: get_length_def)
  qed (use t assms in \<open>auto simp: mqtt_sent_def mqtt_layout_def get_length_def bind_Some_iff wire_ack_def\<close>)
qed

lemma put_packet_fst:
  "map_option fst (put (first # vbi (length body) @ body) (wstate [] (length body + 2))) =
     (if length body < 128 then Some (map Some (packet_bytes first body)) else None)"
  by (simp add: put_packet [OF refl, simplified] fst_wstate_pair)

lemma encode_wire:
  assumes "mqtt_sent m = Some (first, body)" and "encoder_supports m"
  shows "encode m (length body) =
           (if length body < 128 then Some (map Some (packet_bytes first body)) else None)"
proof -
  from assms obtain t where t: "message_type m = Some t" by (auto elim: wire_typeE)
  let ?w = "wstate [] (length body + 2)"
  have ack: ?thesis
    if "wire_ack b m = Some (first, body)"
      "encode m (length body) = map_option fst (encode_ack b m (length body) ?w)" for b
    using that encode_ack_eq [of m _ b "length body" "length body + 2"]
    by (auto simp: wire_ack_def bind_Some_iff put_wstate fst_wstate_pair packet_bytes_def vbi_small)
  note enc = encode_def t wstate_malloc bind_Some_fst
  show ?thesis
  proof (cases t)
    case CONNECT
    with t have "message_type m = Some CONNECT" by simp
    from wire_connectE [OF assms(1) this] obtain c user pass cid topic content where
      "as_connect m = Some c" "username c = Ref user" "password c = Ref pass" "client_id c = Ref cid"
      "will_flag c \<noteq> 0 \<longrightarrow> topic_name (will_topic (will c)) = Ref topic \<and> topic \<noteq> []"
      "will_flag c \<noteq> 0 \<longrightarrow> will_content (will c) = Ref content \<and> content \<noteq> []"
      "length user < 65536" "length pass < 65536" "length cid < 65536" "length topic < 65536"
      "length content < 65536" "first = 0x10" "body = connect_body 0x40 0x80 c cid topic content user pass" .
    with encode_connect_eq [of m c user pass cid topic content "length body" "length body + 2"]
      put_packet_fst [of "0x10" body] CONNECT show ?thesis
      by (simp add: enc type_bytes)
  next
    case CONNACK
    have "get_length m = Some (length body)" using assms(1) by (rule get_length_wire)
    with CONNACK t assms(1) show ?thesis
      by (auto simp: enc mqtt_sent_def mqtt_layout_def bind_Some_iff encode_connack_def put_wstate wstate_def wr_at_def
          packet_bytes_def vbi_small type_bytes)
  next
    case PUBLISH
    with t have "message_type m = Some PUBLISH" by simp
    from wire_publishE [OF assms(1) this] obtain p topic content pid where
      "as_publish m = Some p" "topic_name (pub_topic p) = Ref topic"
      "pub_content p = Ref content" "pub_packet_id p = Some pid" "length topic < 65536"
      and "first = publish_first p" "body = publish_body topic pid content" .
    with encode_publish_eq [of m p topic content pid "length body" "length body + 2"]
      put_packet_fst [of first body] PUBLISH show ?thesis
      by (simp add: enc)
  next
    case SUBSCRIBE
    with t have "message_type m = Some SUBSCRIBE" by simp
    from wire_subscribeE [OF assms(1) this] obtain s r where s1: "as_subscribe m = Some s"
      "wire_topics (\<lambda>t. [ucast (qos t)]) (sub_topics s) = Some r"
      "first = 0x82" "body = short_bytes (sub_packet_id s) @ r" .
    with SUBSCRIBE t assms(2) have s: "as_subscribe m = Some s" "length (sub_topics s) = 1"
      "wire_topics (\<lambda>t. [ucast (qos t)]) (sub_topics s) = Some r"
      "first = 0x82" "body = short_bytes (sub_packet_id s) @ r"
      by (simp_all add: encoder_supports_def)
    from s(2) obtain u where u: "sub_topics s = [u]" by (auto simp: length_Suc_conv)
    with s obtain topic where "topic_name u = Ref topic" "length topic < 65536"
      "r = opt_string topic @ [ucast (qos u)]"
      by (auto simp: bind_Some_iff opt_string_def)
    with s u encode_subscribe_eq [of m s u topic "length body" "length body + 2"]
      put_packet_fst [of "0x82" body] SUBSCRIBE show ?thesis
      by (simp add: enc type_bytes)
  next
    case UNSUBSCRIBE
    with t have "message_type m = Some UNSUBSCRIBE" by simp
    from wire_unsubscribeE [OF assms(1) this] obtain us r where us: "as_unsubscribe m = Some us"
      "wire_topics (\<lambda>t. []) (unsub_topics us) = Some r"
      "first = 0xa2" "body = short_bytes (unsub_packet_id us) @ r" .
    from wire_topics_Some [OF us(2), of 0] obtain ss where ss:
      "map topic_name (unsub_topics us) = map Ref ss" "\<forall>s \<in> set ss. length s < 65536 \<and> s \<noteq> []"
      "r = concat (map2 (\<lambda>s t. str_bytes s @ []) ss (unsub_topics us))" "length ss = length (unsub_topics us)"
      by blast
    have "map2 (\<lambda>s t. str_bytes s @ []) ss (unsub_topics us) = map str_bytes ss"
      using ss(4) by (simp add: case_prod_beta' map_fst_zip flip: map_map [unfolded comp_def])
    also have "\<dots> = map opt_string ss"
      using ss(2) by (simp add: opt_string_def)
    finally have "r = concat (map opt_string ss)" using ss(3) by simp
    with us ss encode_unsubscribe_eq [of m us ss "length body" "length body + 2"]
      put_packet_fst [of "0xa2" body] UNSUBSCRIBE show ?thesis
      by (simp add: enc type_bytes)
  next
    case UNSUBACK
    with t assms(1) obtain pid where "as_packet_id m = Some pid" "first = 0xb0" "body = short_bytes pid"
      by (auto simp: mqtt_sent_def mqtt_layout_def wire_ack_def bind_Some_iff)
    with encode_unsuback_eq [of m pid "length body" "length body + 2"]
      put_packet_fst [of "0xb0" body] UNSUBACK show ?thesis
      by (simp add: enc type_bytes)
  qed (use t assms ack in \<open>auto simp: mqtt_sent_def mqtt_layout_def encoder_supports_def enc type_bytes\<close>)
qed

text \<open>
  For a valid message the client writes the packet of the protocol, but for the two flags when only a user name is given.
\<close>

definition exchange_flags :: "byte list \<Rightarrow> byte list" where
  "exchange_flags body = body[7 := body ! 7 XOR 0xC0]"

lemma length_exchange_flags [simp]: "length (exchange_flags body) = length body"
  by (simp add: exchange_flags_def)

lemma connect_body_exchange:
  assumes "user \<noteq> []" and "will_flag c = 0 \<or> qos (will_topic (will c)) < 3"
  shows "connect_body 0x40 0x80 c cid topic content user [] =
           exchange_flags (connect_body 0x80 0x40 c cid topic content user [])"
proof -
  have "q = 0 \<or> q = 1 \<or> q = 2" if "q < 3" for q :: u32
    using that by unat_arith
  then have "will_flag c = 0 \<or> qos (will_topic (will c)) = 0 \<or> qos (will_topic (will c)) = 1 \<or>
      qos (will_topic (will c)) = 2" using assms(2) by blast
  with assms(1) show ?thesis
    by (elim disjE) (simp_all add: connect_body_def exchange_flags_def)
qed

lemma connect_body_both:
  "(user = [] \<longleftrightarrow> pass = []) \<Longrightarrow>
   connect_body u p c cid topic content user pass = connect_body p u c cid topic content user pass"
  by (auto simp: connect_body_def)

lemma mqtt_wire_sent:
  assumes "mqtt_wire m = Some (first, body)"
  shows "mqtt_sent m = Some (first, if user_only m then exchange_flags body else body)"
proof -
  from assms have v: "mqtt_valid m" "mqtt_layout 0x80 0x40 m = Some (first, body)"
    by (auto simp: mqtt_wire_def split: if_splits)
  then obtain t where t: "message_type m = Some t" by (auto simp: mqtt_valid_def split: option.splits)
  show ?thesis
  proof (cases "t = CONNECT")
    case True
    with v t obtain c user pass cid topic content where c: "as_connect m = Some c" "username c = Ref user"
      "password c = Ref pass" and "will_flag c = 0 \<or> qos (will_topic (will c)) < 3" "pass = [] \<or> user \<noteq> []"
      and l: "\<And>u p. mqtt_layout u p m = Some (0x10, connect_body u p c cid topic content user pass)"
      by (auto simp: mqtt_layout_def mqtt_valid_def bind_Some_iff)
    moreover have "user_only m \<longleftrightarrow> user \<noteq> [] \<and> pass = []"
      using True t c by (simp add: user_only_def)
    ultimately show ?thesis
      using v(2) connect_body_exchange [of user c cid topic content]
        connect_body_both [of user pass "0x40" "0x80" c cid topic content]
      by (auto simp: mqtt_sent_def)
  next
    case False
    with v(2) t show ?thesis
      by (cases t) (simp_all add: user_only_def mqtt_sent_def mqtt_layout_def)
  qed
qed

subsection \<open>The decoder\<close>

lemma get_short_at:
  "buf = xs @ short_bytes s @ ys \<Longrightarrow> i = int (length xs) \<Longrightarrow> get_short buf i = Some s"
  by (simp add: get_short_short_bytes)

lemma rd_n_at:
  "buf = xs @ ys @ zs \<Longrightarrow> i = int (length xs) \<Longrightarrow> n = int (length ys) \<Longrightarrow> rd_n buf i n = Some ys"
  by (simp add: rd_n_append)

lemma decode_remaining_length_packet:
  assumes "length body < 128"
  shows "decode_remaining_length (packet_bytes first body @ rest) =
           Some \<lparr>ld_length = int (length body) + 2, ld_bytes_used = 1\<rparr>"
proof -
  have "rd (packet_bytes first body @ rest) 1 = Some (of_nat (length body))"
    using assms by (simp add: packet_bytes_def vbi_small cmem)
  from decode_remaining_length_short [OF this] assms show ?thesis
    by (simp add: unat_low7)
qed

lemma rd_packet_first [simp]: "rd (packet_bytes first body @ rest) 0 = Some first"
  by (simp add: packet_bytes_def)

text \<open>The header of a PUBLISH is read as it was written.\<close>

lemma publish_first_fields:
  assumes "qos (pub_topic p) \<in> {0, 1, 2}"
  shows "drop_bit 4 (publish_first p) AND 0xf = 3"
    and "bit_at 3 (publish_first p AND 0xf) = b2i (pub_dup p \<noteq> 0)"
    and "drop_bit 1 ((publish_first p AND 0xf) AND 7) = ucast (qos (pub_topic p))"
    and "bit_at 0 (publish_first p AND 0xf) = b2i (pub_retain p \<noteq> 0)"
  using assms
  by (auto simp: publish_first_def bit_at_def b2i_def)

text \<open>The message \<open>decode\<close> makes of a PUBLISH packet.\<close>

definition publish_received :: "Publish \<Rightarrow> cstr \<Rightarrow> cstr \<Rightarrow> u16 \<Rightarrow> Message" where
  "publish_received p topic content pid =
     \<lparr>message_type = Some PUBLISH,
      packet = Ref (PPublish
        \<lparr>pub_topic = \<lparr>topic_name = Ref topic, qos = qos (pub_topic p)\<rparr>,
         pub_content = (if content = [] then Wild else Ref content),
         pub_retain = b2i (pub_retain p \<noteq> 0), pub_dup = b2i (pub_dup p \<noteq> 0),
         is_incoming = None, pub_packet_id = (if qos (pub_topic p) = 0 then None else Some pid),
         pub_time_stamp = None\<rparr>)\<rparr>"

lemma decode_publish_packet:
  assumes "qos (pub_topic p) \<in> {0, 1, 2}" and "pub_dup p \<noteq> 0 \<Longrightarrow> qos (pub_topic p) \<noteq> 0"
    and "pid \<noteq> 0 \<longleftrightarrow> qos (pub_topic p) \<noteq> 0"
    and "cstr_ok topic" "topic \<noteq> []" "cstr_ok content"
    and "length (publish_body topic pid content) < 128"
  shows "decode (packet_bytes (publish_first p) (publish_body topic pid content) @ rest) =
           Some (publish_received p topic content pid)"
proof -
  define buf where
    "buf = packet_bytes (publish_first p) (publish_body topic pid content) @ rest"
  define len where "len = length (publish_body topic pid content)"
  let ?pid = "if pid \<noteq> 0 then short_bytes pid else []"
  have lt: "length topic < 65536" and len: "len = 2 + length topic + length ?pid + length content"
    using assms(5,7) by (simp_all add: publish_body_def length_opt_string len_def)
  have buf: "buf = publish_first p # of_nat len # short_bytes (of_nat (length topic)) @ topic @ ?pid
      @ content @ rest"
    using assms(5,7) by (simp add: buf_def packet_bytes_def vbi_small publish_body_def opt_string_def
        str_bytes_def len_def)
  have rd0: "rd buf 0 = Some (publish_first p)" by (simp add: buf)
  have rem: "decode_remaining_length buf = Some \<lparr>ld_length = int len + 2, ld_bytes_used = 1\<rparr>"
    using decode_remaining_length_packet [OF assms(7)] by (simp add: buf_def len_def)
  have tl: "get_short buf 2 = Some (of_nat (length topic))"
    by (rule get_short_at [of _ "[publish_first p, of_nat len]"]) (simp_all add: buf)
  have top: "rd_n buf 4 (int (length topic)) = Some topic"
    by (rule rd_n_at [of _ "publish_first p # of_nat len # short_bytes (of_nat (length topic))"])
      (simp_all add: buf)
  have pd: "get_short buf (4 + int (length topic)) = Some pid" if "pid \<noteq> 0"
    by (rule get_short_at [of _ "publish_first p # of_nat len # short_bytes (of_nat (length topic)) @ topic"])
      (use that in \<open>simp_all add: buf\<close>)
  have data: "rd_n buf (4 + int (length topic) + int (length ?pid)) (int (length content)) = Some content"
    by (rule rd_n_at [of _ "publish_first p # of_nat len # short_bytes (of_nat (length topic)) @ topic @ ?pid"])
      (simp_all add: buf)
  note hdr = publish_first_fields [OF assms(1)]
  have q2: "\<not> (ucast (qos (pub_topic p)) :: byte) > 2"
    and q0: "(ucast (qos (pub_topic p)) :: byte) = 0 \<longleftrightarrow> qos (pub_topic p) = 0"
    and uq: "(ucast (ucast (qos (pub_topic p)) :: byte) :: u32) = qos (pub_topic p)"
    using assms(1) by auto
  have mt: "mt_of (unat (drop_bit 4 (publish_first p) AND 0xf)) = Some PUBLISH"
    by (simp only: hdr(1)) (simp add: mt_of_def all_message_types_def)
  have dup: "\<not> (b2i (pub_dup p \<noteq> 0) \<noteq> 0 \<and> (ucast (qos (pub_topic p)) :: byte) = 0)"
    using assms(2) q0 by auto
  have "decode buf = decode_publish buf"
    by (simp add: decode_def decode_case_def rd0 mt)
  also have "\<dots> = Some (publish_received p topic content pid)"
  proof (cases "pid = 0")
    case True
    then have qz: "qos (pub_topic p) = 0" using assms(3) by simp
    with hdr q0 have "pub_dup p = 0" using assms(2) by auto
    then show ?thesis
      using True qz rd0 rem tl top data hdr lt len assms(4,6)
      by (simp add: decode_publish_def publish_received_def Let_def uint_u16_length b2i_def)
  next
    case False
    then have qz: "qos (pub_topic p) \<noteq> 0" using assms(3) by simp
    show ?thesis
      using False qz q0 q2 rd0 rem tl top pd data hdr lt len uq dup assms(4,6)
      by (simp add: decode_publish_def publish_received_def Let_def uint_u16_length)
  qed
  finally show ?thesis by (simp add: buf_def)
qed

lemma decode_connack_packet:
  assumes "sp \<in> {0, 1}" and "code \<le> 5"
  shows "decode (packet_bytes 0x20 [sp, code] @ rest) =
           Some \<lparr>message_type = Some CONNACK,
                 packet = Ref (PConnack \<lparr>session_present = uint sp, return_code = ucast code\<rparr>)\<rparr>"
  using assms
  by (auto simp: decode_def decode_case_def decode_connack_def packet_bytes_def vbi_small mt_of_def
      all_message_types_def cmem not_less)

text \<open>A CONNACK outside the protocol is reported and gets no packet.\<close>

lemma decode_connack_bad:
  assumes "sp \<notin> {0, 1} \<or> code > 5"
  shows "decode (packet_bytes 0x20 [sp, code] @ rest) = Some (no_packet CONNACK)"
  using assms
  by (auto simp: decode_def decode_case_def decode_connack_def packet_bytes_def vbi_small mt_of_def
      all_message_types_def cmem)

fun ack_packet :: "MessageType \<Rightarrow> u16 \<Rightarrow> packet option" where
  "ack_packet PUBACK i = Some (PPuback i)"
| "ack_packet PUBREC i = Some (PPubrec i)"
| "ack_packet PUBREL i = Some (PPubrel i)"
| "ack_packet PUBCOMP i = Some (PPubcomp i)"
| "ack_packet UNSUBACK i = Some (PUnsuback i)"
| "ack_packet t i = None"

lemma decode_ack_packet:
  assumes "ack_packet t i = Some p" and "drop_bit 4 first AND 0xf = of_nat (mt_code t)"
  shows "decode (packet_bytes first (short_bytes i) @ rest) =
           Some \<lparr>message_type = Some t, packet = Ref p\<rparr>"
proof -
  have "get_short (packet_bytes first (short_bytes i) @ rest) 2 = Some i"
    by (rule get_short_at [of _ "[first, 2]"]) (simp_all add: packet_bytes_def vbi_small)
  moreover have "unat (of_nat (mt_code t) :: byte) = mt_code t"
    using mt_code_bound [of t] by (simp add: unat_of_nat)
  ultimately show ?thesis
    using assms by (cases t) (simp_all add: decode_def decode_case_def decode_ack_def mt_of_def all_message_types_def)
qed

lemma suback_codes_packet:
  assumes "\<forall>c \<in> set cs. c = 128 \<or> c \<le> 2" and "buf = xs @ cs @ rest" and "i = int (length xs)"
  shows "suback_codes buf i (length cs) = Some (Some (map ucast cs))"
  using assms
proof (induction cs arbitrary: xs i)
  case (Cons c cs)
  have "rd buf i = Some c" using Cons.prems by (simp add: rd_append)
  moreover have "suback_codes buf (i + 1) (length cs) = Some (Some (map ucast cs))"
    by (rule Cons.IH [of "xs @ [c]"]) (use Cons.prems in simp_all)
  ultimately show ?case using Cons.prems(1) by auto
qed simp

lemma decode_suback_packet:
  assumes "\<forall>c \<in> set cs. c = 128 \<or> c \<le> 2" and "cs \<noteq> []" and "length cs \<le> 125"
  shows "decode (packet_bytes 0x90 (short_bytes pid @ cs) @ rest) =
           Some \<lparr>message_type = Some SUBACK,
                 packet = Ref (PSuback \<lparr>suback_packet_id = pid, codes = map ucast cs\<rparr>)\<rparr>"
proof -
  define buf where "buf = packet_bytes 0x90 (short_bytes pid @ cs) @ rest"
  have buf: "buf = [0x90, of_nat (length cs + 2)] @ short_bytes pid @ cs @ rest"
    using assms(3) by (simp add: buf_def packet_bytes_def vbi_small)
  have rem: "decode_remaining_length buf = Some \<lparr>ld_length = int (length cs) + 4, ld_bytes_used = 1\<rparr>"
    using decode_remaining_length_packet [of "short_bytes pid @ cs" "0x90" rest] assms(3)
    by (simp add: buf_def)
  have pid: "get_short buf 2 = Some pid"
    by (rule get_short_at [OF buf]) simp
  have codes: "suback_codes buf 4 (length cs) = Some (Some (map ucast cs))"
    by (rule suback_codes_packet [OF assms(1), of _ "[0x90, of_nat (length cs + 2)] @ short_bytes pid"])
      (simp_all add: buf)
  obtain c cs' where cs: "map ucast cs = (c :: u32) # cs'" using assms(2) by (cases cs) auto
  have "decode buf = decode_suback buf"
    by (simp add: decode_def decode_case_def buf mt_of_def all_message_types_def)
  then have "decode buf = Some \<lparr>message_type = Some SUBACK,
                 packet = Ref (PSuback \<lparr>suback_packet_id = pid, codes = map ucast cs\<rparr>)\<rparr>"
    using rem pid codes cs by (simp add: decode_suback_def)
  then show ?thesis by (simp add: buf_def)
qed

subsection \<open>What the decoder cannot read\<close>

lemma vla_copy_length: "vla_copy buf i n = Some a \<Longrightarrow> int (length a) = n"
  by (auto simp: vla_copy_def rd_n_def bind_Some_iff split: if_splits)

lemma vla_string_None [simp]: "vla_string buf i n = None"
proof (cases "vla_copy buf i n")
  case (Some a)
  then have "arr_set a n 0 = None"
    using vla_copy_length [OF Some] by (simp add: arr_set_def)
  then show ?thesis by (simp add: vla_string_def Some)
qed (simp add: vla_string_def)

lemma decode_connect_strings_None [simp]:
  "decode_connect_strings buf len i a b c = None"
  by (simp add: decode_connect_strings_def Let_def bind_eq_None_conv)

lemma decode_connect_no_packet: "decode_connect buf = Some m \<Longrightarrow> m = no_packet CONNECT"
  by (auto simp: decode_connect_def bind_Some_iff Let_def split: if_splits)

lemma decode_subscribe_no_packet: "decode_subscribe buf = Some m \<Longrightarrow> m = no_packet SUBSCRIBE"
  by (auto simp: decode_subscribe_def bind_Some_iff Let_def)

lemma decode_unsubscribe_no_packet: "decode_unsubscribe buf = Some m \<Longrightarrow> m = no_packet UNSUBSCRIBE"
  by (auto simp: decode_unsubscribe_def bind_Some_iff Let_def)

text \<open>The tag of a decoded message says which struct its packet is.\<close>

fun packet_type :: "packet \<Rightarrow> MessageType" where
  "packet_type (PConnect _) = CONNECT"
| "packet_type (PConnack _) = CONNACK"
| "packet_type (PPublish _) = PUBLISH"
| "packet_type (PPuback _) = PUBACK"
| "packet_type (PPubrec _) = PUBREC"
| "packet_type (PPubrel _) = PUBREL"
| "packet_type (PPubcomp _) = PUBCOMP"
| "packet_type (PSubscribe _) = SUBSCRIBE"
| "packet_type (PSuback _) = SUBACK"
| "packet_type (PUnsubscribe _) = UNSUBSCRIBE"
| "packet_type (PUnsuback _) = UNSUBACK"

definition well_tagged :: "Message \<Rightarrow> bool" where
  "well_tagged m \<longleftrightarrow>
     (case packet m of Wild \<Rightarrow> True | Null \<Rightarrow> False
      | Ref p \<Rightarrow> message_type m = Some (packet_type p))"

lemma well_tagged_no_packet [simp]: "well_tagged (no_packet t)"
  by (simp add: well_tagged_def no_packet_def)

lemma decode_publish_tagged: "decode_publish buf = Some m \<Longrightarrow> well_tagged m"
  by (auto simp: decode_publish_def bind_Some_iff Let_def well_tagged_def no_packet_def split: if_splits)

lemma decode_suback_tagged: "decode_suback buf = Some m \<Longrightarrow> well_tagged m"
  unfolding decode_suback_def bind_Some_iff Let_def
  by (elim exE conjE) (auto simp: well_tagged_def no_packet_def split: option.split_asm list.split_asm)

lemma decode_connack_tagged: "decode_connack buf = Some m \<Longrightarrow> well_tagged m"
  by (auto simp: decode_connack_def bind_Some_iff well_tagged_def no_packet_def split: if_splits)

lemma decode_well_tagged:
  assumes "decode buf = Some m"
  shows "well_tagged m"
proof -
  have ack: "decode_ack t con buf = Some m \<Longrightarrow> (\<And>i. packet_type (con i) = t) \<Longrightarrow> well_tagged m" for t con
    by (auto simp: decode_ack_def bind_Some_iff well_tagged_def)
  from assms obtain b where "rd buf 0 = Some b" by (auto simp: decode_def bind_Some_iff)
  then have d: "decode buf = (case mt_of (unat (drop_bit 4 b AND 0xf)) of
        None \<Rightarrow> Some \<lparr>message_type = None, packet = Wild\<rparr>
      | Some t \<Rightarrow> decode_case t buf)"
    by (simp add: decode_def)
  show ?thesis
  proof (cases "mt_of (unat (drop_bit 4 b AND 0xf))")
    case None
    with d assms show ?thesis by (auto simp: well_tagged_def)
  next
    case (Some t)
    with d assms have "decode_case t buf = Some m" by simp
    then show ?thesis
      by (cases t) (auto simp: decode_case_def intro: ack
        dest: decode_connect_no_packet decode_subscribe_no_packet decode_unsubscribe_no_packet
          decode_publish_tagged decode_suback_tagged decode_connack_tagged)
  qed
qed

text \<open>
  A PUBLISH of 128 bytes and more: the length field is taken for a part of the topic length, and
  the decoder leaves any buffer shorter than 12290 bytes.
\<close>

lemma decode_publish_long:
  assumes "buf = first # len # bs" and "drop_bit 4 first AND 0xf = 3" and "128 \<le> unat len"
    and "length buf < 12290"
    and "drop_bit 1 ((first AND 0xf) AND 7) \<le> 2"
    and "bit first 3 \<Longrightarrow> drop_bit 1 ((first AND 0xf) AND 7) \<noteq> 0"
  shows "decode buf = None"
proof -
  have rd: "rd buf 0 = Some first" "rd buf 1 = Some len"
    using assms(1) by (simp_all add: cmem)
  have rem: "decode_remaining_length buf = Some \<lparr>ld_length = - 1, ld_bytes_used = - 1\<rparr>"
    using decode_remaining_length_long [OF rd(2) assms(3)] .
  define s where "s = (push_bit 8 (ucast first) OR (ucast len AND 0xff) :: u16)"
  have gs: "get_short buf 0 = Some s"
    using rd by (simp add: get_short_def s_def)
  have "short_bytes s = [first, len]"
    using short_bytes_join [of first len s] by (simp add: s_def)
  then have us: "unat s = 256 * unat first + unat len"
    using unat_short_bytes [of s] by simp
  have "drop_bit 4 first AND 0xf = take_bit 4 (drop_bit 4 first)"
    by (simp add: take_bit_eq_mask mask_eq_exp_minus_1)
  with assms(2) have "take_bit 4 (drop_bit 4 first) = 3" by (simp only:)
  from arg_cong [OF this, of unat] have "unat first div 16 mod 16 = 3"
    by (simp add: unsigned_take_bit_eq unat_drop_bit_eq take_bit_nat_def drop_bit_nat_def)
  then have "3 \<le> unat first div 16" using mod_less_eq_dividend [of "unat first div 16" 16] by simp
  then have "48 \<le> unat first" by (simp add: less_eq_div_iff_mult_less_eq)
  with us assms(3) have "12288 \<le> unat s" by linarith
  then have "12288 \<le> uint s" unfolding uint_nat by linarith
  then have "rd_n buf 2 (uint s) = None"
    using assms(4) by (simp add: rd_n_def)
  moreover have "mt_of (unat (drop_bit 4 first AND 0xf)) = Some PUBLISH"
    by (simp only: assms(2)) (simp add: mt_of_def all_message_types_def)
  moreover have "bit (first AND 0xf) 3 \<longleftrightarrow> bit first 3"
  proof -
    have "first AND 0xf = take_bit 4 first" by (simp add: take_bit_eq_mask mask_eq_exp_minus_1)
    then show ?thesis by (simp add: bit_take_bit_iff)
  qed
  moreover have "\<not> drop_bit 1 ((first AND 0xf) AND 7) > 2"
    using assms(5) by (simp only: not_less)
  ultimately have "decode_publish buf = None"
    using rd rem gs assms(6)
    unfolding decode_publish_def Let_def bit_at_def b2i_def
    by auto
  then show ?thesis
    using rd \<open>mt_of (unat (drop_bit 4 first AND 0xf)) = Some PUBLISH\<close>
    by (simp add: decode_def decode_case_def)
qed

end
