(* ===== verification/MqttTimers.thy ===== *)
theory MqttTimers
  imports MqttParser HashMap
begin

text \<open>
  src/src/mqtt/mqtt_timers.c, with the three functions of src/src/mqtt/mqtt_client.c that it
  calls (\<open>encode_and_fire\<close>, \<open>send_ping\<close>, \<open>send_disconnect\<close>): the state of the MQTT client, its
  table of messages and its threads. A thread handle that \<open>pthread_create\<close> has not set is
  \<open>NotStarted\<close>, and \<open>pthread_cancel\<close> of it is undefined (POSIX). A round of a thread's loop is
  one operation. What leaves the process is a list of events. \<open>malloc\<close> succeeds.

  The WebSocket codec is a parameter (\<open>WsClient\<close> has the one of the code) of every operation that may
  use it.
\<close>

subsection \<open>The state\<close>

datatype thread = NotStarted | Running | Cancelled

datatype event =
    RawFire mem
  | Fire "cstr ptr"
  | CloseTcp
  | ConnectionSuccessful
  | ConnectionUnsuccessful u32

record ws_codec =
  encode_ws :: "Message \<Rightarrow> cstr ptr option"
  decode_ws :: "byte list \<Rightarrow> Message option"

record mqtt_state =
  account :: "Account ptr"
  current_packet_number :: int
  client_delay :: u32
  timer_delay :: u32
  msg_map :: "Message map_base"
  pinger :: thread
  messager :: thread
  connecter :: thread
  events :: "event list"
  exited :: bool

definition mqtt_init :: mqtt_state where
  "mqtt_init = \<lparr>account = Null, current_packet_number = 0, client_delay = 10, timer_delay = 10,
     msg_map = map_init, pinger = NotStarted, messager = NotStarted, connecter = NotStarted,
     events = [], exited = False\<rparr>"

definition emit :: "event \<Rightarrow> mqtt_state \<Rightarrow> mqtt_state" where
  "emit e st = st\<lparr>events := events st @ [e]\<rparr>"

definition do_exit :: "mqtt_state \<Rightarrow> mqtt_state" where
  "do_exit st = st\<lparr>exited := True\<rparr>"

text \<open>\<open>++x\<close> on a signed \<open>int\<close>.\<close>

definition int_inc :: "int \<Rightarrow> int option" where
  "int_inc x = do { c_assert (x < 2 ^ 31 - 1); Some (x + 1) }"

subsection \<open>Sending\<close>

definition encode_and_fire :: "ws_codec \<Rightarrow> Message \<Rightarrow> mqtt_state \<Rightarrow> mqtt_state option" where
  "encode_and_fire ws message st = do {
     acc \<leftarrow> deref (account st);
     (if acc_protocol acc = MQTT then do {
        l \<leftarrow> get_length message;
        buf \<leftarrow> encode message l;
        Some (emit (RawFire buf) st)
      } else do {
        s \<leftarrow> encode_ws ws message;
        Some (emit (Fire s) st)
      })
   }"

definition send_ping :: "ws_codec \<Rightarrow> mqtt_state \<Rightarrow> mqtt_state option" where
  "send_ping ws st = encode_and_fire ws (no_packet PINGREQ) st"

subsection \<open>The message table\<close>

definition message_packet_id :: "Message \<Rightarrow> u16 option" where
  "message_packet_id message = do {
     t \<leftarrow> message_type message;
     (case t of
        PUBLISH \<Rightarrow> do { p \<leftarrow> as_publish message; pub_packet_id p }
      | SUBSCRIBE \<Rightarrow> do { s \<leftarrow> as_subscribe message; Some (sub_packet_id s) }
      | UNSUBSCRIBE \<Rightarrow> do { us \<leftarrow> as_unsubscribe message; Some (unsub_packet_id us) }
      | _ \<Rightarrow> Some 0)
   }"

definition add_message_in_map :: "Message \<Rightarrow> mqtt_state \<Rightarrow> mqtt_state option" where
  "add_message_in_map message st = do {
     packet_id \<leftarrow> message_packet_id message;
     (m', r) \<leftarrow> id_set (msg_map st) packet_id message;
     Some (st\<lparr>msg_map := m'\<rparr>)
   }"

definition get_message_from_map :: "u16 \<Rightarrow> mqtt_state \<Rightarrow> Message ptr option" where
  "get_message_from_map packet_id st = map_scan (msg_map st) (id_key packet_id) map_iter"

definition remove_message_from_map :: "u16 \<Rightarrow> mqtt_state \<Rightarrow> mqtt_state option" where
  "remove_message_from_map packet_id st = do {
     m' \<leftarrow> id_remove (msg_map st) packet_id;
     Some (st\<lparr>msg_map := m'\<rparr>)
   }"

subsection \<open>Stopping\<close>

definition pthread_cancel :: "thread \<Rightarrow> thread option" where
  "pthread_cancel t = do { c_assert (t \<noteq> NotStarted); Some Cancelled }"

definition stop_connect_timer :: "mqtt_state \<Rightarrow> mqtt_state option" where
  "stop_connect_timer st = do { t \<leftarrow> pthread_cancel (connecter st); Some (st\<lparr>connecter := t\<rparr>) }"

definition stop_ping_timer :: "mqtt_state \<Rightarrow> mqtt_state option" where
  "stop_ping_timer st = do {
     m' \<leftarrow> map_deinit (msg_map st);
     t \<leftarrow> pthread_cancel (pinger st);
     Some (st\<lparr>msg_map := m', pinger := t\<rparr>)
   }"

definition stop_message_timer :: "mqtt_state \<Rightarrow> mqtt_state option" where
  "stop_message_timer st = do { t \<leftarrow> pthread_cancel (messager st); Some (st\<lparr>messager := t\<rparr>) }"

definition stop_all_timers :: "mqtt_state \<Rightarrow> mqtt_state option" where
  "stop_all_timers st = do { st \<leftarrow> stop_ping_timer st; stop_message_timer st }"

definition send_disconnect :: "ws_codec \<Rightarrow> mqtt_state \<Rightarrow> mqtt_state option" where
  "send_disconnect ws st = do {
     st \<leftarrow> stop_all_timers st;
     st \<leftarrow> encode_and_fire ws (no_packet DISCONNECT) st;
     Some (emit CloseTcp st)
   }"

subsection \<open>Starting\<close>

text \<open>\<open>ok\<close> says whether \<open>pthread_create\<close> succeeds.\<close>

definition thread_failed :: "ws_codec \<Rightarrow> mqtt_state \<Rightarrow> mqtt_state option" where
  "thread_failed ws st = do { st \<leftarrow> send_disconnect ws st; Some (do_exit st) }"

definition start_connect_timer :: "ws_codec \<Rightarrow> bool \<Rightarrow> mqtt_state \<Rightarrow> mqtt_state option" where
  "start_connect_timer ws ok st =
     (let st = st\<lparr>msg_map := map_init\<rparr> in
      if ok then Some (st\<lparr>connecter := Running\<rparr>) else thread_failed ws st)"

definition start_mqtt_ping_timer ::
    "ws_codec \<Rightarrow> bool \<Rightarrow> u32 \<Rightarrow> mqtt_state \<Rightarrow> mqtt_state option" where
  "start_mqtt_ping_timer ws ok delay st =
     (let st = st\<lparr>timer_delay := delay\<rparr> in
      if ok then Some (st\<lparr>pinger := Running\<rparr>) else thread_failed ws st)"

definition start_message_timer :: "ws_codec \<Rightarrow> bool \<Rightarrow> mqtt_state \<Rightarrow> mqtt_state option" where
  "start_message_timer ws ok st =
     (if ok then Some (st\<lparr>messager := Running\<rparr>) else thread_failed ws st)"

subsection \<open>One round of each thread\<close>

definition ping_round :: "ws_codec \<Rightarrow> mqtt_state \<Rightarrow> mqtt_state option" where
  "ping_round ws st = send_ping ws st"

fun fire_all :: "ws_codec \<Rightarrow> (cstr \<times> Message) list \<Rightarrow> mqtt_state \<Rightarrow> mqtt_state option" where
  "fire_all ws [] st = Some st"
| "fire_all ws (e # es) st = do { st \<leftarrow> encode_and_fire ws (snd e) st; fire_all ws es st }"

text \<open>The loop that \<open>connect_task\<close> and \<open>message_resend_task\<close> share.\<close>

definition resend_round :: "ws_codec \<Rightarrow> mqtt_state \<Rightarrow> mqtt_state option" where
  "resend_round ws st = do { es \<leftarrow> map_walk (msg_map st) map_iter; fire_all ws es st }"

end
