(* ===== verification/MqttClient.thy ===== *)
theory MqttClient
  imports MqttTimers
begin

text \<open>
  src/src/mqtt/mqtt_client.c: the operations the application calls, the handler of incoming
  data, and the client as a transition system over them. \<open>ok\<close> arguments are the results of
  \<open>pthread_create\<close>.
\<close>

subsection \<open>Operations\<close>

text \<open>\<open>connected\<close> is the result of \<open>open_lws_net_connection\<close>.\<close>

definition init_mqtt_client :: "Account \<Rightarrow> int \<Rightarrow> mqtt_state \<Rightarrow> mqtt_state \<times> int" where
  "init_mqtt_client acc connected st = (st\<lparr>account := Ref acc\<rparr>, connected)"

definition connect_packet :: "Account \<Rightarrow> Connect" where
  "connect_packet acc =
     \<lparr>username = acc_username acc, password = acc_password acc, client_id = acc_client_id acc,
      clean_session = acc_clean_session acc,
      will_flag = (if acc_will acc \<noteq> Null \<and> acc_will_topic acc \<noteq> Null then 1 else 0),
      keepalive = of_int (acc_keep_alive acc), protocol_level = 4,
      will = \<lparr>will_topic = \<lparr>topic_name = acc_will_topic acc, qos = acc_qos acc\<rparr>,
              will_content = acc_will acc, will_retain = acc_is_retain acc\<rparr>\<rparr>"

definition send_connect :: "ws_codec \<Rightarrow> bool \<Rightarrow> Account \<Rightarrow> mqtt_state \<Rightarrow> mqtt_state option" where
  "send_connect ws ok acc st = do {
     let st = st\<lparr>client_delay := of_int (acc_keep_alive acc)\<rparr>;
     let message = \<lparr>message_type = Some CONNECT, packet = Ref (PConnect (connect_packet acc))\<rparr>;
     st \<leftarrow> encode_and_fire ws message st;
     st \<leftarrow> start_connect_timer ws ok st;
     (if exited st then Some st else add_message_in_map message st)
   }"

text \<open>\<open>++current_packet_number\<close>, as the \<open>unsigned short\<close> it is stored in.\<close>

definition next_packet_id :: "mqtt_state \<Rightarrow> (u16 \<times> mqtt_state) option" where
  "next_packet_id st = do {
     n \<leftarrow> int_inc (current_packet_number st);
     Some (of_int n, st\<lparr>current_packet_number := n\<rparr>)
   }"

definition send_subscribe :: "ws_codec \<Rightarrow> cstr ptr \<Rightarrow> int \<Rightarrow> mqtt_state \<Rightarrow> mqtt_state option" where
  "send_subscribe ws name q st = do {
     _ \<leftarrow> c_strlen name;
     (packet_id, st) \<leftarrow> next_packet_id st;
     let message = \<lparr>message_type = Some SUBSCRIBE, packet = Ref (PSubscribe
           \<lparr>sub_topics = [\<lparr>topic_name = name, qos = of_int q\<rparr>], sub_packet_id = packet_id\<rparr>)\<rparr>;
     st \<leftarrow> add_message_in_map message st;
     encode_and_fire ws message st
   }"

text \<open>The topic of an UNSUBSCRIBE has no QoS set; the encoder does not read it.\<close>

definition send_unsubscribe :: "ws_codec \<Rightarrow> cstr ptr \<Rightarrow> mqtt_state \<Rightarrow> mqtt_state option" where
  "send_unsubscribe ws name st = do {
     _ \<leftarrow> c_strlen name;
     (packet_id, st) \<leftarrow> next_packet_id st;
     let message = \<lparr>message_type = Some UNSUBSCRIBE, packet = Ref (PUnsubscribe
           \<lparr>unsub_topics = [\<lparr>topic_name = name, qos = 0\<rparr>], unsub_packet_id = packet_id\<rparr>)\<rparr>;
     st \<leftarrow> add_message_in_map message st;
     encode_and_fire ws message st
   }"

definition send_publish ::
    "ws_codec \<Rightarrow> cstr ptr \<Rightarrow> cstr ptr \<Rightarrow> int \<Rightarrow> int \<Rightarrow> int \<Rightarrow> mqtt_state \<Rightarrow> mqtt_state option" where
  "send_publish ws content name q retain dup st = do {
     (packet_id, st) \<leftarrow> (if q \<noteq> 0 then next_packet_id st else Some (0, st));
     let message = \<lparr>message_type = Some PUBLISH, packet = Ref (PPublish
           \<lparr>pub_topic = \<lparr>topic_name = name, qos = of_int q\<rparr>, pub_content = content,
            pub_retain = retain, pub_dup = dup, is_incoming = None,
            pub_packet_id = Some packet_id, pub_time_stamp = None\<rparr>)\<rparr>;
     st \<leftarrow> encode_and_fire ws message st;
     add_message_in_map message st
   }"

definition send_ack ::
    "MessageType \<Rightarrow> (u16 \<Rightarrow> packet) \<Rightarrow> ws_codec \<Rightarrow> int \<Rightarrow> mqtt_state \<Rightarrow> mqtt_state option" where
  "send_ack t con ws packet_id st =
     encode_and_fire ws \<lparr>message_type = Some t, packet = Ref (con (of_int packet_id))\<rparr> st"

definition send_puback :: "ws_codec \<Rightarrow> int \<Rightarrow> mqtt_state \<Rightarrow> mqtt_state option" where
  "send_puback = send_ack PUBACK PPuback"

definition send_pubrec :: "ws_codec \<Rightarrow> int \<Rightarrow> mqtt_state \<Rightarrow> mqtt_state option" where
  "send_pubrec = send_ack PUBREC PPubrec"

definition send_pubcomp :: "ws_codec \<Rightarrow> int \<Rightarrow> mqtt_state \<Rightarrow> mqtt_state option" where
  "send_pubcomp = send_ack PUBCOMP PPubcomp"

definition send_pubrel :: "ws_codec \<Rightarrow> int \<Rightarrow> mqtt_state \<Rightarrow> mqtt_state option" where
  "send_pubrel = send_ack PUBREL PPubrel"

subsection \<open>Incoming data\<close>

definition handle_connack :: "ws_codec \<Rightarrow> bool \<Rightarrow> Message \<Rightarrow> mqtt_state \<Rightarrow> mqtt_state option" where
  "handle_connack ws ok message st = do {
     st \<leftarrow> stop_connect_timer st;
     st \<leftarrow> remove_message_from_map 0 st;
     ca \<leftarrow> as_connack message;
     (if return_code ca = ACCEPTED
      then start_mqtt_ping_timer ws ok (client_delay st) (emit ConnectionSuccessful st)
      else Some (emit (ConnectionUnsuccessful (return_code ca)) st))
   }"

text \<open>A packet only a server receives: report, disconnect, \<open>exit(-1)\<close>.\<close>

definition handle_unacceptable :: "ws_codec \<Rightarrow> mqtt_state \<Rightarrow> mqtt_state option" where
  "handle_unacceptable ws st = do { st \<leftarrow> send_disconnect ws st; Some (do_exit st) }"

definition handle_message :: "ws_codec \<Rightarrow> bool \<Rightarrow> Message \<Rightarrow> mqtt_state \<Rightarrow> mqtt_state option" where
  "handle_message ws ok message st = do {
     t \<leftarrow> message_type message;
     (case t of
        CONNACK \<Rightarrow> handle_connack ws ok message st
      | CONNECT \<Rightarrow> handle_unacceptable ws st
      | SUBSCRIBE \<Rightarrow> handle_unacceptable ws st
      | UNSUBSCRIBE \<Rightarrow> handle_unacceptable ws st
      | PINGREQ \<Rightarrow> handle_unacceptable ws st
      | DISCONNECT \<Rightarrow> handle_unacceptable ws st
      | _ \<Rightarrow> Some st)
   }"

definition process_rx :: "ws_codec \<Rightarrow> bool \<Rightarrow> byte list \<Rightarrow> mqtt_state \<Rightarrow> mqtt_state option" where
  "process_rx ws ok data st = do {
     acc \<leftarrow> deref (account st);
     message \<leftarrow> (if acc_protocol acc = MQTT then decode data else decode_ws ws data);
     handle_message ws ok message st
   }"

text \<open>
  The loop over the frames of a read: \<open>buf\<close> is the whole object, of which \<open>n\<close> bytes were
  received. \<open>b\<close> is the length byte of the frame at \<open>i\<close>; the one of the next frame is read before
  the bound is tested.
\<close>

function frame_loop ::
    "ws_codec \<Rightarrow> bool \<Rightarrow> byte list \<Rightarrow> int \<Rightarrow> int \<Rightarrow> byte \<Rightarrow> mqtt_state \<Rightarrow> mqtt_state option" where
  "frame_loop ws ok buf n i b st =
     (let len = int (unat b) + 2 in do {
        next_bytes \<leftarrow> rd_n buf i len;
        st \<leftarrow> process_rx ws ok next_bytes st;
        (if exited st then Some st
         else do {
           b' \<leftarrow> rd buf (i + len + 1);
           (if i + len < n then frame_loop ws ok buf n (i + len) b' st else Some st)
         })
      })"
  by pat_completeness auto
termination
proof (relation "measure (\<lambda>(ws, ok, buf, n, i, b, st). nat (n - i))")
  fix buf :: "byte list" and i n len :: int and b :: byte and ws :: ws_codec and ok b'
    and st st' :: mqtt_state
  assume "len = int (unat b) + 2" "i + len < n"
  then have "i < i + len" "i + len < n" by linarith+
  then show "((ws, ok, buf, n, i + len, b', st'), ws, ok, buf, n, i, b, st) \<in>
      measure (\<lambda>(ws, ok, buf, n, i, b, st). nat (n - i))"
    by simp
qed simp

declare frame_loop.simps [simp del]

definition mqtt_data_received ::
    "ws_codec \<Rightarrow> bool \<Rightarrow> byte list \<Rightarrow> int \<Rightarrow> mqtt_state \<Rightarrow> mqtt_state option" where
  "mqtt_data_received ws ok buf readable_bytes st = do {
     b \<leftarrow> rd buf 1;
     acc \<leftarrow> deref (account st);
     (if int (unat b) + 2 < readable_bytes \<and> acc_protocol acc = MQTT
      then frame_loop ws ok buf readable_bytes 0 b st
      else process_rx ws ok buf st)
   }"

subsection \<open>The client as a transition system\<close>

inductive mqtt_step :: "ws_codec \<Rightarrow> mqtt_state \<Rightarrow> mqtt_state \<Rightarrow> bool" for ws where
  init: "init_mqtt_client acc connected st = (st', r) \<Longrightarrow> mqtt_step ws st st'"
| connect: "send_connect ws ok acc st = Some st' \<Longrightarrow> mqtt_step ws st st'"
| subscribe: "send_subscribe ws name q st = Some st' \<Longrightarrow> mqtt_step ws st st'"
| unsubscribe: "send_unsubscribe ws name st = Some st' \<Longrightarrow> mqtt_step ws st st'"
| publish: "send_publish ws content name q retain dup st = Some st' \<Longrightarrow> mqtt_step ws st st'"
| puback: "send_puback ws i st = Some st' \<Longrightarrow> mqtt_step ws st st'"
| pubrec: "send_pubrec ws i st = Some st' \<Longrightarrow> mqtt_step ws st st'"
| pubcomp: "send_pubcomp ws i st = Some st' \<Longrightarrow> mqtt_step ws st st'"
| disconnect: "send_disconnect ws st = Some st' \<Longrightarrow> mqtt_step ws st st'"
| data: "mqtt_data_received ws ok buf n st = Some st' \<Longrightarrow> mqtt_step ws st st'"
| ping: "pinger st = Running \<Longrightarrow> ping_round ws st = Some st' \<Longrightarrow> mqtt_step ws st st'"
| resend: "connecter st = Running \<Longrightarrow> resend_round ws st = Some st' \<Longrightarrow> mqtt_step ws st st'"

inductive mqtt_reachable :: "ws_codec \<Rightarrow> mqtt_state \<Rightarrow> bool" for ws where
  start: "mqtt_reachable ws mqtt_init"
| step: "mqtt_reachable ws st \<Longrightarrow> mqtt_step ws st st' \<Longrightarrow> mqtt_reachable ws st'"

inductive_cases mqtt_stepE: "mqtt_step ws st st'"

subsection \<open>Its invariant\<close>

text \<open>Every stored message is stored under its own packet id.\<close>

definition keyed :: "Message map_base \<Rightarrow> bool" where
  "keyed mm \<longleftrightarrow> (\<forall>i msg. id_abs mm i = Some msg \<longrightarrow> message_packet_id msg = Some i)"

definition client_inv :: "mqtt_state \<Rightarrow> bool" where
  "client_inv st \<longleftrightarrow>
     id_table (msg_map st) \<and> keyed (msg_map st) \<and> messager st = NotStarted \<and> \<not> exited st \<and>
     0 \<le> current_packet_number st"

lemma client_inv_emit [simp]: "client_inv (emit e st) = client_inv st"
  by (simp add: client_inv_def emit_def)

lemma client_inv_frame:
  "client_inv (st\<lparr>account := a\<rparr>) = client_inv st"
  "client_inv (st\<lparr>client_delay := d\<rparr>) = client_inv st"
  "client_inv (st\<lparr>timer_delay := d\<rparr>) = client_inv st"
  "client_inv (st\<lparr>pinger := t\<rparr>) = client_inv st"
  "client_inv (st\<lparr>connecter := t\<rparr>) = client_inv st"
  "client_inv (st\<lparr>events := es\<rparr>) = client_inv st"
  by (simp_all add: client_inv_def)

declare client_inv_frame [simp]

lemma encode_and_fire_emits:
  assumes "encode_and_fire ws message st = Some st'"
  obtains e where "st' = emit e st"
  using assms by (auto simp: encode_and_fire_def bind_Some_iff split: if_splits)

lemma encode_and_fire_inv:
  "encode_and_fire ws message st = Some st' \<Longrightarrow> client_inv st \<Longrightarrow> client_inv st'"
  by (erule encode_and_fire_emits) simp

lemma send_disconnect_stuck:
  "messager st = NotStarted \<Longrightarrow> send_disconnect ws st = None"
  by (auto simp: send_disconnect_def stop_all_timers_def stop_ping_timer_def stop_message_timer_def
      pthread_cancel_def bind_eq_None_conv)

lemma thread_failed_stuck: "messager st = NotStarted \<Longrightarrow> thread_failed ws st = None"
  by (simp add: thread_failed_def send_disconnect_stuck)

lemma id_table_init [simp]: "id_table map_init" and id_abs_init [simp]: "id_abs map_init = Map.empty"
  by (rule ids.init_inv ids.init_abs)+

lemma keyed_init [simp]: "keyed map_init"
  by (simp add: keyed_def)

lemma add_message_ok:
  assumes "client_inv st" and "message_packet_id message = Some i"
  obtains m' where "add_message_in_map message st = Some (st\<lparr>msg_map := m'\<rparr>)"
    "client_inv (st\<lparr>msg_map := m'\<rparr>)" "id_abs m' = (id_abs (msg_map st))(i \<mapsto> message)"
proof -
  from assms(1) have "id_table (msg_map st)" by (simp add: client_inv_def)
  from ids.putE [OF this, of i message] obtain m' where
    m': "id_set (msg_map st) i message = Some (m', 0)" "id_table m'"
    "id_abs m' = (id_abs (msg_map st))(i \<mapsto> message)" .
  moreover have "keyed m'"
    using assms m'(3) by (simp add: client_inv_def keyed_def)
  ultimately show thesis
    using that [of m'] assms by (simp add: add_message_in_map_def client_inv_def)
qed

lemma add_message_inv:
  assumes "add_message_in_map message st = Some st'" and "client_inv st"
  shows "client_inv st'"
proof -
  obtain i where "message_packet_id message = Some i"
    using assms(1) by (auto simp: add_message_in_map_def bind_Some_iff)
  from add_message_ok [OF assms(2) this] assms(1) show ?thesis by auto
qed

lemma remove_message_ok:
  assumes "client_inv st"
  obtains m' where "remove_message_from_map i st = Some (st\<lparr>msg_map := m'\<rparr>)"
    "client_inv (st\<lparr>msg_map := m'\<rparr>)" "id_abs m' = (id_abs (msg_map st))(i := None)"
proof -
  from assms have "id_table (msg_map st)" by (simp add: client_inv_def)
  from ids.delE [OF this, of i] obtain m' where
    m': "id_remove (msg_map st) i = Some m'" "id_table m'"
    "id_abs m' = (id_abs (msg_map st))(i := None)" .
  moreover have "keyed m'"
    using assms m'(3) by (simp add: client_inv_def keyed_def)
  ultimately show thesis
    using that [of m'] assms by (simp add: remove_message_from_map_def client_inv_def)
qed

lemma get_message_ok:
  assumes "client_inv st"
  shows "get_message_from_map i st = Some (ptr_of (id_abs (msg_map st) i))"
proof -
  have t: "id_table (msg_map st)" using assms by (simp add: client_inv_def)
  then have "get_message_from_map i st = id_get (msg_map st) i"
    by (simp add: get_message_from_map_def id_get_def map_scan_get id_table_def)
  then show ?thesis using ids.get_abs [OF t] by simp
qed

lemma next_packet_id_ok:
  "next_packet_id st = Some (i, st') \<Longrightarrow>
   st' = st\<lparr>current_packet_number := current_packet_number st + 1\<rparr> \<and>
   i = of_int (current_packet_number st + 1)"
  by (auto simp: next_packet_id_def int_inc_def bind_Some_iff)

lemma client_inv_next: "client_inv st \<Longrightarrow> client_inv (st\<lparr>current_packet_number := current_packet_number st + 1\<rparr>)"
  by (simp add: client_inv_def)

lemma start_connect_timer_inv:
  assumes "start_connect_timer ws ok st = Some st'" and "client_inv st"
  shows "client_inv st'"
proof -
  have ms: "messager (st\<lparr>msg_map := map_init\<rparr>) = NotStarted"
    using assms(2) by (simp add: client_inv_def)
  show ?thesis
    using assms thread_failed_stuck [OF ms, of ws]
    by (auto simp: start_connect_timer_def client_inv_def Let_def split: if_splits)
qed

lemma start_ping_timer_inv:
  assumes "start_mqtt_ping_timer ws ok d st = Some st'" and "client_inv st"
  shows "client_inv st'"
proof -
  have ms: "messager (st\<lparr>timer_delay := d\<rparr>) = NotStarted"
    using assms(2) by (simp add: client_inv_def)
  show ?thesis
    using assms thread_failed_stuck [OF ms, of ws]
    by (auto simp: start_mqtt_ping_timer_def Let_def split: if_splits)
qed

lemma send_connect_inv:
  assumes "send_connect ws ok acc st = Some st'" and "client_inv st"
  shows "client_inv st'"
proof -
  let ?st = "st\<lparr>client_delay := of_int (acc_keep_alive acc)\<rparr>"
  let ?msg = "\<lparr>message_type = Some CONNECT, packet = Ref (PConnect (connect_packet acc))\<rparr>"
  from assms(1) obtain s1 s2 where s: "encode_and_fire ws ?msg ?st = Some s1"
    "start_connect_timer ws ok s1 = Some s2"
    "(if exited s2 then Some s2 else add_message_in_map ?msg s2) = Some st'"
    by (auto simp: send_connect_def bind_Some_iff Let_def)
  have "client_inv s1" using encode_and_fire_inv [OF s(1)] assms(2) by simp
  then have "client_inv s2" by (rule start_connect_timer_inv [OF s(2)])
  then show ?thesis using s(3) add_message_inv by (auto split: if_splits)
qed

lemma send_subscribe_inv:
  "send_subscribe ws name q st = Some st' \<Longrightarrow> client_inv st \<Longrightarrow> client_inv st'"
  by (auto simp: send_subscribe_def bind_Some_iff Let_def
      dest!: next_packet_id_ok dest: client_inv_next add_message_inv encode_and_fire_inv)

lemma send_unsubscribe_inv:
  "send_unsubscribe ws name st = Some st' \<Longrightarrow> client_inv st \<Longrightarrow> client_inv st'"
  by (auto simp: send_unsubscribe_def bind_Some_iff Let_def
      dest!: next_packet_id_ok dest: client_inv_next add_message_inv encode_and_fire_inv)

lemma send_publish_inv:
  "send_publish ws content name q retain dup st = Some st' \<Longrightarrow> client_inv st \<Longrightarrow> client_inv st'"
  by (auto simp: send_publish_def bind_Some_iff Let_def split: if_splits
      dest!: next_packet_id_ok dest: client_inv_next add_message_inv encode_and_fire_inv)

lemma handle_connack_inv:
  assumes "handle_connack ws ok message st = Some st'" and "client_inv st"
  shows "client_inv st'"
proof -
  from assms(1) obtain s1 s2 ca where s: "stop_connect_timer st = Some s1"
    "remove_message_from_map 0 s1 = Some s2" "as_connack message = Some ca"
    "(if return_code ca = ACCEPTED
      then start_mqtt_ping_timer ws ok (client_delay s2) (emit ConnectionSuccessful s2)
      else Some (emit (ConnectionUnsuccessful (return_code ca)) s2)) = Some st'"
    by (auto simp: handle_connack_def bind_Some_iff)
  have "client_inv s1" using s(1) assms(2) by (auto simp: stop_connect_timer_def bind_Some_iff)
  from remove_message_ok [OF this, of 0] s(2) have "client_inv s2" by auto
  then show ?thesis
    using s(4) start_ping_timer_inv by (auto split: if_splits)
qed

lemma handle_message_inv:
  assumes "handle_message ws ok message st = Some st'" and "client_inv st"
  shows "client_inv st'"
proof -
  have "handle_unacceptable ws st = None"
    using assms(2) by (simp add: handle_unacceptable_def send_disconnect_stuck client_inv_def)
  moreover obtain t where "message_type message = Some t"
    using assms(1) by (auto simp: handle_message_def bind_Some_iff)
  ultimately show ?thesis
    using assms by (cases t) (auto simp: handle_message_def intro: handle_connack_inv)
qed

lemma process_rx_inv:
  "process_rx ws ok data st = Some st' \<Longrightarrow> client_inv st \<Longrightarrow> client_inv st'"
  by (auto simp: process_rx_def bind_Some_iff intro: handle_message_inv)

lemma frame_loop_inv:
  "frame_loop ws ok buf n i b st = Some st' \<Longrightarrow> client_inv st \<Longrightarrow> client_inv st'"
proof (induction ws ok buf n i b st arbitrary: st' rule: frame_loop.induct)
  case (1 ws ok buf n i b st)
  let ?len = "int (unat b) + 2"
  from "1.prems"(1) obtain bs st1 where s: "rd_n buf i ?len = Some bs"
    "process_rx ws ok bs st = Some st1"
    "(if exited st1 then Some st1
      else do { b' \<leftarrow> rd buf (i + ?len + 1);
         (if i + ?len < n then frame_loop ws ok buf n (i + ?len) b' st1 else Some st1) }) = Some st'"
    unfolding frame_loop.simps [of ws ok buf n i b st] Let_def bind_Some_iff [of "rd_n buf i ?len"]
      bind_Some_iff [of "process_rx ws ok _ st"] by blast
  have inv: "client_inv st1" by (rule process_rx_inv [OF s(2) "1.prems"(2)])
  show ?case
  proof (cases "exited st1")
    case False
    with s(3) obtain b' where b': "rd buf (i + ?len + 1) = Some b'"
      "(if i + ?len < n then frame_loop ws ok buf n (i + ?len) b' st1 else Some st1) = Some st'"
      by (auto simp: bind_Some_iff)
    show ?thesis
    proof (cases "i + ?len < n")
      case True
      with "1.IH" [OF refl s(1,2) False b'(1) True] b'(2) inv show ?thesis by simp
    qed (use b'(2) inv in simp)
  qed (use s(3) inv in simp)
qed

lemma data_received_inv:
  "mqtt_data_received ws ok buf n st = Some st' \<Longrightarrow> client_inv st \<Longrightarrow> client_inv st'"
  by (auto simp: mqtt_data_received_def bind_Some_iff split: if_splits
      intro: frame_loop_inv process_rx_inv)

lemma fire_all_inv: "fire_all ws es st = Some st' \<Longrightarrow> client_inv st \<Longrightarrow> client_inv st'"
proof (induction es arbitrary: st)
  case (Cons e es)
  then show ?case by (auto simp: bind_Some_iff dest: encode_and_fire_inv)
qed simp

lemma mqtt_step_inv:
  assumes "mqtt_step ws st st'" and "client_inv st"
  shows "client_inv st'"
  using assms
proof (induction rule: mqtt_step.induct)
  case (disconnect st st')
  then show ?case by (simp add: send_disconnect_stuck client_inv_def)
next
  case (resend st st')
  then show ?case by (auto simp: resend_round_def bind_Some_iff intro: fire_all_inv)
qed (auto simp: init_mqtt_client_def send_puback_def send_pubrec_def send_pubcomp_def send_ack_def
    ping_round_def send_ping_def
    intro: send_connect_inv send_subscribe_inv send_unsubscribe_inv send_publish_inv
      data_received_inv encode_and_fire_inv)

lemma mqtt_reachable_inv: "mqtt_reachable ws st \<Longrightarrow> client_inv st"
proof (induction rule: mqtt_reachable.induct)
  case start
  show ?case by (simp add: client_inv_def mqtt_init_def)
qed (rule mqtt_step_inv)

subsection \<open>What the operations do\<close>

lemma client_invD:
  "client_inv st \<Longrightarrow> id_table (msg_map st)" "client_inv st \<Longrightarrow> messager st = NotStarted"
  "client_inv st \<Longrightarrow> \<not> exited st" "client_inv st \<Longrightarrow> 0 \<le> current_packet_number st"
  by (simp_all add: client_inv_def)

text \<open>A message whose packet is under 130 bytes is sent in its wire format; a longer one overflows.\<close>

lemma encode_and_fire_wire:
  assumes "account st = Ref acc" "acc_protocol acc = MQTT"
    and "mqtt_sent message = Some (first, body)" "encoder_supports message"
  shows "encode_and_fire ws message st =
           (if length body < 128
            then Some (emit (RawFire (map Some (packet_bytes first body))) st) else None)"
  using assms get_length_wire [OF assms(3)] encode_wire [OF assms(3,4)]
  by (simp add: encode_and_fire_def)

definition publish_message :: "cstr ptr \<Rightarrow> cstr ptr \<Rightarrow> int \<Rightarrow> int \<Rightarrow> int \<Rightarrow> u16 \<Rightarrow> Message" where
  "publish_message content name q retain dup i =
     \<lparr>message_type = Some PUBLISH, packet = Ref (PPublish
        \<lparr>pub_topic = \<lparr>topic_name = name, qos = of_int q\<rparr>, pub_content = content,
         pub_retain = retain, pub_dup = dup, is_incoming = None,
         pub_packet_id = Some i, pub_time_stamp = None\<rparr>)\<rparr>"

lemma publish_message_wire:
  assumes "topic \<noteq> []" "length topic < 65536"
  shows "mqtt_sent (publish_message (Ref content) (Ref topic) q retain dup i) =
           Some (publish_first \<lparr>pub_topic = \<lparr>topic_name = Ref topic, qos = of_int q\<rparr>,
                   pub_content = Ref content, pub_retain = retain, pub_dup = dup,
                   is_incoming = None, pub_packet_id = Some i, pub_time_stamp = None\<rparr>,
                 publish_body topic i content)"
    and "encoder_supports (publish_message (Ref content) (Ref topic) q retain dup i)"
  using assms
  by (simp_all add: mqtt_sent_def mqtt_layout_def publish_message_def as_publish_def wire_topic_def wire_string_def
      encoder_supports_def)

lemma message_packet_id_publish [simp]:
  "message_packet_id (publish_message content name q retain dup i) = Some i"
  by (simp add: message_packet_id_def publish_message_def as_publish_def)

lemma emit_simps [simp]:
  "account (emit e st) = account st" "msg_map (emit e st) = msg_map st"
  "events (emit e st) = events st @ [e]" "exited (emit e st) = exited st"
  "current_packet_number (emit e st) = current_packet_number st"
  "client_delay (emit e st) = client_delay st" "connecter (emit e st) = connecter st"
  "pinger (emit e st) = pinger st" "messager (emit e st) = messager st"
  by (simp_all add: emit_def)

text \<open>Whatever the format, a publication above QoS 0 is sent and kept under the next packet id.\<close>

lemma send_publish_fired:
  assumes "client_inv st" "q \<noteq> 0" "current_packet_number st < 2 ^ 31 - 1"
    and "i = of_int (current_packet_number st + 1)"
    and "msg = publish_message content topic q retain dup i"
    and "\<And>st'. account st' = account st \<Longrightarrow> encode_and_fire ws msg st' = Some (emit e st')"
  obtains st' where "send_publish ws content topic q retain dup st = Some st'"
    "client_inv st'" "current_packet_number st' = current_packet_number st + 1"
    "id_abs (msg_map st') = (id_abs (msg_map st))(i \<mapsto> msg)" "events st' = events st @ [e]"
proof -
  let ?st = "st\<lparr>current_packet_number := current_packet_number st + 1\<rparr>"
  have next': "next_packet_id st = Some (i, ?st)"
    using assms(3,4) by (simp add: next_packet_id_def int_inc_def)
  have inv: "client_inv (emit e ?st)" using client_inv_next [OF assms(1)] by simp
  have "message_packet_id msg = Some i" unfolding assms(5) by (rule message_packet_id_publish)
  from add_message_ok [OF inv this] obtain m' where
    m': "add_message_in_map msg (emit e ?st) = Some ((emit e ?st)\<lparr>msg_map := m'\<rparr>)"
    "client_inv ((emit e ?st)\<lparr>msg_map := m'\<rparr>)"
    "id_abs m' = (id_abs (msg_map (emit e ?st)))(i \<mapsto> msg)" .
  show thesis
  proof (rule that)
    show "send_publish ws content topic q retain dup st = Some ((emit e ?st)\<lparr>msg_map := m'\<rparr>)"
      using assms(2,5) next' assms(6) [of ?st] m'(1)
      by (simp add: send_publish_def publish_message_def Let_def)
  qed (use m' in simp_all)
qed

lemma send_publish_qos:
  assumes "client_inv st" "account st = Ref acc" "acc_protocol acc = MQTT"
    and "q \<noteq> 0" "current_packet_number st < 2 ^ 31 - 1"
    and "topic \<noteq> []" "length topic < 65536"
    and "i = of_int (current_packet_number st + 1)"
    and "length (publish_body topic i content) < 128"
  obtains st' where "send_publish ws (Ref content) (Ref topic) q retain dup st = Some st'"
    "client_inv st'" "current_packet_number st' = current_packet_number st + 1"
    "id_abs (msg_map st') =
       (id_abs (msg_map st))(i \<mapsto> publish_message (Ref content) (Ref topic) q retain dup i)"
    "events st' = events st @ [RawFire (map Some (packet_bytes
       (publish_first \<lparr>pub_topic = \<lparr>topic_name = Ref topic, qos = of_int q\<rparr>,
           pub_content = Ref content, pub_retain = retain, pub_dup = dup, is_incoming = None,
           pub_packet_id = Some i, pub_time_stamp = None\<rparr>)
       (publish_body topic i content)))]"
proof (rule send_publish_fired [OF assms(1,4,5,8) refl])
  note wire = publish_message_wire [OF assms(6,7), of content q retain dup i]
  fix st' :: mqtt_state
  assume "account st' = account st"
  then have "account st' = Ref acc" using assms(2) by simp
  from encode_and_fire_wire [OF this assms(3) wire, of ws] assms(9)
  show "encode_and_fire ws (publish_message (Ref content) (Ref topic) q retain dup i) st' =
    Some (emit (RawFire (map Some (packet_bytes
       (publish_first \<lparr>pub_topic = \<lparr>topic_name = Ref topic, qos = of_int q\<rparr>,
           pub_content = Ref content, pub_retain = retain, pub_dup = dup, is_incoming = None,
           pub_packet_id = Some i, pub_time_stamp = None\<rparr>)
       (publish_body topic i content)))) st')" by simp
qed (rule that)

text \<open>A CONNACK that accepts the connection, in whatever format it came.\<close>

lemma handle_connack_ok:
  assumes "client_inv st" "connecter st = Running" "as_connack message = Some ca" "return_code ca = ACCEPTED"
  obtains st' where "handle_connack ws True message st = Some st'"
    "client_inv st'" "connecter st' = Cancelled" "pinger st' = Running"
    "timer_delay st' = client_delay st" "id_abs (msg_map st') = (id_abs (msg_map st))(0 := None)"
    "events st' = events st @ [ConnectionSuccessful]" "account st' = account st"
    "current_packet_number st' = current_packet_number st"
proof -
  let ?st = "st\<lparr>connecter := Cancelled\<rparr>"
  have "client_inv ?st" using assms(1) by simp
  from remove_message_ok [OF this, of 0] obtain m' where
    m': "remove_message_from_map 0 ?st = Some (?st\<lparr>msg_map := m'\<rparr>)"
    "client_inv (?st\<lparr>msg_map := m'\<rparr>)" "id_abs m' = (id_abs (msg_map st))(0 := None)"
    by auto
  let ?st' = "(emit ConnectionSuccessful (?st\<lparr>msg_map := m'\<rparr>))\<lparr>timer_delay := client_delay st, pinger := Running\<rparr>"
  show thesis
  proof (rule that [of ?st'])
    show "handle_connack ws True message st = Some ?st'"
      using assms(2-4) m'(1)
      by (simp add: handle_connack_def stop_connect_timer_def pthread_cancel_def start_mqtt_ping_timer_def Let_def)
  qed (use m' in simp_all)
qed

lemma handle_connack_accepted:
  assumes "client_inv st" "connecter st = Running" "account st = Ref acc" "acc_protocol acc = MQTT"
    and "sp \<in> {0, 1}"
  obtains st' where "process_rx ws True (packet_bytes 0x20 [sp, 0] @ rest) st = Some st'"
    "client_inv st'" "connecter st' = Cancelled" "pinger st' = Running"
    "timer_delay st' = client_delay st" "id_abs (msg_map st') = (id_abs (msg_map st))(0 := None)"
    "events st' = events st @ [ConnectionSuccessful]" "account st' = account st"
    "current_packet_number st' = current_packet_number st"
proof -
  let ?m = "\<lparr>message_type = Some CONNACK,
    packet = Ref (PConnack \<lparr>session_present = uint sp, return_code = ucast (0 :: byte)\<rparr>)\<rparr>"
  have "decode (packet_bytes 0x20 [sp, 0] @ rest) = Some ?m"
    using assms(5) by (intro decode_connack_packet) auto
  then have "process_rx ws True (packet_bytes 0x20 [sp, 0] @ rest) st = handle_connack ws True ?m st"
    using assms(3,4) by (simp add: process_rx_def handle_message_def)
  moreover have "as_connack ?m = Some \<lparr>session_present = uint sp, return_code = ucast (0 :: byte)\<rparr>"
    by (simp add: as_connack_def)
  from handle_connack_ok [OF assms(1,2) this, of ws] obtain st' where
    "handle_connack ws True ?m st = Some st'" "client_inv st'" "connecter st' = Cancelled" "pinger st' = Running"
    "timer_delay st' = client_delay st" "id_abs (msg_map st') = (id_abs (msg_map st))(0 := None)"
    "events st' = events st @ [ConnectionSuccessful]" "account st' = account st"
    "current_packet_number st' = current_packet_number st" by auto
  ultimately show thesis using that by simp
qed

text \<open>A CONNACK with a return code or flag the protocol does not have: no packet to read.\<close>

lemma handle_connack_malformed:
  assumes "account st = Ref acc" "acc_protocol acc = MQTT" and "sp \<notin> {0, 1} \<or> code > 5"
  shows "process_rx ws ok (packet_bytes 0x20 [sp, code] @ rest) st = None"
  using assms decode_connack_bad [OF assms(3), of rest]
  by (simp add: process_rx_def handle_message_def handle_connack_def no_packet_def as_connack_def
      bind_eq_None_conv)

text \<open>An acknowledgement or an incoming PUBLISH changes nothing: no reply, no removal.\<close>

definition ignored_types :: "MessageType set" where
  "ignored_types = {PUBLISH, PUBACK, PUBREC, PUBREL, PUBCOMP, SUBACK, UNSUBACK, PINGRESP}"

lemma handle_ignored:
  assumes "message_type message = Some t" and "t \<in> ignored_types"
  shows "handle_message ws ok message st = Some st"
  using assms by (auto simp: handle_message_def ignored_types_def)

subsection \<open>Splitting a read into packets\<close>

definition frame_ok :: "byte list \<Rightarrow> bool" where
  "frame_ok f \<longleftrightarrow> 2 \<le> length f \<and> unat (f ! 1) + 2 = length f"

fun process_all :: "ws_codec \<Rightarrow> bool \<Rightarrow> byte list list \<Rightarrow> mqtt_state \<Rightarrow> mqtt_state option" where
  "process_all ws ok [] st = Some st"
| "process_all ws ok (f # fs) st = do {
     st \<leftarrow> process_rx ws ok f st;
     if exited st then Some st else process_all ws ok fs st
   }"

lemma frame_ok_len: "frame_ok f \<Longrightarrow> int (unat (f ! 1)) + 2 = int (length f)"
  unfolding frame_ok_def by linarith

lemma rd_nth: "i < length buf \<Longrightarrow> rd buf (int i) = Some (buf ! i)"
  by (simp add: rd_def)

lemma frame_loop_frames:
  assumes "\<forall>f \<in> set (f # fs). frame_ok f" and "2 \<le> length extra"
    and "buf = pre @ concat (f # fs) @ extra" and "i = int (length pre)"
    and "n = i + int (length (concat (f # fs)))"
  shows "frame_loop ws ok buf n i (f ! 1) st = process_all ws ok (f # fs) st"
  using assms
proof (induction fs arbitrary: f pre i st)
  case Nil
  then have len: "int (unat (f ! 1)) + 2 = int (length f)" by (intro frame_ok_len) simp
  have "rd_n buf i (int (length f)) = Some f"
    by (rule rd_n_at [OF _ Nil(4) refl, of _ _ extra]) (use Nil in simp)
  moreover have "rd buf (i + int (length f) + 1) = Some (extra ! 1)"
    using rd_nth [of "length pre + length f + 1" buf] Nil(2-4) by (simp add: nth_append ac_simps)
  ultimately show ?case
    using Nil(5) unfolding frame_loop.simps [of ws ok buf n i] Let_def len by (simp cong: if_cong)
next
  case (Cons g gs)
  then have g: "2 \<le> length g" by (simp add: frame_ok_def)
  have len: "int (unat (f ! 1)) + 2 = int (length f)"
    by (rule frame_ok_len) (use Cons.prems(1) in simp)
  have "rd_n buf i (int (length f)) = Some f"
    by (rule rd_n_at [OF _ Cons.prems(4) refl, of _ _ "concat (g # gs) @ extra"])
      (use Cons.prems in simp)
  moreover have "rd buf (i + int (length f) + 1) = Some (g ! 1)"
    using rd_nth [of "length pre + length f + 1" buf] Cons.prems(3,4) g
    by (simp add: nth_append ac_simps)
  moreover have "i + int (length f) < n"
    using Cons.prems(5) g by simp
  moreover have "frame_loop ws ok buf n (i + int (length f)) (g ! 1) st1 =
      process_all ws ok (g # gs) st1" for st1
    by (rule Cons.IH [where pre = "pre @ f"]) (use Cons.prems in simp_all)
  ultimately show ?case
    unfolding frame_loop.simps [of ws ok buf n i] Let_def len by (simp cong: if_cong)
qed

lemma data_received_frames:
  assumes "\<forall>f \<in> set fs. frame_ok f" and "2 \<le> length fs" and "2 \<le> length extra"
    and "account st = Ref acc" "acc_protocol acc = MQTT"
  shows "mqtt_data_received ws ok (concat fs @ extra) (int (length (concat fs))) st =
           process_all ws ok fs st"
proof -
  obtain f g gs where fs: "fs = f # g # gs" using assms(2) by (cases fs; cases "tl fs") auto
  with assms(1) have f: "2 \<le> length f" "unat (f ! 1) + 2 = length f" and g: "2 \<le> length g"
    by (auto simp: frame_ok_def)
  have "rd (concat fs @ extra) 1 = Some (f ! 1)"
    using rd_nth [of 1 "concat fs @ extra"] f(1) by (simp add: fs nth_append)
  moreover have "int (unat (f ! 1)) + 2 < int (length (concat fs))"
    using f(2) g unfolding fs by (simp only: concat.simps length_append)
  ultimately have "mqtt_data_received ws ok (concat fs @ extra) (int (length (concat fs))) st =
      frame_loop ws ok (concat fs @ extra) (int (length (concat fs))) 0 (f ! 1) st"
    using assms(4,5) unfolding mqtt_data_received_def by simp
  also have "\<dots> = process_all ws ok fs st"
    using frame_loop_frames [where pre = "[]" and f = f and fs = "g # gs"] assms(1,3) fs by simp
  finally show ?thesis .
qed

end
