(* ===== verification/SnTypes.thy ===== *)
theory SnTypes
  imports Helpers
begin

text \<open>
  The data of the MQTT-SN client: the structs and enums of src/src/mqttsn/packets/*.h. The type of
  a message is the byte the decoder stores, so it has a constructor for the bytes without a name.
  A field of a topic that the code may leave unset is an option.
\<close>

datatype SnMessageType =
    SN_ADVERTISE | SN_SEARCHGW | SN_GWINFO | SN_CONNECT | SN_CONNACK | SN_WILL_TOPIC_REQ
  | SN_WILL_TOPIC | SN_WILL_MSG_REQ | SN_WILL_MSG | SN_REGISTER | SN_REGACK | SN_PUBLISH
  | SN_PUBACK | SN_PUBCOMP | SN_PUBREC | SN_PUBREL | SN_SUBSCRIBE | SN_SUBACK | SN_UNSUBSCRIBE
  | SN_UNSUBACK | SN_PINGREQ | SN_PINGRESP | SN_DISCONNECT | SN_WILL_TOPIC_UPD
  | SN_WILL_TOPIC_RESP | SN_WILL_MSG_UPD | SN_WILL_MSG_RESP | SN_ENCAPSULATED
  | SN_OTHER byte

definition sn_codes :: "(SnMessageType \<times> byte) list" where
  "sn_codes =
     [(SN_ADVERTISE, 0x00), (SN_SEARCHGW, 0x01), (SN_GWINFO, 0x02), (SN_CONNECT, 0x04),
      (SN_CONNACK, 0x05), (SN_WILL_TOPIC_REQ, 0x06), (SN_WILL_TOPIC, 0x07), (SN_WILL_MSG_REQ, 0x08),
      (SN_WILL_MSG, 0x09), (SN_REGISTER, 0x0a), (SN_REGACK, 0x0b), (SN_PUBLISH, 0x0c),
      (SN_PUBACK, 0x0d), (SN_PUBCOMP, 0x0e), (SN_PUBREC, 0x0f), (SN_PUBREL, 0x10),
      (SN_SUBSCRIBE, 0x12), (SN_SUBACK, 0x13), (SN_UNSUBSCRIBE, 0x14), (SN_UNSUBACK, 0x15),
      (SN_PINGREQ, 0x16), (SN_PINGRESP, 0x17), (SN_DISCONNECT, 0x18), (SN_WILL_TOPIC_UPD, 0x1a),
      (SN_WILL_TOPIC_RESP, 0x1b), (SN_WILL_MSG_UPD, 0x1c), (SN_WILL_MSG_RESP, 0x1d),
      (SN_ENCAPSULATED, 0xfe)]"

definition sn_code :: "SnMessageType \<Rightarrow> byte" where
  "sn_code t = (case t of SN_OTHER b \<Rightarrow> b | _ \<Rightarrow> the (map_of sn_codes t))"

definition sn_of :: "byte \<Rightarrow> SnMessageType" where
  "sn_of b = (case map_of (map prod.swap sn_codes) b of None \<Rightarrow> SN_OTHER b | Some t \<Rightarrow> t)"

lemma sn_of_code: "(\<forall>b. t \<noteq> SN_OTHER b) \<Longrightarrow> sn_of (sn_code t) = t"
  by (cases t) (simp_all add: sn_of_def sn_code_def sn_codes_def)

lemma sn_code_of: "sn_code (sn_of b) = b"
proof (cases "map_of (map prod.swap sn_codes) b")
  case None
  then show ?thesis by (simp add: sn_of_def sn_code_def)
next
  case (Some t)
  then have "(b, t) \<in> set (map prod.swap sn_codes)" by (rule map_of_SomeD)
  then have "(t, b) \<in> set sn_codes" by auto
  moreover have "distinct (map fst sn_codes)" by (simp add: sn_codes_def)
  ultimately have "map_of sn_codes t = Some b" by (metis map_of_eq_Some_iff)
  moreover have "t \<noteq> SN_OTHER c" for c
    using \<open>(t, b) \<in> set sn_codes\<close> by (auto simp: sn_codes_def)
  ultimately show ?thesis
    using Some by (cases t) (auto simp: sn_of_def sn_code_def)
qed

text \<open>Topics, QoS and return codes.\<close>

type_synonym SnTopicType = u32

abbreviation NAMED :: SnTopicType where "NAMED \<equiv> 0"
abbreviation ID :: SnTopicType where "ID \<equiv> 1"
abbreviation SHORT :: SnTopicType where "SHORT \<equiv> 2"

type_synonym SnQoS = u32

type_synonym SnReturnCode = u32

abbreviation SN_ACCEPTED :: SnReturnCode where "SN_ACCEPTED \<equiv> 0"

record SnTopic =
  sn_id :: "u16 option"
  sn_value :: "cstr ptr"
  sn_qos :: "SnQoS option"
  sn_topic_type :: "SnTopicType option"

definition blank_topic :: SnTopic where
  "blank_topic = \<lparr>sn_id = None, sn_value = Wild, sn_qos = None, sn_topic_type = None\<rparr>"

subsection \<open>Packets\<close>

record SnConnect =
  snc_will_present :: int
  snc_clean_session :: int
  snc_protocol_id :: byte
  snc_duration :: u16
  snc_client_id :: "cstr ptr"

record SnPublish =
  snp_message_id :: u16
  snp_topic :: SnTopic
  snp_data :: "cstr ptr"
  snp_dup :: int
  snp_retain :: int

record SnWillTopic =
  snw_retain :: int
  snw_topic :: "SnTopic ptr"

record SnRegister =
  snr_topic_id :: u16
  snr_msg_id :: u16
  snr_topic_name :: "cstr ptr"

text \<open>REGACK and PUBACK have one layout.\<close>

record SnAck =
  sna_topic_id :: u16
  sna_message_id :: u16
  sna_code :: SnReturnCode

record SnSubscribe =
  sns_message_id :: u16
  sns_topic :: "SnTopic ptr"
  sns_dup :: int

record SnSuback =
  snsa_topic_id :: u16
  snsa_message_id :: u16
  snsa_code :: SnReturnCode
  snsa_allowedQos :: SnQoS

record SnUnsubscribe =
  snu_message_id :: u16
  snu_topic :: "SnTopic ptr"

text \<open>\<open>SnMsgId\<close>: the structs with a message id only (PUBREC, PUBREL, PUBCOMP, UNSUBACK).\<close>

datatype sn_packet =
    SnAdvertise byte u16
  | SnSearchGw u32
  | SnGwInfo byte "cstr ptr"
  | PSnConnect SnConnect
  | SnConnack SnReturnCode
  | PSnWillTopic SnWillTopic
  | SnWillMessage "cstr ptr"
  | PSnRegister SnRegister
  | SnRegAck SnAck
  | PSnPublish SnPublish
  | SnPuback SnAck
  | SnMsgId u16
  | PSnSubscribe SnSubscribe
  | PSnSuback SnSuback
  | PSnUnsubscribe SnUnsubscribe
  | SnPingreq "cstr ptr"
  | SnDisconnect u16
  | SnWillTopicUpd SnWillTopic
  | SnWillMsgUpd "cstr ptr"
  | SnWillTopicResp SnReturnCode
  | SnWillMsgResp SnReturnCode
  | SnEncapsulated u32 "cstr ptr" "unit ptr"

record SnMessage =
  sn_message_type :: SnMessageType
  sn_packet :: "sn_packet ptr"

end
