(* ===== verification/SnParser.thy ===== *)
theory SnParser
  imports SnTypes
begin

text \<open>
  src/src/mqttsn/sn_parser.c: the flags byte (\<open>decode_flag\<close>, \<open>validate_create_flags\<close>,
  \<open>encode_flags\<close>), \<open>sn_get_length\<close>, \<open>sn_encode\<close> and \<open>sn_decode\<close>, one definition for each case of
  their switches that does anything. What a function prints is either left out (it does not
  influence the result) or, for the validation of the flags, a list of complaints.
\<close>

subsection \<open>The flags byte\<close>

record Flags =
  fl_dup :: int
  fl_qos_one :: int
  fl_qos1 :: int
  fl_qos2 :: int
  fl_retain :: int
  fl_will :: int
  fl_clean :: int
  fl_reserved :: int
  fl_short_topic :: int
  fl_id_topic :: int

record ValidFlags =
  vf_dup :: int
  vf_qos :: SnQoS
  vf_retain :: int
  vf_will :: int
  vf_clean_session :: int
  vf_topic_type :: SnTopicType

datatype complaint = BadReserved | BadDup | BadQos | BadRetain | BadWill | BadClean | BadTopicType

text \<open>
  The complaints about the flags of one message type. Where the code compares the pointer \<open>qos\<close>
  with 0 instead of what it points to, the comparison is constant: \<open>True\<close> for CONNECT and
  UNSUBSCRIBE, and the tests \<open>qos == NULL\<close> never hold.
\<close>

definition flag_complaints :: "ValidFlags \<Rightarrow> SnMessageType \<Rightarrow> complaint list" where
  "flag_complaints v t =
     (let dup = (if vf_dup v \<noteq> 0 then [BadDup] else []);
          retain = (if vf_retain v \<noteq> 0 then [BadRetain] else []);
          will = (if vf_will v \<noteq> 0 then [BadWill] else []);
          clean = (if vf_clean_session v \<noteq> 0 then [BadClean] else []);
          named = (if vf_topic_type v \<noteq> NAMED then [BadTopicType] else [])
      in case t of
        SN_CONNECT \<Rightarrow> dup @ [BadQos] @ retain @ named
      | SN_WILL_TOPIC \<Rightarrow> dup @ will @ clean @ named
      | SN_PUBLISH \<Rightarrow> will @ clean
          @ (if vf_dup v \<noteq> 0 \<and> (vf_qos v = 0 \<or> vf_qos v = 3) then [BadDup] else [])
      | SN_SUBSCRIBE \<Rightarrow> (if vf_qos v = 3 then [BadQos] else []) @ retain @ will @ clean
      | SN_SUBACK \<Rightarrow> dup @ retain @ will @ clean @ named
      | SN_UNSUBSCRIBE \<Rightarrow> dup @ [BadQos] @ retain @ will @ clean
      | SN_WILL_TOPIC_UPD \<Rightarrow> dup @ will @ clean @ named
      | _ \<Rightarrow> [])"

definition validate_create_flags :: "Flags \<Rightarrow> SnMessageType \<Rightarrow> ValidFlags \<times> complaint list" where
  "validate_create_flags flags t =
     (let v = \<lparr>vf_dup = b2i (fl_dup flags \<noteq> - 1),
               vf_qos = (if fl_qos_one flags \<noteq> - 1 then 3
                         else if fl_qos2 flags \<noteq> - 1 then 2
                         else if fl_qos1 flags \<noteq> - 1 then 1 else 0),
               vf_retain = b2i (fl_retain flags \<noteq> - 1),
               vf_will = b2i (fl_will flags \<noteq> - 1),
               vf_clean_session = b2i (fl_clean flags \<noteq> - 1),
               vf_topic_type = (if fl_short_topic flags \<noteq> - 1 then SHORT
                                else if fl_id_topic flags \<noteq> - 1 then ID else NAMED)\<rparr>
      in (v, (if fl_reserved flags \<noteq> - 1 then [BadReserved] else []) @ flag_complaints v t))"

text \<open>One round of the loop over \<open>i\<close>: the case labels are the masks of the flags.\<close>

definition flag_round :: "byte \<Rightarrow> nat \<Rightarrow> Flags \<Rightarrow> Flags" where
  "flag_round flagsByte i flags =
     (if flagsByte AND of_nat i = of_nat i then
        (if i = 1 then flags\<lparr>fl_id_topic := int i\<rparr>
         else if i = 2 then flags\<lparr>fl_short_topic := int i\<rparr>
         else if i = 3 then flags\<lparr>fl_reserved := int i\<rparr>
         else if i = 4 then flags\<lparr>fl_clean := int i\<rparr>
         else if i = 8 then flags\<lparr>fl_will := int i\<rparr>
         else if i = 16 then flags\<lparr>fl_retain := int i\<rparr>
         else if i = 32 then flags\<lparr>fl_qos1 := int i\<rparr>
         else if i = 64 then flags\<lparr>fl_qos2 := int i\<rparr>
         else if i = 96 then flags\<lparr>fl_qos_one := int i\<rparr>
         else if i = 128 then flags\<lparr>fl_dup := int i\<rparr>
         else flags)
      else flags)"

definition no_flags :: Flags where
  "no_flags = \<lparr>fl_dup = - 1, fl_qos_one = - 1, fl_qos1 = - 1, fl_qos2 = - 1, fl_retain = - 1,
     fl_will = - 1, fl_clean = - 1, fl_reserved = - 1, fl_short_topic = - 1, fl_id_topic = - 1\<rparr>"

definition decode_flag :: "byte \<Rightarrow> SnMessageType \<Rightarrow> ValidFlags \<times> complaint list" where
  "decode_flag flagsByte t =
     validate_create_flags (fold (flag_round flagsByte) [1..<129] no_flags) t"

definition encode_flags ::
    "int \<Rightarrow> SnQoS option \<Rightarrow> int \<Rightarrow> int \<Rightarrow> int \<Rightarrow> SnTopicType option \<Rightarrow> byte" where
  "encode_flags dup q retain will cleanSession topicType =
     (if dup \<noteq> 0 then 128 else 0)
   + (case q of None \<Rightarrow> 0 | Some x \<Rightarrow> push_bit 5 (ucast x))
   + (if retain \<noteq> 0 then 16 else 0)
   + (if will \<noteq> 0 then 8 else 0)
   + (if cleanSession \<noteq> 0 then 4 else 0)
   + (case topicType of None \<Rightarrow> 0 | Some x \<Rightarrow> ucast x)"

text \<open>The rounds that are not a case label do nothing: the loop in closed form.\<close>

lemma flag_round_other:
  "i \<notin> {1, 2, 3, 4, 8, 16, 32, 64, 96, 128} \<Longrightarrow> flag_round b i flags = flags"
  by (simp add: flag_round_def)

lemma fold_filter_id:
  "(\<And>x y. \<not> P x \<Longrightarrow> f x y = y) \<Longrightarrow> fold f xs a = fold f (filter P xs) a"
  by (induction xs arbitrary: a) auto

lemma flag_labels:
  "filter (\<lambda>i. i \<in> {1, 2, 3, 4, 8, 16, 32, 64, 96, 128}) [1..<129] =
     [1, 2, 3, 4, 8, 16, 32, 64, 96, 128 :: nat]"
  by code_simp

definition flags_of :: "byte \<Rightarrow> Flags" where
  "flags_of b = fold (flag_round b) [1, 2, 3, 4, 8, 16, 32, 64, 96, 128] no_flags"

lemma decode_flag_eq: "decode_flag b t = validate_create_flags (flags_of b) t"
proof -
  have "fold (flag_round b) [1..<129] no_flags =
      fold (flag_round b) (filter (\<lambda>i. i \<in> {1, 2, 3, 4, 8, 16, 32, 64, 96, 128}) [1..<129]) no_flags"
    by (rule fold_filter_id) (rule flag_round_other)
  then show ?thesis by (simp only: flag_labels decode_flag_def flags_of_def)
qed

text \<open>What the encoder puts into the flags byte is what the decoder takes out of it.\<close>

lemma flags_roundtrip:
  assumes "q < 4" and "tt < 3"
  shows "fst (decode_flag (encode_flags dup (Some q) retain will clean (Some tt)) t) =
           \<lparr>vf_dup = b2i (dup \<noteq> 0), vf_qos = q, vf_retain = b2i (retain \<noteq> 0),
            vf_will = b2i (will \<noteq> 0), vf_clean_session = b2i (clean \<noteq> 0), vf_topic_type = tt\<rparr>"
proof -
  have "q = 0 \<or> q = 1 \<or> q = 2 \<or> q = 3" and "tt = 0 \<or> tt = 1 \<or> tt = 2"
    using assms by (auto simp: word_less_nat_alt word_unat_eq_iff) 
  then show ?thesis
    by (elim disjE; cases "dup = 0"; cases "retain = 0"; cases "will = 0"; cases "clean = 0";
        simp add: decode_flag_eq flags_of_def flag_round_def no_flags_def encode_flags_def
          validate_create_flags_def Let_def b2i_def)
qed

subsection \<open>Lengths\<close>

text \<open>The length of a string that may be absent, and the two bytes a long message needs.\<close>

definition opt_strlen :: "cstr ptr \<Rightarrow> int option" where
  "opt_strlen p = (if p = Null then Some 0 else map_option int (c_strlen p))"

definition long_strlen :: "int \<Rightarrow> cstr ptr \<Rightarrow> int option" where
  "long_strlen limit p = do {
     n \<leftarrow> c_strlen p;
     Some (int n + (if int n > limit then 2 else 0))
   }"

definition sn_will_topic_length :: "SnTopic ptr \<Rightarrow> int option" where
  "sn_will_topic_length topic =
     (if topic = Null then Some 2
      else do { t \<leftarrow> deref topic; n \<leftarrow> long_strlen 252 (sn_value t); Some (2 + n + 1) })"

definition sn_sub_length :: "SnTopic ptr \<Rightarrow> int option" where
  "sn_sub_length topic = do {
     t \<leftarrow> deref topic;
     tt \<leftarrow> sn_topic_type t;
     (if tt \<noteq> ID then do { n \<leftarrow> long_strlen 250 (sn_value t); Some (5 + n) }
      else Some (5 + 2))
   }"

text \<open>
  For SN_ENCAPSULATED with a message the code takes \<open>strlen\<close> of the inner packet struct (marked
  FIXME in the source); the bytes of a struct are not modelled and that branch is undefined here.
\<close>

definition sn_get_length :: "SnMessage \<Rightarrow> int option" where
  "sn_get_length m =
     (case sn_message_type m of
        SN_ADVERTISE \<Rightarrow> Some 5
      | SN_SEARCHGW \<Rightarrow> Some 3
      | SN_GWINFO \<Rightarrow> do { p \<leftarrow> deref (sn_packet m);
          (case p of SnGwInfo g a \<Rightarrow> do { n \<leftarrow> opt_strlen a; Some (3 + n) } | _ \<Rightarrow> None) }
      | SN_CONNECT \<Rightarrow> do { p \<leftarrow> deref (sn_packet m);
          (case p of PSnConnect c \<Rightarrow> do { n \<leftarrow> c_strlen (snc_client_id c); Some (6 + int n) }
           | _ \<Rightarrow> None) }
      | SN_CONNACK \<Rightarrow> Some 3
      | SN_WILL_TOPIC_REQ \<Rightarrow> Some 2
      | SN_WILL_TOPIC \<Rightarrow> do { p \<leftarrow> deref (sn_packet m);
          (case p of PSnWillTopic w \<Rightarrow> sn_will_topic_length (snw_topic w) | _ \<Rightarrow> None) }
      | SN_WILL_MSG_REQ \<Rightarrow> Some 2
      | SN_WILL_MSG \<Rightarrow> do { p \<leftarrow> deref (sn_packet m);
          (case p of SnWillMessage s \<Rightarrow> do { n \<leftarrow> long_strlen 253 s; Some (2 + n) } | _ \<Rightarrow> None) }
      | SN_REGISTER \<Rightarrow> do { p \<leftarrow> deref (sn_packet m);
          (case p of PSnRegister r \<Rightarrow>
             if snr_topic_name r = Null then Some (- 1)
             else do { n \<leftarrow> long_strlen 249 (snr_topic_name r); Some (6 + n) } | _ \<Rightarrow> None) }
      | SN_REGACK \<Rightarrow> Some 7
      | SN_PUBLISH \<Rightarrow> do { p \<leftarrow> deref (sn_packet m);
          (case p of PSnPublish q \<Rightarrow> do { n \<leftarrow> long_strlen 248 (snp_data q); Some (7 + n) } | _ \<Rightarrow> None) }
      | SN_PUBACK \<Rightarrow> Some 7
      | SN_PUBREC \<Rightarrow> Some 4
      | SN_PUBREL \<Rightarrow> Some 4
      | SN_PUBCOMP \<Rightarrow> Some 4
      | SN_SUBSCRIBE \<Rightarrow> do { p \<leftarrow> deref (sn_packet m);
          (case p of PSnSubscribe q \<Rightarrow> sn_sub_length (sns_topic q) | _ \<Rightarrow> None) }
      | SN_SUBACK \<Rightarrow> Some 8
      | SN_UNSUBSCRIBE \<Rightarrow> do { p \<leftarrow> deref (sn_packet m);
          (case p of PSnUnsubscribe q \<Rightarrow> sn_sub_length (snu_topic q) | _ \<Rightarrow> None) }
      | SN_UNSUBACK \<Rightarrow> Some 4
      | SN_PINGREQ \<Rightarrow> do { p \<leftarrow> deref (sn_packet m);
          (case p of SnPingreq c \<Rightarrow> do { n \<leftarrow> opt_strlen c; Some (2 + n) } | _ \<Rightarrow> None) }
      | SN_PINGRESP \<Rightarrow> Some 2
      | SN_DISCONNECT \<Rightarrow> do { p \<leftarrow> deref (sn_packet m);
          (case p of SnDisconnect d \<Rightarrow> Some (if d > 0 then 4 else 2) | _ \<Rightarrow> None) }
      | SN_WILL_TOPIC_UPD \<Rightarrow> do { p \<leftarrow> deref (sn_packet m);
          (case p of SnWillTopicUpd w \<Rightarrow> sn_will_topic_length (snw_topic w) | _ \<Rightarrow> None) }
      | SN_WILL_MSG_UPD \<Rightarrow> do { p \<leftarrow> deref (sn_packet m);
          (case p of SnWillMsgUpd s \<Rightarrow> do { n \<leftarrow> long_strlen 253 s; Some (2 + n) } | _ \<Rightarrow> None) }
      | SN_WILL_TOPIC_RESP \<Rightarrow> Some 2
      | SN_WILL_MSG_RESP \<Rightarrow> Some 2
      | SN_ENCAPSULATED \<Rightarrow> do { p \<leftarrow> deref (sn_packet m);
          (case p of SnEncapsulated r node inner \<Rightarrow> do {
             n \<leftarrow> opt_strlen node;
             (if inner \<noteq> Null then None else Some (3 + n))
           } | _ \<Rightarrow> None) }
      | SN_OTHER b \<Rightarrow> Some 0)"

subsection \<open>Encoding\<close>

text \<open>The header: one length byte, or the suffix byte and the length as a short; then the type.\<close>

definition sn_put_header :: "SnMessageType \<Rightarrow> int \<Rightarrow> wbuf \<Rightarrow> wbuf option" where
  "sn_put_header t len w = do {
     w \<leftarrow> (if len \<le> 255 then put [of_int len] w
          else do { w \<leftarrow> put [0x01] w; add_short (of_int len) w });
     put [sn_code t] w
   }"

text \<open>A string without a length; the \<open>poke\<close> form leaves \<open>i\<close> behind it.\<close>

definition sn_string :: "cstr \<Rightarrow> byte list" where
  "sn_string s = take (unat (of_nat (length s) :: u16)) s"

definition sn_put_string :: "cstr ptr \<Rightarrow> wbuf \<Rightarrow> wbuf option" where
  "sn_put_string p w = do { s \<leftarrow> deref p; put (sn_string s) w }"

definition sn_poke_string :: "cstr ptr \<Rightarrow> wbuf \<Rightarrow> wbuf option" where
  "sn_poke_string p w = do { s \<leftarrow> deref p; poke (sn_string s) w }"

definition sn_encode_gwinfo :: "byte \<Rightarrow> cstr ptr \<Rightarrow> wbuf \<Rightarrow> wbuf option" where
  "sn_encode_gwinfo gw_id addr w = do {
     w \<leftarrow> put [gw_id] w;
     (if addr \<noteq> Null then sn_poke_string addr w else Some w)
   }"

definition sn_encode_connect :: "SnConnect \<Rightarrow> wbuf \<Rightarrow> wbuf option" where
  "sn_encode_connect sc w = do {
     w \<leftarrow> put [encode_flags 0 None 0 (snc_will_present sc) (snc_clean_session sc) None] w;
     w \<leftarrow> put [snc_protocol_id sc] w;
     w \<leftarrow> add_short (snc_duration sc) w;
     sn_put_string (snc_client_id sc) w
   }"

text \<open>WILL_TOPIC and WILL_TOPIC_UPD; the second leaves \<open>i\<close> before the topic.\<close>

definition sn_encode_will_topic :: "bool \<Rightarrow> SnWillTopic \<Rightarrow> wbuf \<Rightarrow> wbuf option" where
  "sn_encode_will_topic advance swt w =
     (if snw_topic swt \<noteq> Null then do {
        t \<leftarrow> deref (snw_topic swt);
        q \<leftarrow> sn_qos t;
        w \<leftarrow> put [encode_flags 0 (Some q) (snw_retain swt) 0 0 None] w;
        (if advance then sn_put_string (sn_value t) w else sn_poke_string (sn_value t) w)
      } else Some w)"

definition sn_encode_register :: "SnRegister \<Rightarrow> wbuf \<Rightarrow> wbuf option" where
  "sn_encode_register sr w = do {
     w \<leftarrow> add_short (snr_topic_id sr) w;
     w \<leftarrow> add_short (snr_msg_id sr) w;
     sn_put_string (snr_topic_name sr) w
   }"

text \<open>REGACK and PUBACK, which differ in whether \<open>i\<close> moves past the code.\<close>

definition sn_encode_ack :: "bool \<Rightarrow> SnAck \<Rightarrow> wbuf \<Rightarrow> wbuf option" where
  "sn_encode_ack advance sra w = do {
     w \<leftarrow> add_short (sna_topic_id sra) w;
     w \<leftarrow> add_short (sna_message_id sra) w;
     (if advance then put [ucast (sna_code sra)] w else poke [ucast (sna_code sra)] w)
   }"

definition sn_encode_publish :: "SnPublish \<Rightarrow> wbuf \<Rightarrow> wbuf option" where
  "sn_encode_publish sp w = do {
     q \<leftarrow> sn_qos (snp_topic sp);
     tt \<leftarrow> sn_topic_type (snp_topic sp);
     w \<leftarrow> put [encode_flags (snp_dup sp) (Some q) (snp_retain sp) 0 0 (Some tt)] w;
     w \<leftarrow> (if tt = ID then do { i \<leftarrow> sn_id (snp_topic sp); add_short i w }
          else sn_put_string (sn_value (snp_topic sp)) w);
     w \<leftarrow> add_short (snp_message_id sp) w;
     sn_put_string (snp_data sp) w
   }"

text \<open>SUBSCRIBE and UNSUBSCRIBE.\<close>

definition sn_encode_sub :: "byte \<Rightarrow> u16 \<Rightarrow> SnTopic \<Rightarrow> wbuf \<Rightarrow> wbuf option" where
  "sn_encode_sub flags message_id t w = do {
     w \<leftarrow> put [flags] w;
     w \<leftarrow> add_short message_id w;
     tt \<leftarrow> sn_topic_type t;
     (if tt = ID then do { i \<leftarrow> sn_id t; add_short i w } else sn_put_string (sn_value t) w)
   }"

definition sn_encode_subscribe :: "SnSubscribe \<Rightarrow> wbuf \<Rightarrow> wbuf option" where
  "sn_encode_subscribe ss w = do {
     t \<leftarrow> deref (sns_topic ss);
     q \<leftarrow> sn_qos t;
     tt \<leftarrow> sn_topic_type t;
     sn_encode_sub (encode_flags (sns_dup ss) (Some q) 0 0 0 (Some tt)) (sns_message_id ss) t w
   }"

definition sn_encode_suback :: "SnSuback \<Rightarrow> wbuf \<Rightarrow> wbuf option" where
  "sn_encode_suback ssa w = do {
     w \<leftarrow> put [encode_flags 0 (Some (snsa_allowedQos ssa)) 0 0 0 None] w;
     w \<leftarrow> add_short (snsa_topic_id ssa) w;
     w \<leftarrow> add_short (snsa_message_id ssa) w;
     poke [ucast (snsa_code ssa)] w
   }"

definition sn_encode_unsubscribe :: "SnUnsubscribe \<Rightarrow> wbuf \<Rightarrow> wbuf option" where
  "sn_encode_unsubscribe sus w = do {
     t \<leftarrow> deref (snu_topic sus);
     tt \<leftarrow> sn_topic_type t;
     sn_encode_sub (encode_flags 0 None 0 0 0 (Some tt)) (snu_message_id sus) t w
   }"

definition sn_encode_encapsulated :: "u32 \<Rightarrow> cstr ptr \<Rightarrow> wbuf \<Rightarrow> wbuf option" where
  "sn_encode_encapsulated radius node w = do { w \<leftarrow> put [ucast radius] w; sn_put_string node w }"

definition is_other :: "SnMessageType \<Rightarrow> bool" where
  "is_other t = (case t of SN_OTHER b \<Rightarrow> True | _ \<Rightarrow> False)"

text \<open>The switch of \<open>sn_encode\<close>, on the struct the type announces.\<close>

definition sn_encode_packet :: "SnMessageType \<Rightarrow> sn_packet ptr \<Rightarrow> int \<Rightarrow> wbuf \<Rightarrow> wbuf option" where
  "sn_encode_packet t p len w =
     (if t \<in> {SN_WILL_TOPIC_REQ, SN_WILL_MSG_REQ, SN_PINGRESP} then Some w
      else if t \<in> {SN_PINGREQ, SN_DISCONNECT} \<and> len \<le> 2 then Some w
      else if is_other t then Some w
      else (case (t, p) of
        (SN_ADVERTISE, Ref (SnAdvertise g d)) \<Rightarrow> do { w \<leftarrow> put [g] w; poke_short d w }
      | (SN_SEARCHGW, Ref (SnSearchGw r)) \<Rightarrow> poke [ucast r] w
      | (SN_GWINFO, Ref (SnGwInfo g a)) \<Rightarrow> sn_encode_gwinfo g a w
      | (SN_CONNECT, Ref (PSnConnect c)) \<Rightarrow> sn_encode_connect c w
      | (SN_CONNACK, Ref (SnConnack c)) \<Rightarrow> poke [ucast c] w
      | (SN_WILL_TOPIC_RESP, Ref (SnWillTopicResp c)) \<Rightarrow> poke [ucast c] w
      | (SN_WILL_MSG_RESP, Ref (SnWillMsgResp c)) \<Rightarrow> poke [ucast c] w
      | (SN_WILL_TOPIC, Ref (PSnWillTopic x)) \<Rightarrow> sn_encode_will_topic True x w
      | (SN_WILL_MSG, Ref (SnWillMessage x)) \<Rightarrow> sn_put_string x w
      | (SN_REGISTER, Ref (PSnRegister x)) \<Rightarrow> sn_encode_register x w
      | (SN_REGACK, Ref (SnRegAck x)) \<Rightarrow> sn_encode_ack True x w
      | (SN_PUBLISH, Ref (PSnPublish x)) \<Rightarrow> sn_encode_publish x w
      | (SN_PUBACK, Ref (SnPuback x)) \<Rightarrow> sn_encode_ack False x w
      | (SN_PUBREC, Ref (SnMsgId i)) \<Rightarrow> add_short i w
      | (SN_PUBREL, Ref (SnMsgId i)) \<Rightarrow> add_short i w
      | (SN_PUBCOMP, Ref (SnMsgId i)) \<Rightarrow> add_short i w
      | (SN_UNSUBACK, Ref (SnMsgId i)) \<Rightarrow> add_short i w
      | (SN_SUBSCRIBE, Ref (PSnSubscribe x)) \<Rightarrow> sn_encode_subscribe x w
      | (SN_SUBACK, Ref (PSnSuback x)) \<Rightarrow> sn_encode_suback x w
      | (SN_UNSUBSCRIBE, Ref (PSnUnsubscribe x)) \<Rightarrow> sn_encode_unsubscribe x w
      | (SN_PINGREQ, Ref (SnPingreq c)) \<Rightarrow> sn_put_string c w
      | (SN_DISCONNECT, Ref (SnDisconnect d)) \<Rightarrow> add_short d w
      | (SN_WILL_TOPIC_UPD, Ref (SnWillTopicUpd x)) \<Rightarrow> sn_encode_will_topic False x w
      | (SN_WILL_MSG_UPD, Ref (SnWillMsgUpd x)) \<Rightarrow> sn_poke_string x w
      | (SN_ENCAPSULATED, Ref (SnEncapsulated r node inner)) \<Rightarrow> sn_encode_encapsulated r node w
      | _ \<Rightarrow> None))"

text \<open>A negative length is a \<open>malloc\<close> of more than the address space: its NULL is written to.\<close>

definition sn_encode :: "SnMessage \<Rightarrow> int \<Rightarrow> mem option" where
  "sn_encode m len = do {
     c_assert (0 \<le> len);
     w \<leftarrow> sn_put_header (sn_message_type m) len (c_malloc (nat len), 0);
     w \<leftarrow> sn_encode_packet (sn_message_type m) (sn_packet m) len w;
     Some (fst w)
   }"

subsection \<open>Decoding\<close>

definition get_string :: "byte list \<Rightarrow> int \<Rightarrow> int \<Rightarrow> cstr ptr option" where
  "get_string buf i bytes_left = do { bs \<leftarrow> rd_n buf i bytes_left; Some (Ref (cstr_of bs)) }"

text \<open>Each case gets the index \<open>i\<close> behind the type byte and the bytes left.\<close>

definition sn_decode_gwinfo :: "byte list \<Rightarrow> int \<Rightarrow> int \<Rightarrow> sn_packet ptr option" where
  "sn_decode_gwinfo buf i left = do {
     g \<leftarrow> rd buf i;
     a \<leftarrow> get_string buf (i + 1) (left - 1);
     Some (Ref (SnGwInfo g a))
   }"

definition sn_decode_connect :: "byte list \<Rightarrow> int \<Rightarrow> int \<Rightarrow> sn_packet ptr option" where
  "sn_decode_connect buf i left = do {
     fb \<leftarrow> rd buf i;
     let connect_flags = fst (decode_flag fb SN_CONNECT);
     pid \<leftarrow> rd buf (i + 1);
     d \<leftarrow> get_short buf (i + 2);
     c \<leftarrow> get_string buf (i + 4) (left - 4);
     Some (Ref (PSnConnect \<lparr>snc_will_present = vf_will connect_flags,
       snc_clean_session = vf_clean_session connect_flags, snc_protocol_id = pid,
       snc_duration = d, snc_client_id = c\<rparr>))
   }"

text \<open>WILL_TOPIC: with a topic the flags are read a second time, from the byte behind them.\<close>

definition sn_decode_will_topic :: "byte list \<Rightarrow> int \<Rightarrow> int \<Rightarrow> sn_packet ptr option" where
  "sn_decode_will_topic buf i left = do {
     fb \<leftarrow> rd buf i;
     (if left > 0 then do {
        fb2 \<leftarrow> rd buf (i + 1);
        let will_topic_flags = fst (decode_flag fb2 SN_WILL_TOPIC);
        v \<leftarrow> get_string buf (i + 2) (left - 1);
        Some (Ref (PSnWillTopic \<lparr>snw_retain = vf_retain will_topic_flags,
          snw_topic = Ref (blank_topic\<lparr>sn_value := v, sn_qos := Some (vf_qos will_topic_flags)\<rparr>)\<rparr>))
      } else Some (Ref (PSnWillTopic
          \<lparr>snw_retain = vf_retain (fst (decode_flag fb SN_WILL_TOPIC)), snw_topic = Null\<rparr>)))
   }"

definition sn_decode_register :: "byte list \<Rightarrow> int \<Rightarrow> int \<Rightarrow> sn_packet ptr option" where
  "sn_decode_register buf i left = do {
     ti \<leftarrow> get_short buf i;
     mi \<leftarrow> get_short buf (i + 2);
     n \<leftarrow> get_string buf (i + 4) (left - 4);
     Some (Ref (PSnRegister \<lparr>snr_topic_id = ti, snr_msg_id = mi, snr_topic_name = n\<rparr>))
   }"

definition sn_decode_ack :: "(SnAck \<Rightarrow> sn_packet) \<Rightarrow> byte list \<Rightarrow> int \<Rightarrow> sn_packet ptr option" where
  "sn_decode_ack con buf i = do {
     ti \<leftarrow> get_short buf i;
     mi \<leftarrow> get_short buf (i + 2);
     c \<leftarrow> rd buf (i + 4);
     Some (Ref (con \<lparr>sna_topic_id = ti, sna_message_id = mi, sna_code = ucast c\<rparr>))
   }"

text \<open>
  PUBLISH: the name of a short topic is a local array that is gone when the packet is read, the
  type of the topic is not set, and the data is printed whether there is any or not.
\<close>

definition sn_decode_publish :: "byte list \<Rightarrow> int \<Rightarrow> int \<Rightarrow> sn_packet ptr option" where
  "sn_decode_publish buf i left = do {
     fb \<leftarrow> rd buf i;
     let pub_flags = fst (decode_flag fb SN_PUBLISH);
     topic_id \<leftarrow> get_short buf (i + 1);
     mi \<leftarrow> get_short buf (i + 3);
     let topic = (if vf_topic_type pub_flags = SHORT then blank_topic
                  else blank_topic\<lparr>sn_id := Some topic_id\<rparr>);
     d \<leftarrow> (if left - 5 > 0 then get_string buf (i + 5) (left - 5) else Some Wild);
     printed \<leftarrow> deref d;
     Some (Ref (PSnPublish \<lparr>snp_message_id = mi,
       snp_topic = topic\<lparr>sn_qos := Some (vf_qos pub_flags)\<rparr>, snp_data = d,
       snp_dup = vf_dup pub_flags, snp_retain = vf_retain pub_flags\<rparr>))
   }"

definition sn_decode_id :: "byte list \<Rightarrow> int \<Rightarrow> sn_packet ptr option" where
  "sn_decode_id buf i = do { mi \<leftarrow> get_short buf i; Some (Ref (SnMsgId mi)) }"

text \<open>SUBSCRIBE and UNSUBSCRIBE write through the topic pointer of a struct just allocated.\<close>

definition sn_decode_subscribe :: "byte list \<Rightarrow> int \<Rightarrow> int \<Rightarrow> sn_packet ptr option" where
  "sn_decode_subscribe buf i left = do {
     fb \<leftarrow> rd buf i;
     let sub_flags = fst (decode_flag fb SN_SUBSCRIBE);
     topic \<leftarrow> deref (Wild :: SnTopic ptr);
     let topic = topic\<lparr>sn_topic_type := Some (vf_topic_type sub_flags)\<rparr>;
     mi \<leftarrow> get_short buf (i + 1);
     topic \<leftarrow> (if vf_topic_type sub_flags = ID
               then do { x \<leftarrow> get_short buf (i + 3); Some (topic\<lparr>sn_id := Some x\<rparr>) }
               else do { v \<leftarrow> get_string buf (i + 3) (left - 3); Some (topic\<lparr>sn_value := v\<rparr>) });
     Some (Ref (PSnSubscribe \<lparr>sns_message_id = mi,
       sns_topic = Ref (topic\<lparr>sn_qos := Some (vf_qos sub_flags)\<rparr>), sns_dup = vf_dup sub_flags\<rparr>))
   }"

definition sn_decode_unsubscribe :: "byte list \<Rightarrow> int \<Rightarrow> int \<Rightarrow> sn_packet ptr option" where
  "sn_decode_unsubscribe buf i left = do {
     fb \<leftarrow> rd buf i;
     let unsub_flags = fst (decode_flag fb SN_UNSUBSCRIBE);
     topic \<leftarrow> deref (Wild :: SnTopic ptr);
     let topic = topic\<lparr>sn_qos := Some (vf_qos unsub_flags),
                       sn_topic_type := Some (vf_topic_type unsub_flags)\<rparr>;
     mi \<leftarrow> get_short buf (i + 1);
     topic \<leftarrow> (if vf_topic_type unsub_flags = ID
               then do { x \<leftarrow> get_short buf (i + 3); Some (topic\<lparr>sn_id := Some x\<rparr>) }
               else do { v \<leftarrow> get_string buf (i + 3) (left - 3); Some (topic\<lparr>sn_value := v\<rparr>) });
     Some (Ref (PSnUnsubscribe \<lparr>snu_message_id = mi, snu_topic = Ref topic\<rparr>))
   }"

definition sn_decode_suback :: "byte list \<Rightarrow> int \<Rightarrow> sn_packet ptr option" where
  "sn_decode_suback buf i = do {
     fb \<leftarrow> rd buf i;
     ti \<leftarrow> get_short buf (i + 1);
     mi \<leftarrow> get_short buf (i + 3);
     c \<leftarrow> rd buf (i + 5);
     Some (Ref (PSnSuback \<lparr>snsa_topic_id = ti, snsa_message_id = mi, snsa_code = ucast c,
       snsa_allowedQos = vf_qos (fst (decode_flag fb SN_SUBACK))\<rparr>))
   }"

text \<open>WILL_TOPIC_UPD writes through the NULL it has just stored.\<close>

definition sn_decode_will_topic_upd :: "byte list \<Rightarrow> int \<Rightarrow> int \<Rightarrow> sn_packet ptr option" where
  "sn_decode_will_topic_upd buf i left =
     (if left > 0 then do {
        fb \<leftarrow> rd buf i;
        let upd_flags = fst (decode_flag fb SN_WILL_TOPIC_UPD);
        topic \<leftarrow> deref (Null :: SnTopic ptr);
        v \<leftarrow> get_string buf (i + 1) (left - 1);
        Some (Ref (SnWillTopicUpd \<lparr>snw_retain = vf_retain upd_flags,
          snw_topic = Ref (topic\<lparr>sn_qos := Some (vf_qos upd_flags), sn_value := v\<rparr>)\<rparr>))
      } else Some (Ref (SnWillTopicUpd \<lparr>snw_retain = 0, snw_topic = Null\<rparr>)))"

definition sn_decode_packet :: "SnMessageType \<Rightarrow> byte list \<Rightarrow> int \<Rightarrow> int \<Rightarrow> sn_packet ptr option" where
  "sn_decode_packet t buf i left =
     (case t of
        SN_ADVERTISE \<Rightarrow> do {
          g \<leftarrow> rd buf i; d \<leftarrow> get_short buf (i + 1); Some (Ref (SnAdvertise g d)) }
      | SN_SEARCHGW \<Rightarrow> do { r \<leftarrow> rd buf i; Some (Ref (SnSearchGw (ucast r))) }
      | SN_GWINFO \<Rightarrow> sn_decode_gwinfo buf i left
      | SN_CONNECT \<Rightarrow> sn_decode_connect buf i left
      | SN_CONNACK \<Rightarrow> do { c \<leftarrow> rd buf i; Some (Ref (SnConnack (ucast c))) }
      | SN_WILL_TOPIC_REQ \<Rightarrow> Some Null
      | SN_WILL_TOPIC \<Rightarrow> sn_decode_will_topic buf i left
      | SN_WILL_MSG_REQ \<Rightarrow> Some Null
      | SN_WILL_MSG \<Rightarrow> do { s \<leftarrow> get_string buf i left; Some (Ref (SnWillMessage s)) }
      | SN_REGISTER \<Rightarrow> sn_decode_register buf i left
      | SN_REGACK \<Rightarrow> sn_decode_ack SnRegAck buf i
      | SN_PUBLISH \<Rightarrow> sn_decode_publish buf i left
      | SN_PUBACK \<Rightarrow> sn_decode_ack SnPuback buf i
      | SN_PUBREC \<Rightarrow> sn_decode_id buf i
      | SN_PUBREL \<Rightarrow> sn_decode_id buf i
      | SN_PUBCOMP \<Rightarrow> sn_decode_id buf i
      | SN_SUBSCRIBE \<Rightarrow> sn_decode_subscribe buf i left
      | SN_SUBACK \<Rightarrow> sn_decode_suback buf i
      | SN_UNSUBSCRIBE \<Rightarrow> sn_decode_unsubscribe buf i left
      | SN_UNSUBACK \<Rightarrow> sn_decode_id buf i
      | SN_PINGREQ \<Rightarrow>
          (if left > 0 then do { c \<leftarrow> get_string buf i left; Some (Ref (SnPingreq c)) }
           else Some (Ref (SnPingreq Null)))
      | SN_PINGRESP \<Rightarrow> Some Null
      | SN_DISCONNECT \<Rightarrow>
          (if left > 0 then do { d \<leftarrow> get_short buf i; Some (Ref (SnDisconnect d)) }
           else Some (Ref (SnDisconnect 0)))
      | SN_WILL_TOPIC_UPD \<Rightarrow> sn_decode_will_topic_upd buf i left
      | SN_WILL_MSG_UPD \<Rightarrow> do { s \<leftarrow> get_string buf i left; Some (Ref (SnWillMsgUpd s)) }
      | SN_WILL_TOPIC_RESP \<Rightarrow> do { c \<leftarrow> rd buf i; Some (Ref (SnWillTopicResp (ucast c))) }
      | SN_WILL_MSG_RESP \<Rightarrow> do { c \<leftarrow> rd buf i; Some (Ref (SnWillMsgResp (ucast c))) }
      | SN_ENCAPSULATED \<Rightarrow> Some Wild
      | SN_OTHER b \<Rightarrow> Some Wild)"

definition sn_decode :: "byte list \<Rightarrow> SnMessage option" where
  "sn_decode buf = do {
     first_length_byte \<leftarrow> rd buf 0;
     (len, i) \<leftarrow> (if first_length_byte = 0x01
                then do { n \<leftarrow> get_short buf 1; Some (int (unat n), 3) }
                else Some (int (unat first_length_byte), 1));
     b \<leftarrow> rd buf i;
     p \<leftarrow> sn_decode_packet (sn_of b) buf (i + 1) (len - i - 1);
     Some \<lparr>sn_message_type = sn_of b, sn_packet = p\<rparr>
   }"

subsection \<open>The wire format\<close>

text \<open>
  \<open>writes f body\<close>: run behind any bytes already written, the writer \<open>f\<close> appends \<open>body\<close>, up to
  where it leaves its index.
\<close>

definition writes :: "(wbuf \<Rightarrow> wbuf option) \<Rightarrow> byte list \<Rightarrow> bool" where
  "writes f body \<longleftrightarrow>
     (\<forall>bs w. map_option fst (Option.bind (put bs w) f) = map_option fst (put (bs @ body) w))"

lemma writesI:
  "(\<And>bs w. map_option fst (Option.bind (put bs w) f) = map_option fst (put (bs @ body) w)) \<Longrightarrow>
   writes f body"
  unfolding writes_def by blast

lemma writesD:
  "writes f body \<Longrightarrow> map_option fst (Option.bind (put bs w) f) = map_option fst (put (bs @ body) w)"
  unfolding writes_def by blast

named_theorems writes "how the pieces of an encoder compose"

lemma writes_put [writes]: "writes (put xs) xs"
  by (simp add: writes_def put_put)

lemma writes_poke [writes]: "writes (poke xs) xs"
  by (simp add: writes_def put_poke_fst)

lemma writes_short [writes]: "writes (add_short i) (short_bytes i)"
  using writes_put [of "short_bytes i"] by (simp add: add_short_def [abs_def])

lemma writes_poke_short [writes]: "writes (poke_short i) (short_bytes i)"
  using writes_poke [of "short_bytes i"] by (simp add: poke_short_def [abs_def])

lemma writes_Some [writes]: "writes Some []"
  by (simp add: writes_def)

lemma writes_seq:
  assumes "f = put xs" and "writes g ys"
  shows "writes (\<lambda>w. Option.bind (f w) g) (xs @ ys)"
proof (rule writesI)
  fix bs w
  show "map_option fst (Option.bind (put bs w) (\<lambda>w. Option.bind (f w) g)) =
      map_option fst (put (bs @ xs @ ys) w)"
    unfolding assms(1) put_put_bind by (simp only: writesD [OF assms(2)] append_assoc)
qed

lemma writes_put_seq [writes]: "writes g ys \<Longrightarrow> writes (\<lambda>w. Option.bind (put xs w) g) (xs @ ys)"
  by (rule writes_seq [OF refl])

lemma writes_short_seq [writes]:
  "writes g ys \<Longrightarrow> writes (\<lambda>w. Option.bind (add_short i w) g) (short_bytes i @ ys)"
  by (rule writes_seq) (simp_all add: add_short_def [abs_def])

lemma sn_string_id: "length s < 65536 \<Longrightarrow> sn_string s = s"
  by (simp add: sn_string_def unat_of_nat)

lemma sn_put_string_Ref: "length s < 65536 \<Longrightarrow> sn_put_string (Ref s) = put s"
  by (rule ext) (simp add: sn_put_string_def sn_string_id)

lemma sn_poke_string_Ref: "length s < 65536 \<Longrightarrow> sn_poke_string (Ref s) = poke s"
  by (rule ext) (simp add: sn_poke_string_def sn_string_id)

text \<open>The body of the MQTT-SN 1.2 message: what follows the type.\<close>

definition sn_wire_string :: "cstr ptr \<Rightarrow> cstr option" where
  "sn_wire_string p = do { s \<leftarrow> deref p; c_assert (length s < 65000); Some s }"

definition sn_wire_opt :: "cstr ptr \<Rightarrow> cstr option" where
  "sn_wire_opt p = (if p = Null then Some [] else sn_wire_string p)"

text \<open>
  The flags of MQTT-SN 1.2 (5.3.4), from the highest bit: DUP, two bits of QoS, Retain, Will, CleanSession, two bits of
  TopicIdType.
\<close>

definition sn_flags :: "bool \<Rightarrow> SnQoS \<Rightarrow> bool \<Rightarrow> bool \<Rightarrow> bool \<Rightarrow> SnTopicType \<Rightarrow> byte" where
  "sn_flags dup q retain will clean tt =
     of_int (128 * of_bool dup + 32 * uint q + 16 * of_bool retain + 8 * of_bool will + 4 * of_bool clean + uint tt)"

lemma encode_flags_sn [simp]:
  "encode_flags dup q retain will clean tt =
     sn_flags (dup \<noteq> 0) (case q of None \<Rightarrow> 0 | Some x \<Rightarrow> x) (retain \<noteq> 0) (will \<noteq> 0) (clean \<noteq> 0)
       (case tt of None \<Rightarrow> 0 | Some x \<Rightarrow> x)"
proof -
  have bits: "(if b then 128 else (0 :: byte)) = of_int (128 * of_bool b)"
    "(if b then 16 else (0 :: byte)) = of_int (16 * of_bool b)"
    "(if b then 8 else (0 :: byte)) = of_int (8 * of_bool b)" "(if b then 4 else (0 :: byte)) = of_int (4 * of_bool b)" for b
    by (cases b; simp)+
  have q: "(case q of None \<Rightarrow> 0 | Some x \<Rightarrow> push_bit 5 (ucast x :: byte)) =
      of_int (32 * uint (case q of None \<Rightarrow> 0 | Some x \<Rightarrow> x))"
    by (cases q) (simp_all add: push_bit_eq_mult)
  have tt: "(case tt of None \<Rightarrow> 0 | Some x \<Rightarrow> (ucast x :: byte)) = of_int (uint (case tt of None \<Rightarrow> 0 | Some x \<Rightarrow> x))"
    by (cases tt) simp_all
  show ?thesis unfolding encode_flags_def sn_flags_def bits q tt of_int_add ..
qed

lemma sn_flags_roundtrip:
  assumes "q < 4" and "tt < 3"
  shows "fst (decode_flag (sn_flags dup q retain will clean tt) t) =
           \<lparr>vf_dup = b2i dup, vf_qos = q, vf_retain = b2i retain, vf_will = b2i will, vf_clean_session = b2i clean,
            vf_topic_type = tt\<rparr>"
  using flags_roundtrip [OF assms, of "of_bool dup" "of_bool retain" "of_bool will" "of_bool clean" t] by simp

definition sn_wire_will :: "SnWillTopic \<Rightarrow> byte list option" where
  "sn_wire_will x =
     (if snw_topic x = Null then Some []
      else do {
        t \<leftarrow> deref (snw_topic x);
        q \<leftarrow> sn_qos t;
        s \<leftarrow> sn_wire_string (sn_value t);
        Some (sn_flags False q (snw_retain x \<noteq> 0) False False 0 # s)
      })"

definition sn_wire_topic :: "SnTopic \<Rightarrow> byte list option" where
  "sn_wire_topic t = do {
     tt \<leftarrow> sn_topic_type t;
     (if tt = ID then do { i \<leftarrow> sn_id t; Some (short_bytes i) } else sn_wire_string (sn_value t))
   }"

definition sn_wire_ack :: "SnAck \<Rightarrow> byte list" where
  "sn_wire_ack x = short_bytes (sna_topic_id x) @ short_bytes (sna_message_id x) @ [ucast (sna_code x)]"

definition sn_wire_publish :: "SnPublish \<Rightarrow> byte list option" where
  "sn_wire_publish x = do {
     q \<leftarrow> sn_qos (snp_topic x);
     tt \<leftarrow> sn_topic_type (snp_topic x);
     t \<leftarrow> sn_wire_topic (snp_topic x);
     c_assert (length t = 2);
     d \<leftarrow> sn_wire_string (snp_data x);
     Some (sn_flags (snp_dup x \<noteq> 0) q (snp_retain x \<noteq> 0) False False tt # t
           @ short_bytes (snp_message_id x) @ d)
   }"

fun sn_wire_packet :: "sn_packet \<Rightarrow> (SnMessageType \<Rightarrow> bool) \<times> byte list option" where
  "sn_wire_packet (SnAdvertise g d) = ((=) SN_ADVERTISE, Some (g # short_bytes d))"
| "sn_wire_packet (SnSearchGw r) = ((=) SN_SEARCHGW, Some [ucast r])"
| "sn_wire_packet (SnGwInfo g a) = ((=) SN_GWINFO, do { s \<leftarrow> sn_wire_opt a; Some (g # s) })"
| "sn_wire_packet (PSnConnect c) = ((=) SN_CONNECT, do {
     s \<leftarrow> sn_wire_string (snc_client_id c);
     Some (sn_flags False 0 False (snc_will_present c \<noteq> 0) (snc_clean_session c \<noteq> 0) 0
           # snc_protocol_id c # short_bytes (snc_duration c) @ s) })"
| "sn_wire_packet (SnConnack c) = ((=) SN_CONNACK, Some [ucast c])"
| "sn_wire_packet (PSnWillTopic x) = ((=) SN_WILL_TOPIC, sn_wire_will x)"
| "sn_wire_packet (SnWillMessage p) = ((=) SN_WILL_MSG, sn_wire_string p)"
| "sn_wire_packet (PSnRegister x) = ((=) SN_REGISTER, do {
     s \<leftarrow> sn_wire_string (snr_topic_name x);
     Some (short_bytes (snr_topic_id x) @ short_bytes (snr_msg_id x) @ s) })"
| "sn_wire_packet (SnRegAck x) = ((=) SN_REGACK, Some (sn_wire_ack x))"
| "sn_wire_packet (PSnPublish x) = ((=) SN_PUBLISH, sn_wire_publish x)"
| "sn_wire_packet (SnPuback x) = ((=) SN_PUBACK, Some (sn_wire_ack x))"
| "sn_wire_packet (SnMsgId i) =
     ((\<lambda>t. t \<in> {SN_PUBREC, SN_PUBREL, SN_PUBCOMP, SN_UNSUBACK}), Some (short_bytes i))"
| "sn_wire_packet (PSnSubscribe x) = ((=) SN_SUBSCRIBE, do {
     t \<leftarrow> deref (sns_topic x);
     q \<leftarrow> sn_qos t;
     tt \<leftarrow> sn_topic_type t;
     s \<leftarrow> sn_wire_topic t;
     Some (sn_flags (sns_dup x \<noteq> 0) q False False False tt # short_bytes (sns_message_id x) @ s) })"
| "sn_wire_packet (PSnSuback x) = ((=) SN_SUBACK,
     Some (sn_flags False (snsa_allowedQos x) False False False 0 # short_bytes (snsa_topic_id x)
           @ short_bytes (snsa_message_id x) @ [ucast (snsa_code x)]))"
| "sn_wire_packet (PSnUnsubscribe x) = ((=) SN_UNSUBSCRIBE, do {
     t \<leftarrow> deref (snu_topic x);
     tt \<leftarrow> sn_topic_type t;
     s \<leftarrow> sn_wire_topic t;
     Some (sn_flags False 0 False False False tt # short_bytes (snu_message_id x) @ s) })"
| "sn_wire_packet (SnPingreq p) = ((=) SN_PINGREQ, sn_wire_opt p)"
| "sn_wire_packet (SnDisconnect d) =
     ((=) SN_DISCONNECT, Some (if d > 0 then short_bytes d else []))"
| "sn_wire_packet (SnWillTopicUpd x) = ((=) SN_WILL_TOPIC_UPD, sn_wire_will x)"
| "sn_wire_packet (SnWillMsgUpd p) = ((=) SN_WILL_MSG_UPD, sn_wire_string p)"
| "sn_wire_packet (SnWillTopicResp c) = ((=) SN_WILL_TOPIC_RESP, Some [ucast c])"
| "sn_wire_packet (SnWillMsgResp c) = ((=) SN_WILL_MSG_RESP, Some [ucast c])"
| "sn_wire_packet (SnEncapsulated r p inner) = ((=) SN_ENCAPSULATED, None)"

definition sn_wire :: "SnMessage \<Rightarrow> byte list option" where
  "sn_wire m =
     (if sn_message_type m \<in> {SN_WILL_TOPIC_REQ, SN_WILL_MSG_REQ, SN_PINGRESP} then Some []
      else do {
        p \<leftarrow> deref (sn_packet m);
        c_assert (fst (sn_wire_packet p) (sn_message_type m));
        snd (sn_wire_packet p)
      })"

text \<open>
  The packets MQTT-SN 1.2 allows: what goes into a field of some bits has a value that the field can hold and the
  specification defines. The type 0 in the flags of a PUBLISH (a topic id the gateway gave) has no struct: the client
  announces its topic ids as predefined ones.
\<close>

definition sn_topic_valid :: "SnTopic \<Rightarrow> bool" where
  "sn_topic_valid t = (sn_topic_type t = Some NAMED \<and> sn_value t \<noteq> Ref [] \<or> sn_topic_type t = Some ID \<or>
     sn_topic_type t = Some SHORT \<and> (case sn_value t of Ref s \<Rightarrow> length s = 2 | _ \<Rightarrow> False))"

definition sn_qos_below :: "SnQoS \<Rightarrow> SnTopic \<Rightarrow> bool" where
  "sn_qos_below k t = (case sn_qos t of None \<Rightarrow> False | Some q \<Rightarrow> q < k)"

fun sn_packet_valid :: "sn_packet \<Rightarrow> bool" where
  "sn_packet_valid (SnAdvertise g d) = True"
| "sn_packet_valid (SnSearchGw r) = (r < 256)"
| "sn_packet_valid (SnGwInfo g a) = True"
| "sn_packet_valid (PSnConnect c) = (snc_protocol_id c = 1 \<and> snc_client_id c \<noteq> Ref [])"
| "sn_packet_valid (SnConnack c) = (c \<le> 3)"
| "sn_packet_valid (PSnWillTopic x) =
     (case snw_topic x of Ref t \<Rightarrow> sn_qos_below 3 t \<and> sn_value t \<noteq> Ref [] | _ \<Rightarrow> snw_topic x = Null)"
| "sn_packet_valid (SnWillMessage p) = True"
| "sn_packet_valid (PSnRegister x) = (snr_topic_name x \<noteq> Ref [])"
| "sn_packet_valid (SnRegAck x) = (sna_code x \<le> 3)"
| "sn_packet_valid (PSnPublish x) =
     (sn_qos_below 4 (snp_topic x) \<and> sn_topic_valid (snp_topic x) \<and> sn_topic_type (snp_topic x) \<noteq> Some NAMED)"
| "sn_packet_valid (SnPuback x) = (sna_code x \<le> 3)"
| "sn_packet_valid (SnMsgId i) = True"
| "sn_packet_valid (PSnSubscribe x) =
     (case sns_topic x of Ref t \<Rightarrow> sn_qos_below 3 t \<and> sn_topic_valid t | _ \<Rightarrow> False)"
| "sn_packet_valid (PSnSuback x) = (snsa_allowedQos x < 3 \<and> snsa_code x \<le> 3)"
| "sn_packet_valid (PSnUnsubscribe x) = (case snu_topic x of Ref t \<Rightarrow> sn_topic_valid t | _ \<Rightarrow> False)"
| "sn_packet_valid (SnPingreq p) = True"
| "sn_packet_valid (SnDisconnect d) = True"
| "sn_packet_valid (SnWillTopicUpd x) =
     (case snw_topic x of Ref t \<Rightarrow> sn_qos_below 3 t \<and> sn_value t \<noteq> Ref [] | _ \<Rightarrow> snw_topic x = Null)"
| "sn_packet_valid (SnWillMsgUpd p) = True"
| "sn_packet_valid (SnWillTopicResp c) = (c \<le> 3)"
| "sn_packet_valid (SnWillMsgResp c) = (c \<le> 3)"
| "sn_packet_valid (SnEncapsulated r p inner) = False"

definition sn_valid :: "SnMessage \<Rightarrow> bool" where
  "sn_valid m =
     (sn_message_type m \<in> {SN_WILL_TOPIC_REQ, SN_WILL_MSG_REQ, SN_PINGRESP} \<or>
      (case sn_packet m of Ref p \<Rightarrow> sn_packet_valid p | _ \<Rightarrow> False))"

text \<open>Length field, type and body; the length counts itself.\<close>

definition sn_len :: "byte list \<Rightarrow> nat" where
  "sn_len body = (if length body + 2 \<le> 255 then length body + 2 else length body + 4)"

definition sn_header :: "SnMessageType \<Rightarrow> nat \<Rightarrow> byte list" where
  "sn_header t n =
     (if n \<le> 255 then [of_nat n] else 0x01 # short_bytes (of_nat n)) @ [sn_code t]"

definition sn_frame :: "SnMessageType \<Rightarrow> byte list \<Rightarrow> byte list" where
  "sn_frame t body = sn_header t (sn_len body) @ body"

lemma length_sn_frame: "length (sn_frame t body) = sn_len body"
  by (auto simp: sn_frame_def sn_header_def sn_len_def)

lemma sn_put_header_eq: "sn_put_header t (int n) w = put (sn_header t n) w"
  by (simp add: sn_put_header_def sn_header_def add_short_def)

lemma sn_encode_writes:
  assumes "writes (sn_encode_packet (sn_message_type m) (sn_packet m) (int (sn_len body))) body"
  shows "sn_encode m (int (sn_len body)) = Some (map Some (sn_frame (sn_message_type m) body))"
proof -
  let ?t = "sn_message_type m"
  have fst_bind: "Option.bind x (\<lambda>w. Option.bind (e w) (\<lambda>w. Some (fst w))) = map_option fst (Option.bind x e)"
    for x :: "wbuf option" and e :: "wbuf \<Rightarrow> wbuf option"
    by (cases x) (simp_all add: bind_Some_fst)
  have "sn_encode m (int (sn_len body)) =
      map_option fst (Option.bind (put (sn_header ?t (sn_len body)) (wstate [] (sn_len body)))
        (sn_encode_packet ?t (sn_packet m) (int (sn_len body))))"
    by (simp only: sn_encode_def sn_put_header_eq wstate_malloc nat_int fst_bind) simp
  also have "\<dots> = map_option fst (put (sn_header ?t (sn_len body) @ body) (wstate [] (sn_len body)))"
    by (rule writesD [OF assms])
  also have "\<dots> = Some (map Some (sn_frame ?t body))"
    using length_sn_frame [of ?t body]
    by (simp add: put_wstate fst_wstate_pair sn_frame_def)
  finally show ?thesis .
qed

subsection \<open>The encoder writes it\<close>

lemma sn_wire_string_Some [simp]: "sn_wire_string p = Some s \<longleftrightarrow> p = Ref s \<and> length s < 65000"
  by (auto simp: sn_wire_string_def bind_Some_iff)

lemma writes_string [writes]:
  "sn_wire_string p = Some s \<Longrightarrow> writes (sn_put_string p) s"
  "sn_wire_string p = Some s \<Longrightarrow> writes (sn_poke_string p) s"
  by (auto simp: sn_put_string_Ref sn_poke_string_Ref intro: writes)

lemma writes_will:
  assumes "sn_wire_will x = Some body"
  shows "writes (sn_encode_will_topic advance x) body"
proof (cases "snw_topic x = Null")
  case True
  then show ?thesis
    using assms writes_Some by (simp add: sn_wire_will_def sn_encode_will_topic_def [abs_def])
next
  case False
  with assms obtain t q s where t: "snw_topic x = Ref t" "sn_qos t = Some q" "sn_value t = Ref s"
    "length s < 65000" "body = [sn_flags False q (snw_retain x \<noteq> 0) False False 0] @ s"
    by (auto simp: sn_wire_will_def bind_Some_iff)
  have "writes (if advance then sn_put_string (Ref s) else sn_poke_string (Ref s)) s"
    using writes_string [of "Ref s" s] t(4) by simp
  from writes_put_seq [OF this, of "[sn_flags False q (snw_retain x \<noteq> 0) False False 0]"] t
  show ?thesis
    by (cases advance) (simp_all add: sn_encode_will_topic_def [abs_def])
qed

lemma writes_sub:
  assumes "sn_wire_topic t = Some s"
  shows "writes (sn_encode_sub flags mi t) (flags # short_bytes mi @ s)"
proof -
  from assms obtain tt where tt: "sn_topic_type t = Some tt"
    by (auto simp: sn_wire_topic_def bind_Some_iff)
  have "writes (if tt = ID then (\<lambda>w. do { i \<leftarrow> sn_id t; add_short i w }) else sn_put_string (sn_value t)) s"
    using assms tt
    by (auto simp: sn_wire_topic_def bind_Some_iff writes_short intro: writes_string)
  from writes_put_seq [OF writes_short_seq [OF this], of "[flags]" mi] tt show ?thesis
    by (cases "tt = ID") (simp_all add: sn_encode_sub_def [abs_def])
qed

lemma writes_ack: "writes (sn_encode_ack advance x) (sn_wire_ack x)"
proof -
  have "writes (if advance then put [ucast (sna_code x)] else poke [ucast (sna_code x)])
      [ucast (sna_code x)]"
    by (simp add: writes_put writes_poke)
  from writes_short_seq [OF writes_short_seq [OF this], of "sna_topic_id x" "sna_message_id x"]
  show ?thesis
    by (cases advance) (simp_all add: sn_encode_ack_def [abs_def] sn_wire_ack_def)
qed

lemma writes_publish:
  assumes "sn_wire_publish x = Some body"
  shows "writes (sn_encode_publish x) body"
proof -
  from assms obtain q tt t d where x: "sn_qos (snp_topic x) = Some q"
    "sn_topic_type (snp_topic x) = Some tt" "sn_wire_topic (snp_topic x) = Some t"
    "sn_wire_string (snp_data x) = Some d"
    "body = [sn_flags (snp_dup x \<noteq> 0) q (snp_retain x \<noteq> 0) False False tt] @ t
       @ short_bytes (snp_message_id x) @ d"
    by (auto simp: sn_wire_publish_def bind_Some_iff)
  have d: "writes (\<lambda>w. Option.bind (add_short (snp_message_id x) w) (sn_put_string (snp_data x)))
      (short_bytes (snp_message_id x) @ d)"
    by (intro writes x(4))
  have "writes (\<lambda>w. Option.bind
      (if tt = ID then do { i \<leftarrow> sn_id (snp_topic x); add_short i w }
       else sn_put_string (sn_value (snp_topic x)) w)
      (\<lambda>w. Option.bind (add_short (snp_message_id x) w) (sn_put_string (snp_data x))))
      (t @ short_bytes (snp_message_id x) @ d)"
  proof (rule writes_seq [OF _ d])
    show "(\<lambda>w. if tt = ID then do { i \<leftarrow> sn_id (snp_topic x); add_short i w }
       else sn_put_string (sn_value (snp_topic x)) w) = put t"
      using x(2,3)
      by (intro ext) (auto simp: sn_wire_topic_def bind_Some_iff add_short_def sn_put_string_Ref
          split: if_splits)
  qed
  from writes_put_seq [OF this,
      of "[sn_flags (snp_dup x \<noteq> 0) q (snp_retain x \<noteq> 0) False False tt]"] x(1,2,5)
  show ?thesis
    by (simp add: sn_encode_publish_def [abs_def])
qed

definition sn_supports :: "SnMessage \<Rightarrow> byte list \<Rightarrow> bool" where
  "sn_supports m body \<longleftrightarrow>
     sn_message_type m \<notin> {SN_WILL_TOPIC_RESP, SN_WILL_MSG_RESP} \<and>
     (sn_message_type m \<in> {SN_GWINFO, SN_CONNECT, SN_PINGREQ} \<longrightarrow> length body \<le> 253)"

lemma sn_wire_opt_Some:
  "sn_wire_opt p = Some s \<longleftrightarrow> (p = Null \<and> s = []) \<or> (p = Ref s \<and> length s < 65000)"
  by (auto simp: sn_wire_opt_def)

lemma sn_wire_will_length:
  "sn_wire_will x = Some body \<Longrightarrow> sn_will_topic_length (snw_topic x) = Some (int (sn_len body))"
  by (auto simp: sn_wire_will_def sn_will_topic_length_def long_strlen_def sn_len_def
      split: if_splits Option.bind_split_asm)

lemma sn_wire_sub_length:
  assumes "sn_wire_topic t = Some s"
  shows "sn_sub_length (Ref t) = Some (int (length s) + (if length s > 250 then 7 else 5))"
  using assms
  by (auto simp: sn_wire_topic_def sn_sub_length_def long_strlen_def
      split: if_splits Option.bind_split_asm)

lemma sn_get_length_wire:
  assumes "sn_wire m = Some body" and "sn_supports m body"
  shows "sn_get_length m = Some (int (sn_len body))"
proof (cases "sn_message_type m \<in> {SN_WILL_TOPIC_REQ, SN_WILL_MSG_REQ, SN_PINGRESP}")
  case True
  with assms show ?thesis by (auto simp: sn_wire_def sn_get_length_def sn_len_def)
next
  case False
  with assms(1) obtain p where p: "sn_packet m = Ref p"
    "fst (sn_wire_packet p) (sn_message_type m)" "snd (sn_wire_packet p) = Some body"
    by (auto simp: sn_wire_def bind_Some_iff)
  then show ?thesis
    using assms(2)
    by (cases p)
      (auto simp: sn_get_length_def sn_len_def sn_wire_ack_def long_strlen_def
        opt_strlen_def sn_wire_opt_Some sn_supports_def sn_wire_publish_def
        sn_wire_will_length sn_wire_sub_length split: Option.bind_split_asm if_splits)
qed

definition sn_connect_bytes :: "SnConnect \<Rightarrow> cstr \<Rightarrow> byte list" where
  "sn_connect_bytes c s = sn_flags False 0 False (snc_will_present c \<noteq> 0) (snc_clean_session c \<noteq> 0) 0
     # snc_protocol_id c # short_bytes (snc_duration c) @ s"

lemma writes_connect:
  assumes "snc_client_id c = Ref s" "length s < 65000"
  shows "writes (sn_encode_connect c) (sn_connect_bytes c s)"
proof -
  have "writes (sn_put_string (snc_client_id c)) s" by (rule writes_string) (simp add: assms)
  from writes_put_seq [OF writes_put_seq [OF writes_short_seq [OF this]],
      of "[sn_flags False 0 False (snc_will_present c \<noteq> 0) (snc_clean_session c \<noteq> 0) 0]"
      "[snc_protocol_id c]" "snc_duration c"]
  show ?thesis by (simp add: sn_encode_connect_def [abs_def] sn_connect_bytes_def)
qed

lemma writes_encode_packet:
  assumes "sn_wire m = Some body" and "sn_supports m body"
  shows "writes (sn_encode_packet (sn_message_type m) (sn_packet m) (int (sn_len body))) body"
proof (cases "sn_message_type m \<in> {SN_WILL_TOPIC_REQ, SN_WILL_MSG_REQ, SN_PINGRESP}")
  case True
  with assms(1) have "body = []" by (auto simp: sn_wire_def)
  with True writes_Some show ?thesis by (simp add: sn_encode_packet_def [abs_def])
next
  case False
  with assms(1) obtain p where p: "sn_packet m = Ref p"
    "fst (sn_wire_packet p) (sn_message_type m)" "snd (sn_wire_packet p) = Some body"
    by (auto simp: sn_wire_def bind_Some_iff)
  note enc = sn_encode_packet_def [abs_def] is_other_def
  show ?thesis
  proof (cases p)
    case (SnAdvertise g d)
    with p writes_put_seq [OF writes_poke_short, of "[g]" d] show ?thesis by (auto simp: enc)
  next
    case (SnGwInfo g a)
    have "writes (if a \<noteq> Null then sn_poke_string a else Some) (tl body)"
      using p SnGwInfo by (auto simp: bind_Some_iff sn_wire_opt_Some intro: writes)
    from writes_put_seq [OF this, of "[g]"] p SnGwInfo show ?thesis
      by (cases "a = Null") (auto simp: enc sn_encode_gwinfo_def [abs_def] bind_Some_iff sn_wire_opt_def)
  next
    case (PSnConnect c)
    with p obtain s where s: "snc_client_id c = Ref s" "length s < 65000"
      "body = sn_connect_bytes c s"
      by (auto simp: bind_Some_iff sn_connect_bytes_def)
    with writes_connect p PSnConnect show ?thesis by (auto simp: enc)
  next
    case (PSnRegister x)
    with p obtain s where s: "snr_topic_name x = Ref s" "length s < 65000"
      "body = short_bytes (snr_topic_id x) @ short_bytes (snr_msg_id x) @ s"
      by (auto simp: bind_Some_iff)
    have "writes (sn_put_string (snr_topic_name x)) s" by (rule writes_string) (simp add: s)
    from writes_short_seq [OF writes_short_seq [OF this], of "snr_topic_id x" "snr_msg_id x"]
      p s PSnRegister
    show ?thesis by (auto simp: enc sn_encode_register_def [abs_def])
  next
    case (PSnSubscribe x)
    with p obtain t q tt s where s: "sns_topic x = Ref t" "sn_qos t = Some q"
      "sn_topic_type t = Some tt" "sn_wire_topic t = Some s"
      "body = sn_flags (sns_dup x \<noteq> 0) q False False False tt # short_bytes (sns_message_id x) @ s"
      by (auto simp: bind_Some_iff)
    from writes_sub [OF s(4)] p s PSnSubscribe show ?thesis
      by (auto simp: enc sn_encode_subscribe_def [abs_def])
  next
    case (PSnSuback x)
    from writes_put_seq [OF writes_short_seq [OF writes_short_seq [OF writes_poke]],
        of "[sn_flags False (snsa_allowedQos x) False False False 0]" "snsa_topic_id x"
        "snsa_message_id x" "[ucast (snsa_code x)]"] p PSnSuback
    show ?thesis by (auto simp: enc sn_encode_suback_def [abs_def])
  next
    case (PSnUnsubscribe x)
    with p obtain t tt s where s: "snu_topic x = Ref t" "sn_topic_type t = Some tt"
      "sn_wire_topic t = Some s"
      "body = sn_flags False 0 False False False tt # short_bytes (snu_message_id x) @ s"
      by (auto simp: bind_Some_iff)
    from writes_sub [OF s(3)] p s PSnUnsubscribe show ?thesis
      by (auto simp: enc sn_encode_unsubscribe_def [abs_def])
  next
    case (SnPingreq c)
    with p have t: "sn_message_type m = SN_PINGREQ" and c: "sn_wire_opt c = Some body" by auto
    show ?thesis
    proof (cases "body = []")
      case True
      with writes_Some show ?thesis by (simp add: t enc sn_len_def)
    next
      case False
      with c have s: "sn_wire_string c = Some body"
        by (auto simp: sn_wire_opt_def split: if_splits)
      have "sn_encode_packet SN_PINGREQ (Ref (SnPingreq c)) (int (sn_len body)) = sn_put_string c"
        using False by (intro ext) (simp add: enc sn_len_def)
      with writes_string(1) [OF s] show ?thesis by (simp add: t p(1) SnPingreq)
    qed
  next
    case (SnDisconnect d)
    with p have t: "sn_message_type m = SN_DISCONNECT"
      and body: "body = (if d > 0 then short_bytes d else [])" by auto
    show ?thesis
    proof (cases "d > 0")
      case True
      have "sn_encode_packet SN_DISCONNECT (Ref (SnDisconnect d)) (int (sn_len body)) = add_short d"
        using True by (intro ext) (simp add: enc sn_len_def body)
      with writes_short [of d] True show ?thesis by (simp add: t p(1) SnDisconnect body)
    next
      case False
      with writes_Some show ?thesis by (simp add: t enc sn_len_def body)
    qed
  qed (use p assms(2) in \<open>auto simp: enc sn_supports_def writes_poke writes_short
      intro: writes_string writes_will writes_ack writes_publish\<close>)
qed

lemma sn_encode_correct:
  assumes "sn_wire m = Some body" and "sn_supports m body"
  shows "sn_encode m (int (sn_len body)) = Some (map Some (sn_frame (sn_message_type m) body))"
  by (rule sn_encode_writes) (rule writes_encode_packet [OF assms])


text \<open>A body that does not fit its buffer: the encoder writes past the end.\<close>

lemma put_wstate_overflow: "k < length bs \<Longrightarrow> map_option fst (put bs (wstate out k)) = None"
  by (simp add: put_wstate)

lemma sn_encode_overflow:
  assumes "writes (sn_encode_packet (sn_message_type m) (sn_packet m) (int n)) body"
    and "n < length (sn_header (sn_message_type m) n @ body)"
  shows "sn_encode m (int n) = None"
proof -
  let ?t = "sn_message_type m"
  let ?e = "sn_encode_packet ?t (sn_packet m) (int n)"
  have "map_option fst (Option.bind (put (sn_header ?t n) (wstate [] n)) ?e) = None"
    unfolding writesD [OF assms(1)] by (rule put_wstate_overflow) (rule assms(2))
  then show ?thesis
    by (simp add: sn_encode_def sn_put_header_eq wstate_malloc bind_eq_None_conv)
qed

text \<open>A CONNECT that needs the long length field, and the two WILL responses.\<close>

lemma sn_connect_overflow:
  assumes "snc_client_id c = Ref s" "250 \<le> length s" "length s < 65000"
    and m: "m = \<lparr>sn_message_type = SN_CONNECT, sn_packet = Ref (PSnConnect c)\<rparr>"
  shows "sn_get_length m = Some (6 + int (length s))" "sn_encode m (6 + int (length s)) = None"
proof -
  show "sn_get_length m = Some (6 + int (length s))"
    using assms(1) by (simp add: m sn_get_length_def)
  have "writes (sn_encode_packet SN_CONNECT (Ref (PSnConnect c)) (int (6 + length s))) (sn_connect_bytes c s)"
    using writes_connect [OF assms(1,3)] by (simp add: sn_encode_packet_def [abs_def] is_other_def)
  from sn_encode_overflow [of m "6 + length s", unfolded m, simplified, OF this [simplified]] assms(2)
  show "sn_encode m (6 + int (length s)) = None"
    by (simp add: m sn_header_def sn_connect_bytes_def)
qed

lemma sn_response_overflow:
  assumes "m = \<lparr>sn_message_type = SN_WILL_TOPIC_RESP, sn_packet = Ref (SnWillTopicResp c)\<rparr> \<or>
           m = \<lparr>sn_message_type = SN_WILL_MSG_RESP, sn_packet = Ref (SnWillMsgResp c)\<rparr>"
  shows "sn_get_length m = Some 2" "sn_encode m 2 = None"
proof -
  show "sn_get_length m = Some 2" using assms by (auto simp: sn_get_length_def)
  have "writes (sn_encode_packet (sn_message_type m) (sn_packet m) (int 2)) [ucast c]"
    using assms writes_poke [of "[ucast c]"] by (auto simp: sn_encode_packet_def [abs_def] is_other_def)
  from sn_encode_overflow [OF this] show "sn_encode m 2 = None"
    by (simp add: sn_header_def)
qed

subsection \<open>Decoding a frame\<close>

lemma get_string_shift:
  "0 \<le> k \<Longrightarrow> get_string (pre @ buf) (int (length pre) + k) n = get_string buf k n"
  by (simp add: get_string_def rd_n_def nat_add_distrib ac_simps)

lemmas shifts = rd_shift [of 0, simplified] get_short_shift [of 0, simplified]
  get_string_shift [of 0, simplified] rd_shift get_short_shift get_string_shift

lemma sn_decode_packet_shift:
  "sn_decode_packet t (pre @ buf) (int (length pre)) left = sn_decode_packet t buf 0 left"
  by (cases t)
    (simp_all add: sn_decode_packet_def sn_decode_gwinfo_def sn_decode_connect_def
      sn_decode_will_topic_def sn_decode_register_def sn_decode_ack_def sn_decode_publish_def
      sn_decode_id_def sn_decode_subscribe_def sn_decode_suback_def sn_decode_unsubscribe_def
      sn_decode_will_topic_upd_def shifts cong: if_cong)

lemma sn_decode_frame:
  assumes "sn_len body < 65536" and "\<forall>b. t \<noteq> SN_OTHER b"
  shows "sn_decode (sn_frame t body @ rest) = do {
     p \<leftarrow> sn_decode_packet t (body @ rest) 0 (int (length body));
     Some \<lparr>sn_message_type = t, sn_packet = p\<rparr>
   }"
proof -
  let ?n = "sn_len body"
  have n: "2 \<le> ?n" by (simp add: sn_len_def)
  have split: "sn_frame t body @ rest = sn_header t ?n @ body @ rest" by (simp add: sn_frame_def)
  have packet: "sn_decode_packet t (sn_header t ?n @ body @ rest) (int (length (sn_header t ?n))) l =
      sn_decode_packet t (body @ rest) 0 l" for l
    by (rule sn_decode_packet_shift)
  show ?thesis
  proof (cases "?n \<le> 255")
    case True
    have "unat (of_nat ?n :: byte) = ?n" using True by (simp add: unat_of_nat)
    moreover from this n have "(of_nat ?n :: byte) \<noteq> 1" by auto
    moreover have "int ?n - 2 = int (length body)"
      using True by (auto simp: sn_len_def split: if_splits)
    ultimately show ?thesis
      using True packet assms(2)
      by (simp add: split sn_decode_def sn_header_def rd_one sn_of_code)
  next
    case False
    have "get_short (1 # short_bytes (of_nat ?n) @ sn_code t # body @ rest) 1 = Some (of_nat ?n)"
      using get_short_short_bytes [of 1 "[1]"] by simp
    moreover have "rd (1 # short_bytes (of_nat ?n) @ sn_code t # body @ rest) 3 = Some (sn_code t)"
      by (rule rd_append [of _ "1 # short_bytes (of_nat ?n)", simplified]) simp
    moreover have "uint (of_nat ?n :: u16) = int ?n"
      using assms(1) by (simp add: uint_nat unat_of_nat del: unsigned_of_nat)
    moreover have "int ?n - 4 = int (length body)"
      using False by (auto simp: sn_len_def split: if_splits)
    ultimately show ?thesis
      using False packet assms(2) by (simp add: split sn_decode_def sn_header_def sn_of_code)
  qed
qed

text \<open>Reading past what has been read.\<close>

lemma get_string_skip: "2 \<le> k \<Longrightarrow> get_string (short_bytes s @ bs) k n = get_string bs (k - 2) n"
  using get_string_shift [of "k - 2" "short_bytes s" bs] by simp

lemma get_string_tl: "1 \<le> k \<Longrightarrow> get_string (b # bs) k n = get_string bs (k - 1) n"
  using get_string_shift [of "k - 1" "[b]" bs] by simp

lemma get_string_here: "cstr_ok s \<Longrightarrow> n = int (length s) \<Longrightarrow> get_string (s @ bs) 0 n = Some (Ref s)"
  by (simp add: get_string_def rd_n_def)

lemmas skips = get_short_skip rd_skip get_string_skip get_short_tl get_string_tl rd_cons_pos
  get_string_here get_short_here


text \<open>The packets that keep all their fields on the way; PUBLISH loses some of its topic's.\<close>

definition sn_str :: "cstr ptr \<Rightarrow> bool" where
  "sn_str p = (case p of Ref s \<Rightarrow> cstr_ok s | _ \<Rightarrow> False)"

lemma sn_str_simps [simp]: "sn_str (Ref s) = cstr_ok s" "\<not> sn_str Null" "\<not> sn_str Wild"
  by (simp_all add: sn_str_def)

fun sn_decodable :: "sn_packet \<Rightarrow> bool" where
  "sn_decodable (SnAdvertise g d) = True"
| "sn_decodable (SnSearchGw r) = (r < 256)"
| "sn_decodable (SnGwInfo g a) = sn_str a"
| "sn_decodable (PSnConnect c) =
     (snc_will_present c \<in> {0, 1} \<and> snc_clean_session c \<in> {0, 1} \<and> sn_str (snc_client_id c))"
| "sn_decodable (SnConnack c) = (c < 256)"
| "sn_decodable (SnWillMessage p) = sn_str p"
| "sn_decodable (PSnRegister x) = sn_str (snr_topic_name x)"
| "sn_decodable (SnRegAck x) = (sna_code x < 256)"
| "sn_decodable (SnPuback x) = (sna_code x < 256)"
| "sn_decodable (SnMsgId i) = True"
| "sn_decodable (PSnSuback x) = (snsa_allowedQos x < 4 \<and> snsa_code x < 256)"
| "sn_decodable (SnPingreq p) = (p = Null \<or> p \<noteq> Ref [] \<and> sn_str p)"
| "sn_decodable (SnDisconnect d) = True"
| "sn_decodable (SnWillMsgUpd p) = sn_str p"
| "sn_decodable x = False"

lemma ucast_byte_u32: "c < 256 \<Longrightarrow> ucast (ucast (c :: u32) :: byte) = c"
  by (simp add: word_less_nat_alt word_unat_eq_iff unsigned_ucast_eq unsigned_take_bit_eq
      take_bit_nat_eq_self)

lemma connect_flags:
  assumes "w \<in> {0, 1}" "c \<in> {0, 1}"
  shows "vf_will (fst (decode_flag (sn_flags False 0 False (w \<noteq> 0) (c \<noteq> 0) 0) t)) = w"
    "vf_clean_session (fst (decode_flag (sn_flags False 0 False (w \<noteq> 0) (c \<noteq> 0) 0) t)) = c"
  using assms by (auto simp: sn_flags_roundtrip)

lemma suback_flags: "q < 4 \<Longrightarrow> vf_qos (fst (decode_flag (sn_flags False q False False False 0) t)) = q"
  by (simp add: sn_flags_roundtrip)

lemma sn_decode_packet_body:
  assumes "fst (sn_wire_packet p) t" and "snd (sn_wire_packet p) = Some body" and "sn_decodable p"
  shows "sn_decode_packet t (body @ rest) 0 (int (length body)) = Some (Ref p)"
proof (cases p)
  case (PSnConnect c)
  with assms show ?thesis
    by (auto simp: bind_Some_iff sn_decode_packet_def sn_decode_connect_def skips sn_flags_roundtrip b2i_def Let_def)
next
  case (PSnSuback x)
  with assms show ?thesis
    by (auto simp: sn_decode_packet_def sn_decode_suback_def skips suback_flags ucast_byte_u32)
next
  case (SnPingreq q)
  with assms show ?thesis
    by (cases q) (auto simp: sn_decode_packet_def skips sn_wire_opt_def)
next
  case (SnDisconnect d)
  with assms show ?thesis
    by (cases "d = 0") (auto simp: sn_decode_packet_def skips word_neq_0_conv)
qed (use assms in \<open>auto simp: bind_Some_iff sn_decode_packet_def sn_decode_gwinfo_def sn_decode_register_def
    sn_decode_ack_def sn_decode_id_def sn_wire_ack_def sn_wire_opt_def skips ucast_byte_u32
    split: if_splits\<close>)

lemma sn_wire_type: "fst (sn_wire_packet p) t \<Longrightarrow> t \<noteq> SN_OTHER b"
  by (cases p) auto

lemma sn_roundtrip:
  assumes "sn_wire m = Some body" and "sn_len body < 65536"
    and "case sn_packet m of Null \<Rightarrow> True | Wild \<Rightarrow> False | Ref p \<Rightarrow> sn_decodable p"
    and "sn_packet m = Null \<longleftrightarrow> sn_message_type m \<in> {SN_WILL_TOPIC_REQ, SN_WILL_MSG_REQ, SN_PINGRESP}"
  shows "sn_decode (sn_frame (sn_message_type m) body @ rest) = Some m"
proof (cases "sn_message_type m \<in> {SN_WILL_TOPIC_REQ, SN_WILL_MSG_REQ, SN_PINGRESP}")
  case True
  then have "body = []" using assms(1) by (auto simp: sn_wire_def)
  moreover have "sn_decode_packet (sn_message_type m) bs i l = Some Null" for bs i l
    using True by (auto simp: sn_decode_packet_def)
  ultimately show ?thesis
    using True assms(2,4) by (cases m) (auto simp: sn_decode_frame)
next
  case False
  with assms(1) obtain p where p: "sn_packet m = Ref p"
    "fst (sn_wire_packet p) (sn_message_type m)" "snd (sn_wire_packet p) = Some body"
    by (auto simp: sn_wire_def bind_Some_iff)
  have "sn_decodable p" using assms(3) p(1) by simp
  with sn_decode_packet_body [OF p(2,3)] sn_decode_frame [OF assms(2)] sn_wire_type [OF p(2)]
  show ?thesis using p(1) by (cases m) auto
qed

text \<open>Two packets come back otherwise: GWINFO without an address and PINGREQ with an empty client id.\<close>

definition sn_carried :: "sn_packet \<Rightarrow> bool" where
  "sn_carried p = (sn_decodable p \<or> (case p of SnGwInfo g a \<Rightarrow> a = Null | SnPingreq a \<Rightarrow> a = Ref [] | _ \<Rightarrow> False))"

definition sn_restored :: "sn_packet \<Rightarrow> sn_packet" where
  "sn_restored p =
     (case p of
        SnGwInfo g a \<Rightarrow> SnGwInfo g (if a = Null then Ref [] else a)
      | SnPingreq a \<Rightarrow> SnPingreq (if a = Ref [] then Null else a)
      | _ \<Rightarrow> p)"

lemma sn_decode_carried:
  assumes "fst (sn_wire_packet p) t" and "snd (sn_wire_packet p) = Some body" and "sn_carried p"
  shows "sn_decode_packet t (body @ rest) 0 (int (length body)) = Some (Ref (sn_restored p))"
proof (cases "sn_decodable p")
  case True
  have "sn_restored p = p" using True by (auto simp: sn_restored_def split: sn_packet.splits)
  with sn_decode_packet_body [OF assms(1,2) True] show ?thesis by simp
next
  case False
  have "get_string bs 0 0 = Some (Ref [])" for bs using get_string_here [of "[]" 0] by (simp add: cstr_ok_def)
  with False assms show ?thesis
    by (auto simp: sn_carried_def sn_restored_def sn_decode_packet_def sn_decode_gwinfo_def sn_wire_opt_def skips cstr_ok_def
        split: sn_packet.splits)
qed

lemma sn_carried_roundtrip:
  assumes "sn_wire m = Some body" and "sn_len body < 65536"
    and "case sn_packet m of Null \<Rightarrow> True | Wild \<Rightarrow> False | Ref p \<Rightarrow> sn_carried p"
    and "sn_packet m = Null \<longleftrightarrow> sn_message_type m \<in> {SN_WILL_TOPIC_REQ, SN_WILL_MSG_REQ, SN_PINGRESP}"
  shows "sn_decode (sn_frame (sn_message_type m) body @ rest) = Some (m\<lparr>sn_packet := map_ptr sn_restored (sn_packet m)\<rparr>)"
proof (cases "sn_message_type m \<in> {SN_WILL_TOPIC_REQ, SN_WILL_MSG_REQ, SN_PINGRESP}")
  case True
  with sn_roundtrip [OF assms(1,2) _ assms(4), of rest] assms(4) show ?thesis by (cases m) auto
next
  case False
  with assms(1) obtain p where p: "sn_packet m = Ref p"
    "fst (sn_wire_packet p) (sn_message_type m)" "snd (sn_wire_packet p) = Some body"
    by (auto simp: sn_wire_def bind_Some_iff)
  have "sn_carried p" using assms(3) p(1) by simp
  with sn_decode_carried [OF p(2,3)] sn_decode_frame [OF assms(2)] sn_wire_type [OF p(2)]
  show ?thesis using p(1) by (cases m) auto
qed

text \<open>What becomes of a PUBLISH with a topic id and data.\<close>

definition sn_received :: "SnPublish \<Rightarrow> SnPublish" where
  "sn_received x = x\<lparr>snp_topic := blank_topic\<lparr>sn_id := sn_id (snp_topic x),
     sn_qos := sn_qos (snp_topic x)\<rparr>\<rparr>"

lemma publish_flags:
  assumes "q < 4" "dup \<in> {0, 1}" "retain \<in> {0, 1}"
  shows "vf_topic_type (fst (decode_flag (sn_flags (dup \<noteq> 0) q (retain \<noteq> 0) False False 1) t)) = 1"
    "vf_qos (fst (decode_flag (sn_flags (dup \<noteq> 0) q (retain \<noteq> 0) False False 1) t)) = q"
    "vf_dup (fst (decode_flag (sn_flags (dup \<noteq> 0) q (retain \<noteq> 0) False False 1) t)) = dup"
    "vf_retain (fst (decode_flag (sn_flags (dup \<noteq> 0) q (retain \<noteq> 0) False False 1) t)) = retain"
  using assms by (auto simp: sn_flags_roundtrip)

lemma sn_decode_publish_body:
  assumes "sn_wire_publish x = Some body" and "sn_topic_type (snp_topic x) = Some ID"
    and "sn_qos (snp_topic x) = Some q" "q < 4" "snp_dup x \<in> {0, 1}" "snp_retain x \<in> {0, 1}"
    and "snp_data x = Ref d" "cstr_ok d" "d \<noteq> []"
  shows "sn_decode_packet SN_PUBLISH (body @ rest) 0 (int (length body)) =
           Some (Ref (PSnPublish (sn_received x)))"
  using assms publish_flags [OF assms(4-6), of SN_PUBLISH]
  by (cases x) (auto simp: sn_decode_packet_def sn_decode_publish_def sn_wire_publish_def
      sn_wire_topic_def bind_Some_iff skips Let_def sn_received_def)

text \<open>A PUBLISH without data, and every SUBSCRIBE or UNSUBSCRIBE, reads an unset pointer.\<close>

lemma sn_decode_publish_empty: "left \<le> 5 \<Longrightarrow> sn_decode_packet SN_PUBLISH buf i left = None"
  by (simp add: sn_decode_packet_def sn_decode_publish_def Let_def bind_eq_None_conv)

lemma sn_decode_sub_undefined:
  "t \<in> {SN_SUBSCRIBE, SN_UNSUBSCRIBE} \<Longrightarrow> sn_decode_packet t buf i left = None"
  by (auto simp: sn_decode_packet_def sn_decode_subscribe_def sn_decode_unsubscribe_def
      bind_eq_None_conv)

end
