(* ===== verification/SnTimers.thy ===== *)
theory SnTimers
  imports SnParser MqttTimers
begin

text \<open>
  src/src/mqttsn/mqtt_sn_timers.c, with the functions of src/src/mqttsn/mqtt_sn_client.c that it
  calls (\<open>sn_encode_and_fire\<close>, \<open>sn_send_ping\<close>, \<open>send_sn_disconnect\<close>): the state of the MQTT-SN
  client, its three tables and its threads. Threads, \<open>pthread_cancel\<close> and \<open>++\<close> are those of
  \<open>MqttTimers\<close>.
\<close>

subsection \<open>The state\<close>

datatype sn_event =
    SnSend bool mem
  | SnClose bool
  | SnConnected
  | SnPublication "cstr ptr" "cstr ptr" u32 int int

text \<open>\<open>sn_listener\<close> says whether \<open>mqtt_listener\<close> is set.\<close>

record sn_state =
  sn_account :: "Account ptr"
  sn_listener :: bool
  sn_packet_number :: int
  sn_client_delay :: int
  sn_timer_delay :: u32
  messages_map :: "SnMessage map_base"
  topic_name_map :: "int map_base"
  reverse_topic_name_map :: "cstr ptr map_base"
  sn_pinger :: thread
  sn_messager :: thread
  sn_connecter :: thread
  sn_events :: "sn_event list"
  sn_exited :: bool

definition sn_init :: sn_state where
  "sn_init = \<lparr>sn_account = Null, sn_listener = False, sn_packet_number = 0, sn_client_delay = 0,
     sn_timer_delay = 10, messages_map = map_init, topic_name_map = map_init,
     reverse_topic_name_map = map_init, sn_pinger = NotStarted, sn_messager = NotStarted,
     sn_connecter = NotStarted, sn_events = [], sn_exited = False\<rparr>"

definition sn_emit :: "sn_event \<Rightarrow> sn_state \<Rightarrow> sn_state" where
  "sn_emit e st = st\<lparr>sn_events := sn_events st @ [e]\<rparr>"

subsection \<open>Sending\<close>

definition sn_encode_and_fire :: "SnMessage \<Rightarrow> sn_state \<Rightarrow> sn_state option" where
  "sn_encode_and_fire m st = do {
     len \<leftarrow> sn_get_length m;
     buf \<leftarrow> sn_encode m len;
     acc \<leftarrow> deref (sn_account st);
     Some (sn_emit (SnSend (acc_is_secure acc \<noteq> 0) buf) st)
   }"

definition sn_send_ping :: "sn_state \<Rightarrow> sn_state option" where
  "sn_send_ping st = do {
     acc \<leftarrow> deref (sn_account st);
     sn_encode_and_fire
       \<lparr>sn_message_type = SN_PINGREQ, sn_packet = Ref (SnPingreq (acc_client_id acc))\<rparr> st
   }"

subsection \<open>The tables\<close>

text \<open>The casts of the packet of a message.\<close>

definition as_sn_publish :: "SnMessage \<Rightarrow> SnPublish option" where
  "as_sn_publish m = (case sn_packet m of Ref (PSnPublish p) \<Rightarrow> Some p | _ \<Rightarrow> None)"

definition as_sn_subscribe :: "SnMessage \<Rightarrow> SnSubscribe option" where
  "as_sn_subscribe m = (case sn_packet m of Ref (PSnSubscribe p) \<Rightarrow> Some p | _ \<Rightarrow> None)"

definition as_sn_unsubscribe :: "SnMessage \<Rightarrow> SnUnsubscribe option" where
  "as_sn_unsubscribe m = (case sn_packet m of Ref (PSnUnsubscribe p) \<Rightarrow> Some p | _ \<Rightarrow> None)"

text \<open>A REGISTER, too, is stored under 0.\<close>

definition sn_message_packet_id :: "SnMessage \<Rightarrow> u16 option" where
  "sn_message_packet_id m =
     (case sn_message_type m of
        SN_PUBLISH \<Rightarrow> map_option snp_message_id (as_sn_publish m)
      | SN_SUBSCRIBE \<Rightarrow> map_option sns_message_id (as_sn_subscribe m)
      | SN_UNSUBSCRIBE \<Rightarrow> map_option snu_message_id (as_sn_unsubscribe m)
      | _ \<Rightarrow> Some 0)"

definition sn_add_message_in_map :: "SnMessage \<Rightarrow> sn_state \<Rightarrow> sn_state option" where
  "sn_add_message_in_map m st = do {
     packet_id \<leftarrow> sn_message_packet_id m;
     (m', r) \<leftarrow> id_set (messages_map st) packet_id m;
     Some (st\<lparr>messages_map := m'\<rparr>)
   }"

definition sn_add_topic_id_in_map :: "cstr ptr \<Rightarrow> u16 \<Rightarrow> sn_state \<Rightarrow> sn_state option" where
  "sn_add_topic_id_in_map name topic_id st = do {
     key \<leftarrow> deref name;
     (m', r) \<leftarrow> name_set (topic_name_map st) key (uint topic_id);
     Some (st\<lparr>topic_name_map := m'\<rparr>)
   }"

definition sn_add_topic_name_in_map :: "u16 \<Rightarrow> cstr ptr \<Rightarrow> sn_state \<Rightarrow> sn_state option" where
  "sn_add_topic_name_in_map topic_id name st = do {
     (m', r) \<leftarrow> id_set (reverse_topic_name_map st) topic_id name;
     Some (st\<lparr>reverse_topic_name_map := m'\<rparr>)
   }"

definition sn_get_message_from_map :: "u16 \<Rightarrow> sn_state \<Rightarrow> SnMessage ptr option" where
  "sn_get_message_from_map packet_id st = map_scan (messages_map st) (id_key packet_id) map_iter"

text \<open>The comparison reads the name, if there is an entry to compare it with.\<close>

definition sn_get_topic_id_from_map :: "cstr ptr \<Rightarrow> sn_state \<Rightarrow> u16 option" where
  "sn_get_topic_id_from_map name st =
     (case name of
        Ref s \<Rightarrow> do {
          r \<leftarrow> map_scan (topic_name_map st) s map_iter;
          (case r of Ref v \<Rightarrow> Some (of_int v) | _ \<Rightarrow> Some 0)
        }
      | _ \<Rightarrow> do {
          r \<leftarrow> map_next (topic_name_map st) map_iter;
          (case fst r of Null \<Rightarrow> Some 0 | _ \<Rightarrow> None)
        })"

definition sn_get_topic_name_from_map :: "u16 \<Rightarrow> sn_state \<Rightarrow> cstr ptr option" where
  "sn_get_topic_name_from_map topic_id st = do {
     r \<leftarrow> map_scan (reverse_topic_name_map st) (id_key topic_id) map_iter;
     (case r of Ref name \<Rightarrow> Some name | _ \<Rightarrow> Some Null)
   }"

definition sn_remove_message_from_map :: "u16 \<Rightarrow> sn_state \<Rightarrow> sn_state option" where
  "sn_remove_message_from_map packet_id st = do {
     m' \<leftarrow> id_remove (messages_map st) packet_id;
     Some (st\<lparr>messages_map := m'\<rparr>)
   }"

subsection \<open>Stopping\<close>

definition sn_stop_connect_timer :: "sn_state \<Rightarrow> sn_state option" where
  "sn_stop_connect_timer st = do {
     t \<leftarrow> pthread_cancel (sn_connecter st); Some (st\<lparr>sn_connecter := t\<rparr>) }"

definition sn_stop_ping_timer :: "sn_state \<Rightarrow> sn_state option" where
  "sn_stop_ping_timer st = do {
     m1 \<leftarrow> map_deinit (messages_map st);
     m2 \<leftarrow> map_deinit (topic_name_map st);
     m3 \<leftarrow> map_deinit (reverse_topic_name_map st);
     t \<leftarrow> pthread_cancel (sn_pinger st);
     Some (st\<lparr>messages_map := m1, topic_name_map := m2, reverse_topic_name_map := m3,
              sn_pinger := t\<rparr>)
   }"

definition sn_stop_message_timer :: "sn_state \<Rightarrow> sn_state option" where
  "sn_stop_message_timer st = do {
     t \<leftarrow> pthread_cancel (sn_messager st); Some (st\<lparr>sn_messager := t\<rparr>) }"

definition sn_stop_all_timers :: "sn_state \<Rightarrow> sn_state option" where
  "sn_stop_all_timers st = do { st \<leftarrow> sn_stop_ping_timer st; sn_stop_message_timer st }"

definition send_sn_disconnect :: "sn_state \<Rightarrow> sn_state option" where
  "send_sn_disconnect st = do {
     st \<leftarrow> sn_stop_all_timers st;
     acc \<leftarrow> deref (sn_account st);
     st \<leftarrow> sn_encode_and_fire \<lparr>sn_message_type = SN_DISCONNECT,
             sn_packet = Ref (SnDisconnect (of_int (acc_keep_alive acc)))\<rparr> st;
     Some (sn_emit (SnClose (acc_is_secure acc \<noteq> 0)) st)
   }"

subsection \<open>Starting\<close>

text \<open>\<open>ok\<close> says whether \<open>pthread_create\<close> succeeds.\<close>

definition sn_thread_failed :: "sn_state \<Rightarrow> sn_state option" where
  "sn_thread_failed st = do { st \<leftarrow> send_sn_disconnect st; Some (st\<lparr>sn_exited := True\<rparr>) }"

definition sn_start_connect_timer :: "bool \<Rightarrow> sn_state \<Rightarrow> sn_state option" where
  "sn_start_connect_timer ok st =
     (let st = st\<lparr>messages_map := map_init\<rparr> in
      if ok then Some (st\<lparr>sn_connecter := Running\<rparr>) else sn_thread_failed st)"

definition start_mqtt_sn_ping_timer :: "bool \<Rightarrow> u32 \<Rightarrow> sn_state \<Rightarrow> sn_state option" where
  "start_mqtt_sn_ping_timer ok delay st =
     (let st = st\<lparr>messages_map := map_init, topic_name_map := map_init,
                  reverse_topic_name_map := map_init, sn_timer_delay := delay\<rparr> in
      if ok then Some (st\<lparr>sn_pinger := Running\<rparr>) else sn_thread_failed st)"

definition sn_start_message_timer :: "bool \<Rightarrow> sn_state \<Rightarrow> sn_state option" where
  "sn_start_message_timer ok st =
     (if ok then Some (st\<lparr>sn_messager := Running\<rparr>) else sn_thread_failed st)"

subsection \<open>One round of each thread\<close>

definition sn_ping_round :: "sn_state \<Rightarrow> sn_state option" where
  "sn_ping_round st = sn_send_ping st"

fun sn_fire_all :: "(cstr \<times> SnMessage) list \<Rightarrow> sn_state \<Rightarrow> sn_state option" where
  "sn_fire_all [] st = Some st"
| "sn_fire_all (e # es) st = do { st \<leftarrow> sn_encode_and_fire (snd e) st; sn_fire_all es st }"

definition sn_connect_round :: "sn_state \<Rightarrow> sn_state option" where
  "sn_connect_round st = do { es \<leftarrow> map_walk (messages_map st) map_iter; sn_fire_all es st }"

text \<open>\<open>message_resend_task\<close> passes over a PUBLISH whose topic is not registered yet.\<close>

fun sn_resend_all :: "(cstr \<times> SnMessage) list \<Rightarrow> sn_state \<Rightarrow> sn_state option" where
  "sn_resend_all [] st = Some st"
| "sn_resend_all (e # es) st = do {
     skip \<leftarrow> (if sn_message_type (snd e) = SN_PUBLISH then do {
               p \<leftarrow> as_sn_publish (snd e);
               i \<leftarrow> sn_id (snp_topic p);
               Some (i = 0)
             } else Some False);
     st \<leftarrow> (if skip then Some st else sn_encode_and_fire (snd e) st);
     sn_resend_all es st
   }"

definition sn_resend_round :: "sn_state \<Rightarrow> sn_state option" where
  "sn_resend_round st = do { es \<leftarrow> map_walk (messages_map st) map_iter; sn_resend_all es st }"

end
