(* ===== verification/SnClient.thy ===== *)
theory SnClient
  imports SnTimers
begin

text \<open>
  src/src/mqttsn/mqtt_sn_client.c: the operations the application calls, the handler of incoming
  datagrams, and the MQTT-SN client as a transition system over them. \<open>ok\<close> arguments are the
  results of \<open>pthread_create\<close>.
\<close>

subsection \<open>Operations\<close>

text \<open>\<open>connected\<close> is the result of \<open>init_net_service\<close> or \<open>init_dtls\<close>.\<close>

definition init_mqtt_sn_client :: "Account \<Rightarrow> int \<Rightarrow> sn_state \<Rightarrow> sn_state \<times> int" where
  "init_mqtt_sn_client acc connected st = (st\<lparr>sn_account := Ref acc, sn_listener := True\<rparr>, connected)"

definition sn_connect_message :: "Account \<Rightarrow> SnMessage" where
  "sn_connect_message acc =
     \<lparr>sn_message_type = SN_CONNECT, sn_packet = Ref (PSnConnect
        \<lparr>snc_will_present = (if acc_will acc \<noteq> Null \<and> acc_will_topic acc \<noteq> Null then 1 else 0),
         snc_clean_session = acc_clean_session acc, snc_protocol_id = 1,
         snc_duration = of_int (acc_keep_alive acc), snc_client_id = acc_client_id acc\<rparr>)\<rparr>"

definition send_sn_connect :: "bool \<Rightarrow> Account \<Rightarrow> sn_state \<Rightarrow> sn_state option" where
  "send_sn_connect ok acc st = do {
     let st = st\<lparr>sn_client_delay := acc_keep_alive acc, sn_account := Ref acc\<rparr>;
     st \<leftarrow> sn_encode_and_fire (sn_connect_message acc) st;
     st \<leftarrow> sn_start_connect_timer ok st;
     (if sn_exited st then Some st else sn_add_message_in_map (sn_connect_message acc) st)
   }"

definition sn_next_packet_id :: "sn_state \<Rightarrow> (u16 \<times> sn_state) option" where
  "sn_next_packet_id st = do {
     n \<leftarrow> int_inc (sn_packet_number st);
     Some (of_int n, st\<lparr>sn_packet_number := n\<rparr>)
   }"

text \<open>
  The topic of a SUBSCRIBE or UNSUBSCRIBE: by id where the topic is registered, by name where it is
  not. The fields the code does not set stay unset.
\<close>

definition sn_topic_for :: "cstr ptr \<Rightarrow> u16 \<Rightarrow> SnTopic option" where
  "sn_topic_for name topic_id =
     (if topic_id = 0
      then do { _ \<leftarrow> c_strlen name; Some (blank_topic\<lparr>sn_value := name, sn_topic_type := Some NAMED\<rparr>) }
      else Some (blank_topic\<lparr>sn_topic_type := Some ID, sn_id := Some topic_id\<rparr>))"

definition send_sn_subscribe :: "cstr ptr \<Rightarrow> int \<Rightarrow> sn_state \<Rightarrow> sn_state option" where
  "send_sn_subscribe name q st = do {
     topic_id \<leftarrow> sn_get_topic_id_from_map name st;
     topic \<leftarrow> sn_topic_for name topic_id;
     (message_id, st) \<leftarrow> sn_next_packet_id st;
     let m = \<lparr>sn_message_type = SN_SUBSCRIBE, sn_packet = Ref (PSnSubscribe
           \<lparr>sns_message_id = message_id, sns_topic = Ref (topic\<lparr>sn_qos := Some (of_int q)\<rparr>),
            sns_dup = 0\<rparr>)\<rparr>;
     st \<leftarrow> sn_add_message_in_map m st;
     sn_encode_and_fire m st
   }"

definition send_sn_unsubscribe :: "cstr ptr \<Rightarrow> sn_state \<Rightarrow> sn_state option" where
  "send_sn_unsubscribe name st = do {
     topic_id \<leftarrow> sn_get_topic_id_from_map name st;
     topic \<leftarrow> sn_topic_for name topic_id;
     (message_id, st) \<leftarrow> sn_next_packet_id st;
     let m = \<lparr>sn_message_type = SN_UNSUBSCRIBE, sn_packet = Ref (PSnUnsubscribe
           \<lparr>snu_message_id = message_id, snu_topic = Ref topic\<rparr>)\<rparr>;
     st \<leftarrow> sn_add_message_in_map m st;
     sn_encode_and_fire m st
   }"

definition publish_of :: "SnPublish \<Rightarrow> SnMessage" where
  "publish_of p = \<lparr>sn_message_type = SN_PUBLISH, sn_packet = Ref (PSnPublish p)\<rparr>"

text \<open>\<open>send_sn_publish\<close> gives the packet a new id; one with QoS above 0 is kept.\<close>

definition send_sn_publish :: "SnPublish \<Rightarrow> sn_state \<Rightarrow> sn_state option" where
  "send_sn_publish sn_publish st = do {
     (message_id, st) \<leftarrow> sn_next_packet_id st;
     let p = sn_publish\<lparr>snp_message_id := message_id\<rparr>;
     st \<leftarrow> sn_encode_and_fire (publish_of p) st;
     q \<leftarrow> sn_qos (snp_topic p);
     (if q = 0 then Some st else sn_add_message_in_map (publish_of p) st)
   }"

definition register_of :: "u16 \<Rightarrow> cstr ptr \<Rightarrow> SnMessage" where
  "register_of message_id name =
     \<lparr>sn_message_type = SN_REGISTER, sn_packet = Ref (PSnRegister
        \<lparr>snr_topic_id = 0, snr_msg_id = message_id, snr_topic_name = name\<rparr>)\<rparr>"

definition send_sn_register :: "cstr ptr \<Rightarrow> sn_state \<Rightarrow> sn_state option" where
  "send_sn_register name st = do {
     (message_id, st) \<leftarrow> sn_next_packet_id st;
     st \<leftarrow> sn_add_message_in_map (register_of message_id name) st;
     sn_encode_and_fire (register_of message_id name) st
   }"

definition sn_publish_for :: "cstr ptr \<Rightarrow> cstr ptr \<Rightarrow> int \<Rightarrow> int \<Rightarrow> int \<Rightarrow> u16 \<Rightarrow> u16 \<Rightarrow> SnPublish" where
  "sn_publish_for content name q retain dup topic_id message_id =
     \<lparr>snp_message_id = message_id,
      snp_topic = \<lparr>sn_id = Some topic_id, sn_value = name, sn_qos = Some (of_int q),
                   sn_topic_type = Some ID\<rparr>,
      snp_data = content, snp_dup = dup, snp_retain = retain\<rparr>"

definition send_sn_message ::
    "cstr ptr \<Rightarrow> cstr ptr \<Rightarrow> int \<Rightarrow> int \<Rightarrow> int \<Rightarrow> sn_state \<Rightarrow> sn_state option" where
  "send_sn_message content name q retain dup st = do {
     topic_id \<leftarrow> sn_get_topic_id_from_map name st;
     (message_id, st) \<leftarrow> sn_next_packet_id st;
     let p = sn_publish_for content name q retain dup topic_id message_id;
     (if topic_id = 0
      then do { st \<leftarrow> sn_add_message_in_map (publish_of p) st; send_sn_register name st }
      else send_sn_publish p st)
   }"

subsection \<open>Replies\<close>

definition send_will_topic :: "sn_state \<Rightarrow> sn_state option" where
  "send_will_topic st = do {
     acc \<leftarrow> deref (sn_account st);
     sn_encode_and_fire \<lparr>sn_message_type = SN_WILL_TOPIC, sn_packet = Ref (PSnWillTopic
        \<lparr>snw_retain = acc_is_retain acc,
         snw_topic = Ref (blank_topic\<lparr>sn_value := acc_will_topic acc, sn_qos := Some (acc_qos acc)\<rparr>)\<rparr>)\<rparr> st
   }"

definition send_will_message :: "sn_state \<Rightarrow> sn_state option" where
  "send_will_message st = do {
     acc \<leftarrow> deref (sn_account st);
     sn_encode_and_fire
       \<lparr>sn_message_type = SN_WILL_MSG, sn_packet = Ref (SnWillMessage (acc_will acc))\<rparr> st
   }"

definition send_sn_id :: "SnMessageType \<Rightarrow> u16 \<Rightarrow> sn_state \<Rightarrow> sn_state option" where
  "send_sn_id t message_id st =
     sn_encode_and_fire \<lparr>sn_message_type = t, sn_packet = Ref (SnMsgId message_id)\<rparr> st"

definition send_sn_pubrel :: "u16 \<Rightarrow> sn_state \<Rightarrow> sn_state option" where
  "send_sn_pubrel = send_sn_id SN_PUBREL"

definition send_sn_pubrec :: "int \<Rightarrow> sn_state \<Rightarrow> sn_state option" where
  "send_sn_pubrec message_id = send_sn_id SN_PUBREC (of_int message_id)"

definition send_sn_pubcomp :: "int \<Rightarrow> sn_state \<Rightarrow> sn_state option" where
  "send_sn_pubcomp message_id = send_sn_id SN_PUBCOMP (of_int message_id)"

definition accepted_ack :: "int \<Rightarrow> u16 \<Rightarrow> SnAck" where
  "accepted_ack message_id topic_id =
     \<lparr>sna_topic_id = topic_id, sna_message_id = of_int message_id, sna_code = SN_ACCEPTED\<rparr>"

definition send_sn_puback :: "int \<Rightarrow> u16 \<Rightarrow> sn_state \<Rightarrow> sn_state option" where
  "send_sn_puback message_id topic_id st = sn_encode_and_fire
     \<lparr>sn_message_type = SN_PUBACK, sn_packet = Ref (SnPuback (accepted_ack message_id topic_id))\<rparr> st"

definition send_sn_regack :: "int \<Rightarrow> u16 \<Rightarrow> sn_state \<Rightarrow> sn_state option" where
  "send_sn_regack message_id topic_id st = sn_encode_and_fire
     \<lparr>sn_message_type = SN_REGACK, sn_packet = Ref (SnRegAck (accepted_ack message_id topic_id))\<rparr> st"

subsection \<open>Incoming datagrams\<close>

definition sn_handle_connack :: "bool \<Rightarrow> SnReturnCode \<Rightarrow> sn_state \<Rightarrow> sn_state option" where
  "sn_handle_connack ok code st = do {
     st \<leftarrow> sn_stop_connect_timer st;
     st \<leftarrow> sn_remove_message_from_map 0 st;
     (if code = SN_ACCEPTED then do {
        c_assert (sn_listener st);
        start_mqtt_sn_ping_timer ok (of_int (sn_client_delay st)) (sn_emit SnConnected st)
      } else Some st)
   }"

definition sn_store_topic :: "cstr ptr \<Rightarrow> u16 \<Rightarrow> sn_state \<Rightarrow> sn_state option" where
  "sn_store_topic name topic_id st = do {
     st \<leftarrow> sn_add_topic_id_in_map name topic_id st;
     sn_add_topic_name_in_map topic_id name st
   }"

definition sn_handle_register :: "SnRegister \<Rightarrow> sn_state \<Rightarrow> sn_state option" where
  "sn_handle_register r st = do {
     st \<leftarrow> sn_store_topic (snr_topic_name r) (snr_topic_id r) st;
     send_sn_regack (uint (snr_msg_id r)) (snr_topic_id r) st
   }"

text \<open>The PUBLISH a REGACK is for has the id before that of the REGISTER.\<close>

definition sn_handle_regack :: "SnAck \<Rightarrow> sn_state \<Rightarrow> sn_state option" where
  "sn_handle_regack a st = do {
     r \<leftarrow> sn_get_message_from_map (sna_message_id a - 1) st;
     (case r of
        Ref m \<Rightarrow> do {
          st \<leftarrow> (if sna_code a = SN_ACCEPTED then do {
                   p \<leftarrow> as_sn_publish m;
                   st \<leftarrow> sn_store_topic (sn_value (snp_topic p)) (sna_topic_id a) st;
                   send_sn_publish
                     (p\<lparr>snp_topic := (snp_topic p)\<lparr>sn_id := Some (sna_topic_id a)\<rparr>\<rparr>) st
                 } else Some st);
          st \<leftarrow> sn_remove_message_from_map (sna_message_id a - 1) st;
          sn_remove_message_from_map (sna_message_id a) st
        }
      | _ \<Rightarrow> Some st)
   }"

definition sn_handle_publish :: "SnPublish \<Rightarrow> sn_state \<Rightarrow> sn_state option" where
  "sn_handle_publish p st = do {
     topic_id \<leftarrow> sn_id (snp_topic p);
     name \<leftarrow> sn_get_topic_name_from_map topic_id st;
     c_assert (sn_listener st);
     q \<leftarrow> sn_qos (snp_topic p);
     let st = sn_emit (SnPublication (snp_data p) name q (snp_retain p) (snp_dup p)) st;
     (if q = 1 then send_sn_puback (uint (snp_message_id p)) topic_id st
      else if q = 2 then send_sn_pubrec (uint (snp_message_id p)) st
      else Some st)
   }"

definition sn_handle_puback :: "SnAck \<Rightarrow> sn_state \<Rightarrow> sn_state option" where
  "sn_handle_puback a st = do {
     r \<leftarrow> sn_get_message_from_map (sna_message_id a) st;
     (if r = Null then Some st else sn_remove_message_from_map (sna_message_id a) st)
   }"

text \<open>PUBCOMP and UNSUBACK test the wrong variable and follow a NULL result.\<close>

definition sn_handle_pubcomp :: "u16 \<Rightarrow> sn_state \<Rightarrow> sn_state option" where
  "sn_handle_pubcomp message_id st = do {
     r \<leftarrow> sn_get_message_from_map message_id st;
     m \<leftarrow> deref r;
     p \<leftarrow> as_sn_publish m;
     sn_remove_message_from_map (snp_message_id p) st
   }"

definition sn_handle_suback :: "SnSuback \<Rightarrow> sn_state \<Rightarrow> sn_state option" where
  "sn_handle_suback sa st = do {
     r \<leftarrow> sn_get_message_from_map (snsa_message_id sa) st;
     (case r of
        Ref m \<Rightarrow>
          (if snsa_code sa = SN_ACCEPTED then do {
             s \<leftarrow> as_sn_subscribe m;
             t \<leftarrow> deref (sns_topic s);
             st \<leftarrow> sn_store_topic (sn_value t) (snsa_topic_id sa) st;
             sn_remove_message_from_map (snsa_message_id sa) st
           } else Some st)
      | _ \<Rightarrow> Some st)
   }"

definition sn_handle_unsuback :: "u16 \<Rightarrow> sn_state \<Rightarrow> sn_state option" where
  "sn_handle_unsuback message_id st = do {
     r \<leftarrow> sn_get_message_from_map message_id st;
     m \<leftarrow> deref r;
     u \<leftarrow> as_sn_unsubscribe m;
     t \<leftarrow> deref (snu_topic u);
     tt \<leftarrow> sn_topic_type t;
     name \<leftarrow> (if tt = NAMED then Some (sn_value t)
             else do { i \<leftarrow> sn_id t; sn_get_topic_name_from_map i st });
     printed \<leftarrow> deref name;
     sn_remove_message_from_map (snu_message_id u) st
   }"

definition sn_handle_message :: "bool \<Rightarrow> SnMessage \<Rightarrow> sn_state \<Rightarrow> sn_state option" where
  "sn_handle_message ok m st =
     (case sn_message_type m of
        SN_WILL_TOPIC_REQ \<Rightarrow> send_will_topic st
      | SN_WILL_MSG_REQ \<Rightarrow> send_will_message st
      | SN_DISCONNECT \<Rightarrow> sn_stop_all_timers st
      | _ \<Rightarrow>
        (case (sn_message_type m, sn_packet m) of
           (SN_CONNACK, Ref (SnConnack code)) \<Rightarrow> sn_handle_connack ok code st
         | (SN_REGISTER, Ref (PSnRegister r)) \<Rightarrow> sn_handle_register r st
         | (SN_REGACK, Ref (SnRegAck a)) \<Rightarrow> sn_handle_regack a st
         | (SN_PUBLISH, Ref (PSnPublish p)) \<Rightarrow> sn_handle_publish p st
         | (SN_PUBACK, Ref (SnPuback a)) \<Rightarrow> sn_handle_puback a st
         | (SN_PUBCOMP, Ref (SnMsgId i)) \<Rightarrow> sn_handle_pubcomp i st
         | (SN_PUBREC, Ref (SnMsgId i)) \<Rightarrow> send_sn_pubrel i st
         | (SN_PUBREL, Ref (SnMsgId i)) \<Rightarrow> send_sn_pubcomp (uint i) st
         | (SN_SUBACK, Ref (PSnSuback sa)) \<Rightarrow> sn_handle_suback sa st
         | (SN_UNSUBACK, Ref (SnMsgId i)) \<Rightarrow> sn_handle_unsuback i st
         | (t, p) \<Rightarrow>
             (if t \<in> {SN_CONNACK, SN_REGISTER, SN_REGACK, SN_PUBLISH, SN_PUBACK, SN_PUBCOMP,
                      SN_PUBREC, SN_PUBREL, SN_SUBACK, SN_UNSUBACK}
              then None else Some st)))"

definition process_sn_rx :: "bool \<Rightarrow> byte list \<Rightarrow> sn_state \<Rightarrow> sn_state option" where
  "process_sn_rx ok data st = do { m \<leftarrow> sn_decode data; sn_handle_message ok m st }"

subsection \<open>The client as a transition system\<close>

inductive sn_step :: "sn_state \<Rightarrow> sn_state \<Rightarrow> bool" where
  init: "init_mqtt_sn_client acc connected st = (st', r) \<Longrightarrow> sn_step st st'"
| connect: "send_sn_connect ok acc st = Some st' \<Longrightarrow> sn_step st st'"
| subscribe: "send_sn_subscribe name q st = Some st' \<Longrightarrow> sn_step st st'"
| unsubscribe: "send_sn_unsubscribe name st = Some st' \<Longrightarrow> sn_step st st'"
| publish: "send_sn_message content name q retain dup st = Some st' \<Longrightarrow> sn_step st st'"
| disconnect: "send_sn_disconnect st = Some st' \<Longrightarrow> sn_step st st'"
| data: "process_sn_rx ok buf st = Some st' \<Longrightarrow> sn_step st st'"
| ping: "sn_pinger st = Running \<Longrightarrow> sn_ping_round st = Some st' \<Longrightarrow> sn_step st st'"
| resend: "sn_connecter st = Running \<Longrightarrow> sn_connect_round st = Some st' \<Longrightarrow> sn_step st st'"
| messages: "sn_messager st = Running \<Longrightarrow> sn_resend_round st = Some st' \<Longrightarrow> sn_step st st'"

text \<open>
  The server decides how many topics are registered; the reachable states are those whose table of
  names fits the address space.
\<close>

inductive sn_reachable :: "sn_state \<Rightarrow> bool" where
  start: "sn_reachable sn_init"
| step: "sn_reachable st \<Longrightarrow> sn_step st st' \<Longrightarrow> name_room (topic_name_map st') \<Longrightarrow> sn_reachable st'"

inductive_cases sn_stepE: "sn_step st st'"

subsection \<open>Its invariant\<close>

text \<open>Every stored message is stored under its own id, a REGISTER or CONNECT under 0.\<close>

definition sn_keyed :: "SnMessage map_base \<Rightarrow> bool" where
  "sn_keyed mm \<longleftrightarrow> (\<forall>i m. id_abs mm i = Some m \<longrightarrow> sn_message_packet_id m = Some i)"

definition sn_inv :: "sn_state \<Rightarrow> bool" where
  "sn_inv st \<longleftrightarrow>
     id_table (messages_map st) \<and> sn_keyed (messages_map st) \<and> hm_inv (topic_name_map st) \<and>
     id_table (reverse_topic_name_map st) \<and> sn_messager st = NotStarted \<and> \<not> sn_exited st"

lemma sn_invD:
  assumes "sn_inv st"
  shows "id_table (messages_map st)" "sn_keyed (messages_map st)" "hm_inv (topic_name_map st)"
    "id_table (reverse_topic_name_map st)" "sn_messager st = NotStarted" "\<not> sn_exited st"
  using assms by (simp_all add: sn_inv_def)

lemma sn_inv_frame [simp]:
  "sn_inv (sn_emit e st) = sn_inv st"
  "sn_inv (st\<lparr>sn_account := a\<rparr>) = sn_inv st"
  "sn_inv (st\<lparr>sn_listener := b\<rparr>) = sn_inv st"
  "sn_inv (st\<lparr>sn_packet_number := n\<rparr>) = sn_inv st"
  "sn_inv (st\<lparr>sn_client_delay := d\<rparr>) = sn_inv st"
  "sn_inv (st\<lparr>sn_timer_delay := d'\<rparr>) = sn_inv st"
  "sn_inv (st\<lparr>sn_pinger := t\<rparr>) = sn_inv st"
  "sn_inv (st\<lparr>sn_connecter := t\<rparr>) = sn_inv st"
  by (simp_all add: sn_inv_def sn_emit_def)

text \<open>The fields sending leaves alone.\<close>

lemma sn_emit_simps [simp]:
  "messages_map (sn_emit e st) = messages_map st"
  "topic_name_map (sn_emit e st) = topic_name_map st"
  "reverse_topic_name_map (sn_emit e st) = reverse_topic_name_map st"
  "sn_messager (sn_emit e st) = sn_messager st"
  "sn_exited (sn_emit e st) = sn_exited st"
  "sn_account (sn_emit e st) = sn_account st"
  "sn_packet_number (sn_emit e st) = sn_packet_number st"
  "sn_events (sn_emit e st) = sn_events st @ [e]"
  "sn_listener (sn_emit e st) = sn_listener st"
  "sn_client_delay (sn_emit e st) = sn_client_delay st"
  by (simp_all add: sn_emit_def)

lemma sn_fire_emits:
  assumes "sn_encode_and_fire m st = Some st'"
  obtains e where "st' = sn_emit e st"
  using assms by (auto simp: sn_encode_and_fire_def bind_Some_iff)

lemma sn_fire_inv: "sn_encode_and_fire m st = Some st' \<Longrightarrow> sn_inv st \<Longrightarrow> sn_inv st'"
  by (erule sn_fire_emits) simp

lemma sn_fire_room:
  "sn_encode_and_fire m st = Some st' \<Longrightarrow> topic_name_map st' = topic_name_map st"
  by (erule sn_fire_emits) simp

lemma sn_next_packet_id_ok:
  "sn_next_packet_id st = Some (i, st') \<Longrightarrow>
   st' = st\<lparr>sn_packet_number := sn_packet_number st + 1\<rparr> \<and> i = of_int (sn_packet_number st + 1)"
  by (auto simp: sn_next_packet_id_def int_inc_def bind_Some_iff)

lemma send_sn_disconnect_stuck: "sn_messager st = NotStarted \<Longrightarrow> send_sn_disconnect st = None"
  and sn_stop_all_stuck: "sn_messager st = NotStarted \<Longrightarrow> sn_stop_all_timers st = None"
  by (auto simp: send_sn_disconnect_def sn_stop_all_timers_def sn_stop_ping_timer_def
      sn_stop_message_timer_def pthread_cancel_def bind_eq_None_conv)

lemma sn_thread_failed_stuck: "sn_messager st = NotStarted \<Longrightarrow> sn_thread_failed st = None"
  by (simp add: sn_thread_failed_def send_sn_disconnect_stuck)

text \<open>The tables.\<close>

lemma id_table_start [simp]: "id_table map_init" and id_abs_start [simp]: "id_abs map_init = Map.empty"
  by (rule ids.init_inv ids.init_abs)+

lemma sn_keyed_init [simp]: "sn_keyed map_init"
  by (simp add: sn_keyed_def)

lemma sn_add_message_ok:
  assumes "sn_inv st" and "sn_message_packet_id m = Some i"
  obtains m' where "sn_add_message_in_map m st = Some (st\<lparr>messages_map := m'\<rparr>)"
    "sn_inv (st\<lparr>messages_map := m'\<rparr>)" "id_abs m' = (id_abs (messages_map st))(i \<mapsto> m)"
proof -
  from ids.putE [OF sn_invD(1) [OF assms(1)], of i m] obtain m' where
    m': "id_set (messages_map st) i m = Some (m', 0)" "id_table m'"
    "id_abs m' = (id_abs (messages_map st))(i \<mapsto> m)" .
  moreover have "sn_keyed m'"
    using assms(2) sn_invD(2) [OF assms(1)] m'(3) by (simp add: sn_keyed_def)
  ultimately show thesis
    using that [of m'] assms by (simp add: sn_add_message_in_map_def sn_inv_def)
qed

lemma sn_add_message_inv:
  assumes "sn_add_message_in_map m st = Some st'" and "sn_inv st"
  shows "sn_inv st'"
proof -
  obtain i where "sn_message_packet_id m = Some i"
    using assms(1) by (auto simp: sn_add_message_in_map_def bind_Some_iff)
  from sn_add_message_ok [OF assms(2) this] assms(1) show ?thesis by auto
qed

lemma sn_remove_message_ok:
  assumes "sn_inv st"
  obtains m' where "sn_remove_message_from_map i st = Some (st\<lparr>messages_map := m'\<rparr>)"
    "sn_inv (st\<lparr>messages_map := m'\<rparr>)" "id_abs m' = (id_abs (messages_map st))(i := None)"
proof -
  from ids.delE [OF sn_invD(1) [OF assms(1)], of i] obtain m' where
    m': "id_remove (messages_map st) i = Some m'" "id_table m'"
    "id_abs m' = (id_abs (messages_map st))(i := None)" .
  moreover have "sn_keyed m'"
    using sn_invD(2) [OF assms(1)] m'(3) by (simp add: sn_keyed_def)
  ultimately show thesis
    using that [of m'] assms by (simp add: sn_remove_message_from_map_def sn_inv_def)
qed

lemma sn_remove_message_inv:
  "sn_remove_message_from_map i st = Some st' \<Longrightarrow> sn_inv st \<Longrightarrow> sn_inv st'"
  by (erule sn_remove_message_ok [of st i]) simp

lemma sn_get_message_ok:
  assumes "sn_inv st"
  shows "sn_get_message_from_map i st = Some (ptr_of (id_abs (messages_map st) i))"
proof -
  have t: "id_table (messages_map st)" by (rule sn_invD [OF assms])
  then have "sn_get_message_from_map i st = id_get (messages_map st) i"
    by (simp add: sn_get_message_from_map_def id_get_def map_scan_get id_table_def)
  then show ?thesis using ids.get_abs [OF t] by simp
qed

lemma sn_get_topic_id_ok:
  assumes "sn_inv st"
  shows "sn_get_topic_id_from_map (Ref s) st =
           Some (case hm_abs (topic_name_map st) s of None \<Rightarrow> 0 | Some v \<Rightarrow> of_int v)"
  using names.get_abs [OF sn_invD(3) [OF assms], of s] map_scan_get [OF sn_invD(3) [OF assms], of s]
  by (simp add: sn_get_topic_id_from_map_def split: option.splits)

lemma sn_get_topic_name_ok:
  assumes "sn_inv st"
  shows "sn_get_topic_name_from_map i st =
           Some (case id_abs (reverse_topic_name_map st) i of None \<Rightarrow> Null | Some p \<Rightarrow> p)"
proof -
  have t: "id_table (reverse_topic_name_map st)" by (rule sn_invD [OF assms])
  then have "map_scan (reverse_topic_name_map st) (id_key i) map_iter =
      id_get (reverse_topic_name_map st) i"
    by (simp add: id_get_def map_scan_get id_table_def)
  then show ?thesis
    using ids.get_abs [OF t, of i] by (simp add: sn_get_topic_name_from_map_def split: option.splits)
qed

lemma sn_store_topic_ok:
  assumes "sn_inv st" "name_room (topic_name_map st)"
  obtains m1 m2 where "sn_store_topic (Ref s) i st =
      Some (st\<lparr>topic_name_map := m1, reverse_topic_name_map := m2\<rparr>)"
    "sn_inv (st\<lparr>topic_name_map := m1, reverse_topic_name_map := m2\<rparr>)"
    "hm_abs m1 = (hm_abs (topic_name_map st))(s \<mapsto> uint i)"
    "id_abs m2 = (id_abs (reverse_topic_name_map st))(i \<mapsto> Ref s)"
proof -
  from names.putE [OF sn_invD(3) [OF assms(1)] assms(2), of s "uint i"] obtain m1 where
    m1: "name_set (topic_name_map st) s (uint i) = Some (m1, 0)" "hm_inv m1"
    "hm_abs m1 = (hm_abs (topic_name_map st))(s \<mapsto> uint i)" .
  from ids.putE [OF sn_invD(4) [OF assms(1)], of i "Ref s"] obtain m2 where
    m2: "id_set (reverse_topic_name_map st) i (Ref s) = Some (m2, 0)" "id_table m2"
    "id_abs m2 = (id_abs (reverse_topic_name_map st))(i \<mapsto> Ref s)" .
  show thesis
    using that [of m2 m1] m1 m2 assms(1)
    by (simp add: sn_store_topic_def sn_add_topic_id_in_map_def sn_add_topic_name_in_map_def
        sn_inv_def)
qed

lemma sn_store_topic_inv:
  assumes "sn_store_topic name i st = Some st'" "sn_inv st" "name_room (topic_name_map st)"
  shows "sn_inv st'"
proof -
  obtain s where s: "name = Ref s"
    using assms(1) by (auto simp: sn_store_topic_def sn_add_topic_id_in_map_def bind_Some_iff)
  from sn_store_topic_ok [OF assms(2,3), of s i] assms(1) show ?thesis
    unfolding s by auto
qed

lemmas sn_invs = sn_fire_inv sn_add_message_inv sn_remove_message_inv

text \<open>The operations.\<close>

lemma sn_start_connect_inv:
  assumes "sn_start_connect_timer ok st = Some st'" "sn_inv st"
  shows "sn_inv st'"
  using assms sn_thread_failed_stuck [of "st\<lparr>messages_map := map_init\<rparr>"]
  by (auto simp: sn_start_connect_timer_def Let_def sn_inv_def split: if_splits)

lemma sn_start_ping_inv:
  assumes "start_mqtt_sn_ping_timer ok d st = Some st'" "sn_inv st"
  shows "sn_inv st'"
  using assms sn_thread_failed_stuck [of "st\<lparr>messages_map := map_init, topic_name_map := map_init,
      reverse_topic_name_map := map_init, sn_timer_delay := d\<rparr>"]
  by (auto simp: start_mqtt_sn_ping_timer_def Let_def sn_inv_def map_init_ok split: if_splits)

lemma send_sn_connect_inv:
  assumes "send_sn_connect ok acc st = Some st'" "sn_inv st"
  shows "sn_inv st'"
proof -
  let ?st = "st\<lparr>sn_client_delay := acc_keep_alive acc, sn_account := Ref acc\<rparr>"
  from assms(1) obtain s1 s2 where s: "sn_encode_and_fire (sn_connect_message acc) ?st = Some s1"
    "sn_start_connect_timer ok s1 = Some s2"
    "(if sn_exited s2 then Some s2 else sn_add_message_in_map (sn_connect_message acc) s2) = Some st'"
    by (auto simp: send_sn_connect_def bind_Some_iff Let_def)
  have "sn_inv s1" using sn_fire_inv [OF s(1)] assms(2) by simp
  then have "sn_inv s2" by (rule sn_start_connect_inv [OF s(2)])
  then show ?thesis using s(3) sn_add_message_inv by (auto split: if_splits)
qed

lemma send_sn_subscribe_inv: "send_sn_subscribe name q st = Some st' \<Longrightarrow> sn_inv st \<Longrightarrow> sn_inv st'"
  by (auto simp: send_sn_subscribe_def bind_Some_iff Let_def dest!: sn_next_packet_id_ok dest: sn_invs)

lemma send_sn_unsubscribe_inv: "send_sn_unsubscribe name st = Some st' \<Longrightarrow> sn_inv st \<Longrightarrow> sn_inv st'"
  by (auto simp: send_sn_unsubscribe_def bind_Some_iff Let_def dest!: sn_next_packet_id_ok dest: sn_invs)

lemma send_sn_publish_inv: "send_sn_publish p st = Some st' \<Longrightarrow> sn_inv st \<Longrightarrow> sn_inv st'"
  by (auto simp: send_sn_publish_def bind_Some_iff Let_def split: if_splits
      dest!: sn_next_packet_id_ok dest: sn_invs)

lemma send_sn_register_inv: "send_sn_register name st = Some st' \<Longrightarrow> sn_inv st \<Longrightarrow> sn_inv st'"
  by (auto simp: send_sn_register_def bind_Some_iff dest!: sn_next_packet_id_ok dest: sn_invs)

lemma send_sn_message_inv:
  "send_sn_message content name q retain dup st = Some st' \<Longrightarrow> sn_inv st \<Longrightarrow> sn_inv st'"
  by (auto simp: send_sn_message_def bind_Some_iff Let_def split: if_splits
      dest!: sn_next_packet_id_ok dest: sn_invs send_sn_publish_inv send_sn_register_inv)

lemma sn_handle_connack_inv:
  assumes "sn_handle_connack ok code st = Some st'" "sn_inv st"
  shows "sn_inv st'"
proof -
  from assms(1) obtain s1 s2 where s: "sn_stop_connect_timer st = Some s1"
    "sn_remove_message_from_map 0 s1 = Some s2"
    "st' = s2 \<or> start_mqtt_sn_ping_timer ok (of_int (sn_client_delay s2)) (sn_emit SnConnected s2) = Some st'"
    by (auto simp: sn_handle_connack_def bind_Some_iff split: if_splits)
  have "sn_inv s1" using s(1) assms(2) by (auto simp: sn_stop_connect_timer_def bind_Some_iff)
  then have "sn_inv s2" by (rule sn_remove_message_inv [OF s(2)])
  then show ?thesis using s(3) sn_start_ping_inv by auto
qed

lemma sn_handle_regack_inv:
  assumes "sn_handle_regack a st = Some st'" "sn_inv st" "name_room (topic_name_map st)"
  shows "sn_inv st'"
proof -
  from assms(1) obtain r where "sn_get_message_from_map (sna_message_id a - 1) st = Some r"
    by (auto simp: sn_handle_regack_def bind_Some_iff)
  then have "st' = st \<or> (\<exists>s1 s2. sn_inv s1 \<and>
      sn_remove_message_from_map (sna_message_id a - 1) s1 = Some s2 \<and>
      sn_remove_message_from_map (sna_message_id a) s2 = Some st')"
    using assms sn_store_topic_inv send_sn_publish_inv
    by (cases r) (auto simp: sn_handle_regack_def bind_Some_iff split: if_splits, blast+)
  then show ?thesis using assms(2) sn_remove_message_inv by auto
qed

lemma sn_handle_publish_inv: "sn_handle_publish p st = Some st' \<Longrightarrow> sn_inv st \<Longrightarrow> sn_inv st'"
  by (auto simp: sn_handle_publish_def bind_Some_iff Let_def send_sn_puback_def send_sn_pubrec_def
      send_sn_id_def split: if_splits dest: sn_fire_inv)

lemma sn_handle_suback_inv:
  assumes "sn_handle_suback sa st = Some st'" "sn_inv st" "name_room (topic_name_map st)"
  shows "sn_inv st'"
proof -
  from assms(1) obtain r where "sn_get_message_from_map (snsa_message_id sa) st = Some r"
    by (auto simp: sn_handle_suback_def bind_Some_iff)
  with assms show ?thesis
    by (cases r) (auto simp: sn_handle_suback_def bind_Some_iff split: if_splits
      dest: sn_store_topic_inv sn_remove_message_inv)
qed

lemma sn_handle_message_inv:
  assumes "sn_handle_message ok m st = Some st'" "sn_inv st" "name_room (topic_name_map st)"
  shows "sn_inv st'"
  using assms sn_stop_all_stuck [OF sn_invD(5) [OF assms(2)]]
  by (auto simp: sn_handle_message_def send_will_topic_def send_will_message_def bind_Some_iff
      sn_handle_register_def send_sn_regack_def sn_handle_puback_def sn_handle_pubcomp_def
      send_sn_pubrel_def send_sn_pubcomp_def send_sn_id_def sn_handle_unsuback_def
      split: SnMessageType.splits ptr.splits sn_packet.splits if_splits
      dest: sn_invs sn_handle_connack_inv sn_handle_regack_inv sn_handle_publish_inv
        sn_handle_suback_inv sn_store_topic_inv)

lemma sn_fire_all_inv: "sn_fire_all es st = Some st' \<Longrightarrow> sn_inv st \<Longrightarrow> sn_inv st'"
proof (induction es arbitrary: st)
  case (Cons e es)
  then show ?case by (auto simp: bind_Some_iff dest: sn_fire_inv)
qed simp

lemma sn_step_inv:
  assumes "sn_step st st'" "sn_inv st" "name_room (topic_name_map st)"
  shows "sn_inv st'"
  using assms(1)
proof cases
  case (disconnect)
  then show ?thesis using send_sn_disconnect_stuck [OF sn_invD(5) [OF assms(2)]] by simp
next
  case (data ok buf)
  then show ?thesis
    using sn_handle_message_inv assms(2,3) by (auto simp: process_sn_rx_def bind_Some_iff)
next
  case resend
  then show ?thesis using assms(2) by (auto simp: sn_connect_round_def bind_Some_iff intro: sn_fire_all_inv)
next
  case messages
  then show ?thesis using sn_invD(5) [OF assms(2)] by simp
qed (use assms(2) in \<open>auto simp: init_mqtt_sn_client_def sn_ping_round_def sn_send_ping_def
    bind_Some_iff intro: send_sn_connect_inv send_sn_subscribe_inv send_sn_unsubscribe_inv
    send_sn_message_inv sn_fire_inv\<close>)

lemma sn_reachable_inv: "sn_reachable st \<Longrightarrow> sn_inv st \<and> name_room (topic_name_map st)"
proof (induction rule: sn_reachable.induct)
  case start
  show ?case
    by (simp add: sn_inv_def sn_init_def map_init_ok name_room_def) (simp add: map_init_def)
next
  case (step st st')
  then show ?case using sn_step_inv by blast
qed

subsection \<open>What the operations do\<close>

definition is_secure :: "Account \<Rightarrow> bool" where
  "is_secure acc \<longleftrightarrow> acc_is_secure acc \<noteq> 0"

definition sn_sent :: "Account \<Rightarrow> SnMessageType \<Rightarrow> byte list \<Rightarrow> sn_event" where
  "sn_sent acc t body = SnSend (is_secure acc) (map Some (sn_frame t body))"

lemma sn_fire_wire:
  assumes "sn_account st = Ref acc" "sn_wire m = Some body" "sn_supports m body"
  shows "sn_encode_and_fire m st = Some (sn_emit (sn_sent acc (sn_message_type m) body) st)"
  using assms sn_get_length_wire [OF assms(2,3)] sn_encode_correct [OF assms(2,3)]
  by (simp add: sn_encode_and_fire_def sn_sent_def is_secure_def)

lemma sn_next_ok:
  assumes "sn_packet_number st < 2 ^ 31 - 1"
  shows "sn_next_packet_id st = Some (of_int (sn_packet_number st + 1),
           st\<lparr>sn_packet_number := sn_packet_number st + 1\<rparr>)"
  using assms by (simp add: sn_next_packet_id_def int_inc_def)

lemma sn_wire_register:
  "length s < 65000 \<Longrightarrow> sn_wire (register_of i (Ref s)) = Some (short_bytes 0 @ short_bytes i @ s)"
  by (simp add: sn_wire_def register_of_def sn_wire_string_def)

lemma sn_wire_publish_of:
  "sn_wire (publish_of p) = sn_wire_publish p"
  by (simp add: sn_wire_def publish_of_def)

lemma sn_supports_simps [simp]:
  "sn_supports (register_of i name) body" "sn_supports (publish_of p) body"
  by (simp_all add: sn_supports_def register_of_def publish_of_def)

lemma packet_id_simps [simp]:
  "sn_message_packet_id (register_of i name) = Some 0"
  "sn_message_packet_id (publish_of p) = Some (snp_message_id p)"
  by (simp_all add: sn_message_packet_id_def register_of_def publish_of_def as_sn_publish_def)

lemma type_simps [simp]:
  "sn_message_type (register_of i name) = SN_REGISTER" "sn_message_type (publish_of p) = SN_PUBLISH"
  by (simp_all add: register_of_def publish_of_def)

lemma as_publish_of [simp]: "as_sn_publish (publish_of p) = Some p"
  by (simp add: as_sn_publish_def publish_of_def)

text \<open>A publication to a topic without an id: the topic is registered, the publication waits.\<close>

lemma send_sn_message_registers:
  fixes st :: sn_state
  defines "n \<equiv> sn_packet_number st"
  assumes "sn_inv st" "sn_account st = Ref acc" "hm_abs (topic_name_map st) s = None"
    and "length s < 65000" "n < 2 ^ 31 - 2"
  obtains m' where "send_sn_message content (Ref s) q retain dup st = Some
      (sn_emit (sn_sent acc SN_REGISTER (short_bytes 0 @ short_bytes (of_int (n + 2)) @ s))
        (st\<lparr>messages_map := m', sn_packet_number := n + 2\<rparr>))"
    "sn_inv (st\<lparr>messages_map := m', sn_packet_number := n + 2\<rparr>)"
    "id_abs m' = (id_abs (messages_map st))
       (of_int (n + 1) \<mapsto> publish_of (sn_publish_for content (Ref s) q retain dup 0 (of_int (n + 1))),
        0 \<mapsto> register_of (of_int (n + 2)) (Ref s))"
proof -
  let ?p = "sn_publish_for content (Ref s) q retain dup 0 (of_int (n + 1))"
  let ?r = "register_of (of_int (n + 2)) (Ref s)"
  let ?s1 = "st\<lparr>sn_packet_number := n + 1\<rparr>"
  have i1: "sn_inv ?s1" using assms(2) by simp
  have id: "sn_message_packet_id (publish_of ?p) = Some (of_int (n + 1))"
    by (simp add: sn_publish_for_def)
  from sn_add_message_ok [OF i1 id] obtain m1 where
    m1: "sn_add_message_in_map (publish_of ?p) ?s1 = Some (?s1\<lparr>messages_map := m1\<rparr>)"
    "sn_inv (?s1\<lparr>messages_map := m1\<rparr>)"
    "id_abs m1 = (id_abs (messages_map st))(of_int (n + 1) \<mapsto> publish_of ?p)" by auto
  let ?s2 = "?s1\<lparr>messages_map := m1, sn_packet_number := n + 2\<rparr>"
  have i2: "sn_inv ?s2" using m1(2) by (simp add: sn_inv_def)
  from sn_add_message_ok [OF i2, of ?r 0] obtain m2 where
    m2: "sn_add_message_in_map ?r ?s2 = Some (?s2\<lparr>messages_map := m2\<rparr>)"
    "sn_inv (?s2\<lparr>messages_map := m2\<rparr>)" "id_abs m2 = (id_abs m1)(0 \<mapsto> ?r)" by auto
  have fire: "sn_encode_and_fire ?r (?s2\<lparr>messages_map := m2\<rparr>) =
      Some (sn_emit (sn_sent acc SN_REGISTER (short_bytes 0 @ short_bytes (of_int (n + 2)) @ s))
        (?s2\<lparr>messages_map := m2\<rparr>))"
    using sn_fire_wire [OF _ sn_wire_register [OF assms(5), of "of_int (n + 2)"]] assms(3)
    by simp
  have "sn_next_packet_id st = Some (of_int (n + 1), ?s1)"
    "sn_next_packet_id (?s1\<lparr>messages_map := m1\<rparr>) = Some (of_int (n + 2), ?s2)"
    using sn_next_ok [of st] sn_next_ok [of "?s1\<lparr>messages_map := m1\<rparr>"] assms(1,6) by simp_all
  then have "send_sn_message content (Ref s) q retain dup st =
      Some (sn_emit (sn_sent acc SN_REGISTER (short_bytes 0 @ short_bytes (of_int (n + 2)) @ s))
        (?s2\<lparr>messages_map := m2\<rparr>))"
    using sn_get_topic_id_ok [OF assms(2), of s] assms(4) m1(1) m2(1) fire
    by (simp add: send_sn_message_def send_sn_register_def del: of_int_add)
  then show thesis
    using that [of m2] m1(3) m2(2,3) by (simp add: sn_inv_def sn_emit_def)
qed

text \<open>An answered REGISTER: the topic gets its id and the waiting PUBLISH is sent under a new id.\<close>

lemma sn_decode_wire:
  assumes "fst (sn_wire_packet p) t" "snd (sn_wire_packet p) = Some body" "sn_decodable p"
    and "sn_len body < 65536"
  shows "sn_decode (sn_frame t body @ rest) = Some \<lparr>sn_message_type = t, sn_packet = Ref p\<rparr>"
  using sn_decode_frame [OF assms(4), of t rest] sn_decode_packet_body [OF assms(1-3), of rest]
    sn_wire_type [OF assms(1)] by simp

lemma sn_len_ack: "sn_len (sn_wire_ack a) < 65536" "sn_len (short_bytes i) < 65536"
  by (simp_all add: sn_len_def sn_wire_ack_def)

definition registered :: "SnPublish \<Rightarrow> u16 \<Rightarrow> u16 \<Rightarrow> SnPublish" where
  "registered p topic_id i =
     p\<lparr>snp_topic := (snp_topic p)\<lparr>sn_id := Some topic_id\<rparr>, snp_message_id := i\<rparr>"

lemma send_sn_publish_ok:
  fixes st :: sn_state
  defines "i \<equiv> of_int (sn_packet_number st + 1) :: u16"
  assumes "sn_inv st" "sn_account st = Ref acc" "sn_packet_number st < 2 ^ 31 - 1"
    and "sn_wire_publish (p\<lparr>snp_message_id := i\<rparr>) = Some body" "sn_qos (snp_topic p) = Some q"
  obtains m' where "send_sn_publish p st = Some (sn_emit (sn_sent acc SN_PUBLISH body)
      (st\<lparr>messages_map := m', sn_packet_number := sn_packet_number st + 1\<rparr>))"
    "sn_inv (st\<lparr>messages_map := m', sn_packet_number := sn_packet_number st + 1\<rparr>)"
    "id_abs m' = (if q = 0 then id_abs (messages_map st)
       else (id_abs (messages_map st))(i \<mapsto> publish_of (p\<lparr>snp_message_id := i\<rparr>)))"
proof -
  let ?p = "p\<lparr>snp_message_id := i\<rparr>"
  let ?st = "st\<lparr>sn_packet_number := sn_packet_number st + 1\<rparr>"
  let ?e = "sn_emit (sn_sent acc SN_PUBLISH body)"
  have inv: "sn_inv (?e ?st)" using assms(2) by simp
  have next': "sn_next_packet_id st = Some (i, ?st)"
    using sn_next_ok [OF assms(4)] by (simp add: i_def)
  have fire: "sn_encode_and_fire (publish_of ?p) ?st = Some (?e ?st)"
    using sn_fire_wire [of ?st acc "publish_of ?p" body] assms(3,5)
    by (simp add: sn_wire_publish_of)
  show thesis
  proof (cases "q = 0")
    case True
    then show ?thesis
      using that [of "messages_map st"] next' fire assms(2,6)
      by (simp add: send_sn_publish_def Let_def)
  next
    case False
    have "sn_message_packet_id (publish_of ?p) = Some i" by simp
    from sn_add_message_ok [OF inv this] obtain m' where
      m': "sn_add_message_in_map (publish_of ?p) (?e ?st) = Some ((?e ?st)\<lparr>messages_map := m'\<rparr>)"
      "sn_inv ((?e ?st)\<lparr>messages_map := m'\<rparr>)"
      "id_abs m' = (id_abs (messages_map st))(i \<mapsto> publish_of ?p)" by auto
    have "(?e ?st)\<lparr>messages_map := m'\<rparr> =
        ?e (st\<lparr>messages_map := m', sn_packet_number := sn_packet_number st + 1\<rparr>)"
      by (simp add: sn_emit_def)
    with m' next' fire assms(6) False show ?thesis
      using that [of m'] by (simp add: send_sn_publish_def Let_def)
  qed
qed

lemma sn_regack_sends:
  fixes st :: sn_state
  defines "n \<equiv> sn_packet_number st"
  assumes "sn_inv st" "name_room (topic_name_map st)" "sn_account st = Ref acc" "n < 2 ^ 31 - 1"
    and "id_abs (messages_map st) (i - 1) = Some (publish_of p)"
    and "sn_value (snp_topic p) = Ref s" "sn_qos (snp_topic p) = Some q"
    and "sn_wire_publish (registered p topic_id (of_int (n + 1))) = Some body"
  obtains m' m1 m2 where "process_sn_rx ok (sn_frame SN_REGACK (sn_wire_ack
       \<lparr>sna_topic_id = topic_id, sna_message_id = i, sna_code = SN_ACCEPTED\<rparr>) @ rest) st =
     Some (sn_emit (sn_sent acc SN_PUBLISH body) (st\<lparr>messages_map := m', topic_name_map := m1,
       reverse_topic_name_map := m2, sn_packet_number := n + 1\<rparr>))"
    "sn_inv (st\<lparr>messages_map := m', topic_name_map := m1, reverse_topic_name_map := m2,
       sn_packet_number := n + 1\<rparr>)"
    "hm_abs m1 = (hm_abs (topic_name_map st))(s \<mapsto> uint topic_id)"
    "id_abs m2 = (id_abs (reverse_topic_name_map st))(topic_id \<mapsto> Ref s)"
    "id_abs m' = (if q = 0 then id_abs (messages_map st) else (id_abs (messages_map st))
       (of_int (n + 1) \<mapsto> publish_of (registered p topic_id (of_int (n + 1)))))(i - 1 := None, i := None)"
proof -
  let ?a = "\<lparr>sna_topic_id = topic_id, sna_message_id = i, sna_code = SN_ACCEPTED\<rparr>"
  let ?p = "p\<lparr>snp_topic := (snp_topic p)\<lparr>sn_id := Some topic_id\<rparr>\<rparr>"
  have reg: "?p\<lparr>snp_message_id := j\<rparr> = registered p topic_id j" for j
    by (simp add: registered_def)
  from sn_store_topic_ok [OF assms(2,3), of s topic_id] obtain m1 m2 where
    m: "sn_store_topic (Ref s) topic_id st = Some (st\<lparr>topic_name_map := m1, reverse_topic_name_map := m2\<rparr>)"
    "sn_inv (st\<lparr>topic_name_map := m1, reverse_topic_name_map := m2\<rparr>)"
    "hm_abs m1 = (hm_abs (topic_name_map st))(s \<mapsto> uint topic_id)"
    "id_abs m2 = (id_abs (reverse_topic_name_map st))(topic_id \<mapsto> Ref s)" .
  let ?s1 = "st\<lparr>topic_name_map := m1, reverse_topic_name_map := m2\<rparr>"
  obtain m3 where
    m3: "send_sn_publish ?p ?s1 = Some (sn_emit (sn_sent acc SN_PUBLISH body)
        (?s1\<lparr>messages_map := m3, sn_packet_number := n + 1\<rparr>))"
    "sn_inv (?s1\<lparr>messages_map := m3, sn_packet_number := n + 1\<rparr>)"
    "id_abs m3 = (if q = 0 then id_abs (messages_map st) else (id_abs (messages_map st))
       (of_int (n + 1) \<mapsto> publish_of (registered p topic_id (of_int (n + 1)))))"
    by (rule send_sn_publish_ok [of ?s1 acc ?p body q]) (use assms m(2) reg in auto)
  let ?s2 = "sn_emit (sn_sent acc SN_PUBLISH body) (?s1\<lparr>messages_map := m3, sn_packet_number := n + 1\<rparr>)"
  have i2: "sn_inv ?s2" using m3(2) by simp
  from sn_remove_message_ok [OF i2, of "i - 1"] obtain m4 where
    m4: "sn_remove_message_from_map (i - 1) ?s2 = Some (?s2\<lparr>messages_map := m4\<rparr>)"
    "sn_inv (?s2\<lparr>messages_map := m4\<rparr>)" "id_abs m4 = (id_abs m3)(i - 1 := None)" by auto
  from sn_remove_message_ok [OF m4(2), of i] obtain m5 where
    m5: "sn_remove_message_from_map i (?s2\<lparr>messages_map := m4\<rparr>) = Some (?s2\<lparr>messages_map := m5\<rparr>)"
    "sn_inv (?s2\<lparr>messages_map := m5\<rparr>)" "id_abs m5 = (id_abs m4)(i := None)" by auto
  have dec: "sn_decode (sn_frame SN_REGACK (sn_wire_ack ?a) @ rest) =
      Some \<lparr>sn_message_type = SN_REGACK, sn_packet = Ref (SnRegAck ?a)\<rparr>"
    by (rule sn_decode_wire) (simp_all add: sn_len_ack)
  have "sn_get_message_from_map (i - 1) st = Some (Ref (publish_of p))"
    using sn_get_message_ok [OF assms(2), of "i - 1"] assms(6) by simp
  then have "process_sn_rx ok (sn_frame SN_REGACK (sn_wire_ack ?a) @ rest) st =
      Some (?s2\<lparr>messages_map := m5\<rparr>)"
    using dec m(1) m3(1) m4(1) m5(1) assms(7)
    by (simp add: process_sn_rx_def sn_handle_message_def sn_handle_regack_def)
  moreover have "?s2\<lparr>messages_map := m5\<rparr> = sn_emit (sn_sent acc SN_PUBLISH body)
      (st\<lparr>messages_map := m5, topic_name_map := m1, reverse_topic_name_map := m2,
          sn_packet_number := n + 1\<rparr>)"
    by (simp add: sn_emit_def)
  ultimately show thesis
    using that [of m2 m1 m5] m(3,4) m3(3) m4(3) m5(2,3) by (simp add: sn_inv_def)
qed

text \<open>An incoming PUBLISH: delivered under the name of its topic id, and answered by its QoS.\<close>

definition publish_reply :: "Account \<Rightarrow> SnQoS \<Rightarrow> u16 \<Rightarrow> u16 \<Rightarrow> sn_event list" where
  "publish_reply acc q topic_id message_id =
     (if q = 1 then [sn_sent acc SN_PUBACK (sn_wire_ack
        \<lparr>sna_topic_id = topic_id, sna_message_id = message_id, sna_code = SN_ACCEPTED\<rparr>)]
      else if q = 2 then [sn_sent acc SN_PUBREC (short_bytes message_id)]
      else [])"

lemma sn_fire_id:
  assumes "sn_account st = Ref acc" "t \<in> {SN_PUBREC, SN_PUBREL, SN_PUBCOMP, SN_UNSUBACK}"
  shows "send_sn_id t i st = Some (sn_emit (sn_sent acc t (short_bytes i)) st)"
proof -
  have "sn_wire \<lparr>sn_message_type = t, sn_packet = Ref (SnMsgId i)\<rparr> = Some (short_bytes i)"
    using assms(2) by (auto simp: sn_wire_def)
  from sn_fire_wire [OF assms(1) this] assms(2) show ?thesis
    by (auto simp: send_sn_id_def sn_supports_def)
qed

lemma sn_fire_puback:
  assumes "sn_account st = Ref acc"
  shows "send_sn_puback (uint i) topic_id st = Some (sn_emit (sn_sent acc SN_PUBACK
           (sn_wire_ack \<lparr>sna_topic_id = topic_id, sna_message_id = i, sna_code = SN_ACCEPTED\<rparr>)) st)"
proof -
  let ?a = "\<lparr>sna_topic_id = topic_id, sna_message_id = i, sna_code = SN_ACCEPTED\<rparr>"
  have "sn_wire \<lparr>sn_message_type = SN_PUBACK, sn_packet = Ref (SnPuback ?a)\<rparr> = Some (sn_wire_ack ?a)"
    by (simp add: sn_wire_def)
  from sn_fire_wire [OF assms this] show ?thesis
    by (simp add: send_sn_puback_def accepted_ack_def sn_supports_def)
qed

lemma sn_publish_len:
  assumes "sn_wire_publish x = Some body"
  shows "sn_len body < 65536"
  using assms by (auto simp: sn_wire_publish_def bind_Some_iff sn_len_def)

lemma sn_incoming_publish_ok:
  assumes "sn_inv st" "sn_listener st" "sn_account st = Ref acc"
    and "sn_wire_publish x = Some body" "sn_topic_type (snp_topic x) = Some ID"
    and "sn_id (snp_topic x) = Some i" "sn_qos (snp_topic x) = Some q" "q < 4"
    and "snp_dup x \<in> {0, 1}" "snp_retain x \<in> {0, 1}" "snp_data x = Ref d" "cstr_ok d" "d \<noteq> []"
  shows "process_sn_rx ok (sn_frame SN_PUBLISH body @ rest) st = Some (st\<lparr>sn_events := sn_events st @
      SnPublication (Ref d) (case id_abs (reverse_topic_name_map st) i of None \<Rightarrow> Null | Some p \<Rightarrow> p)
        q (snp_retain x) (snp_dup x) # publish_reply acc q i (snp_message_id x)\<rparr>)"
proof -
  have dec: "sn_decode (sn_frame SN_PUBLISH body @ rest) =
      Some \<lparr>sn_message_type = SN_PUBLISH, sn_packet = Ref (PSnPublish (sn_received x))\<rparr>"
    using sn_decode_publish_body [OF assms(4,5,7,8,9,10-13)] sn_decode_frame [OF sn_publish_len [OF assms(4)]]
    by simp
  have acc: "sn_account (sn_emit e st) = Ref acc" for e using assms(3) by simp
  have rec: "send_sn_pubrec (uint i) (sn_emit e st) =
      Some (sn_emit (sn_sent acc SN_PUBREC (short_bytes i)) (sn_emit e st))" for i e
    using sn_fire_id [OF acc, of SN_PUBREC] by (simp add: send_sn_pubrec_def)
  show ?thesis
    using dec assms(2,6,7,11) sn_get_topic_name_ok [OF assms(1), of i] sn_fire_puback [OF acc] rec
    by (simp add: process_sn_rx_def sn_handle_message_def sn_handle_publish_def sn_received_def
        publish_reply_def Let_def sn_emit_def)
qed

text \<open>SUBSCRIBE by name and its SUBACK.\<close>

definition suback_bytes :: "SnSuback \<Rightarrow> byte list" where
  "suback_bytes x = sn_flags False (snsa_allowedQos x) False False False 0 # short_bytes (snsa_topic_id x)
           @ short_bytes (snsa_message_id x) @ [ucast (snsa_code x)]"

definition subscribe_of :: "SnTopic \<Rightarrow> u16 \<Rightarrow> SnMessage" where
  "subscribe_of t i = \<lparr>sn_message_type = SN_SUBSCRIBE, sn_packet = Ref (PSnSubscribe
     \<lparr>sns_message_id = i, sns_topic = Ref t, sns_dup = 0\<rparr>)\<rparr>"

lemma subscribe_of_simps [simp]:
  "sn_message_type (subscribe_of t i) = SN_SUBSCRIBE"
  "sn_message_packet_id (subscribe_of t i) = Some i"
  "as_sn_subscribe (subscribe_of t i) = Some \<lparr>sns_message_id = i, sns_topic = Ref t, sns_dup = 0\<rparr>"
  by (simp_all add: subscribe_of_def sn_message_packet_id_def as_sn_subscribe_def)

lemma send_sn_subscribe_ok:
  fixes st :: sn_state
  defines "i \<equiv> of_int (sn_packet_number st + 1) :: u16"
  assumes "sn_inv st" "sn_account st = Ref acc" "sn_packet_number st < 2 ^ 31 - 1"
    and "sn_get_topic_id_from_map name st = Some topic_id" "sn_topic_for name topic_id = Some t"
    and "sn_wire (subscribe_of (t\<lparr>sn_qos := Some (of_int q)\<rparr>) i) = Some body"
  obtains m' where "send_sn_subscribe name q st = Some (sn_emit (sn_sent acc SN_SUBSCRIBE body)
      (st\<lparr>messages_map := m', sn_packet_number := sn_packet_number st + 1\<rparr>))"
    "sn_inv (st\<lparr>messages_map := m', sn_packet_number := sn_packet_number st + 1\<rparr>)"
    "id_abs m' = (id_abs (messages_map st))(i \<mapsto> subscribe_of (t\<lparr>sn_qos := Some (of_int q)\<rparr>) i)"
proof -
  let ?t = "t\<lparr>sn_qos := Some (of_int q)\<rparr>"
  let ?st = "st\<lparr>sn_packet_number := sn_packet_number st + 1\<rparr>"
  have inv: "sn_inv ?st" using assms(2) by simp
  from sn_add_message_ok [OF inv, of "subscribe_of ?t i" i] obtain m' where
    m': "sn_add_message_in_map (subscribe_of ?t i) ?st = Some (?st\<lparr>messages_map := m'\<rparr>)"
    "sn_inv (?st\<lparr>messages_map := m'\<rparr>)"
    "id_abs m' = (id_abs (messages_map st))(i \<mapsto> subscribe_of ?t i)" by auto
  have "sn_encode_and_fire (subscribe_of ?t i) (?st\<lparr>messages_map := m'\<rparr>) =
      Some (sn_emit (sn_sent acc SN_SUBSCRIBE body) (?st\<lparr>messages_map := m'\<rparr>))"
    using sn_fire_wire [of "?st\<lparr>messages_map := m'\<rparr>" acc, OF _ assms(7)] assms(3)
    by (simp add: sn_supports_def)
  moreover have "sn_next_packet_id st = Some (i, ?st)"
    using sn_next_ok [OF assms(4)] by (simp add: i_def)
  ultimately show thesis
    using that [of m'] m' assms(5,6)
    by (simp add: send_sn_subscribe_def Let_def subscribe_of_def sn_inv_def sn_emit_def)
qed

lemma sn_suback_decoded:
  assumes "snsa_allowedQos x < 4" "snsa_code x < 256"
  shows "process_sn_rx ok (sn_frame SN_SUBACK (suback_bytes x) @ rest) st = sn_handle_suback x st"
proof -
  have "sn_decode (sn_frame SN_SUBACK (suback_bytes x) @ rest) =
      Some \<lparr>sn_message_type = SN_SUBACK, sn_packet = Ref (PSnSuback x)\<rparr>"
    by (rule sn_decode_wire) (use assms in \<open>simp_all add: suback_bytes_def sn_len_def\<close>)
  then show ?thesis by (simp add: process_sn_rx_def sn_handle_message_def)
qed

lemma sn_suback_ok:
  assumes "sn_inv st" "name_room (topic_name_map st)" "snsa_code sa = SN_ACCEPTED"
    and "id_abs (messages_map st) (snsa_message_id sa) = Some (subscribe_of t i)"
    and "sn_value t = Ref s"
  obtains m' m1 m2 where "sn_handle_suback sa st = Some (st\<lparr>messages_map := m',
      topic_name_map := m1, reverse_topic_name_map := m2\<rparr>)"
    "hm_abs m1 = (hm_abs (topic_name_map st))(s \<mapsto> uint (snsa_topic_id sa))"
    "id_abs m2 = (id_abs (reverse_topic_name_map st))(snsa_topic_id sa \<mapsto> Ref s)"
    "id_abs m' = (id_abs (messages_map st))(snsa_message_id sa := None)"
proof -
  from sn_store_topic_ok [OF assms(1,2), of s "snsa_topic_id sa"] obtain m1 m2 where
    m: "sn_store_topic (Ref s) (snsa_topic_id sa) st =
      Some (st\<lparr>topic_name_map := m1, reverse_topic_name_map := m2\<rparr>)"
    "sn_inv (st\<lparr>topic_name_map := m1, reverse_topic_name_map := m2\<rparr>)"
    "hm_abs m1 = (hm_abs (topic_name_map st))(s \<mapsto> uint (snsa_topic_id sa))"
    "id_abs m2 = (id_abs (reverse_topic_name_map st))(snsa_topic_id sa \<mapsto> Ref s)" .
  from sn_remove_message_ok [OF m(2), of "snsa_message_id sa"] obtain m' where
    m': "sn_remove_message_from_map (snsa_message_id sa)
        (st\<lparr>topic_name_map := m1, reverse_topic_name_map := m2\<rparr>) =
      Some (st\<lparr>topic_name_map := m1, reverse_topic_name_map := m2, messages_map := m'\<rparr>)"
    "id_abs m' = (id_abs (messages_map st))(snsa_message_id sa := None)" by auto
  show thesis
    using that [of m2 m1 m'] m(1,3,4) m' assms(3,5)
      sn_get_message_ok [OF assms(1), of "snsa_message_id sa"] assms(4)
    by (simp add: sn_handle_suback_def)
qed

text \<open>The topic of a SUBSCRIBE by id has no name, and its SUBACK reads one.\<close>

lemma sn_suback_undefined:
  assumes "sn_inv st" "snsa_code sa = SN_ACCEPTED" "sn_value t = Wild"
    and "id_abs (messages_map st) (snsa_message_id sa) = Some (subscribe_of t i)"
  shows "sn_handle_suback sa st = None"
  using assms sn_get_message_ok [OF assms(1), of "snsa_message_id sa"]
  by (simp add: sn_handle_suback_def sn_store_topic_def sn_add_topic_id_in_map_def)

text \<open>PUBCOMP and UNSUBACK with an id of which nothing is kept.\<close>

lemma sn_unknown_ack:
  assumes "sn_inv st" "t \<in> {SN_PUBCOMP, SN_UNSUBACK}" "id_abs (messages_map st) i = None"
  shows "process_sn_rx ok (sn_frame t (short_bytes i) @ rest) st = None"
proof -
  have "sn_decode (sn_frame t (short_bytes i) @ rest) =
      Some \<lparr>sn_message_type = t, sn_packet = Ref (SnMsgId i)\<rparr>"
    by (rule sn_decode_wire) (use assms(2) in \<open>auto simp: sn_len_ack\<close>)
  then show ?thesis
    using assms(2,3) sn_get_message_ok [OF assms(1), of i]
    by (auto simp: process_sn_rx_def sn_handle_message_def sn_handle_pubcomp_def sn_handle_unsuback_def)
qed

end
