(* ===== verification/CoapParser.thy ===== *)
theory CoapParser
  imports Helpers
begin

text \<open>
  src/src/coap/coap_parser.c and the structs and enums of src/src/coap: \<open>coap_encode\<close> and
  \<open>coap_decode\<close>. A NULL result of \<open>coap_decode\<close> is \<open>Null\<close>. Numbers of options are sums of at most
  one \<open>short\<close> for each option of a datagram and stay far below \<open>2 ^ 31\<close>.
\<close>

subsection \<open>Messages\<close>

datatype CoapType = CONFIRMABLE | NON_CONFIRMABLE | ACKNOWLEDGEMENT | RESET

fun type_code :: "CoapType \<Rightarrow> int" where
  "type_code CONFIRMABLE = 0"
| "type_code NON_CONFIRMABLE = 1"
| "type_code ACKNOWLEDGEMENT = 2"
| "type_code RESET = 3"

definition coap_type_of :: "int \<Rightarrow> CoapType" where
  "coap_type_of n = (if n = 0 then CONFIRMABLE else if n = 1 then NON_CONFIRMABLE
     else if n = 2 then ACKNOWLEDGEMENT else RESET)"

type_synonym CoapCode = int

abbreviation (input) GET :: CoapCode where "GET \<equiv> 1"
abbreviation (input) POST :: CoapCode where "POST \<equiv> 2"
abbreviation (input) PUT :: CoapCode where "PUT \<equiv> 3"
abbreviation (input) BAD_OPTION :: CoapCode where "BAD_OPTION \<equiv> 130"

abbreviation (input) OBSERVE :: int where "OBSERVE \<equiv> 6"
abbreviation (input) URI_PATH :: int where "URI_PATH \<equiv> 11"
abbreviation (input) CONTENT_FORMAT :: int where "CONTENT_FORMAT \<equiv> 12"
abbreviation (input) ACCEPT :: int where "ACCEPT \<equiv> 17"
abbreviation (input) NODE_ID :: int where "NODE_ID \<equiv> 2050"

text \<open>The value of an option is the bytes that its pointer gives access to.\<close>

record CoapOption =
  co_number :: int
  co_length :: int
  co_value :: "byte list ptr"

record CoapMessage =
  coap_version :: int
  coap_type :: CoapType
  coap_code :: CoapCode
  coap_message_id :: u16
  coap_token :: "cstr ptr"
  coap_token_length :: "int option"
  coap_options :: "CoapOption list"
  coap_payload :: "cstr ptr"

subsection \<open>Encoding\<close>

text \<open>
  The nibble of a delta or a length, and its extension: one byte below 255, where the protocol has
  it up to 268, and a short from there.
\<close>

definition coap_nibble :: "int \<Rightarrow> int" where
  "coap_nibble n = (if n < 13 then n else if n < 255 then 13 else 14)"

definition coap_extension :: "int \<Rightarrow> byte list" where
  "coap_extension n = (if n < 13 then [] else if n < 255 then [of_int (n - 13)]
     else short_bytes (of_int (n - 269)))"

definition coap_memcpy :: "byte list ptr \<Rightarrow> u16 \<Rightarrow> byte list option" where
  "coap_memcpy p n = (if n = 0 then Some [] else do { bs \<leftarrow> deref p; rd_n bs 0 (int (unat n)) })"

fun coap_encode_options :: "CoapOption list \<Rightarrow> int \<Rightarrow> wbuf \<Rightarrow> wbuf option" where
  "coap_encode_options [] previous_number w = Some w"
| "coap_encode_options (opt # opts) previous_number w = do {
     let delta = co_number opt - previous_number;
     w \<leftarrow> put [of_int (16 * coap_nibble delta + coap_nibble (co_length opt))] w;
     w \<leftarrow> put (coap_extension delta) w;
     w \<leftarrow> put (coap_extension (co_length opt)) w;
     v \<leftarrow> coap_memcpy (co_value opt) (of_int (co_length opt));
     w \<leftarrow> put v w;
     coap_encode_options opts (co_number opt) w
   }"

text \<open>The result is the buffer and the length stored through the pointer.\<close>

definition coap_encode :: "CoapMessage \<Rightarrow> wbuf option" where
  "coap_encode message = do {
     n \<leftarrow> (if coap_payload message \<noteq> Null then c_strlen (coap_payload message) else Some 0);
     token \<leftarrow> deref (coap_token message);
     let string_length = (of_nat (length token) :: u16);
     let first_byte = (of_int (coap_version message * 64) + of_int (type_code (coap_type message) * 16))
           OR (ucast string_length :: byte);
     let codeByte = (coap_code message div 100) * 32 + coap_code message mod 100;
     w \<leftarrow> put [first_byte, of_int codeByte] (c_malloc (256 + n), 0);
     w \<leftarrow> add_short (coap_message_id message) w;
     w \<leftarrow> put (take (unat string_length) token) w;
     w \<leftarrow> coap_encode_options (coap_options message) 0 w;
     w \<leftarrow> put [0xff] w;
     payload \<leftarrow> deref (coap_payload message);
     let string_length = (of_nat (length payload) :: u16);
     put (take (unat string_length) payload) w
   }"

subsection \<open>Decoding\<close>

text \<open>
  The extension of a delta is read past; the one of a length, if it is a short, is not: the value
  is read from the two bytes of the short on.
\<close>

definition coap_read_delta :: "byte list \<Rightarrow> int \<Rightarrow> int \<Rightarrow> (int \<times> int) ptr option" where
  "coap_read_delta buf nibble j =
     (if nibble = 13 then do { b \<leftarrow> rd buf j; Some (Ref (uint b + 13, j + 1)) }
      else if nibble = 14 then do { s \<leftarrow> get_short buf j; Some (Ref (uint s + 269, j + 2)) }
      else if nibble > 14 then Some Null else Some (Ref (nibble, j)))"

definition coap_read_length :: "byte list \<Rightarrow> int \<Rightarrow> int \<Rightarrow> (int \<times> int) ptr option" where
  "coap_read_length buf nibble j =
     (if nibble = 13 then do { b \<leftarrow> rd buf j; Some (Ref (uint b + 13, j + 1)) }
      else if nibble = 14 then do { s \<leftarrow> get_short buf j; Some (Ref (uint s + 269, j)) }
      else if nibble > 14 then Some Null else Some (Ref (nibble, j)))"

text \<open>\<open>or_null r f\<close>: go on with what \<open>r\<close> points to, or return NULL.\<close>

definition or_null :: "'a ptr option \<Rightarrow> ('a \<Rightarrow> 'b ptr option) \<Rightarrow> 'b ptr option" where
  "or_null r f = do { p \<leftarrow> r; (case p of Ref x \<Rightarrow> f x | _ \<Rightarrow> Some Null) }"

lemma or_null_simps [simp]:
  "or_null None f = None" "or_null (Some Null) f = Some Null" "or_null (Some (Ref x)) f = f x"
  by (simp_all add: or_null_def)

lemma or_null_Ref [simp]:
  "or_null r f = Some (Ref y) \<longleftrightarrow> (\<exists>x. r = Some (Ref x) \<and> f x = Some (Ref y))"
  by (auto simp: or_null_def bind_Some_iff split: ptr.splits) (metis ptr.exhaust)

lemma or_null_cong [fundef_cong]:
  "r = r' \<Longrightarrow> (\<And>x. r' = Some (Ref x) \<Longrightarrow> f x = g x) \<Longrightarrow> or_null r f = or_null r' g"
  by (cases r') (auto simp: or_null_def split: ptr.splits)

text \<open>
  One round of the loop over the options, from the index behind \<open>next_byte\<close>: the option and the
  index of the next one, or NULL where the code frees the message and returns.
\<close>

definition coap_option :: "byte list \<Rightarrow> byte \<Rightarrow> int \<Rightarrow> int \<Rightarrow> (CoapOption \<times> int) ptr option" where
  "coap_option buf next_byte j number =
     or_null (coap_read_delta buf (uint (drop_bit 4 next_byte AND 15)) j) (\<lambda>(delta, j).
       if number + delta < 0 then Some Null
       else or_null (coap_read_length buf (uint (next_byte AND 15)) j) (\<lambda>(len, j).
         if len > 0 then do {
           v \<leftarrow> rd_n buf j len;
           Some (Ref (\<lparr>co_number = number + delta, co_length = len, co_value = Ref v\<rparr>, j + len))
         } else Some (Ref (\<lparr>co_number = number + delta, co_length = len, co_value = Null\<rparr>, j))))"

lemma coap_read_Ref:
  "coap_read_delta buf n j = Some (Ref (d, j')) \<Longrightarrow> j \<le> j'"
  "coap_read_length buf n j = Some (Ref (d, j')) \<Longrightarrow> j \<le> j'"
  by (auto simp: coap_read_delta_def coap_read_length_def bind_Some_iff split: if_splits)

lemma coap_option_advances: "coap_option buf b j number = Some (Ref (opt, j')) \<Longrightarrow> j \<le> j'"
  by (fastforce simp: coap_option_def bind_Some_iff split: if_splits dest!: coap_read_Ref)

text \<open>The loop: the options, and \<open>i\<close>, the index behind the last one.\<close>

function coap_options_loop ::
    "byte list \<Rightarrow> int \<Rightarrow> int \<Rightarrow> int \<Rightarrow> (CoapOption list \<times> int) ptr option" where
  "coap_options_loop buf len j number =
     (if len \<le> j then Some (Ref ([], j))
      else do {
        next_byte \<leftarrow> rd buf j;
        (if next_byte = 0xff then Some (Ref ([], j))
         else or_null (coap_option buf next_byte (j + 1) number) (\<lambda>(opt, j').
           or_null (coap_options_loop buf len j' (co_number opt)) (\<lambda>(opts, i).
             Some (Ref (opt # opts, i)))))
      })"
  by pat_completeness auto
termination
  by (relation "measure (\<lambda>(buf, len, j, number). nat (len - j))")
    (auto dest: coap_option_advances)

declare coap_options_loop.simps [simp del]

definition coap_decode :: "byte list \<Rightarrow> int \<Rightarrow> CoapMessage ptr option" where
  "coap_decode buf len = do {
     first_byte \<leftarrow> rd buf 0;
     (if drop_bit 6 first_byte \<noteq> 1 then Some Null
      else do {
        let type = coap_type_of (uint (drop_bit 4 first_byte AND 2));
        let token_length = uint (first_byte AND 0xf);
        (if token_length > 8 then Some Null
         else do {
           code_byte \<leftarrow> rd buf 1;
           let code = uint (drop_bit 5 code_byte) * 100 + uint (code_byte AND 0x1f);
           message_id \<leftarrow> get_short buf 2;
           token \<leftarrow> (if token_length > 0
                    then do { bs \<leftarrow> rd_n buf 4 token_length; Some (Ref (cstr_of bs)) } else Some Wild);
           or_null (coap_options_loop buf len (4 + token_length) 0) (\<lambda>(options, i). do {
             let readable_bytes = len - i;
             payload \<leftarrow> (if readable_bytes > 0 then do {
                 b \<leftarrow> rd buf (i + 1);
                 (if b \<noteq> 0 then do { bs \<leftarrow> rd_n buf (i + 1) readable_bytes; Some (Ref (cstr_of bs)) }
                  else Some Wild)
               } else Some Wild);
             Some (Ref \<lparr>coap_version = 1, coap_type = type, coap_code = code,
               coap_message_id = message_id, coap_token = token,
               coap_token_length = Some token_length, coap_options = options,
               coap_payload = payload\<rparr>)
           })
         })
      })
   }"

subsection \<open>The wire format of RFC 7252\<close>

text \<open>
  A delta or length \<open>n\<close> below 13 is its nibble; up to 268 the nibble is 13 and a byte holds \<open>n - 13\<close>;
  from 269 the nibble is 14 and a short holds \<open>n - 269\<close>. The options stand in the order of their
  numbers, so that no delta is negative. A payload marker precedes a payload, and
  there is none without.
\<close>

definition rfc_nibble :: "int \<Rightarrow> int" where
  "rfc_nibble n = (if n < 13 then n else if n < 269 then 13 else 14)"

definition rfc_extension :: "int \<Rightarrow> byte list" where
  "rfc_extension n = (if n < 13 then [] else if n < 269 then [of_int (n - 13)]
     else short_bytes (of_int (n - 269)))"

definition rfc_option :: "int \<Rightarrow> CoapOption \<Rightarrow> byte list \<Rightarrow> byte list" where
  "rfc_option previous opt v =
     of_int (16 * rfc_nibble (co_number opt - previous) + rfc_nibble (co_length opt))
     # rfc_extension (co_number opt - previous) @ rfc_extension (co_length opt) @ v"

fun rfc_options :: "CoapOption list \<Rightarrow> int \<Rightarrow> byte list option" where
  "rfc_options [] previous = Some []"
| "rfc_options (opt # opts) previous = do {
     c_assert (previous \<le> co_number opt \<and> co_number opt < 65536 \<and> 0 \<le> co_length opt \<and> co_length opt < 65536);
     v \<leftarrow> coap_memcpy (co_value opt) (of_int (co_length opt));
     rest \<leftarrow> rfc_options opts (co_number opt);
     Some (rfc_option previous opt v @ rest)
   }"

definition rfc_header :: "CoapMessage \<Rightarrow> cstr \<Rightarrow> byte list" where
  "rfc_header m token =
     [of_int (64 * coap_version m + 16 * type_code (coap_type m) + int (length token)),
      of_int (32 * (coap_code m div 100) + coap_code m mod 100)]
     @ short_bytes (coap_message_id m) @ token"

text \<open>The message up to the payload marker; \<open>None\<close> where the message has no such form.\<close>

definition rfc_head :: "CoapMessage \<Rightarrow> byte list option" where
  "rfc_head m = do {
     token \<leftarrow> deref (coap_token m);
     c_assert (length token \<le> 8 \<and> coap_version m = 1 \<and> 0 \<le> coap_code m \<and> coap_code m < 800 \<and>
       coap_code m mod 100 < 32);
     opts \<leftarrow> rfc_options (coap_options m) 0;
     Some (rfc_header m token @ opts)
   }"

definition rfc_message :: "CoapMessage \<Rightarrow> byte list option" where
  "rfc_message m = do {
     head \<leftarrow> rfc_head m;
     payload \<leftarrow> deref (coap_payload m);
     Some (head @ (if payload = [] then [] else 0xff # payload))
   }"

text \<open>The deltas and lengths the encoder gets right.\<close>

fun coap_supported :: "CoapOption list \<Rightarrow> int \<Rightarrow> bool" where
  "coap_supported [] previous = True"
| "coap_supported (opt # opts) previous =
     (co_number opt - previous \<notin> {255..268} \<and> co_length opt \<notin> {255..268} \<and>
      coap_supported opts (co_number opt))"

lemma rfc_agrees:
  "n \<notin> {255..268} \<Longrightarrow> coap_nibble n = rfc_nibble n \<and> coap_extension n = rfc_extension n"
  by (auto simp: coap_nibble_def rfc_nibble_def coap_extension_def rfc_extension_def)

lemma coap_encode_options_put:
  assumes "rfc_options opts previous = Some os" and "coap_supported opts previous"
  shows "Option.bind (put bs w) (coap_encode_options opts previous) = put (bs @ os) w"
  using assms
proof (induction opts arbitrary: previous os bs)
  case Nil
  then show ?case by simp
next
  case (Cons opt opts)
  from Cons.prems(1) obtain v rest where v: "coap_memcpy (co_value opt) (of_int (co_length opt)) = Some v"
    "rfc_options opts (co_number opt) = Some rest" "os = rfc_option previous opt v @ rest"
    by (auto simp: bind_Some_iff)
  have "Option.bind (put (bs @ rfc_option previous opt v) w) (coap_encode_options opts (co_number opt)) =
      put ((bs @ rfc_option previous opt v) @ rest) w"
    by (rule Cons.IH) (use v Cons.prems(2) in simp_all)
  then show ?case
    using v Cons.prems(2) rfc_agrees [of "co_number opt - previous"] rfc_agrees [of "co_length opt"]
    by (simp add: Let_def rfc_option_def)
qed

lemma first_byte_or:
  fixes k :: nat
  assumes "k \<le> 8"
  shows "(of_int (64 :: int) + of_int (type_code t * 16)) OR (ucast (of_nat k :: u16) :: byte) =
    of_int (64 + 16 * type_code t + int k)"
proof -
  have "k = 0 \<or> k = 1 \<or> k = 2 \<or> k = 3 \<or> k = 4 \<or> k = 5 \<or> k = 6 \<or> k = 7 \<or> k = 8"
    using assms by presburger
  then show ?thesis by (cases t) (elim disjE, simp_all)+
qed

text \<open>
  \<open>coap_encode\<close> is the RFC's message in a buffer of 256 bytes more than the payload, with the payload
  marker whether there is a payload or not; a message that does not fit is written past the end.
\<close>

lemma coap_encode_rfc:
  assumes "rfc_head m = Some head" "coap_supported (coap_options m) 0"
    and "coap_payload m = Ref p" "length p < 65536"
  shows "coap_encode m = put (head @ 0xff # p) (wstate [] (256 + length p))"
proof -
  from assms(1) obtain token os where t: "coap_token m = Ref token" "length token \<le> 8"
    "coap_version m = 1" "rfc_options (coap_options m) 0 = Some os" "head = rfc_header m token @ os"
    by (auto simp: rfc_head_def bind_Some_iff)
  have small: "take (unat (of_nat (length token) :: u16)) token = token"
    "take (unat (of_nat (length p) :: u16)) p = p"
    using t(2) assms(4) by (simp_all add: unat_of_nat)
  note opts = coap_encode_options_put [OF t(4) assms(2)]
  have regroup: "Option.bind (put xs w) (\<lambda>w. Option.bind (coap_encode_options (coap_options m) 0 w) f) =
      Option.bind (put (xs @ os) w) f" for xs w f
    using opts [of xs w] by (metis Option.bind_assoc)
  show ?thesis
    using t(1,3,5) small first_byte_or [OF t(2), of "coap_type m"] assms(3)
    by (simp add: coap_encode_def Let_def wstate_malloc add_short_def regroup rfc_header_def ac_simps)
qed

subsection \<open>Decoding the wire format\<close>

text \<open>
  What the decoder can take back: numbers in order, lengths below 255 (the extension of longer ones is
  not read past), and the value as an object of just that length.
\<close>

fun coap_decodable :: "CoapOption list \<Rightarrow> int \<Rightarrow> bool" where
  "coap_decodable [] previous = True"
| "coap_decodable (opt # opts) previous =
     (0 \<le> co_number opt - previous \<and> co_number opt - previous < 65536 + 269 \<and>
      0 \<le> previous \<and> co_length opt < 255 \<and>
      (case co_value opt of Null \<Rightarrow> co_length opt = 0 | Wild \<Rightarrow> False
       | Ref v \<Rightarrow> v \<noteq> [] \<and> co_length opt = int (length v)) \<and>
      coap_decodable opts (co_number opt))"

lemma nibble_bounds:
  "0 \<le> n \<Longrightarrow> 0 \<le> rfc_nibble n \<and> rfc_nibble n \<le> 14"
  by (auto simp: rfc_nibble_def)

lemma uint_small:
  "0 \<le> k \<Longrightarrow> k < 256 \<Longrightarrow> uint (of_int k :: byte) = k"
  "0 \<le> k \<Longrightarrow> k < 65536 \<Longrightarrow> uint (of_int k :: u16) = k"
  by (simp_all add: uint_word_of_int)

lemma nibbles_split:
  fixes a b :: int
  assumes "0 \<le> a" "a < 16" "0 \<le> b" "b < 16"
  shows "uint (drop_bit 4 (of_int (16 * a + b) :: byte) AND 15) = a"
    and "uint ((of_int (16 * a + b) :: byte) AND 15) = b"
proof -
  have mask: "x AND 15 = take_bit 4 x" for x :: byte
    using take_bit_eq_mask [of 4 x] by (simp add: mask_eq_exp_minus_1)
  have u: "uint (of_int (16 * a + b) :: byte) = 16 * a + b"
    by (rule uint_small) (use assms in simp_all)
  have "uint (drop_bit 4 (of_int (16 * a + b) :: byte)) = a"
    unfolding unsigned_drop_bit_eq u using assms by (simp add: drop_bit_eq_div take_bit_eq_mod)
  then show "uint (drop_bit 4 (of_int (16 * a + b) :: byte) AND 15) = a"
    using assms unfolding mask unsigned_take_bit_eq by (simp add: take_bit_eq_mod)
  show "uint ((of_int (16 * a + b) :: byte) AND 15) = b"
    unfolding mask unsigned_take_bit_eq u using assms by (simp add: take_bit_eq_mod)
qed

lemma read_delta_rfc:
  assumes "0 \<le> n" "n < 65536 + 269"
  shows "coap_read_delta (rfc_extension n @ rest) (rfc_nibble n) 0 =
    Some (Ref (n, int (length (rfc_extension n))))"
  using assms uint_small(1) [of "n - 13"] uint_small(2) [of "n - 269"]
  by (auto simp: coap_read_delta_def rfc_extension_def rfc_nibble_def get_short_here
      simp del: of_int_diff)

lemma read_length_rfc:
  assumes "0 \<le> n" "n < 255"
  shows "coap_read_length (rfc_extension n @ rest) (rfc_nibble n) 0 =
    Some (Ref (n, int (length (rfc_extension n))))"
  using assms uint_small(1) [of "n - 13"]
  by (auto simp: coap_read_length_def rfc_extension_def rfc_nibble_def simp del: of_int_diff)

lemma coap_read_shift:
  assumes "0 \<le> k"
  shows "coap_read_delta (pre @ buf) n (int (length pre) + k) =
      map_option (\<lambda>r. case r of Ref (d, j) \<Rightarrow> Ref (d, int (length pre) + j) | Null \<Rightarrow> Null | Wild \<Rightarrow> Wild)
        (coap_read_delta buf n k)"
    "coap_read_length (pre @ buf) n (int (length pre) + k) =
      map_option (\<lambda>r. case r of Ref (d, j) \<Rightarrow> Ref (d, int (length pre) + j) | Null \<Rightarrow> Null | Wild \<Rightarrow> Wild)
        (coap_read_length buf n k)"
  using assms by (auto simp: coap_read_delta_def coap_read_length_def rd_shift get_short_shift
      map_option_bind Option.bind_map_option comp_def split: Option.bind_split)

lemma coap_read_at:
  assumes "0 \<le> n" "n < 65536 + 269"
  shows "coap_read_delta (pre @ rfc_extension n @ rest) (rfc_nibble n) (int (length pre)) =
    Some (Ref (n, int (length pre) + int (length (rfc_extension n))))"
  using coap_read_shift(1) [of 0 pre] read_delta_rfc [OF assms] by simp

lemma coap_read_length_at:
  assumes "0 \<le> n" "n < 255"
  shows "coap_read_length (pre @ rfc_extension n @ rest) (rfc_nibble n) (int (length pre)) =
    Some (Ref (n, int (length pre) + int (length (rfc_extension n))))"
  using coap_read_shift(2) [of 0 pre] read_length_rfc [OF assms] by simp

lemma coap_memcpy_decodable:
  assumes "coap_decodable (opt # opts) previous"
    and "coap_memcpy (co_value opt) (of_int (co_length opt)) = Some v"
  shows "co_length opt = int (length v)" "co_value opt = (if v = [] then Null else Ref v)"
proof -
  have "co_length opt = int (length v) \<and> co_value opt = (if v = [] then Null else Ref v)"
  proof (cases "co_value opt")
    case Null
    with assms show ?thesis by (simp add: coap_memcpy_def)
  next
    case (Ref bs)
    with assms(1) have bs: "bs \<noteq> []" "co_length opt = int (length bs)" "length bs < 255" by auto
    then have u: "unat (of_nat (length bs) :: u16) = length bs" by (simp add: unat_of_nat)
    with bs(1) have "(of_nat (length bs) :: u16) \<noteq> 0" by auto
    then have "rd_n bs 0 (int (length bs)) = Some v"
      using assms(2) Ref bs(2) u by (simp add: coap_memcpy_def)
    then show ?thesis using Ref bs by (simp add: rd_n_def)
  qed (use assms in auto)
  then show "co_length opt = int (length v)" "co_value opt = (if v = [] then Null else Ref v)" by simp_all
qed

lemma coap_option_rfc:
  assumes "coap_decodable (opt # opts) previous"
    and v: "coap_memcpy (co_value opt) (of_int (co_length opt)) = Some v"
  shows "coap_option (pre @ rfc_option previous opt v @ rest) (hd (rfc_option previous opt v))
      (int (length pre) + 1) previous =
    Some (Ref (opt, int (length pre) + int (length (rfc_option previous opt v))))"
proof -
  let ?d = "co_number opt - previous"
  let ?l = "co_length opt"
  let ?b = "of_int (16 * rfc_nibble ?d + rfc_nibble ?l) :: byte"
  note val = coap_memcpy_decodable [OF assms]
  have d: "0 \<le> ?d" "?d < 65536 + 269" and l: "0 \<le> ?l" "?l < 255" and prev: "0 \<le> previous"
    using assms(1) val(1) by auto
  have nib: "uint (drop_bit 4 ?b AND 15) = rfc_nibble ?d" "uint (?b AND 15) = rfc_nibble ?l"
    using nibbles_split [of "rfc_nibble ?d" "rfc_nibble ?l"] nibble_bounds [OF d(1)]
      nibble_bounds [OF l(1)] by auto
  let ?p1 = "pre @ [?b]"
  let ?p2 = "?p1 @ rfc_extension ?d"
  let ?p3 = "?p2 @ rfc_extension ?l"
  have buf: "pre @ rfc_option previous opt v @ rest = ?p1 @ rfc_extension ?d @ rfc_extension ?l @ v @ rest"
    by (simp add: rfc_option_def)
  have r1: "coap_read_delta (pre @ rfc_option previous opt v @ rest) (rfc_nibble ?d) (int (length pre) + 1) =
      Some (Ref (?d, int (length ?p2)))"
    using coap_read_at [OF d, of ?p1] unfolding buf by (simp add: ac_simps)
  have r2: "coap_read_length (pre @ rfc_option previous opt v @ rest) (rfc_nibble ?l) (int (length ?p2)) =
      Some (Ref (?l, int (length ?p3)))"
    using coap_read_length_at [OF l, of ?p2] unfolding buf by simp
  have r3: "rd_n (pre @ rfc_option previous opt v @ rest) (int (length ?p3)) ?l = Some v"
    using rd_n_append [of "int (length ?p3)" ?p3 ?l v rest] val(1) unfolding buf by simp
  have hd: "hd (rfc_option previous opt v) = ?b" by (simp add: rfc_option_def)
  have len: "int (length pre) + int (length (rfc_option previous opt v)) = int (length ?p3) + ?l"
    using val(1) by (simp add: rfc_option_def)
  have num: "\<not> co_number opt < 0" using d prev by linarith
  have opt: "\<lparr>co_number = co_number opt, co_length = ?l, co_value = co_value opt\<rparr> = opt" by simp
  show ?thesis
    unfolding coap_option_def hd nib r1 len
    using r2 r3 val num opt by (auto split: if_splits)
qed

lemma rfc_option_not_marker:
  assumes "coap_decodable (opt # opts) previous"
    and "coap_memcpy (co_value opt) (of_int (co_length opt)) = Some v"
  shows "hd (rfc_option previous opt v) \<noteq> 0xff"
proof
  let ?d = "rfc_nibble (co_number opt - previous)"
  let ?l = "rfc_nibble (co_length opt)"
  have b: "0 \<le> ?d \<and> ?d \<le> 14" "0 \<le> ?l \<and> ?l \<le> 14"
    using assms(1) coap_memcpy_decodable(1) [OF assms] by (auto intro!: nibble_bounds)
  assume "hd (rfc_option previous opt v) = 0xff"
  then have "uint ((of_int (16 * ?d + ?l) :: byte) AND 15) = uint (0xff AND 15 :: byte)"
    by (simp add: rfc_option_def)
  then show False
    using nibbles_split(2) [of ?d ?l] b by simp
qed

lemma coap_options_loop_rfc:
  assumes "coap_decodable opts previous" "rfc_options opts previous = Some os"
    and "int (length pre) + int (length os) < len"
  shows "coap_options_loop (pre @ os @ 0xff # rest) len (int (length pre)) previous =
    Some (Ref (opts, int (length pre) + int (length os)))"
  using assms
proof (induction opts arbitrary: previous os pre)
  case Nil
  then show ?case by (simp add: coap_options_loop.simps [of _ len] rd_append)
next
  case (Cons opt opts)
  from Cons.prems(2) obtain v os' where v: "coap_memcpy (co_value opt) (of_int (co_length opt)) = Some v"
    "rfc_options opts (co_number opt) = Some os'" "os = rfc_option previous opt v @ os'"
    by (auto simp: bind_Some_iff)
  let ?o = "rfc_option previous opt v"
  obtain t where t: "?o = hd ?o # t" by (simp add: rfc_option_def)
  have rd: "rd (pre @ ?o @ os' @ 0xff # rest) (int (length pre)) = Some (hd ?o)"
    by (subst t) (simp add: rd_append)
  have opt: "coap_option (pre @ ?o @ os' @ 0xff # rest) (hd ?o) (int (length pre) + 1) previous =
      Some (Ref (opt, int (length (pre @ ?o))))"
    using coap_option_rfc [OF Cons.prems(1) v(1), of pre] by simp
  have "coap_options_loop ((pre @ ?o) @ os' @ 0xff # rest) len (int (length (pre @ ?o))) (co_number opt) =
      Some (Ref (opts, int (length (pre @ ?o)) + int (length os')))"
    by (rule Cons.IH) (use Cons.prems v in simp_all)
  then show ?case
    using rd opt rfc_option_not_marker [OF Cons.prems(1) v(1)] Cons.prems(3) v(3)
    by (simp add: coap_options_loop.simps [of _ len "int (length pre)"])
qed

lemma code_byte_split:
  fixes a b :: int
  assumes "0 \<le> a" "a < 8" "0 \<le> b" "b < 32"
  shows "uint (drop_bit 5 (of_int (32 * a + b) :: byte)) = a"
    and "uint ((of_int (32 * a + b) :: byte) AND 0x1f) = b"
proof -
  have mask: "x AND 0x1f = take_bit 5 x" for x :: byte
    using take_bit_eq_mask [of 5 x] by (simp add: mask_eq_exp_minus_1)
  have u: "uint (of_int (32 * a + b) :: byte) = 32 * a + b"
    by (rule uint_small) (use assms in simp_all)
  show "uint (drop_bit 5 (of_int (32 * a + b) :: byte)) = a"
    unfolding unsigned_drop_bit_eq u using assms by (simp add: drop_bit_eq_div take_bit_eq_mod)
  show "uint ((of_int (32 * a + b) :: byte) AND 0x1f) = b"
    unfolding mask unsigned_take_bit_eq u using assms by (simp add: take_bit_eq_mod)
qed

text \<open>The mask 2 leaves the higher of the two type bits.\<close>

definition coap_seen_type :: "CoapType \<Rightarrow> CoapType" where
  "coap_seen_type t = (if t = CONFIRMABLE \<or> t = NON_CONFIRMABLE then CONFIRMABLE else ACKNOWLEDGEMENT)"

lemma first_byte_split:
  fixes t :: CoapType and k :: nat
  assumes "k \<le> 8"
  defines "b \<equiv> of_int (64 + 16 * type_code t + int k) :: byte"
  shows "drop_bit 6 b = 1" "coap_type_of (uint (drop_bit 4 b AND 2)) = coap_seen_type t" "uint (b AND 0xf) = int k"
proof -
  have "k = 0 \<or> k = 1 \<or> k = 2 \<or> k = 3 \<or> k = 4 \<or> k = 5 \<or> k = 6 \<or> k = 7 \<or> k = 8"
    using assms(1) by presburger
  then have "drop_bit 6 b = 1 \<and> coap_type_of (uint (drop_bit 4 b AND 2)) = coap_seen_type t \<and> uint (b AND 0xf) = int k"
    unfolding b_def by (cases t) (elim disjE; simp add: coap_type_of_def coap_seen_type_def)+
  then show "drop_bit 6 b = 1" "coap_type_of (uint (drop_bit 4 b AND 2)) = coap_seen_type t" "uint (b AND 0xf) = int k"
    by simp_all
qed

lemma coap_decode_parts:
  assumes "rd buf 0 = Some fb" "drop_bit 6 fb = 1" "uint (fb AND 0xf) = k" "0 \<le> k" "k \<le> 8"
    and "rd buf 1 = Some cb" "get_short buf 2 = Some mid" "rd_n buf 4 k = Some token"
    and "coap_options_loop buf len (4 + k) 0 = Some (Ref (opts, i))" "i < len"
    and "rd buf (i + 1) = Some c" "rd_n buf (i + 1) (len - i) = Some p"
  shows "coap_decode buf len = Some (Ref \<lparr>coap_version = 1,
    coap_type = coap_type_of (uint (drop_bit 4 fb AND 2)),
    coap_code = uint (drop_bit 5 cb) * 100 + uint (cb AND 0x1f), coap_message_id = mid,
    coap_token = (if k = 0 then Wild else Ref (cstr_of token)), coap_token_length = Some k, coap_options = opts,
    coap_payload = (if c = 0 then Wild else Ref (cstr_of p))\<rparr>)"
  using assms by (cases "k = 0"; cases "c = 0") (simp_all add: coap_decode_def)

text \<open>
  The payload is copied with one byte too many: the byte behind the datagram joins it, and only a zero
  there leaves it as it was sent.
\<close>

lemma coap_decode_rfc:
  assumes head: "rfc_head m = Some head" and dec: "coap_decodable (coap_options m) 0"
    and token: "coap_token m = Ref token" "cstr_ok token" and payload: "cstr_ok p"
  shows "coap_decode (head @ 0xff # p @ b # rest) (int (length head + 1 + length p)) =
    Some (Ref (m\<lparr>coap_type := coap_seen_type (coap_type m), coap_token := (if token = [] then Wild else Ref token),
                 coap_token_length := Some (int (length token)),
                 coap_payload := (if p = [] \<and> b = 0 then Wild else Ref (cstr_of (p @ [b])))\<rparr>))"
proof -
  from head token(1) obtain os where h: "length token \<le> 8" "coap_version m = 1"
    "0 \<le> coap_code m" "coap_code m < 800" "coap_code m mod 100 < 32"
    "rfc_options (coap_options m) 0 = Some os" "head = rfc_header m token @ os"
    by (auto simp: rfc_head_def bind_Some_iff)
  let ?fb = "of_int (64 + 16 * type_code (coap_type m) + int (length token)) :: byte"
  let ?cb = "of_int (32 * (coap_code m div 100) + coap_code m mod 100) :: byte"
  let ?buf = "head @ 0xff # p @ b # rest"
  have head_eq: "rfc_header m token = ?fb # ?cb # short_bytes (coap_message_id m) @ token"
    using h(2) by (simp add: rfc_header_def)
  note fb = first_byte_split [OF h(1), of "coap_type m"]
  have "coap_code m div 100 < 8" "0 \<le> coap_code m div 100"
    using h(3,4) by (simp_all add: div_less_iff_less_mult)
  then have cb: "uint (drop_bit 5 ?cb) * 100 + uint (?cb AND 0x1f) = coap_code m"
    using code_byte_split [of "coap_code m div 100" "coap_code m mod 100"] h(5) by simp
  have reads: "rd ?buf 0 = Some ?fb" "rd ?buf 1 = Some ?cb"
    "get_short ?buf 2 = Some (coap_message_id m)" "rd_n ?buf 4 (int (length token)) = Some token"
    by (simp_all add: h(7) head_eq byte_skips)
  have loop: "coap_options_loop ?buf (int (length head + 1 + length p)) (4 + int (length token)) 0 =
      Some (Ref (coap_options m, int (length head)))"
    using coap_options_loop_rfc [OF dec h(6), of "rfc_header m token"
        "int (length head + 1 + length p)" "p @ b # rest"]
    by (simp add: h(7) head_eq ac_simps)
  have first: "rd ?buf (int (length head) + 1) = Some (hd (p @ [b]))"
    using rd_shift [of 1 head] by (cases p) (simp_all add: byte_skips)
  have copy: "rd_n ?buf (int (length head) + 1) (int (length p) + 1) = Some (p @ [b])"
    using rd_n_append [of _ "head @ [0xff]" "int (length p) + 1" "p @ [b]" rest]
    by (simp add: ac_simps)
  have "hd (p @ [b]) = 0 \<longleftrightarrow> p = [] \<and> b = 0" using payload by (cases p) (auto simp: cstr_ok_def)
  moreover have "cstr_of token = token" using token(2) by simp
  ultimately show ?thesis
    using coap_decode_parts [OF reads(1) fb(1,3) _ _ reads(2-4) loop _ first, of "p @ [b]"]
      copy token(1) h(1,2) unfolding fb(2) cb by (cases m) (auto simp add: ac_simps)
qed

text \<open>The mask 2 on the type bits: neither of the odd types is ever seen.\<close>

lemma mask_two: "uint (w AND 2 :: byte) \<in> {0, 2}"
proof -
  have "w AND 2 = (if bit w 1 then 2 else 0)"
    by (rule bit_word_eqI) (auto simp: bit_and_iff bit_2_iff)
  then show ?thesis by simp
qed

lemma masked_type: "coap_type_of (uint (w AND 2 :: byte)) \<in> {CONFIRMABLE, ACKNOWLEDGEMENT}"
  using mask_two [of w] by (auto simp: coap_type_of_def)

subsection \<open>The codec\<close>

text \<open>
  C5: take a message as RFC 7252 has it: version 1, a token of at most 8 bytes, a code of three bits and five, options in
  the order of their numbers, and if the code is 0.00 nothing but the header. Suppose that no option delta and no option
  length lies from 255 to 268 and that the payload has less than 65536 bytes. Then \<open>coap_encode\<close> writes the bytes of
  RFC 7252 into a buffer of 256 bytes more than the payload, but with a payload marker even where there is no payload and the
  RFC has none; if there are more than 255 bytes before the marker it writes past the end of that buffer.
\<close>

theorem coap_encoder_correct:
  assumes "rfc_head m = Some head" and "coap_supported (coap_options m) 0"
    and "coap_payload m = Ref p" and "length p < 65536"
    and "coap_code m \<noteq> 0 \<or> coap_token m = Ref [] \<and> coap_options m = [] \<and> p = []"
  shows "rfc_message m = Some (if p = [] then head else head @ 0xff # p) \<and>
    coap_encode m = (if length head < 256
      then Some (map Some (head @ 0xff # p) @ replicate (255 - length head) None, length head + 1 + length p)
      else None)"
  using assms(1,3) coap_encode_rfc [OF assms(1-4), unfolded put_wstate]
  by (auto simp: rfc_message_def wstate_def)

definition sample_coap :: "cstr \<Rightarrow> CoapMessage" where
  "sample_coap p = \<lparr>coap_version = 1, coap_type = CONFIRMABLE, coap_code = 3, coap_message_id = 7,
     coap_token = Ref [0x37], coap_token_length = None,
     coap_options = [\<lparr>co_number = URI_PATH, co_length = 1, co_value = Ref [0x61]\<rparr>],
     coap_payload = Ref p\<rparr>"

lemma sample_coap_simps:
  "rfc_head (sample_coap p) = Some [0x41, 3, 0, 7, 0x37, 0xb1, 0x61]"
  "coap_supported (coap_options (sample_coap p)) 0" "coap_decodable (coap_options (sample_coap p)) 0"
  by (simp_all add: sample_coap_def rfc_head_def rfc_header_def rfc_option_def rfc_nibble_def
      rfc_extension_def coap_memcpy_def rd_n_def short_bytes_def)

lemma sample_coap_fields:
  "coap_type (sample_coap p) = CONFIRMABLE" "coap_token (sample_coap p) = Ref [0x37]"
  "coap_payload (sample_coap p) = Ref p" "coap_code (sample_coap p) = 3"
  by (simp_all add: sample_coap_def)

theorem coap_encoder_correct_witness:
  "rfc_message (sample_coap []) = Some [0x41, 3, 0, 7, 0x37, 0xb1, 0x61] \<and>
   coap_encode (sample_coap []) =
     Some (map Some [0x41, 3, 0, 7, 0x37, 0xb1, 0x61, 0xff] @ replicate 248 None, 8)"
  using coap_encoder_correct [OF sample_coap_simps(1,2) [of "[]"] sample_coap_fields(3)] sample_coap_fields(4) by simp

text \<open>
  C6: take a message as in C5 with less than 256 bytes before the payload, a token and a payload without zero bytes, and
  options of less than 255 bytes whose values are objects of just their length (none if it is 0). It is encoded into a buffer,
  and the datagram of these bytes, behind which memory holds the byte \<open>b\<close>, is decoded to the same message with these
  changes: the payload is followed by \<open>b\<close> unless \<open>b\<close> is zero, and is left unset if that makes it empty; an empty token is left
  unset; the token's length is set; a NON_CONFIRMABLE message comes back as CONFIRMABLE and a RESET as ACKNOWLEDGEMENT.
\<close>

theorem coap_roundtrip:
  assumes "rfc_head m = Some head" and "length head < 256"
    and "coap_supported (coap_options m) 0" and "coap_decodable (coap_options m) 0"
    and "coap_token m = Ref token" "cstr_ok token"
    and "coap_payload m = Ref p" "cstr_ok p" "length p < 65536"
  shows "\<exists>buf junk. coap_encode m = Some (map Some buf @ junk, length buf) \<and>
    coap_decode (buf @ b # rest) (int (length buf)) =
      Some (Ref (m\<lparr>
        coap_type := (case coap_type m of
            CONFIRMABLE \<Rightarrow> CONFIRMABLE | NON_CONFIRMABLE \<Rightarrow> CONFIRMABLE
          | ACKNOWLEDGEMENT \<Rightarrow> ACKNOWLEDGEMENT | RESET \<Rightarrow> ACKNOWLEDGEMENT),
        coap_token := (if token = [] then Wild else Ref token),
        coap_token_length := Some (int (length token)),
        coap_payload := (let q = (if b = 0 then p else p @ [b]) in if q = [] then Wild else Ref q)\<rparr>))"
proof -
  have "cstr_of (p @ [b]) = (if b = 0 then p else p @ [b])"
    using assms(8) by (auto simp: cstr_of_def cstr_ok_def takeWhile_append)
  moreover have "coap_seen_type t = (case t of CONFIRMABLE \<Rightarrow> CONFIRMABLE | NON_CONFIRMABLE \<Rightarrow> CONFIRMABLE
      | ACKNOWLEDGEMENT \<Rightarrow> ACKNOWLEDGEMENT | RESET \<Rightarrow> ACKNOWLEDGEMENT)" for t
    by (cases t) (simp_all add: coap_seen_type_def)
  ultimately show ?thesis
    using coap_encode_rfc [OF assms(1,3,7,9), unfolded put_wstate] assms(2)
      coap_decode_rfc [OF assms(1,4-6,8), of b rest]
    by (intro exI [of _ "head @ 0xff # p"] exI [of _ "replicate (255 - length head) None"])
      (simp add: ac_simps wstate_def Let_def)
qed

theorem coap_roundtrip_witness:
  "(\<exists>buf junk. coap_encode (sample_coap [0x31]) = Some (map Some buf @ junk, length buf) \<and>
    coap_decode (buf @ [0x21]) (int (length buf)) =
      Some (Ref ((sample_coap [0x31])\<lparr>coap_token_length := Some 1, coap_payload := Ref [0x31, 0x21]\<rparr>))) \<and>
   (\<exists>buf junk. coap_encode (sample_coap []) = Some (map Some buf @ junk, length buf) \<and>
    coap_decode (buf @ [0]) (int (length buf)) =
      Some (Ref ((sample_coap [])\<lparr>coap_token_length := Some 1, coap_payload := Wild\<rparr>)))"
  using coap_roundtrip [OF sample_coap_simps(1) _ sample_coap_simps(2,3) sample_coap_fields(2) _
      sample_coap_fields(3), of "[0x31]" "0x21" "[]"]
    coap_roundtrip [OF sample_coap_simps(1) _ sample_coap_simps(2,3) sample_coap_fields(2) _
      sample_coap_fields(3), of "[]" 0 "[]"]
  by (simp add: sample_coap_def cstr_ok_def)

text \<open>
  Where the encoder leaves the protocol. An option delta or length \<open>n\<close> from 255 to 268 is written
  as the short \<open>n - 269\<close>, which wraps: a reader of the protocol's format gets \<open>n + 65536\<close>. From 269 on a
  delta is read back as it was written; a length is too, but the decoder stays in front of the short,
  whose two bytes become the first of the value.
\<close>

theorem coap_extension_limits:
  assumes "255 \<le> n" "n < 65536 + 269"
  shows "coap_nibble n = 14 \<and> length (coap_extension n) = 2 \<and>
    coap_read_delta (coap_extension n @ rest) 14 0 = Some (Ref (if n < 269 then n + 65536 else n, 2)) \<and>
    coap_read_length (coap_extension n @ rest) 14 0 = Some (Ref (if n < 269 then n + 65536 else n, 0))"
proof -
  have short: "get_short (coap_extension n @ rest) 0 = Some (of_int (n - 269))"
    using assms(1) by (simp add: coap_extension_def get_short_here)
  have "uint (of_int (n - 269) :: u16) = (n - 269) mod 65536" by (simp add: uint_word_of_int del: of_int_diff)
  moreover have "(n - 269) mod 65536 = (if n < 269 then n - 269 + 65536 else n - 269)"
    using assms mod_add_self2 [of "n - 269" "65536"] mod_pos_pos_trivial [of "n - 269 + 65536" "65536"]
      mod_pos_pos_trivial [of "n - 269" "65536"] by (simp del: mod_add_self2)
  ultimately show ?thesis
    using assms(1) short
    by (simp add: coap_nibble_def coap_extension_def coap_read_delta_def coap_read_length_def short_bytes_def)
qed

theorem coap_extension_limits_witness:
  "coap_read_delta (coap_extension 255 @ []) 14 0 = Some (Ref (65791, 2)) \<and>
   coap_read_length (coap_extension 300 @ []) 14 0 = Some (Ref (300, 0))"
  using coap_extension_limits [of 255 "[]"] coap_extension_limits [of 300 "[]"] by simp

lemma code_byte_bound: "uint (drop_bit 5 (b :: byte)) * 100 + uint (b AND 0x1f) \<le> 731"
proof -
  have "uint (drop_bit 5 b) \<le> 7"
    using uint_lt2p [of b] by (simp add: drop_bit_eq_div uint_div)
  moreover have "uint (b AND 0x1f) \<le> 31"
    using word_and_le1 [of b "0x1f"] by (simp add: word_le_def)
  ultimately show ?thesis by linarith
qed

lemma coap_decode_parts_ok:
  assumes "coap_decode buf n = Some (Ref m)"
  shows "coap_type m \<in> {CONFIRMABLE, ACKNOWLEDGEMENT} \<and> coap_version m = 1 \<and>
    0 \<le> coap_code m \<and> coap_code m \<le> 731 \<and>
    (\<exists>k. coap_token_length m = Some k \<and> 0 \<le> k \<and> k \<le> 8 \<and> (coap_token m = Wild \<longleftrightarrow> k = 0))"
proof -
  have pos: "0 < uint (w AND 0xf) \<longleftrightarrow> uint (w AND 0xf) \<noteq> 0" for w :: byte
    using uint_ge_0 [of "w AND 0xf"] by linarith
  from assms obtain fb where fb: "rd buf 0 = Some fb" "drop_bit 6 fb = 1" "\<not> 8 < uint (fb AND 0xf)"
    by (auto simp: coap_decode_def bind_Some_iff Let_def split: if_splits)
  from assms fb obtain cb where cb: "rd buf 1 = Some cb"
    by (auto simp: coap_decode_def Let_def bind_Some_iff)
  have "coap_type m = coap_type_of (uint (drop_bit 4 fb AND 2)) \<and> coap_version m = 1 \<and>
    coap_code m = uint (drop_bit 5 cb) * 100 + uint (cb AND 0x1f) \<and>
    coap_token_length m = Some (uint (fb AND 0xf)) \<and>
    (coap_token m = Wild \<longleftrightarrow> uint (fb AND 0xf) = 0)"
    using assms fb cb pos [of fb]
    by (cases "uint (fb AND 0xf) = 0") (auto simp: coap_decode_def Let_def bind_Some_iff)
  then show ?thesis
    using fb(3) masked_type [of "drop_bit 4 fb"] code_byte_bound [of cb] uint_ge_0 [of "fb AND 0xf"]
    by simp
qed

text \<open>
  The decoder masks the two type bits with 2. Every decoded message is confirmable or an
  acknowledgement, has version 1 and a token length of at most 8; the non-confirmable and reset messages
  of the protocol are never seen as such.
\<close>

theorem coap_decoded_type:
  assumes "coap_decode buf n = Some (Ref m)"
  shows "coap_type m \<in> {CONFIRMABLE, ACKNOWLEDGEMENT} \<and> coap_version m = 1 \<and>
    0 \<le> coap_code m \<and> coap_code m \<le> 731 \<and>
    (\<exists>k. coap_token_length m = Some k \<and> 0 \<le> k \<and> k \<le> 8 \<and> (coap_token m = Wild \<longleftrightarrow> k = 0))"
  by (rule coap_decode_parts_ok [OF assms])

text \<open>A reset, type 3, comes out as an acknowledgement.\<close>

definition sample_reset :: "byte list" where
  "sample_reset = [0x71, 3, 0, 7, 0x37, 0xff, 0x31, 0]"

lemma sample_reset_decoded:
  "coap_decode sample_reset 7 = Some (Ref \<lparr>coap_version = 1, coap_type = ACKNOWLEDGEMENT, coap_code = 3,
     coap_message_id = 7, coap_token = Ref [0x37], coap_token_length = Some 1, coap_options = [],
     coap_payload = Ref [0x31]\<rparr>)"
  by (simp add: sample_reset_def coap_decode_def coap_options_loop.simps rd_def rd_n_def get_short_def
      coap_type_of_def cstr_of_def)

theorem coap_decoded_type_witness:
  "\<exists>m. coap_decode sample_reset 7 = Some (Ref m) \<and> drop_bit 4 (hd sample_reset) AND 3 = 3 \<and>
     coap_type m = ACKNOWLEDGEMENT \<and> coap_version m = 1"
  using coap_decoded_type [OF sample_reset_decoded] sample_reset_decoded
  by (simp add: sample_reset_def)

end
