(* ===== verification/CoapTimers.thy ===== *)
theory CoapTimers
  imports CoapParser MqttTimers
begin

text \<open>
  src/src/coap/coap_timers.c, with the functions of src/src/coap/coap_client.c that it calls
  (\<open>coap_encode_and_fire\<close>, \<open>coap_send_ping\<close>, \<open>send_coap_disconnect\<close>): the state of the CoAP client,
  its table of messages and its threads.
\<close>

subsection \<open>The state\<close>

datatype coap_event =
    CoapSend bool mem
  | CoapClose bool
  | CoapConnected
  | CoapPublication "cstr ptr" "cstr ptr" int

record coap_state =
  coap_account :: "Account ptr"
  coap_listener :: bool
  coap_packet_number :: int
  coap_client_delay :: int
  coap_timer_delay :: u32
  coap_map :: "CoapMessage map_base"
  coap_pinger :: thread
  coap_messager :: thread
  coap_events :: "coap_event list"
  coap_exited :: bool

definition coap_init :: coap_state where
  "coap_init = \<lparr>coap_account = Null, coap_listener = False, coap_packet_number = 0,
     coap_client_delay = 0, coap_timer_delay = 10, coap_map = map_init, coap_pinger = NotStarted,
     coap_messager = NotStarted, coap_events = [], coap_exited = False\<rparr>"

definition coap_emit :: "coap_event \<Rightarrow> coap_state \<Rightarrow> coap_state" where
  "coap_emit e st = st\<lparr>coap_events := coap_events st @ [e]\<rparr>"

subsection \<open>Sending\<close>

text \<open>The first \<open>total_length\<close> bytes of the buffer are sent.\<close>

definition coap_encode_and_fire :: "CoapMessage \<Rightarrow> coap_state \<Rightarrow> coap_state option" where
  "coap_encode_and_fire message st = do {
     (buf, total_length) \<leftarrow> coap_encode message;
     acc \<leftarrow> deref (coap_account st);
     Some (coap_emit (CoapSend (acc_is_secure acc \<noteq> 0) (take total_length buf)) st)
   }"

text \<open>\<open>char str[5]; sprintf(str, "%d", n)\<close> for the counts the client prints, which are not negative.\<close>

definition coap_token_of :: "int \<Rightarrow> cstr ptr option" where
  "coap_token_of n = do {
     let str = dec_digits (nat n);
     c_assert (0 \<le> n \<and> length str < 5);
     Some (Ref str)
   }"

definition string_option :: "int \<Rightarrow> cstr ptr \<Rightarrow> CoapOption option" where
  "string_option number p = do {
     n \<leftarrow> c_strlen p;
     Some \<lparr>co_number = number, co_length = int n, co_value = p\<rparr>
   }"

definition coap_send_ping :: "coap_state \<Rightarrow> coap_state option" where
  "coap_send_ping st = do {
     token \<leftarrow> coap_token_of 0;
     acc \<leftarrow> deref (coap_account st);
     node_id \<leftarrow> string_option NODE_ID (acc_client_id acc);
     coap_encode_and_fire \<lparr>coap_version = 1, coap_type = CONFIRMABLE, coap_code = PUT,
       coap_message_id = 0, coap_token = token, coap_token_length = None,
       coap_options = [node_id], coap_payload = Ref []\<rparr> st
   }"

subsection \<open>The message table\<close>

definition coap_add_message_in_map :: "CoapMessage \<Rightarrow> coap_state \<Rightarrow> coap_state option" where
  "coap_add_message_in_map message st = do {
     (m', r) \<leftarrow> id_set (coap_map st) (coap_message_id message) message;
     Some (st\<lparr>coap_map := m'\<rparr>)
   }"

definition coap_get_message_from_map :: "u16 \<Rightarrow> coap_state \<Rightarrow> CoapMessage ptr option" where
  "coap_get_message_from_map packet_id st = map_scan (coap_map st) (id_key packet_id) map_iter"

definition coap_remove_message_from_map :: "u16 \<Rightarrow> coap_state \<Rightarrow> coap_state option" where
  "coap_remove_message_from_map packet_id st = do {
     m' \<leftarrow> id_remove (coap_map st) packet_id;
     Some (st\<lparr>coap_map := m'\<rparr>)
   }"

subsection \<open>Stopping and starting\<close>

definition coap_stop_ping_timer :: "coap_state \<Rightarrow> coap_state option" where
  "coap_stop_ping_timer st = do {
     m' \<leftarrow> map_deinit (coap_map st);
     t \<leftarrow> pthread_cancel (coap_pinger st);
     Some (st\<lparr>coap_map := m', coap_pinger := t\<rparr>)
   }"

definition coap_stop_message_timer :: "coap_state \<Rightarrow> coap_state option" where
  "coap_stop_message_timer st = do {
     t \<leftarrow> pthread_cancel (coap_messager st); Some (st\<lparr>coap_messager := t\<rparr>) }"

definition coap_stop_all_timers :: "coap_state \<Rightarrow> coap_state option" where
  "coap_stop_all_timers st = do { st \<leftarrow> coap_stop_ping_timer st; coap_stop_message_timer st }"

definition send_coap_disconnect :: "coap_state \<Rightarrow> coap_state option" where
  "send_coap_disconnect st = do {
     st \<leftarrow> coap_stop_all_timers st;
     acc \<leftarrow> deref (coap_account st);
     Some (coap_emit (CoapClose (acc_is_secure acc \<noteq> 0)) st)
   }"

definition coap_thread_failed :: "coap_state \<Rightarrow> coap_state option" where
  "coap_thread_failed st = do { st \<leftarrow> send_coap_disconnect st; Some (st\<lparr>coap_exited := True\<rparr>) }"

definition start_coap_ping_timer :: "bool \<Rightarrow> u32 \<Rightarrow> coap_state \<Rightarrow> coap_state option" where
  "start_coap_ping_timer ok delay st =
     (let st = st\<lparr>coap_timer_delay := delay\<rparr> in
      if ok then Some (st\<lparr>coap_pinger := Running\<rparr>) else coap_thread_failed st)"

definition coap_start_message_timer :: "bool \<Rightarrow> coap_state \<Rightarrow> coap_state option" where
  "coap_start_message_timer ok st =
     (if ok then Some (st\<lparr>coap_messager := Running\<rparr>) else coap_thread_failed st)"

subsection \<open>One round of each thread\<close>

definition coap_ping_round :: "coap_state \<Rightarrow> coap_state option" where
  "coap_ping_round st = coap_send_ping st"

fun coap_fire_all :: "(cstr \<times> CoapMessage) list \<Rightarrow> coap_state \<Rightarrow> coap_state option" where
  "coap_fire_all [] st = Some st"
| "coap_fire_all (e # es) st = do { st \<leftarrow> coap_encode_and_fire (snd e) st; coap_fire_all es st }"

definition coap_resend_round :: "coap_state \<Rightarrow> coap_state option" where
  "coap_resend_round st = do { es \<leftarrow> map_walk (coap_map st) map_iter; coap_fire_all es st }"

end
