(* ===== verification/CoapClient.thy ===== *)
theory CoapClient
  imports CoapTimers
begin

text \<open>
  src/src/coap/coap_client.c: the operations the application calls, the handler of incoming
  datagrams, and the CoAP client as a transition system over them.
\<close>

subsection \<open>Operations\<close>

text \<open>\<open>connected\<close> is the result of \<open>init_net_service\<close> or \<open>init_dtls\<close>.\<close>

definition init_coap_client :: "Account \<Rightarrow> int \<Rightarrow> coap_state \<Rightarrow> coap_state \<times> int" where
  "init_coap_client acc connected st =
     (st\<lparr>coap_account := Ref acc, coap_listener := True, coap_client_delay := acc_keep_alive acc\<rparr>, connected)"

definition coap_connect :: "bool \<Rightarrow> coap_state \<Rightarrow> coap_state option" where
  "coap_connect ok st = do {
     c_assert (coap_listener st);
     start_coap_ping_timer ok (of_int (coap_client_delay st)) (coap_emit CoapConnected st)
   }"

definition coap_next_packet_id :: "coap_state \<Rightarrow> (int \<times> coap_state) option" where
  "coap_next_packet_id st = do {
     n \<leftarrow> int_inc (coap_packet_number st);
     Some (n, st\<lparr>coap_packet_number := n\<rparr>)
   }"

text \<open>
  The value of ACCEPT. Another QoS leaves its second byte unset, and the encoder would copy the indeterminate byte into the
  packet, so that the result is not determined by the code: \<open>None\<close>.
\<close>

definition qos_option :: "int \<Rightarrow> CoapOption option" where
  "qos_option q = do {
     c_assert (q \<in> {0, 1, 2});
     Some \<lparr>co_number = ACCEPT, co_length = 2, co_value = Ref [0, of_int q]\<rparr>
   }"

definition observe_option :: "byte \<Rightarrow> CoapOption" where
  "observe_option b = \<lparr>co_number = OBSERVE, co_length = 4, co_value = Ref [0, 0, 0, b]\<rparr>"

text \<open>
  The message is stored by reference. When the function that built it returns, what the message
  points to in that function's locals is gone: its token always, the options in \<open>locals\<close>, and an
  empty payload.
\<close>

definition after_return :: "int set \<Rightarrow> bool \<Rightarrow> CoapMessage \<Rightarrow> CoapMessage" where
  "after_return locals local_payload m = m\<lparr>coap_token := Wild,
     coap_options := map (\<lambda>opt. if co_number opt \<in> locals then opt\<lparr>co_value := Wild\<rparr> else opt)
       (coap_options m),
     coap_payload := (if local_payload then Wild else coap_payload m)\<rparr>"

definition coap_request ::
    "CoapCode \<Rightarrow> int \<Rightarrow> cstr ptr \<Rightarrow> CoapOption list \<Rightarrow> cstr ptr \<Rightarrow> CoapMessage" where
  "coap_request code n token options payload =
     \<lparr>coap_version = 1, coap_type = CONFIRMABLE, coap_code = code, coap_message_id = of_int n,
      coap_token = token, coap_token_length = None, coap_options = options,
      coap_payload = payload\<rparr>"

definition send_coap_subscribe :: "cstr ptr \<Rightarrow> int \<Rightarrow> coap_state \<Rightarrow> coap_state option" where
  "send_coap_subscribe name q st = do {
     (n, st) \<leftarrow> coap_next_packet_id st;
     token \<leftarrow> coap_token_of n;
     uri_path \<leftarrow> string_option URI_PATH name;
     accept \<leftarrow> qos_option q;
     acc \<leftarrow> deref (coap_account st);
     node_id \<leftarrow> string_option NODE_ID (acc_client_id acc);
     let message = coap_request GET n token [observe_option 0, uri_path, accept, node_id] (Ref []);
     st \<leftarrow> coap_add_message_in_map (after_return {OBSERVE, ACCEPT} True message) st;
     coap_encode_and_fire message st
   }"

definition send_coap_message :: "cstr ptr \<Rightarrow> cstr ptr \<Rightarrow> int \<Rightarrow> coap_state \<Rightarrow> coap_state option" where
  "send_coap_message content name q st = do {
     (n, st) \<leftarrow> coap_next_packet_id st;
     token \<leftarrow> coap_token_of n;
     uri_path \<leftarrow> string_option URI_PATH name;
     accept \<leftarrow> qos_option q;
     acc \<leftarrow> deref (coap_account st);
     node_id \<leftarrow> string_option NODE_ID (acc_client_id acc);
     let message = coap_request PUT n token [uri_path, accept, node_id] content;
     st \<leftarrow> coap_add_message_in_map (after_return {} False message) st;
     coap_encode_and_fire message st
   }"

definition send_coap_unsubscribe :: "cstr ptr \<Rightarrow> coap_state \<Rightarrow> coap_state option" where
  "send_coap_unsubscribe name st = do {
     (n, st) \<leftarrow> coap_next_packet_id st;
     token \<leftarrow> coap_token_of n;
     uri_path \<leftarrow> string_option URI_PATH name;
     acc \<leftarrow> deref (coap_account st);
     node_id \<leftarrow> string_option NODE_ID (acc_client_id acc);
     let message = coap_request GET n token [observe_option 1, uri_path, node_id] (Ref []);
     st \<leftarrow> coap_add_message_in_map (after_return {OBSERVE} True message) st;
     coap_encode_and_fire message st
   }"

text \<open>The string \<open>text/plain\<close>.\<close>

definition text_plain :: cstr where
  "text_plain = [0x74, 0x65, 0x78, 0x74, 0x2f, 0x70, 0x6c, 0x61, 0x69, 0x6e]"

definition coap_ack :: "CoapMessage \<Rightarrow> bool \<Rightarrow> CoapOption \<Rightarrow> CoapMessage" where
  "coap_ack in_message is_ok node_id =
     \<lparr>coap_version = coap_version in_message, coap_type = ACKNOWLEDGEMENT,
      coap_code = (if is_ok then coap_code in_message else BAD_OPTION),
      coap_message_id = coap_message_id in_message, coap_token = coap_token in_message,
      coap_token_length = None,
      coap_options = (if is_ok then [node_id]
        else [\<lparr>co_number = CONTENT_FORMAT, co_length = int (length text_plain), co_value = Ref text_plain\<rparr>,
              node_id]),
      coap_payload = Ref []\<rparr>"

definition send_coap_ack :: "CoapMessage \<Rightarrow> bool \<Rightarrow> coap_state \<Rightarrow> coap_state option" where
  "send_coap_ack in_message is_ok st = do {
     acc \<leftarrow> deref (coap_account st);
     node_id \<leftarrow> string_option NODE_ID (acc_client_id acc);
     coap_encode_and_fire (coap_ack in_message is_ok node_id) st
   }"

subsection \<open>Incoming datagrams\<close>

text \<open>\<open>options[i].value[options[i].length - 1]\<close>\<close>

definition last_byte :: "CoapOption \<Rightarrow> byte option" where
  "last_byte opt = do { bs \<leftarrow> deref (co_value opt); rd bs (co_length opt - 1) }"

text \<open>The loop over the options of a request: the topic and, before it, the QoS.\<close>

fun coap_scan_topic :: "CoapOption list \<Rightarrow> int \<Rightarrow> (cstr ptr \<times> int) option" where
  "coap_scan_topic [] q = Some (Null, q)"
| "coap_scan_topic (opt # opts) q =
     (if co_number opt = URI_PATH then do {
        bs \<leftarrow> (if co_length opt = 0 then Some []
              else do { v \<leftarrow> deref (co_value opt); rd_n v 0 (co_length opt) });
        Some (Ref (cstr_of bs), q)
      } else if co_number opt = ACCEPT then do { b \<leftarrow> last_byte opt; coap_scan_topic opts (uint b) }
      else coap_scan_topic opts q)"

fun coap_find_observe :: "CoapOption list \<Rightarrow> int option" where
  "coap_find_observe [] = Some (- 1)"
| "coap_find_observe (opt # opts) =
     (if co_number opt = OBSERVE \<and> co_length opt > 0
      then do { b \<leftarrow> last_byte opt; Some (if b = 0 then 0 else 1) }
      else coap_find_observe opts)"

text \<open>The two loops whose results are not used; what they read has to be there.\<close>

fun coap_read_accepts :: "CoapOption list \<Rightarrow> unit option" where
  "coap_read_accepts [] = Some ()"
| "coap_read_accepts (opt # opts) = do {
     _ \<leftarrow> (if co_number opt = ACCEPT then do { b \<leftarrow> last_byte opt; Some () } else Some ());
     coap_read_accepts opts
   }"

fun coap_read_paths :: "CoapOption list \<Rightarrow> unit option" where
  "coap_read_paths [] = Some ()"
| "coap_read_paths (opt # opts) = do {
     _ \<leftarrow> (if co_number opt = URI_PATH then do { n \<leftarrow> c_strlen (co_value opt); Some () } else Some ());
     coap_read_paths opts
   }"

definition coap_handle_observe :: "CoapMessage \<Rightarrow> coap_state \<Rightarrow> coap_state option" where
  "coap_handle_observe message st = do {
     observe \<leftarrow> coap_find_observe (coap_options message);
     (if observe \<noteq> - 1 then do {
        original_message \<leftarrow> coap_get_message_from_map (coap_message_id message) st;
        _ \<leftarrow> (case original_message of
               Ref m \<Rightarrow> (if observe = 0 then coap_read_accepts (coap_options message)
                         else coap_read_paths (coap_options m))
             | _ \<Rightarrow> Some ());
        coap_remove_message_from_map (coap_message_id message) st
      } else Some st)
   }"

definition coap_handle_ack :: "CoapMessage \<Rightarrow> coap_state \<Rightarrow> coap_state option" where
  "coap_handle_ack message st =
     (if coap_code message = GET then coap_handle_observe message st
      else if coap_message_id message \<noteq> 0 then do {
        o_m \<leftarrow> coap_get_message_from_map (coap_message_id message) st;
        (if o_m = Null then Some st else coap_remove_message_from_map (coap_message_id message) st)
      } else Some st)"

definition coap_handle_type :: "CoapMessage \<Rightarrow> coap_state \<Rightarrow> coap_state option" where
  "coap_handle_type message st =
     (case coap_type message of
        CONFIRMABLE \<Rightarrow> send_coap_ack message True st
      | NON_CONFIRMABLE \<Rightarrow> coap_remove_message_from_map (coap_message_id message) st
      | ACKNOWLEDGEMENT \<Rightarrow> coap_handle_ack message st
      | RESET \<Rightarrow> coap_remove_message_from_map (coap_message_id message) st)"

definition coap_handle_message :: "CoapMessage \<Rightarrow> coap_state \<Rightarrow> coap_state option" where
  "coap_handle_message message st =
     (if coap_code message \<in> {POST, PUT} \<and> coap_type message \<noteq> ACKNOWLEDGEMENT then do {
        (name, q) \<leftarrow> coap_scan_topic (coap_options message) 0;
        (if name = Null then send_coap_ack message False st
         else do {
           st \<leftarrow> send_coap_ack message True st;
           c_assert (coap_listener st);
           coap_handle_type message
             (coap_emit (CoapPublication (coap_payload message) name q) st)
         })
      } else coap_handle_type message st)"

definition process_coap_rx :: "byte list \<Rightarrow> int \<Rightarrow> coap_state \<Rightarrow> coap_state option" where
  "process_coap_rx data len st = do {
     message \<leftarrow> coap_decode data len;
     (case message of Ref m \<Rightarrow> coap_handle_message m st | _ \<Rightarrow> Some st)
   }"

subsection \<open>The client as a transition system\<close>

inductive coap_step :: "coap_state \<Rightarrow> coap_state \<Rightarrow> bool" where
  init: "init_coap_client acc connected st = (st', r) \<Longrightarrow> coap_step st st'"
| connect: "coap_connect ok st = Some st' \<Longrightarrow> coap_step st st'"
| subscribe: "send_coap_subscribe name q st = Some st' \<Longrightarrow> coap_step st st'"
| unsubscribe: "send_coap_unsubscribe name st = Some st' \<Longrightarrow> coap_step st st'"
| publish: "send_coap_message content name q st = Some st' \<Longrightarrow> coap_step st st'"
| disconnect: "send_coap_disconnect st = Some st' \<Longrightarrow> coap_step st st'"
| data: "process_coap_rx buf len st = Some st' \<Longrightarrow> coap_step st st'"
| ping: "coap_pinger st = Running \<Longrightarrow> coap_ping_round st = Some st' \<Longrightarrow> coap_step st st'"
| resend: "coap_messager st = Running \<Longrightarrow> coap_resend_round st = Some st' \<Longrightarrow> coap_step st st'"

inductive coap_reachable :: "coap_state \<Rightarrow> bool" where
  start: "coap_reachable coap_init"
| step: "coap_reachable st \<Longrightarrow> coap_step st st' \<Longrightarrow> coap_reachable st'"

inductive_cases coap_stepE: "coap_step st st'"

subsection \<open>Its invariant\<close>

text \<open>Messages are kept under their id, and none of them still has its token.\<close>

definition coap_keyed :: "CoapMessage map_base \<Rightarrow> bool" where
  "coap_keyed mm \<longleftrightarrow> (\<forall>i m. id_abs mm i = Some m \<longrightarrow> coap_message_id m = i \<and> coap_token m = Wild)"

definition coap_inv :: "coap_state \<Rightarrow> bool" where
  "coap_inv st \<longleftrightarrow> id_table (coap_map st) \<and> coap_keyed (coap_map st) \<and>
     coap_messager st = NotStarted \<and> \<not> coap_exited st \<and> 0 \<le> coap_packet_number st"

lemma coap_invD:
  assumes "coap_inv st"
  shows "id_table (coap_map st)" "coap_keyed (coap_map st)" "coap_messager st = NotStarted"
    "\<not> coap_exited st" "0 \<le> coap_packet_number st"
  using assms by (simp_all add: coap_inv_def)

lemma coap_emit_simps [simp]:
  "coap_map (coap_emit e st) = coap_map st"
  "coap_account (coap_emit e st) = coap_account st"
  "coap_listener (coap_emit e st) = coap_listener st"
  "coap_packet_number (coap_emit e st) = coap_packet_number st"
  "coap_messager (coap_emit e st) = coap_messager st"
  "coap_events (coap_emit e st) = coap_events st @ [e]"
  "coap_client_delay (coap_emit e st) = coap_client_delay st"
  by (simp_all add: coap_emit_def)

lemma coap_inv_frame [simp]:
  "coap_inv (coap_emit e st) = coap_inv st"
  "coap_inv (st\<lparr>coap_account := a\<rparr>) = coap_inv st"
  "coap_inv (st\<lparr>coap_listener := b\<rparr>) = coap_inv st"
  "coap_inv (st\<lparr>coap_client_delay := d\<rparr>) = coap_inv st"
  "coap_inv (st\<lparr>coap_timer_delay := d'\<rparr>) = coap_inv st"
  "coap_inv (st\<lparr>coap_pinger := t\<rparr>) = coap_inv st"
  by (simp_all add: coap_inv_def coap_emit_def)

lemma coap_fire_inv:
  "coap_encode_and_fire m st = Some st' \<Longrightarrow> coap_inv st \<Longrightarrow> coap_inv st'"
  by (auto simp: coap_encode_and_fire_def bind_Some_iff)

lemma coap_next_ok:
  "coap_next_packet_id st = Some (n, st') \<Longrightarrow>
   n = coap_packet_number st + 1 \<and> st' = st\<lparr>coap_packet_number := n\<rparr> \<and> (coap_inv st \<longrightarrow> coap_inv st')"
  by (auto simp: coap_next_packet_id_def int_inc_def bind_Some_iff coap_inv_def)

lemma coap_disconnect_stuck: "coap_messager st = NotStarted \<Longrightarrow> send_coap_disconnect st = None"
  by (auto simp: send_coap_disconnect_def coap_stop_all_timers_def coap_stop_ping_timer_def
      coap_stop_message_timer_def pthread_cancel_def bind_eq_None_conv)

lemma after_return_simps [simp]:
  "coap_message_id (after_return L b m) = coap_message_id m" "coap_token (after_return L b m) = Wild"
  by (simp_all add: after_return_def)

lemma coap_add_message_ok:
  assumes "coap_inv st" "coap_token m = Wild"
  obtains m' where "coap_add_message_in_map m st = Some (st\<lparr>coap_map := m'\<rparr>)"
    "coap_inv (st\<lparr>coap_map := m'\<rparr>)"
    "id_abs m' = (id_abs (coap_map st))(coap_message_id m \<mapsto> m)"
proof -
  from ids.putE [OF coap_invD(1) [OF assms(1)], of "coap_message_id m" m] obtain m' where
    m': "id_set (coap_map st) (coap_message_id m) m = Some (m', 0)" "id_table m'"
    "id_abs m' = (id_abs (coap_map st))(coap_message_id m \<mapsto> m)" .
  moreover have "coap_keyed m'"
    using coap_invD(2) [OF assms(1)] m'(3) assms(2) by (simp add: coap_keyed_def)
  ultimately show thesis
    using that [of m'] assms by (simp add: coap_add_message_in_map_def coap_inv_def)
qed

lemma coap_add_message_inv:
  "coap_add_message_in_map (after_return L b m) st = Some st' \<Longrightarrow> coap_inv st \<Longrightarrow> coap_inv st'"
  by (erule coap_add_message_ok [of st "after_return L b m"]) simp_all

lemma coap_remove_message_ok:
  assumes "coap_inv st"
  obtains m' where "coap_remove_message_from_map i st = Some (st\<lparr>coap_map := m'\<rparr>)"
    "coap_inv (st\<lparr>coap_map := m'\<rparr>)" "id_abs m' = (id_abs (coap_map st))(i := None)"
proof -
  from ids.delE [OF coap_invD(1) [OF assms], of i] obtain m' where
    m': "id_remove (coap_map st) i = Some m'" "id_table m'"
    "id_abs m' = (id_abs (coap_map st))(i := None)" .
  moreover have "coap_keyed m'"
    using coap_invD(2) [OF assms] m'(3) by (simp add: coap_keyed_def)
  ultimately show thesis
    using that [of m'] assms by (simp add: coap_remove_message_from_map_def coap_inv_def)
qed

lemma coap_remove_message_inv:
  "coap_remove_message_from_map i st = Some st' \<Longrightarrow> coap_inv st \<Longrightarrow> coap_inv st'"
  by (erule coap_remove_message_ok [of st i]) simp

lemma coap_get_message_ok:
  assumes "coap_inv st"
  shows "coap_get_message_from_map i st = Some (ptr_of (id_abs (coap_map st) i))"
proof -
  have t: "id_table (coap_map st)" by (rule coap_invD [OF assms])
  then have "coap_get_message_from_map i st = id_get (coap_map st) i"
    by (simp add: coap_get_message_from_map_def id_get_def map_scan_get id_table_def)
  then show ?thesis using ids.get_abs [OF t] by simp
qed

lemmas coap_invs = coap_fire_inv coap_add_message_inv coap_remove_message_inv

lemma coap_connect_inv:
  assumes "coap_connect ok st = Some st'" "coap_inv st"
  shows "coap_inv st'"
  using assms coap_disconnect_stuck
  by (auto simp: coap_connect_def start_coap_ping_timer_def coap_thread_failed_def Let_def
      bind_Some_iff coap_inv_def coap_emit_def split: if_splits)

lemma send_coap_subscribe_inv: "send_coap_subscribe name q st = Some st' \<Longrightarrow> coap_inv st \<Longrightarrow> coap_inv st'"
  by (auto simp: send_coap_subscribe_def bind_Some_iff Let_def dest!: coap_next_ok dest: coap_invs)

lemma send_coap_unsubscribe_inv: "send_coap_unsubscribe name st = Some st' \<Longrightarrow> coap_inv st \<Longrightarrow> coap_inv st'"
  by (auto simp: send_coap_unsubscribe_def bind_Some_iff Let_def dest!: coap_next_ok dest: coap_invs)

lemma send_coap_message_inv: "send_coap_message content name q st = Some st' \<Longrightarrow> coap_inv st \<Longrightarrow> coap_inv st'"
  by (auto simp: send_coap_message_def bind_Some_iff Let_def dest!: coap_next_ok dest: coap_invs)

lemma send_coap_ack_inv: "send_coap_ack m b st = Some st' \<Longrightarrow> coap_inv st \<Longrightarrow> coap_inv st'"
  by (auto simp: send_coap_ack_def bind_Some_iff dest: coap_invs)

lemma coap_handle_ack_inv: "coap_handle_ack m st = Some st' \<Longrightarrow> coap_inv st \<Longrightarrow> coap_inv st'"
  by (auto simp: coap_handle_ack_def coap_handle_observe_def bind_Some_iff split: if_splits
      dest: coap_invs)

lemma coap_handle_type_inv: "coap_handle_type m st = Some st' \<Longrightarrow> coap_inv st \<Longrightarrow> coap_inv st'"
  by (auto simp: coap_handle_type_def split: CoapType.splits
      dest: send_coap_ack_inv coap_remove_message_inv coap_handle_ack_inv)

lemma coap_handle_message_inv:
  assumes "coap_handle_message m st = Some st'" "coap_inv st"
  shows "coap_inv st'"
proof (cases "coap_code m \<in> {POST, PUT} \<and> coap_type m \<noteq> ACKNOWLEDGEMENT")
  case True
  with assms(1) obtain name q where "coap_scan_topic (coap_options m) 0 = Some (name, q)"
    and "(if name = Null then send_coap_ack m False st
         else do {
           st \<leftarrow> send_coap_ack m True st;
           c_assert (coap_listener st);
           coap_handle_type m (coap_emit (CoapPublication (coap_payload m) name q) st)
         }) = Some st'"
    by (auto simp: coap_handle_message_def bind_Some_iff)
  then show ?thesis
    using assms(2) send_coap_ack_inv coap_handle_type_inv
    by (fastforce simp: bind_Some_iff split: if_splits)
next
  case False
  then have "coap_handle_type m st = Some st'" using assms(1) unfolding coap_handle_message_def by (simp only: if_False)
  then show ?thesis by (rule coap_handle_type_inv) (rule assms)
qed

lemma coap_fire_all_inv: "coap_fire_all es st = Some st' \<Longrightarrow> coap_inv st \<Longrightarrow> coap_inv st'"
proof (induction es arbitrary: st)
  case (Cons e es)
  then show ?case by (auto simp: bind_Some_iff dest: coap_fire_inv)
qed simp

lemma coap_step_inv:
  assumes "coap_step st st'" "coap_inv st"
  shows "coap_inv st'"
  using assms(1)
proof cases
  case disconnect
  then show ?thesis using coap_disconnect_stuck [OF coap_invD(3) [OF assms(2)]] by simp
next
  case (data buf len)
  then obtain r where "coap_decode buf len = Some r"
    "(case r of Ref m \<Rightarrow> coap_handle_message m st | _ \<Rightarrow> Some st) = Some st'"
    by (auto simp: process_coap_rx_def bind_Some_iff)
  then show ?thesis using assms(2) coap_handle_message_inv by (cases r) auto
next
  case resend
  then show ?thesis using coap_invD(3) [OF assms(2)] by simp
qed (use assms(2) in \<open>auto simp: init_coap_client_def coap_ping_round_def coap_send_ping_def
    bind_Some_iff intro: coap_connect_inv send_coap_subscribe_inv send_coap_unsubscribe_inv
    send_coap_message_inv coap_fire_inv\<close>)

lemma coap_map_init [simp]:
  "id_table (map_init :: CoapMessage map_base)"
  "id_abs (map_init :: CoapMessage map_base) = Map.empty"
  by (rule ids.init_inv ids.init_abs)+

lemma coap_reachable_inv: "coap_reachable st \<Longrightarrow> coap_inv st"
proof (induction rule: coap_reachable.induct)
  case start
  show ?case by (simp add: coap_inv_def coap_init_def coap_keyed_def)
qed (rule coap_step_inv)

subsection \<open>What is sent\<close>

lemma coap_fire_rfc:
  assumes "rfc_head m = Some head" "coap_supported (coap_options m) 0" "coap_payload m = Ref p"
    and "length p < 65536" "length head < 256" "coap_account st = Ref acc"
  shows "coap_encode_and_fire m st =
    Some (coap_emit (CoapSend (acc_is_secure acc \<noteq> 0) (map Some (head @ 0xff # p))) st)"
  using coap_encode_rfc [OF assms(1-4), unfolded put_wstate] assms(5,6)
  by (simp add: coap_encode_and_fire_def wstate_def)

text \<open>The options of the client's messages, and the requests it builds of them.\<close>

definition str_option :: "int \<Rightarrow> cstr \<Rightarrow> CoapOption" where
  "str_option number s = \<lparr>co_number = number, co_length = int (length s), co_value = Ref s\<rparr>"

definition accept_option :: "int \<Rightarrow> CoapOption" where
  "accept_option q = \<lparr>co_number = ACCEPT, co_length = 2, co_value = Ref [0, of_int q]\<rparr>"

definition publish_request :: "int \<Rightarrow> cstr \<Rightarrow> cstr \<Rightarrow> cstr \<Rightarrow> int \<Rightarrow> CoapMessage" where
  "publish_request n cid content topic q = coap_request PUT n (Ref (dec_digits (nat n)))
     [str_option URI_PATH topic, accept_option q, str_option NODE_ID cid] (Ref content)"

definition subscribe_request :: "int \<Rightarrow> cstr \<Rightarrow> cstr \<Rightarrow> int \<Rightarrow> CoapMessage" where
  "subscribe_request n cid topic q = coap_request GET n (Ref (dec_digits (nat n)))
     [observe_option 0, str_option URI_PATH topic, accept_option q, str_option NODE_ID cid] (Ref [])"

definition unsubscribe_request :: "int \<Rightarrow> cstr \<Rightarrow> cstr \<Rightarrow> CoapMessage" where
  "unsubscribe_request n cid topic = coap_request GET n (Ref (dec_digits (nat n)))
     [observe_option 1, str_option URI_PATH topic, str_option NODE_ID cid] (Ref [])"

lemmas request_defs = publish_request_def subscribe_request_def unsubscribe_request_def

lemma string_option_Ref [simp]: "string_option number (Ref s) = Some (str_option number s)"
  by (simp add: string_option_def str_option_def)

lemma qos_option_ok [simp]: "q \<in> {0, 1, 2} \<Longrightarrow> qos_option q = Some (accept_option q)"
  by (simp add: qos_option_def accept_option_def)

lemma coap_memcpy_all [simp]:
  "length bs < 65536 \<Longrightarrow> coap_memcpy (Ref bs) (of_nat (length bs)) = Some bs"
proof -
  assume "length bs < 65536"
  then have u: "unat (of_nat (length bs) :: u16) = length bs" by (simp add: unat_of_nat)
  then have "(of_nat (length bs) :: u16) = 0 \<longleftrightarrow> bs = []" by (metis length_0_conv unat_eq_0)
  with u show ?thesis by (simp add: coap_memcpy_def rd_n_def)
qed

lemma coap_memcpy_bytes [simp]:
  "coap_memcpy (Ref [a, b]) 2 = Some [a, b]" "coap_memcpy (Ref [a, b, c, d]) 4 = Some [a, b, c, d]"
  by (simp_all add: coap_memcpy_def rd_n_def)

lemma rfc_option_length:
  "length (rfc_option previous opt v) =
     1 + length (rfc_extension (co_number opt - previous)) + length (rfc_extension (co_length opt)) + length v"
  by (simp add: rfc_option_def)

lemma rfc_extension_length:
  "length (rfc_extension n) = (if n < 13 then 0 else if n < 269 then 1 else 2)"
  by (simp add: rfc_extension_def)

text \<open>The three requests: what they need of the encoder, and room for their options.\<close>

lemma publish_options:
  assumes "length topic + length cid \<le> 238"
  shows "\<exists>os. rfc_options (coap_options (publish_request n cid content topic q)) 0 = Some os \<and>
    coap_supported (coap_options (publish_request n cid content topic q)) 0 \<and> length os \<le> 247"
  using assms
  by (auto simp: publish_request_def coap_request_def str_option_def accept_option_def
      rfc_option_length rfc_extension_length)

lemma subscribe_options:
  assumes "length topic + length cid \<le> 233"
  shows "\<exists>os. rfc_options (coap_options (subscribe_request n cid topic q)) 0 = Some os \<and>
    coap_supported (coap_options (subscribe_request n cid topic q)) 0 \<and> length os \<le> 247"
  using assms
  by (auto simp: subscribe_request_def coap_request_def str_option_def accept_option_def
      observe_option_def rfc_option_length rfc_extension_length)

lemma unsubscribe_options:
  assumes "length topic + length cid \<le> 236"
  shows "\<exists>os. rfc_options (coap_options (unsubscribe_request n cid topic)) 0 = Some os \<and>
    coap_supported (coap_options (unsubscribe_request n cid topic)) 0 \<and> length os \<le> 247"
  using assms
  by (auto simp: unsubscribe_request_def coap_request_def str_option_def
      observe_option_def rfc_option_length rfc_extension_length)

lemma coap_next_below:
  assumes "coap_inv st" "coap_packet_number st < 9999"
  shows "coap_next_packet_id st =
      Some (coap_packet_number st + 1, st\<lparr>coap_packet_number := coap_packet_number st + 1\<rparr>)"
    and "coap_token_of (coap_packet_number st + 1) =
      Some (Ref (dec_digits (nat (coap_packet_number st + 1))))"
    and "coap_inv (st\<lparr>coap_packet_number := coap_packet_number st + 1\<rparr>)"
proof -
  have "0 \<le> coap_packet_number st" by (rule coap_invD [OF assms(1)])
  moreover from this assms(2) have "nat (coap_packet_number st + 1) < 10000" by linarith
  then have "length (dec_digits (nat (coap_packet_number st + 1))) < 5"
    using dec_digits_short [of "nat (coap_packet_number st + 1)" 3] by simp
  ultimately show "coap_next_packet_id st =
      Some (coap_packet_number st + 1, st\<lparr>coap_packet_number := coap_packet_number st + 1\<rparr>)"
    "coap_token_of (coap_packet_number st + 1) =
      Some (Ref (dec_digits (nat (coap_packet_number st + 1))))"
    "coap_inv (st\<lparr>coap_packet_number := coap_packet_number st + 1\<rparr>)"
    using assms
    by (simp_all add: coap_next_packet_id_def int_inc_def coap_token_of_def coap_inv_def Let_def)
qed

lemma coap_request_sent:
  assumes "coap_inv st" "coap_account st = Ref acc" "coap_packet_number st < 9999"
    and n: "n = coap_packet_number st + 1"
    and m: "\<exists>code \<in> {GET, PUT}. m = coap_request code n (Ref (dec_digits (nat n))) (coap_options m) (Ref p)"
    and os: "\<exists>os. rfc_options (coap_options m) 0 = Some os \<and> coap_supported (coap_options m) 0 \<and> length os \<le> 247"
    and "length p < 65536"
  obtains st' head where
    "do {
       st \<leftarrow> coap_add_message_in_map (after_return L b m) (st\<lparr>coap_packet_number := n\<rparr>);
       coap_encode_and_fire m st
     } = Some st'"
    "coap_inv st'" "rfc_head m = Some head"
    "coap_events st' = coap_events st @ [CoapSend (acc_is_secure acc \<noteq> 0) (map Some (head @ 0xff # p))]"
    "id_abs (coap_map st') = (id_abs (coap_map st))(of_int n \<mapsto> after_return L b m)"
    "coap_packet_number st' = n"
proof -
  let ?token = "dec_digits (nat n)"
  let ?st = "st\<lparr>coap_packet_number := n\<rparr>"
  obtain os where os': "rfc_options (coap_options m) 0 = Some os" "coap_supported (coap_options m) 0"
    "length os \<le> 247"
    using os by blast
  obtain code where code: "code \<in> {GET, PUT}" "m = coap_request code n (Ref ?token) (coap_options m) (Ref p)"
    using m by blast
  then have f: "coap_version m = 1" "coap_code m \<in> {GET, PUT}" "coap_token m = Ref ?token"
    "coap_message_id m = of_int n" "coap_payload m = Ref p"
    by (metis CoapMessage.select_convs coap_request_def)+
  have "nat n < 10000" using n assms(3) coap_invD(5) [OF assms(1)] by linarith
  then have tok: "length ?token \<le> 4" using dec_digits_short [of "nat n" 3] by simp
  have head: "rfc_head m = Some (rfc_header m ?token @ os)"
    using f os'(1) tok by (auto simp: rfc_head_def)
  have len: "length (rfc_header m ?token @ os) < 256"
    using tok os'(3) by (simp add: rfc_header_def)
  have "coap_inv ?st" using coap_next_below(3) [OF assms(1,3)] n by simp
  from coap_add_message_ok [OF this, of "after_return L b m"] obtain m' where
    add: "coap_add_message_in_map (after_return L b m) ?st = Some (?st\<lparr>coap_map := m'\<rparr>)"
    "coap_inv (?st\<lparr>coap_map := m'\<rparr>)"
    "id_abs m' = (id_abs (coap_map ?st))(coap_message_id m \<mapsto> after_return L b m)" by auto
  from coap_fire_rfc [OF head os'(2) f(5) assms(7) len, of "?st\<lparr>coap_map := m'\<rparr>"] show thesis
    using that [OF _ _ head] add assms(2) f(4) by (simp add: after_return_def)
qed

text \<open>
  Publishing takes the next packet number, sends the request for the topic as RFC 7252 has it (with
  the payload marker in front of an empty content too) and keeps the message under the number, but
  with a token that points into the frame of the function that returned; all other messages stay.
\<close>

theorem coap_publish_sent:
  assumes "coap_inv st" "coap_account st = Ref acc" "acc_client_id acc = Ref cid"
    and "coap_packet_number st < 9999" "q \<in> {0, 1, 2}" "length topic + length cid \<le> 238"
    and "length content < 65536"
  defines "n \<equiv> coap_packet_number st + 1"
  shows "\<exists>st' head. send_coap_message (Ref content) (Ref topic) q st = Some st' \<and> coap_inv st' \<and>
    rfc_head (publish_request n cid content topic q) = Some head \<and>
    coap_events st' = coap_events st @
      [CoapSend (acc_is_secure acc \<noteq> 0) (map Some (head @ 0xff # content))] \<and>
    coap_packet_number st' = n \<and>
    id_abs (coap_map st') = (id_abs (coap_map st))
      (of_int n \<mapsto> (publish_request n cid content topic q)\<lparr>coap_token := Wild\<rparr>)"
proof -
  let ?m = "publish_request n cid content topic q"
  have m: "\<exists>code \<in> {GET, PUT}. ?m = coap_request code n (Ref (dec_digits (nat n))) (coap_options ?m) (Ref content)"
    by (simp add: publish_request_def coap_request_def)
  have r: "after_return {} False ?m = ?m\<lparr>coap_token := Wild\<rparr>"
    by (simp add: after_return_def)
  obtain st' head where "do {
      st \<leftarrow> coap_add_message_in_map (after_return {} False ?m) (st\<lparr>coap_packet_number := n\<rparr>);
      coap_encode_and_fire ?m st } = Some st'" "coap_inv st'" "rfc_head ?m = Some head"
    "coap_events st' = coap_events st @ [CoapSend (acc_is_secure acc \<noteq> 0) (map Some (head @ 0xff # content))]"
    "id_abs (coap_map st') = (id_abs (coap_map st))(of_int n \<mapsto> after_return {} False ?m)"
    "coap_packet_number st' = n"
    by (rule coap_request_sent [OF assms(1,2,4) _ m publish_options [OF assms(6)] assms(7)])
      (simp add: n_def)
  then show ?thesis
    using assms(2,3,5) coap_next_below(1,2) [OF assms(1,4), folded n_def] r
    by (simp add: Let_def send_coap_message_def publish_request_def)
qed

definition sample_client :: coap_state where
  "sample_client = fst (init_coap_client sample_account 0 coap_init)"

lemma sample_client_simps:
  "coap_inv sample_client" "coap_account sample_client = Ref sample_account"
  "acc_client_id sample_account = Ref [0x63]" "coap_packet_number sample_client = 0"
  "coap_listener sample_client" "coap_events sample_client = []"
  "id_abs (coap_map sample_client) = Map.empty" "acc_is_secure sample_account = 0"
  by (simp_all add: sample_client_def init_coap_client_def coap_inv_def coap_init_def coap_keyed_def
      sample_account_def)

lemma publish_sample_head:
  "rfc_head (publish_request 1 [0x63] [0x68] [0x61] 1) =
    Some [0x41, 3, 0, 1, 0x31, 0xb1, 0x61, 0x62, 0, 1, 0xe1, 0x06, 0xe4, 0x63]"
  by (simp add: publish_request_def coap_request_def rfc_head_def rfc_header_def rfc_option_def
      rfc_nibble_def rfc_extension_def str_option_def accept_option_def dec_digits.simps
      short_bytes_def coap_memcpy_def rd_n_def)

theorem coap_publish_sent_witness:
  "\<exists>st'. send_coap_message (Ref [0x68]) (Ref [0x61]) 1 sample_client = Some st' \<and>
    coap_events st' = [CoapSend False (map Some
      [0x41, 3, 0, 1, 0x31, 0xb1, 0x61, 0x62, 0, 1, 0xe1, 0x06, 0xe4, 0x63, 0xff, 0x68])]"
  using coap_publish_sent [OF sample_client_simps(1-3), of 1 "[0x61]" "[0x68]"] publish_sample_head
  by (auto simp: sample_client_simps)

text \<open>
  Subscribing and unsubscribing send their GET requests with the observe option 0 or 1 in the same
  way. The kept message has lost, with its token and its payload, the values of the options that
  were in the frame of the function.
\<close>

theorem coap_subscribe_sent:
  assumes "coap_inv st" "coap_account st = Ref acc" "acc_client_id acc = Ref cid"
    and "coap_packet_number st < 9999" "q \<in> {0, 1, 2}" "length topic + length cid \<le> 233"
  defines "n \<equiv> coap_packet_number st + 1"
  shows "(\<exists>st' head. send_coap_subscribe (Ref topic) q st = Some st' \<and> coap_inv st' \<and>
      rfc_message (subscribe_request n cid topic q) = Some head \<and>
      coap_events st' = coap_events st @
        [CoapSend (acc_is_secure acc \<noteq> 0) (map Some (head @ [0xff]))] \<and>
      coap_packet_number st' = n \<and>
      id_abs (coap_map st') = (id_abs (coap_map st))
        (of_int n \<mapsto> after_return {OBSERVE, ACCEPT} True (subscribe_request n cid topic q))) \<and>
    (\<exists>st' head. send_coap_unsubscribe (Ref topic) st = Some st' \<and> coap_inv st' \<and>
      rfc_message (unsubscribe_request n cid topic) = Some head \<and>
      coap_events st' = coap_events st @
        [CoapSend (acc_is_secure acc \<noteq> 0) (map Some (head @ [0xff]))] \<and>
      coap_packet_number st' = n \<and>
      id_abs (coap_map st') = (id_abs (coap_map st))
        (of_int n \<mapsto> after_return {OBSERVE} True (unsubscribe_request n cid topic)))"
    (is "?sub \<and> ?unsub")
proof -
  note nxt = coap_next_below(1,2) [OF assms(1,4), folded n_def]
  let ?s = "subscribe_request n cid topic q" and ?u = "unsubscribe_request n cid topic"
  have m: "\<exists>code \<in> {GET, PUT}. ?s = coap_request code n (Ref (dec_digits (nat n))) (coap_options ?s) (Ref [])"
    "\<exists>code \<in> {GET, PUT}. ?u = coap_request code n (Ref (dec_digits (nat n))) (coap_options ?u) (Ref [])"
    by (simp_all add: subscribe_request_def unsubscribe_request_def coap_request_def)
  have payload: "coap_payload ?s = Ref []" "coap_payload ?u = Ref []"
    by (simp_all add: request_defs coap_request_def)
  have fit: "length topic + length cid \<le> 236" using assms(6) by simp
  have n: "n = coap_packet_number st + 1" by (simp add: n_def)
  note sent = coap_request_sent [OF assms(1,2,4) n, where p = "[]"]
  have ?sub
    by (rule sent [OF m(1) subscribe_options [OF assms(6)], where L = "{OBSERVE, ACCEPT}" and b = True])
      (use assms(2,3,5) nxt payload in
        \<open>simp_all add: Let_def send_coap_subscribe_def subscribe_request_def rfc_message_def\<close>)
  moreover have ?unsub
    by (rule sent [OF m(2) unsubscribe_options [OF fit], where L = "{OBSERVE}" and b = True])
      (use assms(2,3) nxt payload in
        \<open>simp_all add: Let_def send_coap_unsubscribe_def unsubscribe_request_def rfc_message_def\<close>)
  ultimately show ?thesis by blast
qed

theorem coap_subscribe_sent_witness:
  "\<exists>st'. send_coap_unsubscribe (Ref [0x61]) sample_client = Some st' \<and> coap_packet_number st' = 1 \<and>
    dom (id_abs (coap_map st')) = {1}"
  using coap_subscribe_sent [OF sample_client_simps(1-3), of 0 "[0x61]"]
  by (auto simp: sample_client_simps)

text \<open>
  C40: the token is printed into five bytes. From packet number 9999 on, every request and so every
  publication, subscription and its end overflows them.
\<close>

theorem coap_token_overflow:
  assumes "9999 \<le> coap_packet_number st"
  shows "send_coap_message content topic q st = None \<and> send_coap_subscribe topic q st = None \<and>
    send_coap_unsubscribe topic st = None"
proof -
  have "\<not> nat (coap_packet_number st + 1) < 10000" using assms by linarith
  then have "\<not> length (dec_digits (nat (coap_packet_number st + 1))) < 5"
    using dec_digits_short [of "nat (coap_packet_number st + 1)" 3] by simp
  then have "coap_token_of (coap_packet_number st + 1) = None"
    by (simp add: coap_token_of_def Let_def)
  then have "Option.bind (coap_next_packet_id st) (\<lambda>(n, st). Option.bind (coap_token_of n) (f n st)) = None"
    for f :: "int \<Rightarrow> coap_state \<Rightarrow> cstr ptr \<Rightarrow> coap_state option"
    by (auto simp: coap_next_packet_id_def int_inc_def bind_eq_None_conv)
  then show ?thesis
    by (simp add: send_coap_message_def send_coap_subscribe_def send_coap_unsubscribe_def)
qed

theorem coap_token_overflow_witness:
  "send_coap_message (Ref [0x68]) (Ref [0x61]) 1 (sample_client\<lparr>coap_packet_number := 9999\<rparr>) = None"
  using coap_token_overflow [of "sample_client\<lparr>coap_packet_number := 9999\<rparr>"] by simp

subsection \<open>What is answered\<close>

lemma coap_decode_token:
  assumes "coap_decode buf n = Some (Ref m)" "coap_token m = Ref token"
  shows "length token \<le> 8"
proof -
  from assms(1) obtain fb where fb: "rd buf 0 = Some fb" "drop_bit 6 fb = 1" "\<not> 8 < uint (fb AND 0xf)"
    by (auto simp: coap_decode_def bind_Some_iff Let_def split: if_splits)
  have "\<exists>bs. rd_n buf 4 (uint (fb AND 0xf)) = Some bs \<and> token = cstr_of bs"
    using assms fb
    by (cases "0 < uint (fb AND 0xf)") (auto simp: coap_decode_def Let_def bind_Some_iff)
  then obtain bs where bs: "rd_n buf 4 (uint (fb AND 0xf)) = Some bs" "token = cstr_of bs" by blast
  have "length bs \<le> 8" using rd_n_length [OF bs(1)] fb(3) by linarith
  then show ?thesis
    using length_takeWhile_le [of "\<lambda>c. c \<noteq> 0" bs] bs(2) by (simp add: cstr_of_def)
qed

lemma text_plain_simps [simp]:
  "length text_plain = 10" "coap_memcpy (Ref text_plain) 10 = Some text_plain"
  by (simp_all add: text_plain_def coap_memcpy_def rd_n_def)

lemma coap_ack_sent:
  assumes "acc_client_id acc = Ref cid" "length cid \<le> 228"
    and "coap_token m = Ref token" "length token \<le> 8" "coap_version m = 1"
    and "0 \<le> coap_code m" "coap_code m < 800" "coap_code m mod 100 < 32"
  obtains head where "rfc_message (coap_ack m ok (str_option NODE_ID cid)) = Some head"
    "\<And>st. coap_account st = Ref acc \<Longrightarrow> send_coap_ack m ok st =
      Some (coap_emit (CoapSend (acc_is_secure acc \<noteq> 0) (map Some (head @ [0xff]))) st)"
proof -
  let ?a = "coap_ack m ok (str_option NODE_ID cid)"
  obtain os where os: "rfc_options (coap_options ?a) 0 = Some os" "coap_supported (coap_options ?a) 0"
    "length os \<le> 243"
    using assms(2)
    by (cases ok) (auto simp: coap_ack_def str_option_def rfc_option_length rfc_extension_length)
  have f: "coap_token ?a = Ref token" "coap_version ?a = 1" "0 \<le> coap_code ?a" "coap_code ?a < 800"
    "coap_code ?a mod 100 < 32" "coap_payload ?a = Ref []"
    using assms(3-8) by (simp_all add: coap_ack_def)
  have head: "rfc_head ?a = Some (rfc_header ?a token @ os)"
    using f os(1) assms(4) by (simp add: rfc_head_def)
  have len: "length (rfc_header ?a token @ os) < 256"
    using assms(4) os(3) by (simp add: rfc_header_def)
  show thesis
    using that [of "rfc_header ?a token @ os"] coap_fire_rfc [OF head os(2) f(6) _ len] head f(6)
      assms(1) by (simp add: send_coap_ack_def rfc_message_def)
qed


lemma sample_request_decoded:
  "coap_decode [0x41, 3, 0, 7, 0x37, 0xb1, 0x61, 0xff, 0x31, 0] 9 = Some (Ref ((sample_coap [0x31])
     \<lparr>coap_token_length := Some 1\<rparr>))"
  "coap_decode [0x41, 3, 0, 7, 0x37, 0xff, 0x31, 0] 7 = Some (Ref ((sample_coap [0x31])
     \<lparr>coap_token_length := Some 1, coap_options := []\<rparr>))"
  by (simp_all add: sample_coap_def coap_decode_def coap_options_loop.simps coap_option_def
      coap_read_delta_def coap_read_length_def rd_def rd_n_def get_short_def coap_type_of_def cstr_of_def)

lemma sample_ack_bytes:
  "rfc_message (coap_ack ((sample_coap [0x31])\<lparr>coap_token_length := Some 1\<rparr>) True (str_option NODE_ID [0x63])) =
    Some [0x61, 3, 0, 7, 0x37, 0xe1, 0x06, 0xf5, 0x63]"
  by (simp add: coap_ack_def sample_coap_def rfc_message_def rfc_head_def rfc_header_def rfc_option_def
      rfc_nibble_def rfc_extension_def str_option_def short_bytes_def coap_memcpy_def rd_n_def)


text \<open>
  A confirmable message without a token, the ping of the protocol among them, makes the client
  take the length of a token that was never set.
\<close>

theorem coap_tokenless_undefined:
  assumes "coap_decode buf n = Some (Ref m)" and "coap_type m = CONFIRMABLE"
    and "coap_token_length m = Some 0"
  shows "process_coap_rx buf n st = None"
proof -
  have "coap_token m = Wild" using coap_decode_parts_ok [OF assms(1)] assms(3) by auto
  then have "coap_encode (coap_ack m ok node) = None" for ok node
    by (simp add: coap_encode_def coap_ack_def)
  then have none: "send_coap_ack m ok s = None" for ok s
    by (simp add: send_coap_ack_def coap_encode_and_fire_def bind_eq_None_conv)
  then show ?thesis
    using assms(1,2)
    by (cases "coap_scan_topic (coap_options m) 0")
      (auto simp: process_coap_rx_def coap_handle_message_def coap_handle_type_def)
qed

theorem coap_tokenless_undefined_witness:
  "process_coap_rx [0x40, 0, 0, 7] 4 sample_client = None"
  by (rule coap_tokenless_undefined [where m = "\<lparr>coap_version = 1, coap_type = CONFIRMABLE,
      coap_code = 0, coap_message_id = 7, coap_token = Wild, coap_token_length = Some 0,
      coap_options = [], coap_payload = Wild\<rparr>"])
    (simp_all add: coap_decode_def coap_options_loop.simps rd_def get_short_def coap_type_of_def)

text \<open>
  C32: an acknowledgement of a request that is not a GET ends it: the message kept under its id is
  removed, a message under any other id stays, and nothing is sent. The id 0, of the client's own pings,
  and an unknown id change nothing.
\<close>

theorem coap_ack_completes:
  assumes "coap_inv st" and "coap_decode buf n = Some (Ref m)" and "coap_type m = ACKNOWLEDGEMENT"
    and "coap_code m \<noteq> GET"
  shows "\<exists>st'. process_coap_rx buf n st = Some st' \<and> coap_inv st' \<and>
    coap_events st' = coap_events st \<and>
    id_abs (coap_map st') = (if coap_message_id m = 0 then id_abs (coap_map st)
      else (id_abs (coap_map st))(coap_message_id m := None))"
proof -
  let ?i = "coap_message_id m"
  have run: "process_coap_rx buf n st =
      (if ?i = 0 \<or> id_abs (coap_map st) ?i = None then Some st else coap_remove_message_from_map ?i st)"
    using assms(2-4) coap_get_message_ok [OF assms(1), of ?i]
    by (auto simp: process_coap_rx_def coap_handle_message_def coap_handle_type_def coap_handle_ack_def
        ptr_of_def split: option.splits)
  show ?thesis
  proof (cases "?i = 0 \<or> id_abs (coap_map st) ?i = None")
    case True
    then show ?thesis using run assms(1) by (auto simp: fun_upd_idem)
  next
    case False
    obtain m' where "coap_remove_message_from_map ?i st = Some (st\<lparr>coap_map := m'\<rparr>)"
      "coap_inv (st\<lparr>coap_map := m'\<rparr>)" "id_abs m' = (id_abs (coap_map st))(?i := None)"
      by (rule coap_remove_message_ok [OF assms(1)])
    then show ?thesis using run False by simp
  qed
qed

lemma sample_ack_decoded:
  "coap_decode [0x61, 0x44, 0, 1, 0x31, 0xff, 0] 6 = Some (Ref \<lparr>coap_version = 1,
     coap_type = ACKNOWLEDGEMENT, coap_code = 204, coap_message_id = 1, coap_token = Ref [0x31],
     coap_token_length = Some 1, coap_options = [], coap_payload = Wild\<rparr>)"
  by (simp add: coap_decode_def coap_options_loop.simps rd_def rd_n_def get_short_def
      coap_type_of_def cstr_of_def)

theorem coap_ack_completes_witness:
  "\<exists>st st'. id_abs (coap_map st) 1 = Some ((publish_request 1 [0x63] [0x68] [0x61] 1)\<lparr>coap_token := Wild\<rparr>) \<and>
    process_coap_rx [0x61, 0x44, 0, 1, 0x31, 0xff, 0] 6 st = Some st' \<and> id_abs (coap_map st') 1 = None"
proof -
  let ?m = "(publish_request 1 [0x63] [0x68] [0x61] 1)\<lparr>coap_token := Wild\<rparr>"
  obtain m' where m': "coap_inv (sample_client\<lparr>coap_map := m'\<rparr>)"
    "id_abs m' = (id_abs (coap_map sample_client))(coap_message_id ?m \<mapsto> ?m)"
    by (rule coap_add_message_ok [OF sample_client_simps(1), of ?m]) simp
  moreover have "coap_message_id ?m = 1" by (simp add: publish_request_def coap_request_def)
  ultimately have st: "coap_inv (sample_client\<lparr>coap_map := m'\<rparr>)" "id_abs m' 1 = Some ?m" by simp_all
  from coap_ack_completes [OF st(1) sample_ack_decoded] obtain st' where
    "process_coap_rx [0x61, 0x44, 0, 1, 0x31, 0xff, 0] 6 (sample_client\<lparr>coap_map := m'\<rparr>) = Some st'"
    "id_abs (coap_map st') 1 = None" by auto
  with st(2) show ?thesis
    by (intro exI [of _ "sample_client\<lparr>coap_map := m'\<rparr>", OF exI [of _ st']]) simp
qed

text \<open>
  C19: in every state the client can reach, the table of messages is intact, each message is kept under
  its id and found by the scan, and none still has its token. The thread that would send them again was
  never started, so none ever is, and neither can the client disconnect: it cancels that thread.
\<close>

theorem coap_table_invariant:
  assumes "coap_reachable st"
  shows "id_table (coap_map st) \<and>
    coap_get_message_from_map i st = Some (ptr_of (id_abs (coap_map st) i)) \<and>
    (id_abs (coap_map st) i = Some m \<longrightarrow> coap_message_id m = i \<and> coap_token m = Wild) \<and>
    coap_messager st = NotStarted \<and> send_coap_disconnect st = None"
  using coap_reachable_inv [OF assms] coap_get_message_ok [of st i] coap_disconnect_stuck [of st]
  by (simp add: coap_inv_def coap_keyed_def)

theorem coap_table_invariant_witness:
  "coap_get_message_from_map 1 sample_client = Some (ptr_of (id_abs (coap_map sample_client) 1)) \<and>
   send_coap_disconnect sample_client = None"
proof -
  have "coap_reachable sample_client"
    by (rule coap_reachable.step [OF coap_reachable.start coap_step.init])
      (simp add: sample_client_def prod_eq_iff)
  from coap_table_invariant [OF this] show ?thesis by blast
qed

end
