(* ===== verification/AmqpTlv.thy ===== *)
theory AmqpTlv
  imports Helpers
begin

text \<open>
  src/src/amqp/tlv_factory.c and src/src/amqp/wrappers/unwrapper.c: reading the typed values of AMQP 1.0
  from a frame, and the values of C they are turned into. \<open>amqp_bytes\<close> is the encoding of the
  protocol, the specification the reader is compared with.
\<close>

subsection \<open>Types and structs\<close>

text \<open>The enum AmqpType; its INT and CHAR are words of HOL's syntax and get a prefix.\<close>

abbreviation (input) AMQP_NULL :: byte where "AMQP_NULL \<equiv> 0x40"
abbreviation (input) BOOLEAN :: byte where "BOOLEAN \<equiv> 0x56"
abbreviation (input) BOOLEAN_TRUE :: byte where "BOOLEAN_TRUE \<equiv> 0x41"
abbreviation (input) BOOLEAN_FALSE :: byte where "BOOLEAN_FALSE \<equiv> 0x42"
abbreviation (input) UBYTE :: byte where "UBYTE \<equiv> 0x50"
abbreviation (input) USHORT :: byte where "USHORT \<equiv> 0x60"
abbreviation (input) UINT :: byte where "UINT \<equiv> 0x70"
abbreviation (input) SMALL_UINT :: byte where "SMALL_UINT \<equiv> 0x52"
abbreviation (input) UINT_0 :: byte where "UINT_0 \<equiv> 0x43"
abbreviation (input) ULONG :: byte where "ULONG \<equiv> 0x80"
abbreviation (input) SMALL_ULONG :: byte where "SMALL_ULONG \<equiv> 0x53"
abbreviation (input) ULONG_0 :: byte where "ULONG_0 \<equiv> 0x44"
abbreviation (input) BYTE :: byte where "BYTE \<equiv> 0x51"
abbreviation (input) AMQP_SHORT :: byte where "AMQP_SHORT \<equiv> 0x61"
abbreviation (input) AMQP_INT :: byte where "AMQP_INT \<equiv> 0x71"
abbreviation (input) SMALL_INT :: byte where "SMALL_INT \<equiv> 0x54"
abbreviation (input) LONG :: byte where "LONG \<equiv> 0x81"
abbreviation (input) SMALL_LONG :: byte where "SMALL_LONG \<equiv> 0x55"
abbreviation (input) FLOAT :: byte where "FLOAT \<equiv> 0x72"
abbreviation (input) DOUBLE :: byte where "DOUBLE \<equiv> 0x82"
abbreviation (input) DECIMAL_32 :: byte where "DECIMAL_32 \<equiv> 0x74"
abbreviation (input) DECIMAL_64 :: byte where "DECIMAL_64 \<equiv> 0x84"
abbreviation (input) DECIMAL_128 :: byte where "DECIMAL_128 \<equiv> 0x94"
abbreviation (input) AMQP_CHAR :: byte where "AMQP_CHAR \<equiv> 0x73"
abbreviation (input) TIMESTAMP :: byte where "TIMESTAMP \<equiv> 0x83"
abbreviation (input) UUID :: byte where "UUID \<equiv> 0x98"
abbreviation (input) BINARY_8 :: byte where "BINARY_8 \<equiv> 0xA0"
abbreviation (input) BINARY_32 :: byte where "BINARY_32 \<equiv> 0xB0"
abbreviation (input) STRING_8 :: byte where "STRING_8 \<equiv> 0xA1"
abbreviation (input) STRING_32 :: byte where "STRING_32 \<equiv> 0xB1"
abbreviation (input) SYMBOL_8 :: byte where "SYMBOL_8 \<equiv> 0xA3"
abbreviation (input) SYMBOL_32 :: byte where "SYMBOL_32 \<equiv> 0xB3"
abbreviation (input) LIST_0 :: byte where "LIST_0 \<equiv> 0x45"
abbreviation (input) LIST_8 :: byte where "LIST_8 \<equiv> 0xC0"
abbreviation (input) LIST_32 :: byte where "LIST_32 \<equiv> 0xD0"
abbreviation (input) MAP_8 :: byte where "MAP_8 \<equiv> 0xC1"
abbreviation (input) MAP_32 :: byte where "MAP_32 \<equiv> 0xD1"
abbreviation (input) ARRAY_8 :: byte where "ARRAY_8 \<equiv> 0xE0"
abbreviation (input) ARRAY_32 :: byte where "ARRAY_32 \<equiv> 0xF0"

text \<open>
  A value as it is read. Fields the reader leaves unset are \<open>Wild\<close> or, for the numbers, \<open>None\<close>; \<open>width\<close>,
  \<open>size\<close> and \<open>count\<close> are pointers to cells of their own.
\<close>

datatype Tlv = Tlv
    (tlv_code: byte) (tlv_constructor: "TlvConstructor ptr") (tlv_value: "byte list ptr")
    (tlv_length: "int option") (tlv_list: "Tlv list ptr") (tlv_map: "(Tlv \<times> Tlv) list ptr")
    (tlv_width: "int option") (tlv_size: "int option") (tlv_count: "int option")
  and TlvConstructor = TlvConstructor (con_code: byte) (con_tlv: "Tlv ptr")

definition tlv_plain :: "byte \<Rightarrow> Tlv" where
  "tlv_plain c = Tlv c Wild Wild None Wild Wild None None None"

definition tlv_fixed :: "byte \<Rightarrow> byte list \<Rightarrow> int option \<Rightarrow> Tlv" where
  "tlv_fixed c v l = Tlv c Wild (Ref v) l Wild Wild None None None"

definition tlv_var :: "byte \<Rightarrow> byte list \<Rightarrow> int option \<Rightarrow> Tlv" where
  "tlv_var c v l = Tlv c Wild (Ref v) l Wild Wild
     (Some (if length v > 255 then 4 else 1)) None None"

definition tlv_items :: "byte \<Rightarrow> Tlv list ptr \<Rightarrow> int \<Rightarrow> int \<Rightarrow> int \<Rightarrow> Tlv" where
  "tlv_items c ts width sz count =
     Tlv c Wild Wild None ts Wild (Some width) (Some sz) (Some count)"

definition tlv_entries :: "byte \<Rightarrow> (Tlv \<times> Tlv) list \<Rightarrow> int \<Rightarrow> int \<Rightarrow> int \<Rightarrow> Tlv" where
  "tlv_entries c es width sz count =
     Tlv c Wild Wild None Wild (Ref es) (Some width) (Some sz) (Some count)"

fun set_constructor :: "TlvConstructor \<Rightarrow> Tlv \<Rightarrow> Tlv" where
  "set_constructor con (Tlv c _ v l ts es w s k) = Tlv c (Ref con) v l ts es w s k"

subsection \<open>Reading\<close>

text \<open>
  A reader takes the buffer and the index \<open>*i\<close> and returns the value and the new index. The loops of the
  compound types are functions of the reader of an item; the entries of a map are written to an array of
  \<open>k\<close> slots until the index \<open>stop\<close> is reached.
\<close>

type_synonym 'a reader = "byte list \<Rightarrow> int \<Rightarrow> ('a \<times> int) option"

definition read_byte :: "int reader" where
  "read_byte buf i = do { b \<leftarrow> rd buf i; Some (uint b, i + 1) }"

definition read_int :: "int reader" where
  "read_int buf i = do { n \<leftarrow> get_int buf i; Some (sint n, i + 4) }"

fun read_items :: "'a reader \<Rightarrow> nat \<Rightarrow> 'a list reader" where
  "read_items f 0 buf i = Some ([], i)"
| "read_items f (Suc k) buf i = do {
     (x, i) \<leftarrow> f buf i;
     (xs, i) \<leftarrow> read_items f k buf i;
     Some (x # xs, i)
   }"

fun read_entries :: "'a reader \<Rightarrow> int \<Rightarrow> nat \<Rightarrow> ('a \<times> 'a) list reader" where
  "read_entries f stop 0 buf i = (if i < stop then None else Some ([], i))"
| "read_entries f stop (Suc k) buf i =
     (if i < stop then do {
        (key, i) \<leftarrow> f buf i;
        (val, i) \<leftarrow> f buf i;
        (es, i) \<leftarrow> read_entries f stop k buf i;
        Some ((key, val) # es, i)
      } else Some ([], i))"

definition get_constructor :: "Tlv reader \<Rightarrow> TlvConstructor reader" where
  "get_constructor f buf i = do {
     code_byte \<leftarrow> rd buf i;
     (if code_byte = 0 then do {
        (descriptor, i) \<leftarrow> f buf (i + 1);
        c \<leftarrow> rd buf i;
        Some (TlvConstructor c (Ref descriptor), i + 1)
      } else Some (TlvConstructor code_byte Wild, i + 1))
   }"

text \<open>
  The switch of \<open>get_element\<close>: its cases with a value of \<open>n\<close> bytes, with a counted value, and the
  compound ones. The length is left unset in most of them, the list of a LIST_32 too.
\<close>

definition get_fixed :: "byte \<Rightarrow> int \<Rightarrow> int option \<Rightarrow> Tlv reader" where
  "get_fixed c n l buf i = do { v \<leftarrow> rd_n buf i n; Some (tlv_fixed c v l, i + n) }"

definition get_list :: "Tlv reader \<Rightarrow> byte \<Rightarrow> Tlv reader" where
  "get_list f c buf i =
     (if c = LIST_8 then do {
        (sz, i) \<leftarrow> read_byte buf i;
        (count, i) \<leftarrow> read_byte buf i;
        (ts, i) \<leftarrow> read_items f (nat count) buf i;
        Some (tlv_items c (Ref ts) 1 sz count, i)
      } else do {
        (sz, i) \<leftarrow> read_int buf i;
        (count, i) \<leftarrow> read_int buf i;
        (ts, i) \<leftarrow> read_items f (nat count) buf i;
        Some (tlv_items c Wild 4 sz count, i)
      })"

definition get_map :: "Tlv reader \<Rightarrow> byte \<Rightarrow> Tlv reader" where
  "get_map f c buf i =
     (if c = MAP_8 then do {
        (sz, i) \<leftarrow> read_byte buf i;
        (count, i) \<leftarrow> read_byte buf i;
        (es, i) \<leftarrow> read_entries f (i + sz - 1) (nat count) buf i;
        Some (tlv_entries c es 1 sz count, i)
      } else do {
        (sz, i) \<leftarrow> read_int buf i;
        (count, i) \<leftarrow> read_int buf i;
        (es, i) \<leftarrow> read_entries f (i + sz - 4) (nat count) buf i;
        Some (tlv_entries c es 4 sz count, i)
      })"

definition get_array ::
    "Tlv reader \<Rightarrow> (TlvConstructor \<Rightarrow> Tlv reader) \<Rightarrow> byte \<Rightarrow> Tlv reader" where
  "get_array f e c buf i = do {
     (sz, i) \<leftarrow> (if c = ARRAY_8 then read_byte buf i else read_int buf i);
     (count, i) \<leftarrow> (if c = ARRAY_8 then read_byte buf i else read_int buf i);
     (con, i) \<leftarrow> get_constructor f buf i;
     (ts, i) \<leftarrow> read_items (e con) (nat count) buf i;
     Some (tlv_items c (Ref ts) 1 sz count, i)
   }"

definition element_case ::
    "Tlv reader \<Rightarrow> (TlvConstructor \<Rightarrow> Tlv reader) \<Rightarrow> byte \<Rightarrow> Tlv reader" where
  "element_case f e c buf i =
     (if c \<in> {BOOLEAN_TRUE, BOOLEAN_FALSE, UINT_0, ULONG_0} then Some (tlv_fixed c [0] (Some 0), i)
      else if c \<in> {BOOLEAN, UBYTE, BYTE, SMALL_UINT, SMALL_INT, SMALL_ULONG, SMALL_LONG}
      then get_fixed c 1 (Some 1) buf i
      else if c \<in> {AMQP_SHORT, USHORT} then get_fixed c 2 None buf i
      else if c \<in> {UINT, AMQP_INT, FLOAT, DECIMAL_32, AMQP_CHAR} then get_fixed c 4 (Some 1) buf i
      else if c \<in> {ULONG, LONG, DECIMAL_64, DOUBLE, TIMESTAMP} then get_fixed c 8 None buf i
      else if c \<in> {DECIMAL_128, UUID} then get_fixed c 16 None buf i
      else if c \<in> {STRING_8, SYMBOL_8, BINARY_8} then do {
        (n, i) \<leftarrow> read_byte buf i;
        v \<leftarrow> rd_n buf i n;
        Some (tlv_var c v (Some n), i + n)
      }
      else if c \<in> {STRING_32, SYMBOL_32, BINARY_32} then do {
        (n, i) \<leftarrow> read_int buf i;
        v \<leftarrow> rd_n buf i n;
        Some (tlv_var c v None, i + n)
      }
      else if c = LIST_0 then Some (tlv_items c Null 0 0 0, i)
      else if c \<in> {LIST_8, LIST_32} then get_list f c buf i
      else if c \<in> {MAP_8, MAP_32} then get_map f c buf i
      else if c \<in> {ARRAY_8, ARRAY_32} then get_array f e c buf i
      else Some (tlv_plain c, i))"

text \<open>
  The mutual recursion of \<open>get_tlv\<close> and \<open>get_element\<close>, with a bound on its depth and an answer \<open>stop\<close> that is given
  where the bound is reached, which the code does not have. Every level consumes a byte, so that twice the bytes left bound
  the depth and \<open>stop\<close> is never looked at: see \<open>get_upto_any\<close> below.
\<close>

fun get_tlv_upto :: "(Tlv \<times> int) option \<Rightarrow> nat \<Rightarrow> Tlv reader" and
    get_element_upto :: "(Tlv \<times> int) option \<Rightarrow> nat \<Rightarrow> TlvConstructor \<Rightarrow> Tlv reader" where
  "get_tlv_upto stop 0 buf i = stop"
| "get_tlv_upto stop (Suc n) buf i = do {
     (con, i) \<leftarrow> get_constructor (get_tlv_upto stop n) buf i;
     (tlv, i) \<leftarrow> get_element_upto stop n con buf i;
     Some (set_constructor con tlv, i)
   }"
| "get_element_upto stop 0 con buf i = stop"
| "get_element_upto stop (Suc n) con buf i =
     element_case (get_tlv_upto stop n) (get_element_upto stop n) (con_code con) buf i"

definition get_tlv :: "Tlv reader" where
  "get_tlv buf i = get_tlv_upto None (2 * length buf + 2) buf i"

definition get_element :: "TlvConstructor \<Rightarrow> Tlv reader" where
  "get_element con buf i = get_element_upto None (2 * length buf + 2) con buf i"

subsection \<open>The bound on the depth\<close>

definition advances :: "'a reader \<Rightarrow> bool" where
  "advances f \<longleftrightarrow> (\<forall>buf i x j. f buf i = Some (x, j) \<longrightarrow> i \<le> j)"

definition agree :: "'a reader \<Rightarrow> 'a reader \<Rightarrow> byte list \<Rightarrow> int \<Rightarrow> bool" where
  "agree f g buf i \<longleftrightarrow> (\<forall>j \<ge> i. f buf j = g buf j)"

lemma advancesD: "advances f \<Longrightarrow> f buf i = Some (x, j) \<Longrightarrow> i \<le> j"
  by (auto simp: advances_def)

lemma agreeD: "agree f g buf i \<Longrightarrow> i \<le> j \<Longrightarrow> f buf j = g buf j"
  by (simp add: agree_def)

lemma agree_mono: "agree f g buf i \<Longrightarrow> i \<le> j \<Longrightarrow> agree f g buf j"
  by (auto simp: agree_def)

lemma read_byte_next: "read_byte buf i = Some (b, j) \<Longrightarrow> j = i + 1"
  by (auto simp: read_byte_def bind_Some_iff)

lemma read_int_next: "read_int buf i = Some (n, j) \<Longrightarrow> j = i + 4"
  by (auto simp: read_int_def bind_Some_iff)

lemma rd_n_Some_pos: "rd_n buf i n = Some v \<Longrightarrow> 0 \<le> n"
  by (auto simp: rd_n_def split: if_splits)

lemma read_items_advances: "advances f \<Longrightarrow> advances (read_items f k)"
proof (induction k)
  case (Suc k)
  then show ?case by (fastforce simp: advances_def bind_Some_iff split: prod.splits)
qed (simp add: advances_def)

lemma read_entries_advances: "advances f \<Longrightarrow> advances (read_entries f stop k)"
proof (induction k)
  case (Suc k)
  have "i \<le> j" if step: "read_entries f stop (Suc k) buf i = Some (x, j)" for buf i x j
  proof (cases "i < stop")
    case True
    with step obtain key i1 val i2 es where
      "f buf i = Some (key, i1)" "f buf i1 = Some (val, i2)" "read_entries f stop k buf i2 = Some (es, j)"
      by (auto simp: bind_Some_iff)
    then show ?thesis
      using advancesD [OF Suc.prems, of buf i] advancesD [OF Suc.prems, of buf i1]
        advancesD [OF Suc.IH [OF Suc.prems], of buf i2] by fastforce
  qed (use step in simp)
  then show ?case by (simp add: advances_def)
qed (simp add: advances_def)

lemma get_constructor_next: "advances f \<Longrightarrow> get_constructor f buf i = Some (con, j) \<Longrightarrow> i < j"
  by (fastforce simp: get_constructor_def bind_Some_iff split: if_splits dest: advancesD)

lemma element_case_advances:
  assumes "advances f" "\<And>con. advances (e con)"
  shows "advances (element_case f e c)"
proof -
  note adv = read_items_advances [OF assms(1)] read_items_advances [OF assms(2)]
    read_entries_advances [OF assms(1)]
  have "i \<le> j" if "get_list f c buf i = Some (x, j)" for buf i x j
    using that advancesD [OF adv(1)]
    by (fastforce simp: get_list_def bind_Some_iff split: if_splits dest!: read_byte_next read_int_next)
  moreover have "i \<le> j" if "get_map f c buf i = Some (x, j)" for buf i x j
    using that advancesD [OF adv(3)]
    by (fastforce simp: get_map_def bind_Some_iff split: if_splits dest!: read_byte_next read_int_next)
  moreover have "i \<le> j" if "get_array f e c buf i = Some (x, j)" for buf i x j
    using that advancesD [OF adv(2)] get_constructor_next [OF assms(1)]
    by (fastforce simp: get_array_def bind_Some_iff split: if_splits dest!: read_byte_next read_int_next)
  ultimately show ?thesis
    unfolding advances_def element_case_def get_fixed_def
    by (auto simp: bind_Some_iff split: if_splits dest!: read_byte_next read_int_next rd_n_Some_pos)
qed

lemma get_upto_advances:
  "(get_tlv_upto None n buf i = Some (t, j) \<longrightarrow> i < j) \<and> advances (get_element_upto None n con)"
proof (induction n arbitrary: buf i t j con)
  case 0
  then show ?case by (simp add: advances_def)
next
  case (Suc n)
  have f: "advances (get_tlv_upto None n)" and e: "advances (get_element_upto None n c)" for c
    using Suc by (auto simp: advances_def intro: less_imp_le)
  have "i < j" if "get_tlv_upto None (Suc n) buf i = Some (t, j)"
    using that get_constructor_next [OF f] advancesD [OF e]
    by (fastforce simp: bind_Some_iff)
  moreover have "advances (element_case (get_tlv_upto None n) (get_element_upto None n) (con_code con))"
    by (rule element_case_advances [OF f e])
  ultimately show ?case by (simp add: advances_def)
qed

text \<open>What a compound reads does not depend on how its items are read before its own index.\<close>

lemma upto_advances: "advances (get_tlv_upto None n)" "advances (get_element_upto None n con)"
  using get_upto_advances by (auto simp: advances_def intro: less_imp_le)

declare get_tlv_upto.simps(2) [simp del] get_element_upto.simps(2) [simp del]

lemma reader_cong:
  "r = s \<Longrightarrow> (\<And>x j. s = Some (x, j) \<Longrightarrow> k x j = k' x j) \<Longrightarrow>
   Option.bind r (\<lambda>(x, j). k x j) = Option.bind s (\<lambda>(x, j). k' x j)"
  by (cases s) auto

lemma read_items_agree:
  "advances f \<Longrightarrow> agree f g buf i \<Longrightarrow> read_items f k buf i = read_items g k buf i"
proof (induction k arbitrary: i)
  case (Suc k)
  have "f buf i = g buf i" using agreeD [OF Suc.prems(2)] by simp
  moreover have "read_items f k buf j = read_items g k buf j" if "f buf i = Some (x, j)" for x j
    by (rule Suc.IH [OF Suc.prems(1) agree_mono [OF Suc.prems(2) advancesD [OF Suc.prems(1) that]]])
  ultimately show ?case by (auto intro!: reader_cong)
qed simp

lemma read_entries_agree:
  "advances f \<Longrightarrow> agree f g buf i \<Longrightarrow> read_entries f stop k buf i = read_entries g stop k buf i"
proof (induction k arbitrary: i)
  case (Suc k)
  note adv = advancesD [OF Suc.prems(1)]
  have "f buf i = g buf i" using agreeD [OF Suc.prems(2)] by simp
  moreover have "f buf j = g buf j" if "f buf i = Some (x, j)" for x j
    by (rule agreeD [OF Suc.prems(2) adv [OF that]])
  moreover have "read_entries f stop k buf j' = read_entries g stop k buf j'"
    if "f buf i = Some (x, j)" "f buf j = Some (y, j')" for x y j j'
    by (rule Suc.IH [OF Suc.prems(1) agree_mono [OF Suc.prems(2) order_trans [OF adv adv]]]) (fact that)+
  ultimately show ?case by (auto intro!: reader_cong)
qed simp

lemma get_constructor_agree:
  "agree f g buf (i + 1) \<Longrightarrow> get_constructor f buf i = get_constructor g buf i"
  by (auto simp: get_constructor_def agree_def intro!: reader_cong Option.bind_cong)

lemma element_case_agree:
  assumes f: "advances f" "agree f g buf (i + 2)"
    and e: "\<And>con. advances (e con)" "\<And>con. agree (e con) (e' con) buf (i + 2)"
  shows "element_case f e c buf i = element_case g e' c buf i"
proof -
  have items: "read_items f k buf j = read_items g k buf j"
    and entries: "read_entries f stop k buf j = read_entries g stop k buf j"
    and con: "get_constructor f buf j = get_constructor g buf j"
    and elems: "read_items (e con) k buf j = read_items (e' con) k buf j"
    if "i + 2 \<le> j" for stop k j con
    using read_items_agree [OF f(1) agree_mono [OF f(2) that]]
      read_entries_agree [OF f(1) agree_mono [OF f(2) that]]
      get_constructor_agree [OF agree_mono [OF f(2)], of j] that
      read_items_agree [OF e(1) agree_mono [OF e(2) that]] by simp_all
  have "get_list f c buf i = get_list g c buf i"
    by (auto simp: get_list_def items dest!: read_byte_next read_int_next intro!: reader_cong)
  moreover have "get_map f c buf i = get_map g c buf i"
    by (auto simp: get_map_def entries dest!: read_byte_next read_int_next intro!: reader_cong)
  moreover have "i + 2 \<le> k" if "get_constructor g buf j = Some (c', k)" "i + 2 \<le> j" for c' j k
    using get_constructor_next [OF f(1), of buf j] con [OF that(2)] that by fastforce
  then have "get_array f e c buf i = get_array g e' c buf i"
    by (auto simp: get_array_def con elems dest!: read_byte_next read_int_next
          intro!: reader_cong split: if_splits)
  ultimately show ?thesis by (simp add: element_case_def)
qed

lemma element_case_end:
  assumes "int (length buf) \<le> i"
  shows "element_case f e c buf i = element_case g e' c buf i"
proof -
  have "rd buf i = None" using assms by (simp add: rd_None_iff)
  then have "read_byte buf i = None" "read_int buf i = None"
    by (simp_all add: read_byte_def read_int_def get_int_def)
  then show ?thesis by (simp add: element_case_def get_list_def get_map_def get_array_def)
qed

text \<open>More depth than twice the bytes that are left changes nothing.\<close>

lemma get_upto_stable:
  "(2 * nat (int (length buf) - i) + 2 \<le> n \<longrightarrow> get_tlv_upto None (Suc n) buf i = get_tlv_upto None n buf i) \<and>
   (2 * nat (int (length buf) - i) + 1 \<le> n \<longrightarrow>
      get_element_upto None (Suc n) con buf i = get_element_upto None n con buf i)"
proof (induction n arbitrary: i con)
  case (Suc n)
  note adv = upto_advances
  have tlv: "agree (get_tlv_upto None (Suc n)) (get_tlv_upto None n) buf j"
    if "2 * nat (int (length buf) - j) + 2 \<le> n" for j
    unfolding agree_def using Suc.IH that by (auto simp del: get_tlv_upto.simps)
  have elem: "agree (get_element_upto None (Suc n) c) (get_element_upto None n c) buf j"
    if "2 * nat (int (length buf) - j) + 1 \<le> n" for j c
    unfolding agree_def using Suc.IH that by (auto simp del: get_element_upto.simps)
  have "get_tlv_upto None (Suc (Suc n)) buf i = get_tlv_upto None (Suc n) buf i"
    if fuel: "2 * nat (int (length buf) - i) + 2 \<le> Suc n"
  proof (cases "i < int (length buf)")
    case True
    then have n: "2 * nat (int (length buf) - (i + 1)) + 2 \<le> n" using fuel by linarith
    have "get_constructor (get_tlv_upto None (Suc n)) buf i = get_constructor (get_tlv_upto None n) buf i"
      by (rule get_constructor_agree [OF tlv [OF n]])
    moreover have "get_element_upto None (Suc n) c buf j = get_element_upto None n c buf j"
      if "get_constructor (get_tlv_upto None n) buf i = Some (c, j)" for c j
    proof -
      have "2 * nat (int (length buf) - j) + 1 \<le> n"
        using get_constructor_next [OF adv(1) that] n by linarith
      then show ?thesis by (rule agreeD [OF elem]) simp
    qed
    ultimately show ?thesis
      by (subst (1 2) get_tlv_upto.simps(2)) (auto intro!: reader_cong simp del: get_tlv_upto.simps get_element_upto.simps)
  next
    case False
    then have "rd buf i = None" by (simp add: rd_None_iff)
    then show ?thesis by (simp add: get_tlv_upto.simps(2) get_constructor_def)
  qed
  moreover have "get_element_upto None (Suc (Suc n)) con buf i = get_element_upto None (Suc n) con buf i"
    if fuel: "2 * nat (int (length buf) - i) + 1 \<le> Suc n"
  proof (cases "i < int (length buf)")
    case True
    then have "2 * nat (int (length buf) - (i + 2)) + 2 \<le> n" using fuel by linarith
    then show ?thesis
      by (subst (1 2) get_element_upto.simps(2))
        (intro element_case_agree adv tlv elem; linarith)
  next
    case False
    then have "element_case f e c buf i = element_case g e' c buf i" for f e g e' c
      by (intro element_case_end) simp
    then show ?thesis by (simp only: get_element_upto.simps(2))
  qed
  ultimately show ?case by blast
qed simp

text \<open>What is answered at the end of the depth is not looked at.\<close>

lemma get_upto_any:
  "(2 * nat (int (length buf) - i) + 2 \<le> n \<longrightarrow> get_tlv_upto None n buf i = get_tlv_upto stop n buf i) \<and>
   (2 * nat (int (length buf) - i) + 1 \<le> n \<longrightarrow>
      get_element_upto None n con buf i = get_element_upto stop n con buf i)"
proof (induction n arbitrary: i con)
  case (Suc n)
  note adv = upto_advances
  have tlv: "agree (get_tlv_upto None n) (get_tlv_upto stop n) buf j"
    if "2 * nat (int (length buf) - j) + 2 \<le> n" for j
    unfolding agree_def using Suc.IH that by auto
  have elem: "agree (get_element_upto None n c) (get_element_upto stop n c) buf j"
    if "2 * nat (int (length buf) - j) + 1 \<le> n" for j c
    unfolding agree_def using Suc.IH that by auto
  have "get_tlv_upto None (Suc n) buf i = get_tlv_upto stop (Suc n) buf i"
    if fuel: "2 * nat (int (length buf) - i) + 2 \<le> Suc n"
  proof (cases "i < int (length buf)")
    case True
    then have n: "2 * nat (int (length buf) - (i + 1)) + 2 \<le> n" using fuel by linarith
    have con: "get_constructor (get_tlv_upto None n) buf i = get_constructor (get_tlv_upto stop n) buf i"
      by (rule get_constructor_agree [OF tlv [OF n]])
    have "get_element_upto None n c buf j = get_element_upto stop n c buf j"
      if "get_constructor (get_tlv_upto stop n) buf i = Some (c, j)" for c j
    proof -
      have "2 * nat (int (length buf) - j) + 1 \<le> n"
        using get_constructor_next [OF adv(1)] that con n by fastforce
      then show ?thesis by (rule agreeD [OF elem]) simp
    qed
    with con show ?thesis
      by (subst (1 2) get_tlv_upto.simps(2)) (auto intro!: reader_cong simp del: get_tlv_upto.simps get_element_upto.simps)
  next
    case False
    then have "rd buf i = None" by (simp add: rd_None_iff)
    then show ?thesis by (simp add: get_tlv_upto.simps(2) get_constructor_def)
  qed
  moreover have "get_element_upto None (Suc n) con buf i = get_element_upto stop (Suc n) con buf i"
    if fuel: "2 * nat (int (length buf) - i) + 1 \<le> Suc n"
  proof (cases "i < int (length buf)")
    case True
    then have "2 * nat (int (length buf) - (i + 2)) + 2 \<le> n" using fuel by linarith
    then show ?thesis
      by (subst (1 2) get_element_upto.simps(2))
        (intro element_case_agree adv tlv elem; linarith)
  next
    case False
    then have "element_case f e c buf i = element_case g e' c buf i" for f e g e' c
      by (intro element_case_end) simp
    then show ?thesis by (simp only: get_element_upto.simps(2))
  qed
  ultimately show ?case by blast
qed simp

lemma get_upto_more:
  assumes "2 * nat (int (length buf) - i) + 2 \<le> n"
  shows "get_tlv_upto None (n + k) buf i = get_tlv_upto None n buf i \<and>
    get_element_upto None (n + k) con buf i = get_element_upto None n con buf i"
proof (induction k)
  case (Suc k)
  then show ?case using get_upto_stable [of buf i "n + k" con] assms
    by (simp del: get_tlv_upto.simps get_element_upto.simps)
qed simp

lemma get_tlv_bytes_left:
  assumes "0 \<le> i" "2 * nat (int (length buf) - i) + 2 \<le> n"
  shows "get_tlv_upto stop n buf i = get_tlv buf i \<and> get_element_upto stop n con buf i = get_element con buf i"
proof -
  let ?k = "2 * nat (int (length buf) - i) + 2"
  have "?k \<le> 2 * length buf + 2" using assms(1) by linarith
  then obtain a where "2 * length buf + 2 = ?k + a" using le_Suc_ex by blast
  then have "get_tlv buf i = get_tlv_upto None ?k buf i \<and> get_element con buf i = get_element_upto None ?k con buf i"
    using get_upto_more [of buf i ?k a con] by (simp add: get_tlv_def get_element_def)
  moreover obtain b where "n = ?k + b" using assms(2) le_Suc_ex by blast
  then have "get_tlv_upto None n buf i = get_tlv_upto None ?k buf i \<and>
      get_element_upto None n con buf i = get_element_upto None ?k con buf i"
    using get_upto_more [of buf i ?k b con] by simp
  ultimately show ?thesis using get_upto_any [of buf i n stop con] assms(2) by simp
qed

lemma get_tlv_enough:
  assumes "0 \<le> i" "2 * length buf + 2 \<le> n"
  shows "get_tlv_upto None n buf i = get_tlv buf i \<and> get_element_upto None n con buf i = get_element con buf i"
  by (rule get_tlv_bytes_left) (use assms in linarith)+

text \<open>The equations of the code, without the bound.\<close>

lemma get_element_unfold:
  assumes "0 \<le> i"
  shows "get_element con buf i = element_case get_tlv get_element (con_code con) buf i"
proof -
  let ?n = "2 * length buf + 2"
  have "get_element con buf i = get_element_upto None (Suc ?n) con buf i"
    using get_tlv_enough [OF assms, of buf "Suc ?n" con] by simp
  also have "\<dots> = element_case (get_tlv_upto None ?n) (get_element_upto None ?n) (con_code con) buf i"
    by (simp only: get_element_upto.simps)
  also have "\<dots> = element_case get_tlv get_element (con_code con) buf i"
    by (rule element_case_agree [OF upto_advances(1) _ upto_advances(2)])
      (use assms get_tlv_enough [of _ buf ?n] in \<open>auto simp: agree_def\<close>)
  finally show ?thesis .
qed

lemma get_tlv_unfold:
  assumes "0 \<le> i"
  shows "get_tlv buf i = do {
     (con, i) \<leftarrow> get_constructor get_tlv buf i;
     (tlv, i) \<leftarrow> get_element con buf i;
     Some (set_constructor con tlv, i)
   }"
proof -
  let ?n = "2 * length buf + 2"
  have c: "get_constructor (get_tlv_upto None ?n) buf i = get_constructor get_tlv buf i"
    by (rule get_constructor_agree) (use assms get_tlv_enough [of _ buf ?n] in \<open>auto simp: agree_def\<close>)
  have "get_tlv buf i = get_tlv_upto None (Suc ?n) buf i"
    using get_tlv_enough [OF assms, of buf "Suc ?n"] by simp
  also have "\<dots> = do {
     (con, i) \<leftarrow> get_constructor (get_tlv_upto None ?n) buf i;
     (tlv, i) \<leftarrow> get_element_upto None ?n con buf i;
     Some (set_constructor con tlv, i) }"
    by (simp only: get_tlv_upto.simps)
  also have "\<dots> = do {
     (con, i) \<leftarrow> get_constructor get_tlv buf i;
     (tlv, i) \<leftarrow> get_element con buf i;
     Some (set_constructor con tlv, i) }"
    unfolding c [symmetric]
    by (rule reader_cong) (use assms get_tlv_enough [of _ buf ?n] get_constructor_next [OF upto_advances(1)] in
        \<open>fastforce intro!: reader_cong\<close>)+
  finally show ?thesis .
qed

subsection \<open>The encoding of AMQP 1.0\<close>

text \<open>
  The values the client exchanges, and their shortest encodings. A list of at most 255 bytes starts
  with its size in bytes, which counts the byte of the number of its items: \<open>\<delta>\<close> gives the size field from the
  length of the items, and is \<open>Suc\<close> in the protocol.
\<close>

datatype amqp_value =
    VNull | VBool bool | VUbyte byte | VUshort u16 | VUint u32
  | VBinary "byte list" | VString "byte list" | VSymbol "byte list"
  | VSymbols "byte list list"
  | VList "amqp_value list"
  | VDescribed byte amqp_value

definition int_bytes :: "u32 \<Rightarrow> byte list" where
  "int_bytes n = [ucast (drop_bit 24 n), ucast (drop_bit 16 n), ucast (drop_bit 8 n), ucast n]"

fun amqp_bytes :: "(nat \<Rightarrow> nat) \<Rightarrow> amqp_value \<Rightarrow> byte list" where
  "amqp_bytes \<delta> VNull = [AMQP_NULL]"
| "amqp_bytes \<delta> (VBool b) = [if b then BOOLEAN_TRUE else BOOLEAN_FALSE]"
| "amqp_bytes \<delta> (VUbyte b) = [UBYTE, b]"
| "amqp_bytes \<delta> (VUshort n) = USHORT # short_bytes n"
| "amqp_bytes \<delta> (VUint n) = (if n = 0 then [UINT_0] else if n < 256 then [SMALL_UINT, ucast n]
     else UINT # int_bytes n)"
| "amqp_bytes \<delta> (VBinary v) = BINARY_8 # of_nat (length v) # v"
| "amqp_bytes \<delta> (VString v) = STRING_8 # of_nat (length v) # v"
| "amqp_bytes \<delta> (VSymbol v) = SYMBOL_8 # of_nat (length v) # v"
| "amqp_bytes \<delta> (VSymbols ss) =
     (let items = SYMBOL_8 # concat (map (\<lambda>v. of_nat (length v) # v) ss)
      in ARRAY_8 # of_nat (\<delta> (length items)) # of_nat (length ss) # items)"
| "amqp_bytes \<delta> (VList vs) = (if vs = [] then [LIST_0] else
     (let items = concat (map (amqp_bytes \<delta>) vs)
      in LIST_8 # of_nat (\<delta> (length items)) # of_nat (length vs) # items))"
| "amqp_bytes \<delta> (VDescribed d v) = [0, SMALL_ULONG, d] @ amqp_bytes \<delta> v"

text \<open>Values of this encoding: counted ones below 256 bytes, lists below 256 items, one descriptor.\<close>

fun amqp_short :: "amqp_value \<Rightarrow> bool" where
  "amqp_short (VBinary v) = (length v < 256)"
| "amqp_short (VString v) = (length v < 256)"
| "amqp_short (VSymbol v) = (length v < 256)"
| "amqp_short (VSymbols ss) = (length ss < 256 \<and> list_all (\<lambda>v. length v < 256) ss)"
| "amqp_short (VList vs) = (length vs < 256 \<and> list_all amqp_short vs)"
| "amqp_short (VDescribed d v) = (amqp_short v \<and> (\<forall>d' v'. v \<noteq> VDescribed d' v'))"
| "amqp_short _ = True"

text \<open>The struct the reader makes of a value; the constructor of a described one points to its code.\<close>

definition descriptor_of :: "byte \<Rightarrow> Tlv" where
  "descriptor_of d = set_constructor (TlvConstructor SMALL_ULONG Wild) (tlv_fixed SMALL_ULONG [d] (Some 1))"

fun tlv_of :: "(nat \<Rightarrow> nat) \<Rightarrow> Tlv ptr \<Rightarrow> amqp_value \<Rightarrow> Tlv" where
  "tlv_of \<delta> d VNull = set_constructor (TlvConstructor AMQP_NULL d) (tlv_plain AMQP_NULL)"
| "tlv_of \<delta> d (VBool b) = (let c = (if b then BOOLEAN_TRUE else BOOLEAN_FALSE)
     in set_constructor (TlvConstructor c d) (tlv_fixed c [0] (Some 0)))"
| "tlv_of \<delta> d (VUbyte b) = set_constructor (TlvConstructor UBYTE d) (tlv_fixed UBYTE [b] (Some 1))"
| "tlv_of \<delta> d (VUshort n) =
     set_constructor (TlvConstructor USHORT d) (tlv_fixed USHORT (short_bytes n) None)"
| "tlv_of \<delta> d (VUint n) = (if n = 0
     then set_constructor (TlvConstructor UINT_0 d) (tlv_fixed UINT_0 [0] (Some 0))
     else if n < 256 then set_constructor (TlvConstructor SMALL_UINT d) (tlv_fixed SMALL_UINT [ucast n] (Some 1))
     else set_constructor (TlvConstructor UINT d) (tlv_fixed UINT (int_bytes n) (Some 1)))"
| "tlv_of \<delta> d (VBinary v) =
     set_constructor (TlvConstructor BINARY_8 d) (tlv_var BINARY_8 v (Some (int (length v))))"
| "tlv_of \<delta> d (VString v) =
     set_constructor (TlvConstructor STRING_8 d) (tlv_var STRING_8 v (Some (int (length v))))"
| "tlv_of \<delta> d (VSymbol v) =
     set_constructor (TlvConstructor SYMBOL_8 d) (tlv_var SYMBOL_8 v (Some (int (length v))))"
| "tlv_of \<delta> d (VSymbols ss) = set_constructor (TlvConstructor ARRAY_8 d)
     (tlv_items ARRAY_8 (Ref (map (\<lambda>v. tlv_var SYMBOL_8 v (Some (int (length v)))) ss)) 1
       (uint (of_nat (\<delta> (1 + length (concat (map (\<lambda>v. of_nat (length v) # v :: byte list) ss)))) :: byte))
       (int (length ss)))"
| "tlv_of \<delta> d (VList vs) = (if vs = []
     then set_constructor (TlvConstructor LIST_0 d) (tlv_items LIST_0 Null 0 0 0)
     else set_constructor (TlvConstructor LIST_8 d) (tlv_items LIST_8 (Ref (map (tlv_of \<delta> Wild) vs)) 1
       (uint (of_nat (\<delta> (length (concat (map (amqp_bytes \<delta>) vs)))) :: byte)) (int (length vs))))"
| "tlv_of \<delta> d (VDescribed c v) = tlv_of \<delta> (Ref (descriptor_of c)) v"

subsection \<open>The reader on the encoding\<close>

definition reads :: "byte list \<Rightarrow> Tlv \<Rightarrow> bool" where
  "reads bs t \<longleftrightarrow> (\<forall>pre rest. get_tlv (pre @ bs @ rest) (int (length pre)) =
     Some (t, int (length pre) + int (length bs)))"

definition elem_reads :: "byte \<Rightarrow> byte list \<Rightarrow> Tlv \<Rightarrow> bool" where
  "elem_reads c bs t \<longleftrightarrow> (\<forall>pre rest con. con_code con = c \<longrightarrow>
     get_element con (pre @ bs @ rest) (int (length pre)) = Some (t, int (length pre) + int (length bs)))"

text \<open>Cursor forms of the basic readers.\<close>

lemma rd_n_inside: "n = int (length v) \<Longrightarrow> rd_n (pre @ v @ rest) (int (length pre)) n = Some v"
  by (rule rd_n_append) simp_all

lemma rd_n_inside_1: "n = int (length v) \<Longrightarrow> rd_n (pre @ b # v @ rest) (int (length pre) + 1) n = Some v"
  using rd_n_inside [of n v "pre @ [b]" rest] by (simp add: ac_simps)

lemma elem_readsI:
  assumes "\<And>pre rest. element_case get_tlv get_element c (pre @ bs @ rest) (int (length pre)) =
    Some (t, int (length pre) + int (length bs))"
  shows "elem_reads c bs t"
  using assms by (auto simp: elem_reads_def get_element_unfold)

text \<open>The cases of the switch.\<close>

lemma element_cases:
  "c \<in> {BOOLEAN_TRUE, BOOLEAN_FALSE, UINT_0, ULONG_0} \<Longrightarrow>
     element_case f e c buf i = Some (tlv_fixed c [0] (Some 0), i)"
  "c \<in> {BOOLEAN, UBYTE, BYTE, SMALL_UINT, SMALL_INT, SMALL_ULONG, SMALL_LONG} \<Longrightarrow>
     element_case f e c buf i = get_fixed c 1 (Some 1) buf i"
  "element_case f e USHORT buf i = get_fixed USHORT 2 None buf i"
  "element_case f e UINT buf i = get_fixed UINT 4 (Some 1) buf i"
  "c \<in> {STRING_8, SYMBOL_8, BINARY_8} \<Longrightarrow> element_case f e c buf i = do {
     (n, i) \<leftarrow> read_byte buf i; v \<leftarrow> rd_n buf i n; Some (tlv_var c v (Some n), i + n) }"
  "element_case f e LIST_0 buf i = Some (tlv_items LIST_0 Null 0 0 0, i)"
  "element_case f e LIST_8 buf i = get_list f LIST_8 buf i"
  "element_case f e ARRAY_8 buf i = get_array f e ARRAY_8 buf i"
  "element_case f e AMQP_NULL buf i = Some (tlv_plain AMQP_NULL, i)"
  by (auto simp: element_case_def)

lemma get_fixed_at:
  assumes "n = int (length v)"
  shows "get_fixed c n l (pre @ v @ rest) (int (length pre)) =
    Some (tlv_fixed c v l, int (length pre) + int (length v))"
  using assms rd_n_inside [OF assms] by (simp add: get_fixed_def)

lemma elem_fixed:
  assumes "c \<in> {BOOLEAN, UBYTE, BYTE, SMALL_UINT, SMALL_INT, SMALL_ULONG, SMALL_LONG}"
  shows "elem_reads c [b] (tlv_fixed c [b] (Some 1))"
  by (rule elem_readsI) (simp only: element_cases(2) [OF assms] get_fixed_at [of 1 "[b]"] list.size
      of_nat_1 of_nat_Suc of_nat_0 add_0)

lemma elem_ushort: "elem_reads USHORT (short_bytes n) (tlv_fixed USHORT (short_bytes n) None)"
  by (rule elem_readsI) (simp only: element_cases(3) get_fixed_at [of 2 "short_bytes n"] length_short_bytes
      of_nat_numeral)

lemma length_int_bytes [simp]: "length (int_bytes n) = 4"
  by (simp add: int_bytes_def)

lemma elem_uint: "elem_reads UINT (int_bytes n) (tlv_fixed UINT (int_bytes n) (Some 1))"
  by (rule elem_readsI) (simp only: element_cases(4) get_fixed_at [of 4 "int_bytes n"] length_int_bytes
      of_nat_numeral)

lemma elem_empty:
  assumes "c \<in> {BOOLEAN_TRUE, BOOLEAN_FALSE, UINT_0, ULONG_0}"
  shows "elem_reads c [] (tlv_fixed c [0] (Some 0))"
  by (rule elem_readsI) (simp add: element_cases(1) [OF assms])

lemma elem_null: "elem_reads AMQP_NULL [] (tlv_plain AMQP_NULL)"
  by (rule elem_readsI) (simp add: element_cases)

lemma uint_of_nat_small: "n < 256 \<Longrightarrow> uint (of_nat n :: byte) = int n"
  by (simp add: uint_nat unat_of_nat)

lemma elem_var:
  assumes "c \<in> {STRING_8, SYMBOL_8, BINARY_8}" "length v < 256"
  shows "elem_reads c (of_nat (length v) # v) (tlv_var c v (Some (int (length v))))"
  by (rule elem_readsI) (simp add: element_cases(5) [OF assms(1)] read_byte_def rd_append
      uint_of_nat_small [OF assms(2)] rd_n_inside_1)

lemma reads_plain:
  assumes "elem_reads c bs t" "c \<noteq> 0"
  shows "reads (c # bs) (set_constructor (TlvConstructor c Wild) t)"
proof -
  have "get_tlv (pre @ (c # bs) @ rest) (int (length pre)) =
      Some (set_constructor (TlvConstructor c Wild) t, int (length pre) + int (length (c # bs)))" for pre rest
  proof -
    have "get_element (TlvConstructor c Wild) ((pre @ [c]) @ bs @ rest) (int (length (pre @ [c]))) =
        Some (t, int (length (pre @ [c])) + int (length bs))"
      using assms(1) unfolding elem_reads_def by (metis TlvConstructor.sel(1))
    then show ?thesis
      using assms(2) by (simp add: get_tlv_unfold get_constructor_def rd_append ac_simps)
  qed
  then show ?thesis by (simp add: reads_def)
qed

lemma reads_described:
  assumes "elem_reads c bs t" "c \<noteq> 0"
  shows "reads ([0, SMALL_ULONG, d] @ c # bs) (set_constructor (TlvConstructor c (Ref (descriptor_of d))) t)"
proof -
  let ?con = "TlvConstructor c (Ref (descriptor_of d))"
  have "get_tlv (pre @ ([0, SMALL_ULONG, d] @ c # bs) @ rest) (int (length pre)) =
      Some (set_constructor ?con t, int (length pre) + int (length ([0, SMALL_ULONG, d] @ c # bs)))" for pre rest
  proof -
    have "reads (SMALL_ULONG # [d]) (descriptor_of d)"
      unfolding descriptor_of_def by (rule reads_plain [OF elem_fixed]) simp_all
    then have "get_tlv ((pre @ [0]) @ (SMALL_ULONG # [d]) @ c # bs @ rest) (int (length (pre @ [0]))) =
        Some (descriptor_of d, int (length (pre @ [0])) + 2)"
      by (simp only: reads_def) simp
    moreover have "get_element ?con ((pre @ [0, SMALL_ULONG, d, c]) @ bs @ rest)
        (int (length (pre @ [0, SMALL_ULONG, d, c]))) =
        Some (t, int (length (pre @ [0, SMALL_ULONG, d, c])) + int (length bs))"
      using assms(1) unfolding elem_reads_def by (metis TlvConstructor.sel(1))
    moreover have "rd (pre @ 0 # SMALL_ULONG # d # c # bs @ rest) (int (length pre) + 3) = Some c"
      using rd_append [of "int (length pre) + 3" "pre @ [0, SMALL_ULONG, d]" c "bs @ rest"] by simp
    ultimately show ?thesis
      by (simp add: get_tlv_unfold [of "int (length pre)"] get_constructor_def rd_append ac_simps)
  qed
  then show ?thesis by (simp add: reads_def)
qed

lemma read_items_reads:
  assumes "\<And>v. v \<in> set vs \<Longrightarrow> reads (f v) (g v)"
  shows "read_items get_tlv (length vs) (pre @ concat (map f vs) @ rest) (int (length pre)) =
    Some (map g vs, int (length pre) + int (length (concat (map f vs))))"
  using assms
proof (induction vs arbitrary: pre)
  case (Cons v vs)
  have "get_tlv (pre @ f v @ concat (map f vs) @ rest) (int (length pre)) =
      Some (g v, int (length pre) + int (length (f v)))"
    using Cons.prems [of v] by (simp add: reads_def)
  moreover have "read_items get_tlv (length vs) ((pre @ f v) @ concat (map f vs) @ rest) (int (length (pre @ f v))) =
      Some (map g vs, int (length (pre @ f v)) + int (length (concat (map f vs))))"
    by (rule Cons.IH) (use Cons.prems in simp)
  ultimately show ?case by simp
qed simp

lemma two_bytes:
  "read_byte (pre @ a # b # bs) (int (length pre)) = Some (uint a, int (length pre) + 1)"
  "read_byte (pre @ a # b # bs) (int (length pre) + 1) = Some (uint b, int (length pre) + 2)"
  using rd_append [of "int (length pre) + 1" "pre @ [a]" b bs] by (simp_all add: read_byte_def rd_append)

lemma elem_list:
  assumes "\<And>v. v \<in> set vs \<Longrightarrow> reads (f v) (g v)" "length vs < 256"
  shows "elem_reads LIST_8 (sz # of_nat (length vs) # concat (map f vs))
    (tlv_items LIST_8 (Ref (map g vs)) 1 (uint sz) (int (length vs)))"
proof (rule elem_readsI)
  fix pre rest
  let ?k = "of_nat (length vs) :: byte"
  let ?buf = "pre @ (sz # ?k # concat (map f vs)) @ rest"
  have "read_items get_tlv (length vs) ((pre @ [sz, ?k]) @ concat (map f vs) @ rest)
      (int (length (pre @ [sz, ?k]))) =
      Some (map g vs, int (length (pre @ [sz, ?k])) + int (length (concat (map f vs))))"
    by (rule read_items_reads [OF assms(1)])
  then have items: "read_items get_tlv (length vs) ?buf (int (length pre) + 2) =
      Some (map g vs, int (length pre) + 2 + int (length (concat (map f vs))))"
    by (simp add: add.commute)
  show "element_case get_tlv get_element LIST_8 ?buf (int (length pre)) =
      Some (tlv_items LIST_8 (Ref (map g vs)) 1 (uint sz) (int (length vs)),
        int (length pre) + int (length (sz # ?k # concat (map f vs))))"
    using items by (simp add: element_cases(7) get_list_def two_bytes uint_of_nat_small [OF assms(2)])
qed

lemma elem_array:
  assumes "\<And>v. v \<in> set vs \<Longrightarrow> elem_reads c (f v) (g v)" "length vs < 256" "c \<noteq> 0"
  shows "elem_reads ARRAY_8 (sz # of_nat (length vs) # c # concat (map f vs))
    (tlv_items ARRAY_8 (Ref (map g vs)) 1 (uint sz) (int (length vs)))"
proof (rule elem_readsI)
  fix pre rest
  let ?k = "of_nat (length vs) :: byte"
  let ?con = "TlvConstructor c Wild"
  let ?buf = "pre @ (sz # ?k # c # concat (map f vs)) @ rest"
  have "read_items (get_element ?con) (length vs) (p @ concat (map f vs) @ rest) (int (length p)) =
      Some (map g vs, int (length p) + int (length (concat (map f vs))))" for p
    using assms(1)
  proof (induction vs arbitrary: p)
    case (Cons v vs)
    have "get_element ?con (p @ f v @ concat (map f vs) @ rest) (int (length p)) =
        Some (g v, int (length p) + int (length (f v)))"
      using Cons.prems [of v] by (simp add: elem_reads_def)
    moreover have "read_items (get_element ?con) (length vs) ((p @ f v) @ concat (map f vs) @ rest)
        (int (length (p @ f v))) =
        Some (map g vs, int (length (p @ f v)) + int (length (concat (map f vs))))"
      by (rule Cons.IH) (use Cons.prems in simp)
    ultimately show ?case by simp
  qed simp
  from this [of "pre @ [sz, ?k, c]"]
  have items: "read_items (get_element ?con) (length vs) ?buf (int (length pre) + 3) =
      Some (map g vs, int (length pre) + 3 + int (length (concat (map f vs))))"
    by (simp add: add.commute)
  have "rd ?buf (int (length pre) + 2) = Some c"
    using rd_append [of "int (length pre) + 2" "pre @ [sz, ?k]" c "concat (map f vs) @ rest"] by simp
  then have con: "get_constructor get_tlv ?buf (int (length pre) + 2) = Some (?con, int (length pre) + 3)"
    using assms(3) by (simp add: get_constructor_def)
  show "element_case get_tlv get_element ARRAY_8 ?buf (int (length pre)) =
      Some (tlv_items ARRAY_8 (Ref (map g vs)) 1 (uint sz) (int (length vs)),
        int (length pre) + int (length (sz # ?k # c # concat (map f vs))))"
    using items con by (simp add: element_cases(8) get_array_def two_bytes uint_of_nat_small [OF assms(2)])
qed

definition value_elem :: "(nat \<Rightarrow> nat) \<Rightarrow> amqp_value \<Rightarrow> bool" where
  "value_elem \<delta> v \<longleftrightarrow> (\<exists>c bs t. amqp_bytes \<delta> v = c # bs \<and> c \<noteq> 0 \<and> elem_reads c bs t \<and>
     (\<forall>d. tlv_of \<delta> d v = set_constructor (TlvConstructor c d) t))"

lemma value_elemI:
  "amqp_bytes \<delta> v = c # bs \<Longrightarrow> c \<noteq> 0 \<Longrightarrow> elem_reads c bs t \<Longrightarrow>
   (\<And>d. tlv_of \<delta> d v = set_constructor (TlvConstructor c d) t) \<Longrightarrow> value_elem \<delta> v"
  unfolding value_elem_def by blast

lemma value_elem_reads:
  "value_elem \<delta> v \<Longrightarrow> reads (amqp_bytes \<delta> v) (tlv_of \<delta> Wild v)"
  "value_elem \<delta> v \<Longrightarrow> reads (amqp_bytes \<delta> (VDescribed d v)) (tlv_of \<delta> Wild (VDescribed d v))"
  by (auto simp: value_elem_def intro!: reads_plain reads_described [simplified])

lemma value_reads:
  "amqp_short v \<Longrightarrow> ((\<forall>d w. v \<noteq> VDescribed d w) \<longrightarrow> value_elem \<delta> v) \<and>
     reads (amqp_bytes \<delta> v) (tlv_of \<delta> Wild v)"
proof (induction v)
  case VNull
  have "value_elem \<delta> VNull" by (rule value_elemI [OF _ _ elem_null]) simp_all
  then show ?case using value_elem_reads(1) by blast
next
  case (VBool b)
  have "value_elem \<delta> (VBool b)"
    by (rule value_elemI [OF _ _ elem_empty, of _ _ "if b then BOOLEAN_TRUE else BOOLEAN_FALSE"]) simp_all
  then show ?case using value_elem_reads(1) by blast
next
  case (VUbyte b)
  have "value_elem \<delta> (VUbyte b)" by (rule value_elemI [OF _ _ elem_fixed]) simp_all
  then show ?case using value_elem_reads(1) by blast
next
  case (VUshort n)
  have "value_elem \<delta> (VUshort n)" by (rule value_elemI [OF _ _ elem_ushort]) simp_all
  then show ?case using value_elem_reads(1) by blast
next
  case (VUint n)
  have "value_elem \<delta> (VUint n)"
  proof (cases "n = 0 \<or> n < 256")
    case True
    then show ?thesis
      by (cases "n = 0") (rule value_elemI [OF _ _ elem_empty] value_elemI [OF _ _ elem_fixed]; simp)+
  next
    case False
    then show ?thesis by (intro value_elemI [OF _ _ elem_uint]) simp_all
  qed
  then show ?case using value_elem_reads(1) by blast
next
  case (VBinary w)
  have "value_elem \<delta> (VBinary w)" using VBinary by (intro value_elemI [OF _ _ elem_var]) simp_all
  then show ?case using value_elem_reads(1) by blast
next
  case (VString w)
  have "value_elem \<delta> (VString w)" using VString by (intro value_elemI [OF _ _ elem_var]) simp_all
  then show ?case using value_elem_reads(1) by blast
next
  case (VSymbol w)
  have "value_elem \<delta> (VSymbol w)" using VSymbol by (intro value_elemI [OF _ _ elem_var]) simp_all
  then show ?case using value_elem_reads(1) by blast
next
  case (VSymbols ss)
  have "value_elem \<delta> (VSymbols ss)"
    using VSymbols
    by (intro value_elemI [OF _ _ elem_array [where c = SYMBOL_8]]) (auto simp: Let_def list_all_iff intro!: elem_var)
  then show ?case using value_elem_reads(1) by blast
next
  case (VList vs)
  have "value_elem \<delta> (VList vs)"
  proof (cases "vs = []")
    case True
    have "elem_reads LIST_0 [] (tlv_items LIST_0 Null 0 0 0)"
      by (rule elem_readsI) (simp add: element_cases)
    then show ?thesis using True by (intro value_elemI [where c = LIST_0]) simp_all
  next
    case False
    have "reads (amqp_bytes \<delta> v) (tlv_of \<delta> Wild v)" if "v \<in> set vs" for v
      using VList that by (auto simp: list_all_iff)
    then show ?thesis
      using False VList.prems by (intro value_elemI [OF _ _ elem_list]) (simp_all add: Let_def)
  qed
  then show ?case using value_elem_reads(1) by blast
next
  case (VDescribed d v)
  then show ?case using value_elem_reads(2) by auto
qed

subsection \<open>Unwrapping\<close>

text \<open>
  A result is a pointer, NULL where the code complains about the type. A value whose length was never
  set reads an indeterminate number; \<open>unwrap_binary\<close> and its like return the array itself, without
  terminator or length.
\<close>

definition unwrap_binary :: "Tlv \<Rightarrow> byte list ptr option" where
  "unwrap_binary tlv = Some (if tlv_code tlv \<in> {BINARY_8, BINARY_32} then tlv_value tlv else Null)"

definition copy_string :: "Tlv \<Rightarrow> cstr option" where
  "copy_string tlv = do {
     n \<leftarrow> tlv_length tlv;
     v \<leftarrow> deref (tlv_value tlv);
     bs \<leftarrow> rd_n v 0 n;
     Some (cstr_of bs)
   }"

definition unwrap_symbol :: "Tlv \<Rightarrow> cstr ptr option" where
  "unwrap_symbol tlv = (if tlv_code tlv \<in> {SYMBOL_8, SYMBOL_32}
     then do { s \<leftarrow> copy_string tlv; Some (Ref s) } else Some Null)"

definition unwrap_string :: "Tlv \<Rightarrow> cstr ptr option" where
  "unwrap_string tlv = (if tlv_code tlv \<in> {STRING_8, STRING_32}
     then do { s \<leftarrow> copy_string tlv; Some (Ref s) } else Some Null)"

definition first_byte :: "Tlv \<Rightarrow> int option" where
  "first_byte tlv = do { v \<leftarrow> deref (tlv_value tlv); b \<leftarrow> rd v 0; Some (uint b) }"

definition unwrap_ubyte :: "Tlv \<Rightarrow> int ptr option" where
  "unwrap_ubyte tlv = (if tlv_code tlv = UBYTE then do { n \<leftarrow> first_byte tlv; Some (Ref n) } else Some Null)"

definition unwrap_bool :: "Tlv \<Rightarrow> int ptr option" where
  "unwrap_bool tlv =
     (if tlv_code tlv = BOOLEAN then do { n \<leftarrow> first_byte tlv; Some (if n \<in> {0, 1} then Ref n else Null) }
      else if tlv_code tlv = BOOLEAN_TRUE then Some (Ref 1)
      else if tlv_code tlv = BOOLEAN_FALSE then Some (Ref 0)
      else Some Null)"

definition unwrap_byte :: "Tlv \<Rightarrow> byte list ptr option" where
  "unwrap_byte tlv = Some (if tlv_code tlv = BYTE then tlv_value tlv else Null)"

definition value_int :: "Tlv \<Rightarrow> int option" where
  "value_int tlv = do { v \<leftarrow> deref (tlv_value tlv); n \<leftarrow> get_int v 0; Some (sint n) }"

definition unwrap_char :: "Tlv \<Rightarrow> int ptr option" where
  "unwrap_char tlv = (if tlv_code tlv = AMQP_CHAR then do { n \<leftarrow> value_int tlv; Some (Ref n) } else Some Null)"

definition unwrap_double :: "Tlv \<Rightarrow> 64 word ptr option" where
  "unwrap_double tlv = (if tlv_code tlv = DOUBLE
     then do { v \<leftarrow> deref (tlv_value tlv); d \<leftarrow> get_double v 0; Some (Ref d) } else Some Null)"

definition unwrap_float :: "Tlv \<Rightarrow> u32 ptr option" where
  "unwrap_float tlv = (if tlv_code tlv = FLOAT
     then do { v \<leftarrow> deref (tlv_value tlv); d \<leftarrow> get_float v 0; Some (Ref d) } else Some Null)"

text \<open>By the length: nothing, the first byte, or all of them.\<close>

definition by_length :: "(Tlv \<Rightarrow> int option) \<Rightarrow> Tlv \<Rightarrow> int ptr option" where
  "by_length all tlv = do {
     len \<leftarrow> tlv_length tlv;
     n \<leftarrow> (if len = 0 then Some 0 else if len = 1 then first_byte tlv else all tlv);
     Some (Ref n)
   }"

definition value_long :: "Tlv \<Rightarrow> int option" where
  "value_long tlv = do { v \<leftarrow> deref (tlv_value tlv); n \<leftarrow> get_long v 0; Some (sint n) }"

definition unwrap_int :: "Tlv \<Rightarrow> int ptr option" where
  "unwrap_int tlv = (if tlv_code tlv \<in> {AMQP_INT, SMALL_INT} then by_length value_int tlv else Some Null)"

definition unwrap_long :: "Tlv \<Rightarrow> int ptr option" where
  "unwrap_long tlv = (if tlv_code tlv \<in> {LONG, SMALL_LONG} then by_length value_long tlv else Some Null)"

definition unwrap_uint :: "Tlv \<Rightarrow> int ptr option" where
  "unwrap_uint tlv =
     (if tlv_code tlv \<in> {UINT, SMALL_UINT, UINT_0} then by_length value_int tlv else Some Null)"

definition value_ulong :: "Tlv \<Rightarrow> int option" where
  "value_ulong tlv = do { v \<leftarrow> deref (tlv_value tlv); n \<leftarrow> get_long v 0; Some (uint n) }"

definition unwrap_ulong :: "Tlv \<Rightarrow> int ptr option" where
  "unwrap_ulong tlv =
     (if tlv_code tlv \<in> {ULONG, SMALL_ULONG, ULONG_0} then by_length value_ulong tlv else Some Null)"

definition unwrap_short :: "Tlv \<Rightarrow> int ptr option" where
  "unwrap_short tlv = (if tlv_code tlv = AMQP_SHORT
     then do { v \<leftarrow> deref (tlv_value tlv); n \<leftarrow> get_short v 0; Some (Ref (sint n)) } else Some Null)"

definition unwrap_ushort :: "Tlv \<Rightarrow> int ptr option" where
  "unwrap_ushort tlv = (if tlv_code tlv = USHORT
     then do { v \<leftarrow> deref (tlv_value tlv); n \<leftarrow> get_short v 0; Some (Ref (uint n)) } else Some Null)"

definition unwrap_decimal :: "Tlv \<Rightarrow> byte list ptr ptr option" where
  "unwrap_decimal tlv =
     Some (if tlv_code tlv \<in> {DECIMAL_32, DECIMAL_64, DECIMAL_128} then Ref (tlv_value tlv) else Null)"

text \<open>Not implemented in the code: NULL for every value.\<close>

definition unwrap_uuid :: "Tlv \<Rightarrow> unit ptr option" where "unwrap_uuid tlv = Some Null"
definition unwrap_list :: "Tlv \<Rightarrow> unit ptr option" where "unwrap_list tlv = Some Null"
definition unwrap_map :: "Tlv \<Rightarrow> unit ptr option" where "unwrap_map tlv = Some Null"

text \<open>The items of an array, behind \<open>void *\<close>.\<close>

datatype void =
    VoidBytes "byte list ptr" | VoidSymbol "cstr ptr" | VoidString "cstr ptr" | VoidInt "int ptr"
  | VoidDouble "64 word ptr" | VoidFloat "u32 ptr" | VoidDecimal "byte list ptr ptr"
  | VoidArray "void list" | VoidNull

definition unwrap_scalar :: "Tlv \<Rightarrow> void option" where
  "unwrap_scalar tlv = (let c = tlv_code tlv in
     if c \<in> {BINARY_32, BINARY_8} then map_option VoidBytes (unwrap_binary tlv)
     else if c = UBYTE then map_option VoidInt (unwrap_ubyte tlv)
     else if c \<in> {BOOLEAN, BOOLEAN_FALSE, BOOLEAN_TRUE} then map_option VoidInt (unwrap_bool tlv)
     else if c = BYTE then map_option VoidBytes (unwrap_byte tlv)
     else if c = AMQP_CHAR then map_option VoidInt (unwrap_char tlv)
     else if c = DOUBLE then map_option VoidDouble (unwrap_double tlv)
     else if c = FLOAT then map_option VoidFloat (unwrap_float tlv)
     else if c \<in> {AMQP_INT, SMALL_INT} then map_option VoidInt (unwrap_int tlv)
     else if c \<in> {LONG, SMALL_LONG, TIMESTAMP} then map_option VoidInt (unwrap_long tlv)
     else if c = AMQP_SHORT then map_option VoidInt (unwrap_short tlv)
     else if c \<in> {STRING_32, STRING_8} then map_option VoidString (unwrap_string tlv)
     else if c \<in> {SYMBOL_32, SYMBOL_8} then map_option VoidSymbol (unwrap_symbol tlv)
     else if c \<in> {UINT, SMALL_UINT, UINT_0} then map_option VoidInt (unwrap_uint tlv)
     else if c \<in> {ULONG, SMALL_ULONG, ULONG_0} then map_option VoidInt (unwrap_ulong tlv)
     else if c = USHORT then map_option VoidInt (unwrap_ushort tlv)
     else if c \<in> {DECIMAL_128, DECIMAL_32, DECIMAL_64} then map_option VoidDecimal (unwrap_decimal tlv)
     else Some VoidNull)"

function unwrap :: "Tlv \<Rightarrow> void option" and unwrap_items :: "nat \<Rightarrow> Tlv list \<Rightarrow> void list option" where
  "unwrap tlv =
     (if tlv_code tlv \<in> {ARRAY_32, ARRAY_8} then
        (case tlv_list tlv of
           Ref ts \<Rightarrow> do {
             n \<leftarrow> tlv_count tlv;
             vs \<leftarrow> unwrap_items (nat n) ts;
             Some (VoidArray vs)
           }
         | _ \<Rightarrow> None)
      else unwrap_scalar tlv)"
| "unwrap_items 0 ts = Some []"
| "unwrap_items (Suc k) [] = None"
| "unwrap_items (Suc k) (t # ts) = do {
     v \<leftarrow> unwrap t;
     vs \<leftarrow> unwrap_items k ts;
     Some (v # vs)
   }"
  by pat_completeness auto
termination
proof (relation "measure (\<lambda>x. case x of Inl t \<Rightarrow> 2 * size t | Inr (k, ts) \<Rightarrow> Suc (2 * size_list size ts))")
  fix tlv ts n
  assume "tlv_list tlv = Ref ts"
  then have "size_list size ts < size tlv" by (cases tlv) simp
  then show "(Inr (nat n, ts), Inl tlv) \<in>
      measure (\<lambda>x. case x of Inl t \<Rightarrow> 2 * size t | Inr (k, ts) \<Rightarrow> Suc (2 * size_list size ts))"
    by simp
qed simp_all

declare unwrap.simps [simp del]

definition unwrap_array :: "Tlv \<Rightarrow> void list ptr option" where
  "unwrap_array tlv = (if tlv_code tlv \<in> {ARRAY_8, ARRAY_32} then do {
       ts \<leftarrow> deref (tlv_list tlv);
       n \<leftarrow> tlv_count tlv;
       vs \<leftarrow> unwrap_items (nat n) ts;
       Some (Ref vs)
     } else Some Null)"

end
