(* ===== verification/AmqpWrap.thy ===== *)
theory AmqpWrap
  imports AmqpTlv
begin

text \<open>
  src/src/amqp/wrappers/wrapper.c and src/src/amqp/amqp_calc.c: values of C wrapped as typed values of AMQP,
  and lists of them put together, with the structs of src/src/amqp/terminus and src/src/amqp/tlv they
  are made from. A \<open>struct AmqpSymbol\<close>, whose only field is a string, is that string; \<open>AmqpSymbolVoidEntry\<close>
  and \<open>AmqpOutcome\<close> are only tested for NULL and are \<open>unit\<close>.
\<close>

subsection \<open>Wrapped values\<close>

text \<open>
  \<open>w_bytes\<close> are the \<open>length\<close> bytes of the encoding, \<open>None\<close> a byte the code does not determine; the code
  allocates four times as many. Lists leave \<open>code\<close> and \<open>value_array\<close> unset.
\<close>

record Wrapped =
  w_code :: "byte option"
  w_value :: "byte list ptr"
  w_bytes :: mem

definition w_length :: "Wrapped \<Rightarrow> int" where
  "w_length w = int (length (w_bytes w))"

definition wrapped :: "byte \<Rightarrow> byte list ptr \<Rightarrow> byte list \<Rightarrow> Wrapped" where
  "wrapped c v bs = \<lparr>w_code = Some c, w_value = v, w_bytes = map Some (c # bs)\<rparr>"

text \<open>The bytes of an int in memory, lowest first.\<close>

definition le_bytes :: "int \<Rightarrow> byte list" where
  "le_bytes n = rev (int_bytes (of_int n))"

text \<open>A counted value: one byte of length, or the four of the int as they are in memory.\<close>

definition init_tlv_variable :: "byte \<Rightarrow> byte list \<Rightarrow> int \<Rightarrow> Wrapped option" where
  "init_tlv_variable code v str_len = do {
     bs \<leftarrow> (if str_len > 0 then rd_n v 0 str_len else Some []);
     Some (wrapped code (Ref v) ((if str_len > 255 then le_bytes str_len else [of_int str_len]) @ bs))
   }"

definition init_tlv_fixed :: "byte \<Rightarrow> byte list \<Rightarrow> int \<Rightarrow> Wrapped option" where
  "init_tlv_fixed code v len = do {
     bs \<leftarrow> (if len > 0 then rd_n v 0 len else Some []);
     Some (wrapped code (Ref v) bs)
   }"

definition wrap_null :: Wrapped where
  "wrap_null = wrapped AMQP_NULL Wild []"

definition wrap_string :: "cstr \<Rightarrow> Wrapped ptr option" where
  "wrap_string s = map_option Ref
     (init_tlv_variable (if length s > 255 then STRING_32 else STRING_8) s (int (length s)))"

definition wrap_symbol :: "cstr ptr \<Rightarrow> Wrapped ptr option" where
  "wrap_symbol symbol = do {
     s \<leftarrow> deref symbol;
     w \<leftarrow> init_tlv_variable (if length s > 255 then SYMBOL_32 else SYMBOL_8) s (int (length s));
     Some (Ref w)
   }"

definition wrap_binary :: "byte list \<Rightarrow> int \<Rightarrow> Wrapped ptr option" where
  "wrap_binary v len = map_option Ref
     (init_tlv_variable (if len > 255 then BINARY_32 else BINARY_8) v len)"

definition wrap_bool :: "int \<Rightarrow> Wrapped ptr option" where
  "wrap_bool n = map_option Ref
     (init_tlv_fixed (if n \<noteq> 0 then BOOLEAN_TRUE else BOOLEAN_FALSE) [] 0)"

text \<open>Integers: \<open>unsigned\<close> of the code's \<open>long\<close>, \<open>short\<close> and \<open>int\<close> when they are not negative.\<close>

definition wrap_uint :: "int \<Rightarrow> Wrapped" where
  "wrap_uint n =
     (if n = 0 then wrapped UINT_0 (Ref [0]) []
      else if 0 < n \<and> n \<le> 255 then wrapped SMALL_UINT (Ref [of_int n]) [of_int n]
      else wrapped UINT (Ref (int_bytes (of_int n))) (int_bytes (of_int n)))"

text \<open>
  \<open>_wrap_long\<close> copies from \<open>&tlv->value_array\<close>, the address of the pointer, and, for eight bytes, reads
  behind the \<open>long\<close>.
\<close>

definition wrap_negative_long :: "int \<Rightarrow> Wrapped option" where
  "wrap_negative_long n = do {
     c_assert (-128 \<le> n \<and> n \<le> 127);
     Some \<lparr>w_code = Some SMALL_LONG, w_value = Ref [of_int n], w_bytes = [Some SMALL_LONG, None]\<rparr>
   }"

definition wrap_long :: "int \<Rightarrow> Wrapped ptr option" where
  "wrap_long n = map_option Ref (if n \<ge> 0 then Some (wrap_uint n) else wrap_negative_long n)"

definition wrap_short :: "int \<Rightarrow> Wrapped ptr option" where
  "wrap_short n = map_option Ref
     (if n \<ge> 0 then init_tlv_fixed UBYTE [of_int n] 1
      else init_tlv_fixed AMQP_SHORT (short_bytes (of_int n)) 2)"

text \<open>Two bytes in memory order for a \<open>ushort\<close>; of the four of an int only two are reversed.\<close>

definition wrap_int :: "int \<Rightarrow> Wrapped ptr option" where
  "wrap_int n = Some (Ref
     (if n \<ge> 0 then (let v = take 2 (le_bytes n) in wrapped USHORT (Ref v) v)
      else if n \<ge> -128 then wrapped SMALL_INT (Ref [of_int n]) [of_int n]
      else (let v = rev (take 2 (le_bytes n)) @ drop 2 (le_bytes n) in wrapped AMQP_INT (Ref v) v)))"

text \<open>Not implemented in the code.\<close>

definition wrap_array :: "'a \<Rightarrow> Wrapped ptr option" where "wrap_array p = Some Null"
definition wrap_map :: "'a \<Rightarrow> Wrapped ptr option" where "wrap_map p = Some Null"
definition wrap_list :: "'a \<Rightarrow> Wrapped ptr option" where "wrap_list p = Some Null"
definition wrap_outcome :: "'a \<Rightarrow> Wrapped ptr option" where "wrap_outcome p = Some Null"

definition wrap_state :: "byte \<Rightarrow> Wrapped ptr option" where
  "wrap_state code = Some (Ref \<lparr>w_code = None, w_value = Wild,
     w_bytes = map Some [0x00, SMALL_ULONG, code, LIST_0]\<rparr>)"

subsection \<open>Lists\<close>

text \<open>A list under construction; \<open>count\<close> is unset until a field is.\<close>

record TlvList =
  tl_list :: "Wrapped list"
  tl_size :: int
  tl_width :: int
  tl_count :: "int option"
  tl_not_null :: int

definition new_list :: TlvList where
  "new_list = \<lparr>tl_list = [], tl_size = 0, tl_width = 1, tl_count = None, tl_not_null = 0\<rparr>"

text \<open>
  The step the code repeats for the \<open>k\<close>th field: wrap it and count it, or put a null in its place.
\<close>

definition add_field :: "int \<Rightarrow> ('a \<Rightarrow> Wrapped ptr option) \<Rightarrow> 'a ptr \<Rightarrow> TlvList \<Rightarrow> TlvList option" where
  "add_field k wrap p l =
     (case p of
        Null \<Rightarrow> Some (l\<lparr>tl_list := tl_list l @ [wrap_null]\<rparr>)
      | Wild \<Rightarrow> None
      | Ref v \<Rightarrow> do {
          r \<leftarrow> wrap v;
          w \<leftarrow> deref r;
          Some (l\<lparr>tl_list := tl_list l @ [w], tl_size := tl_size l + w_length w,
                 tl_count := Some k, tl_not_null := tl_not_null l + 1\<rparr>)
        })"

text \<open>\<open>tlv_list->size += tlv_list->count - count_not_null\<close>\<close>

definition count_nulls :: "TlvList \<Rightarrow> TlvList option" where
  "count_nulls l = do {
     count \<leftarrow> tl_count l;
     Some (l\<lparr>tl_size := tl_size l + (count - tl_not_null l)\<rparr>)
   }"

text \<open>
  \<open>get_bytes\<close> with the constructor: the size and the count, \<open>width\<close> bytes each, then \<open>size\<close> bytes of
  the buffer of the items, of which \<open>length\<close> counts only those that were copied there. The result is the
  first \<open>length\<close> bytes.
\<close>

definition be_bytes :: "int \<Rightarrow> int \<Rightarrow> byte list" where
  "be_bytes width n = rev (take (nat width) (le_bytes n))"

definition get_bytes :: "byte list \<Rightarrow> TlvList \<Rightarrow> mem option" where
  "get_bytes constructor l = do {
     count \<leftarrow> tl_count l;
     c_assert (count \<le> int (length (tl_list l)));
     let items = concat (map w_bytes (take (nat count) (tl_list l)));
     c_assert (int (length items) \<le> 4 * tl_size l);
     let value_bytes = items @ c_malloc (nat (4 * tl_size l) - length items);
     let len = length constructor + 2 * nat (tl_width l) + length items;
     let bytes = map Some constructor @
       (if tl_size l > 0
        then map Some (be_bytes (tl_width l) (tl_size l) @ be_bytes (tl_width l) count) @
             take (nat (tl_size l)) value_bytes
        else []);
     c_assert (length bytes \<le> 4 * len);
     Some (take len (bytes @ c_malloc (4 * len - length bytes)))
   }"

definition calculate_bytes :: "byte \<Rightarrow> TlvList \<Rightarrow> mem option" where
  "calculate_bytes header_code l =
     (if tl_size l > 255
      then get_bytes [0, SMALL_ULONG, header_code, LIST_32] (l\<lparr>tl_width := 4, tl_size := tl_size l + 3\<rparr>)
      else get_bytes [0, SMALL_ULONG, header_code, LIST_8] l)"

subsection \<open>Sources, targets and errors\<close>

text \<open>The strings of the enums: an index outside the table is undefined.\<close>

definition ascii :: "string \<Rightarrow> cstr" where
  "ascii s = map (\<lambda>c. of_nat (of_char c)) s"

definition string_of :: "string list \<Rightarrow> int \<Rightarrow> cstr ptr option" where
  "string_of strings p =
     (if 0 \<le> p \<and> p < int (length strings) then Some (Ref (ascii (strings ! nat p))) else None)"

definition string_terminus_expiry_policy :: "int \<Rightarrow> cstr ptr option" where
  "string_terminus_expiry_policy =
     string_of [''link-detach'', ''session-end'', ''connection-close'', ''never'']"

definition string_distribution_mode :: "int \<Rightarrow> cstr ptr option" where
  "string_distribution_mode = string_of [''move'', ''copy'']"

definition string_error_code :: "int \<Rightarrow> cstr ptr option" where
  "string_error_code = string_of [
    ''amqp:internal-error'', ''amqp:not-found'', ''amqp:unauthorized-access'',
    ''amqp:decode-error'', ''amqp:resource-limit-exceeded'', ''amqp:not-allowed'',
    ''amqp:invalid-field'', ''amqp:not-implemented'', ''amqp:resource-locked'',
    ''amqp:precondition-failed'', ''amqp:resource-deleted'', ''amqp:illegal-state'',
    ''amqp:frame-size-too-small'', ''amqp:connection-forced'', ''amqp:framing-error'',
    ''amqp:redirected'', ''amqp:window-violation'', ''amqp:errant-link'', ''amqp:handle-in-use'',
    ''amqp:unattached-handle'', ''amqp:detach-forced'', ''amqp:transfer-limit-exceeded'',
    ''amqp:message-size-exceeded'', ''amqp:redirect'', ''amqp:stolen'']"

definition wrap_enum :: "(int \<Rightarrow> cstr ptr option) \<Rightarrow> int \<Rightarrow> Wrapped ptr option" where
  "wrap_enum strings n = do { symbol \<leftarrow> strings n; wrap_symbol symbol }"

record AmqpSource =
  src_address :: "cstr ptr"
  src_durable :: "int ptr"
  src_expiry_period :: "int ptr"
  src_timeout :: "int ptr"
  src_dynamic :: "int ptr"
  src_dynamic_node_properties :: "unit ptr"
  src_distribution_mode :: "int ptr"
  src_filter :: "unit ptr"
  src_default_outcome :: "unit ptr"
  src_outcomes :: "unit ptr"
  src_capabilities :: "unit ptr"

record AmqpTarget =
  tgt_address :: "cstr ptr"
  tgt_durable :: "int ptr"
  tgt_expiry_period :: "int ptr"
  tgt_timeout :: "int ptr"
  tgt_dynamic :: "int ptr"
  tgt_dynamic_node_properties :: "unit ptr"
  tgt_capabilities :: "unit ptr"

record AmqpError =
  err_condition :: "int ptr"
  err_description :: "cstr ptr"
  err_info :: "unit ptr"

text \<open>
  Node properties without the dynamic flag end the function with NULL. The wrapped list is a
  value of its bytes only.
\<close>

definition wrapped_list :: "byte \<Rightarrow> TlvList \<Rightarrow> Wrapped ptr option" where
  "wrapped_list header_code l = do {
     l \<leftarrow> count_nulls l;
     bytes \<leftarrow> calculate_bytes header_code l;
     Some (Ref \<lparr>w_code = None, w_value = Wild, w_bytes = bytes\<rparr>)
   }"

text \<open>
  The field after the dynamic flag: \<open>None\<close> for the undefined reads, \<open>Some False\<close> where the function returns NULL.
\<close>

definition node_properties_ok :: "int ptr \<Rightarrow> unit ptr \<Rightarrow> bool option" where
  "node_properties_ok dynamic properties =
     (case properties of
        Null \<Rightarrow> Some True
      | Wild \<Rightarrow> None
      | Ref _ \<Rightarrow> (case dynamic of Ref d \<Rightarrow> Some (d \<noteq> 0) | Null \<Rightarrow> Some False | Wild \<Rightarrow> None))"

text \<open>The distribution mode is wrapped into another variable, and the length of its own, NULL, is read.\<close>

definition wrap_distribution_mode :: "int \<Rightarrow> Wrapped ptr option" where
  "wrap_distribution_mode n = do { _ \<leftarrow> wrap_enum string_distribution_mode n; Some Null }"

definition wrap_amqp_source :: "AmqpSource \<Rightarrow> Wrapped ptr option" where
  "wrap_amqp_source s = do {
     l \<leftarrow> add_field 1 wrap_string (src_address s) new_list;
     l \<leftarrow> add_field 2 wrap_long (src_durable s) l;
     l \<leftarrow> add_field 3 (wrap_enum string_terminus_expiry_policy) (src_expiry_period s) l;
     l \<leftarrow> add_field 4 wrap_long (src_timeout s) l;
     l \<leftarrow> add_field 5 wrap_bool (src_dynamic s) l;
     ok \<leftarrow> node_properties_ok (src_dynamic s) (src_dynamic_node_properties s);
     if ok then do {
       l \<leftarrow> add_field 6 wrap_map (src_dynamic_node_properties s) l;
       l \<leftarrow> add_field 7 wrap_distribution_mode (src_distribution_mode s) l;
       l \<leftarrow> add_field 8 wrap_map (src_filter s) l;
       l \<leftarrow> add_field 9 wrap_outcome (src_default_outcome s) l;
       l \<leftarrow> add_field 10 wrap_array (src_outcomes s) l;
       l \<leftarrow> add_field 11 wrap_array (src_capabilities s) l;
       wrapped_list 0x28 l
     } else Some Null
   }"

definition wrap_amqp_target :: "AmqpTarget \<Rightarrow> Wrapped ptr option" where
  "wrap_amqp_target t = do {
     l \<leftarrow> add_field 1 wrap_string (tgt_address t) new_list;
     l \<leftarrow> add_field 2 wrap_long (tgt_durable t) l;
     l \<leftarrow> add_field 3 (wrap_enum string_terminus_expiry_policy) (tgt_expiry_period t) l;
     l \<leftarrow> add_field 4 wrap_long (tgt_timeout t) l;
     l \<leftarrow> add_field 5 wrap_bool (tgt_dynamic t) l;
     ok \<leftarrow> node_properties_ok (tgt_dynamic t) (tgt_dynamic_node_properties t);
     if ok then do {
       l \<leftarrow> add_field 6 wrap_map (tgt_dynamic_node_properties t) l;
       l \<leftarrow> add_field 7 wrap_list (tgt_capabilities t) l;
       wrapped_list 0x29 l
     } else Some Null
   }"

text \<open>The third field of an error sets the count to 2.\<close>

definition wrap_amqp_error :: "AmqpError \<Rightarrow> Wrapped ptr option" where
  "wrap_amqp_error e = do {
     l \<leftarrow> add_field 1 (wrap_enum string_error_code) (err_condition e) new_list;
     l \<leftarrow> add_field 2 wrap_string (err_description e) l;
     l \<leftarrow> add_field 2 wrap_map (err_info e) l;
     wrapped_list 0x1D l
   }"

subsection \<open>What is wrapped\<close>

text \<open>
  The size field of a list is the length of its items, one less than the protocol's: the encodings are
  those of \<open>amqp_bytes id\<close>. \<open>carries\<close> relates a field to its value, \<open>VNull\<close> for an absent one.
\<close>

abbreviation own_bytes :: "amqp_value \<Rightarrow> byte list" where
  "own_bytes \<equiv> amqp_bytes id"

definition carries :: "('a \<Rightarrow> Wrapped ptr option) \<Rightarrow> 'a ptr \<Rightarrow> amqp_value \<Rightarrow> bool" where
  "carries wrap p v \<longleftrightarrow> p = Null \<and> v = VNull \<or>
     (\<exists>x w. p = Ref x \<and> wrap x = Some (Ref w) \<and> w_bytes w = map Some (own_bytes v) \<and> v \<noteq> VNull)"

named_theorems wraps "fields that carry a value"

lemma carries_Null [wraps]: "carries wrap Null VNull"
  by (simp add: carries_def)

lemma carriesI:
  "wrap x = Some (Ref w) \<Longrightarrow> w_bytes w = map Some (own_bytes v) \<Longrightarrow> v \<noteq> VNull \<Longrightarrow> carries wrap (Ref x) v"
  by (auto simp: carries_def)

lemma rd_n_all: "n = int (length v) \<Longrightarrow> rd_n v 0 n = Some v"
  using rd_n_here [of n v "[]"] by simp

lemma init_tlv_variable_all:
  assumes "n = int (length v)" "length v \<le> 255"
  shows "init_tlv_variable c v n = Some (wrapped c (Ref v) (of_nat (length v) # v))"
  using assms by (cases "v = []") (simp_all add: init_tlv_variable_def rd_n_all)

lemma wrap_null_bytes: "w_bytes wrap_null = map Some (own_bytes VNull)"
  by (simp add: wrap_null_def wrapped_def)

lemma carries_string [wraps]: "length s \<le> 255 \<Longrightarrow> carries wrap_string (Ref s) (VString s)"
  by (rule carriesI, simp add: wrap_string_def init_tlv_variable_all) (simp_all add: wrapped_def)

lemma carries_symbol [wraps]: "length s \<le> 255 \<Longrightarrow> carries (\<lambda>v. wrap_symbol (Ref v)) (Ref s) (VSymbol s)"
  by (rule carriesI, simp add: wrap_symbol_def init_tlv_variable_all) (simp_all add: wrapped_def)

lemma carries_binary [wraps]:
  "length v \<le> 255 \<Longrightarrow> n = int (length v) \<Longrightarrow> carries (\<lambda>v. wrap_binary v n) (Ref v) (VBinary v)"
  by (rule carriesI, simp add: wrap_binary_def init_tlv_variable_all) (simp_all add: wrapped_def)

lemma carries_bool [wraps]: "carries wrap_bool (Ref n) (VBool (n \<noteq> 0))"
  by (rule carriesI, simp add: wrap_bool_def init_tlv_fixed_def) (simp_all add: wrapped_def)

lemma uint_word_range:
  "0 \<le> n \<Longrightarrow> n < 2 ^ 32 \<Longrightarrow> uint (of_int n :: u32) = n"
  by (simp add: uint_word_of_int)

lemma carries_long [wraps]:
  assumes "0 \<le> n" "n < 2 ^ 32"
  shows "carries wrap_long (Ref n) (VUint (of_int n))"
proof (rule carriesI)
  have u: "uint (of_int n :: u32) = n" by (rule uint_word_range [OF assms])
  then have "(of_int n :: u32) = 0 \<longleftrightarrow> n = 0" "(of_int n :: u32) < 256 \<longleftrightarrow> n < 256"
    by (metis uint_0_iff, simp add: word_less_def u)
  moreover have "ucast (of_int n :: u32) = (of_int n :: byte)"
    by (rule bit_word_eqI) (simp add: bit_simps)
  ultimately show "w_bytes (wrap_uint n) = map Some (own_bytes (VUint (of_int n)))"
    using assms(1) by (auto simp: wrap_uint_def wrapped_def)
qed (use assms in \<open>simp_all add: wrap_long_def\<close>)

lemma carries_short [wraps]: "0 \<le> n \<Longrightarrow> carries wrap_short (Ref n) (VUbyte (of_int n))"
  by (rule carriesI, simp add: wrap_short_def init_tlv_fixed_def rd_n_def) (simp_all add: wrapped_def)

lemma carries_state [wraps]: "carries wrap_state (Ref c) (VDescribed c (VList []))"
  by (rule carriesI, simp add: wrap_state_def) (simp_all add: wrapped_def)

text \<open>
  A list under construction for the values \<open>vs\<close>. What is sent are the values without the nulls at their
  end, which the count leaves out.
\<close>

definition strip :: "amqp_value list \<Rightarrow> amqp_value list" where
  "strip vs = rev (dropWhile (\<lambda>v. v = VNull) (rev vs))"

lemma strip_snoc [simp]: "strip (vs @ [v]) = (if v = VNull then strip vs else vs @ [v])"
  by (simp add: strip_def)

lemma strip_Nil [simp]: "strip [] = []"
  by (simp add: strip_def)

lemma length_strip: "length (strip vs) \<le> length vs"
  by (induction vs rule: rev_induct) auto

lemma take_strip: "take (length (strip vs)) vs = strip vs"
  by (induction vs rule: rev_induct) (auto simp: length_strip)

definition item_bytes :: "amqp_value list \<Rightarrow> byte list" where
  "item_bytes vs = concat (map own_bytes vs)"

definition built :: "TlvList \<Rightarrow> amqp_value list \<Rightarrow> bool" where
  "built l vs \<longleftrightarrow> map w_bytes (tl_list l) = map (\<lambda>v. map Some (own_bytes v)) vs \<and>
     tl_width l = 1 \<and>
     tl_count l = (if strip vs = [] then None else Some (int (length (strip vs)))) \<and>
     tl_not_null l = int (length (filter (\<lambda>v. v \<noteq> VNull) vs)) \<and>
     tl_size l + (int (length (strip vs)) - tl_not_null l) = int (length (item_bytes (strip vs)))"

lemma built_new [simp]: "built new_list []"
  by (simp add: built_def new_list_def item_bytes_def)

lemma built_count: "built l vs \<Longrightarrow> length (tl_list l) = length vs"
  unfolding built_def by (metis length_map)

lemma item_bytes_strip:
  "int (length (item_bytes vs)) - int (length vs) = int (length (item_bytes (strip vs))) - int (length (strip vs))"
  by (induction vs rule: rev_induct) (auto simp: item_bytes_def)

lemma add_field_built:
  assumes "built l vs" "carries wrap p v" "k = int (length vs) + 1"
  obtains l' where "add_field k wrap p l = Some l'" "built l' (vs @ [v])"
proof (cases "p = Null")
  case True
  then have "add_field k wrap p l = Some (l\<lparr>tl_list := tl_list l @ [wrap_null]\<rparr>)" "v = VNull"
    using assms(2) by (auto simp: add_field_def carries_def)
  then show ?thesis using that assms(1) by (simp add: built_def wrap_null_bytes)
next
  case False
  then obtain x w where w: "p = Ref x" "wrap x = Some (Ref w)" "w_bytes w = map Some (own_bytes v)" "v \<noteq> VNull"
    using assms(2) by (auto simp: carries_def)
  then have "add_field k wrap p l = Some (l\<lparr>tl_list := tl_list l @ [w], tl_size := tl_size l + w_length w,
      tl_count := Some k, tl_not_null := tl_not_null l + 1\<rparr>)"
    by (simp add: add_field_def)
  moreover have "tl_size l + w_length w + (int (length (vs @ [v])) - (tl_not_null l + 1)) =
      int (length (item_bytes (vs @ [v])))"
    using assms(1) w(3) item_bytes_strip [of vs] by (simp add: built_def w_length_def item_bytes_def)
  ultimately show ?thesis using that assms(1,3) w by (simp add: built_def)
qed

lemma le_bytes_small:
  "0 \<le> n \<Longrightarrow> n < 256 \<Longrightarrow> be_bytes 1 n = [of_int n]"
  by (simp add: be_bytes_def le_bytes_def int_bytes_def) (auto intro!: bit_word_eqI simp: bit_simps)

lemma calculate_built:
  assumes "built l vs" "strip vs \<noteq> []" "length (item_bytes (strip vs)) \<le> 255"
  obtains l' where "count_nulls l = Some l'"
    "calculate_bytes code l' = Some (map Some (own_bytes (VDescribed code (VList (strip vs)))))"
proof -
  let ?vs = "strip vs"
  let ?n = "length (item_bytes ?vs)"
  define l' where "l' = l\<lparr>tl_size := int ?n\<rparr>"
  have nulls: "count_nulls l = Some l'"
    using assms(1,2) by (simp add: count_nulls_def built_def l'_def)
  have k: "length ?vs \<le> ?n"
  proof -
    have one: "1 \<le> length (own_bytes v)" for v by (cases v) (auto simp: Let_def)
    have "length ws \<le> length (item_bytes ws)" for ws
    proof (induction ws)
      case (Cons w ws)
      then show ?case using one [of w] by (simp add: item_bytes_def)
    qed simp
    then show ?thesis .
  qed
  have pos: "0 < ?n" using k assms(2) by (cases ?vs) auto
  have items: "concat (map w_bytes (take (length ?vs) (tl_list l))) = map Some (item_bytes ?vs)"
  proof -
    have "map w_bytes (take (length ?vs) (tl_list l)) = map (\<lambda>v. map Some (own_bytes v)) ?vs"
    proof -
      have "map w_bytes (tl_list l) = map (\<lambda>v. map Some (own_bytes v)) vs"
        using assms(1) by (simp add: built_def)
      then show ?thesis by (simp only: take_map [symmetric]) (simp only: take_map take_strip)
    qed
    then show ?thesis by (simp add: item_bytes_def map_concat comp_def)
  qed
  have len: "length ?vs \<le> length (tl_list l)"
    using built_count [OF assms(1)] take_strip [of vs] by (metis length_take min.cobounded1)
  have "get_bytes c l' = Some (map Some (c @ of_nat ?n # of_nat (length ?vs) # item_bytes ?vs))" for c
    using assms k pos len items le_bytes_small [of "int ?n"] le_bytes_small [of "int (length ?vs)"]
    by (simp add: get_bytes_def built_def l'_def Let_def)
  then show thesis
    using that [OF nulls] assms(2,3) by (simp add: calculate_bytes_def l'_def item_bytes_def Let_def)
qed

end
