(* ===== verification/AmqpEncode.thy ===== *)
theory AmqpEncode
  imports AmqpWrap
begin

text \<open>
  src/src/amqp/packets, and the encoder of src/src/amqp/amqp_parser.c: \<open>amqp_encode\<close>, \<open>add_arguments\<close> and
  \<open>add_section\<close>.
\<close>

subsection \<open>Packets\<close>

text \<open>
  A pointer field that was never set is \<open>Wild\<close>, a number that may not be an option. What the code only
  tests for NULL is \<open>unit\<close>; a message format is its number, a state its code.
\<close>

abbreviation (input) OPEN :: byte where "OPEN \<equiv> 0x10"
abbreviation (input) BEGIN :: byte where "BEGIN \<equiv> 0x11"
abbreviation (input) ATTACH :: byte where "ATTACH \<equiv> 0x12"
abbreviation (input) FLOW :: byte where "FLOW \<equiv> 0x13"
abbreviation (input) TRANSFER :: byte where "TRANSFER \<equiv> 0x14"
abbreviation (input) DISPOSITION :: byte where "DISPOSITION \<equiv> 0x15"
abbreviation (input) DETACH :: byte where "DETACH \<equiv> 0x16"
abbreviation (input) AMQP_END :: byte where "AMQP_END \<equiv> 0x17"
abbreviation (input) CLOSE :: byte where "CLOSE \<equiv> 0x18"
abbreviation (input) MECHANISMS :: byte where "MECHANISMS \<equiv> 0x40"
abbreviation (input) INIT :: byte where "INIT \<equiv> 0x41"
abbreviation (input) CHALLENGE :: byte where "CHALLENGE \<equiv> 0x42"
abbreviation (input) RESPONSE :: byte where "RESPONSE \<equiv> 0x43"
abbreviation (input) OUTCOME :: byte where "OUTCOME \<equiv> 0x44"
abbreviation (input) PING :: byte where "PING \<equiv> 0xff"
abbreviation (input) PROTO :: byte where "PROTO \<equiv> 0xfe"
abbreviation (input) DATA :: byte where "DATA \<equiv> 0x75"

record AmqpProtoHeader =
  proto_protocol :: "cstr ptr"
  proto_id :: int
  proto_version :: "(int \<times> int \<times> int) option"

record AmqpOpen =
  open_container_id :: "cstr ptr"
  open_hostname :: "cstr ptr"
  open_max_frame_size :: "int ptr"
  open_channel_max :: "int ptr"
  open_idle_timeout :: "int ptr"

record AmqpBegin =
  begin_remote_channel :: "int ptr"
  begin_next_outgoing_id :: "int ptr"
  begin_incoming_window :: "int ptr"
  begin_outgoing_window :: "int ptr"
  begin_handle_max :: "int ptr"
  begin_offered_capabilities :: "unit ptr"
  begin_desired_capabilities :: "unit ptr"
  begin_properties :: "unit ptr"

record AmqpAttach =
  att_name :: "cstr ptr"
  att_handle :: "int ptr"
  att_role :: "int ptr"
  att_snd_settle_mode :: "int ptr"
  att_rcv_settle_mode :: "int ptr"
  att_source :: "AmqpSource ptr"
  att_target :: "AmqpTarget ptr"
  att_unsettled :: "unit ptr"
  att_incomplete_unsettled :: "int ptr"
  att_initial_delivery_count :: "int ptr"
  att_max_message_size :: "int ptr"
  att_offered_capabilities :: "unit ptr"
  att_desired_capabilities :: "unit ptr"
  att_properties :: "unit ptr"

record AmqpData =
  dat_data :: "byte list ptr"
  dat_length :: "int option"

record SectionEntry =
  sec_code :: byte
  sec_section :: "AmqpData ptr"

record AmqpTransfer =
  tra_handle :: "int ptr"
  tra_delivery_id :: "int ptr"
  tra_delivery_tag :: "byte list ptr"
  tra_delivery_tag_length :: "int ptr"
  tra_message_format :: "int ptr"
  tra_settled :: "int ptr"
  tra_more :: "int ptr"
  tra_rcv_settle_mode :: "int ptr"
  tra_state :: "byte ptr"
  tra_resume :: "int ptr"
  tra_aborted :: "int ptr"
  tra_batchable :: "int ptr"
  tra_sections :: "SectionEntry list ptr"
  tra_section_number :: "int ptr"

record AmqpDisposition =
  dis_role :: "int ptr"
  dis_first :: "int ptr"
  dis_last :: "int ptr"
  dis_settled :: "int ptr"
  dis_state :: "byte ptr"
  dis_batchable :: "int ptr"

record AmqpDetach =
  det_handle :: "int ptr"
  det_closed :: "int ptr"
  det_error :: "AmqpError ptr"

record SaslInit =
  ini_mechanism :: "cstr ptr"
  ini_response :: "byte list ptr"
  ini_response_length :: "int option"
  ini_host_name :: "cstr ptr"

record SaslOutcome =
  out_code :: "int option"
  out_additional_data :: "byte list ptr"

datatype amqp_packet =
    AProto AmqpProtoHeader | AOpen AmqpOpen | ABegin AmqpBegin | AAttach AmqpAttach | AFlow
  | ATransfer AmqpTransfer | ADisposition AmqpDisposition | ADetach AmqpDetach | AEnd | AClose
  | AMechanisms "cstr ptr" | AInit SaslInit | AChallenge "byte list ptr" | AResponse
  | AOutcome SaslOutcome

record AmqpHeader =
  hdr_code :: "byte option"
  hdr_doff :: "int option"
  hdr_type :: "int option"
  hdr_channel :: "int option"
  hdr_packet :: "amqp_packet ptr"

text \<open>The casts of \<open>header->packet\<close>.\<close>

definition as_proto :: "AmqpHeader \<Rightarrow> AmqpProtoHeader option" where
  "as_proto h = do { p \<leftarrow> deref (hdr_packet h); case p of AProto x \<Rightarrow> Some x | _ \<Rightarrow> None }"
definition as_open :: "AmqpHeader \<Rightarrow> AmqpOpen option" where
  "as_open h = do { p \<leftarrow> deref (hdr_packet h); case p of AOpen x \<Rightarrow> Some x | _ \<Rightarrow> None }"
definition as_begin :: "AmqpHeader \<Rightarrow> AmqpBegin option" where
  "as_begin h = do { p \<leftarrow> deref (hdr_packet h); case p of ABegin x \<Rightarrow> Some x | _ \<Rightarrow> None }"
definition as_attach :: "AmqpHeader \<Rightarrow> AmqpAttach option" where
  "as_attach h = do { p \<leftarrow> deref (hdr_packet h); case p of AAttach x \<Rightarrow> Some x | _ \<Rightarrow> None }"
definition as_transfer :: "AmqpHeader \<Rightarrow> AmqpTransfer option" where
  "as_transfer h = do { p \<leftarrow> deref (hdr_packet h); case p of ATransfer x \<Rightarrow> Some x | _ \<Rightarrow> None }"
definition as_disposition :: "AmqpHeader \<Rightarrow> AmqpDisposition option" where
  "as_disposition h = do { p \<leftarrow> deref (hdr_packet h); case p of ADisposition x \<Rightarrow> Some x | _ \<Rightarrow> None }"
definition as_detach :: "AmqpHeader \<Rightarrow> AmqpDetach option" where
  "as_detach h = do { p \<leftarrow> deref (hdr_packet h); case p of ADetach x \<Rightarrow> Some x | _ \<Rightarrow> None }"
definition as_init :: "AmqpHeader \<Rightarrow> SaslInit option" where
  "as_init h = do { p \<leftarrow> deref (hdr_packet h); case p of AInit x \<Rightarrow> Some x | _ \<Rightarrow> None }"
definition as_mechanisms :: "AmqpHeader \<Rightarrow> cstr ptr option" where
  "as_mechanisms h = do { p \<leftarrow> deref (hdr_packet h); case p of AMechanisms x \<Rightarrow> Some x | _ \<Rightarrow> None }"
definition as_outcome :: "AmqpHeader \<Rightarrow> SaslOutcome option" where
  "as_outcome h = do { p \<leftarrow> deref (hdr_packet h); case p of AOutcome x \<Rightarrow> Some x | _ \<Rightarrow> None }"

lemmas as_amqp_defs = as_proto_def as_open_def as_begin_def as_attach_def as_transfer_def
  as_disposition_def as_detach_def as_init_def as_mechanisms_def as_outcome_def

subsection \<open>The encoder\<close>

text \<open>
  The arguments of a packet, the \<open>bytes\<close> and \<open>length\<close> of the list: NULL where a mandatory field is missing,
  \<open>Wild\<close> for the packets whose list stays empty and unset. The mandatory fields are tested on the way, but nothing the
  fields before them do is seen when the test fails.
\<close>

definition mandatory :: "bool \<Rightarrow> mem option \<Rightarrow> mem ptr option" where
  "mandatory ok m = (if ok then map_option Ref m else Some Null)"

definition arguments_of :: "byte \<Rightarrow> TlvList option \<Rightarrow> mem option" where
  "arguments_of code list = do { l \<leftarrow> list; l \<leftarrow> count_nulls l; calculate_bytes code l }"

text \<open>A response that is absent leaves the second item unset, which is read when a third follows.\<close>

definition add_init :: "SaslInit \<Rightarrow> mem ptr option" where
  "add_init s = mandatory (ini_mechanism s \<noteq> Null) (do {
     l \<leftarrow> add_field 1 (\<lambda>v. wrap_symbol (Ref v)) (ini_mechanism s) new_list;
     l \<leftarrow> add_field 2 (\<lambda>v. do { n \<leftarrow> ini_response_length s; wrap_binary v n }) (ini_response s) l;
     l \<leftarrow> add_field 3 wrap_string (ini_host_name s) l;
     c_assert (ini_host_name s = Null \<or> ini_response s \<noteq> Null);
     calculate_bytes INIT l
   })"

definition add_open :: "AmqpOpen \<Rightarrow> mem ptr option" where
  "add_open p = mandatory (open_container_id p \<noteq> Null) (arguments_of OPEN (do {
     l \<leftarrow> add_field 1 wrap_string (open_container_id p) new_list;
     l \<leftarrow> add_field 2 wrap_string (open_hostname p) l;
     l \<leftarrow> add_field 3 wrap_long (open_max_frame_size p) l;
     l \<leftarrow> add_field 4 wrap_int (open_channel_max p) l;
     add_field 5 wrap_long (open_idle_timeout p) l
   }))"

text \<open>The incoming window is tested in place of the outgoing one.\<close>

definition add_begin :: "AmqpBegin \<Rightarrow> mem ptr option" where
  "add_begin p = mandatory (begin_next_outgoing_id p \<noteq> Null \<and> begin_incoming_window p \<noteq> Null)
     (arguments_of BEGIN (do {
       l \<leftarrow> add_field 1 wrap_int (begin_remote_channel p) new_list;
       l \<leftarrow> add_field 2 wrap_long (begin_next_outgoing_id p) l;
       l \<leftarrow> add_field 3 wrap_long (begin_incoming_window p) l;
       l \<leftarrow> add_field 4 wrap_long (begin_outgoing_window p) l;
       l \<leftarrow> add_field 5 wrap_long (begin_handle_max p) l;
       l \<leftarrow> add_field 6 wrap_array (begin_offered_capabilities p) l;
       l \<leftarrow> add_field 7 wrap_array (begin_desired_capabilities p) l;
       add_field 8 wrap_map (begin_properties p) l
     }))"

text \<open>
  A settle mode is an enum read as, or copied to, a \<open>short\<close>. The test of the role of an attach without
  delivery count compares the pointer with SENDER, 0, and is false.
\<close>

definition wrap_mode :: "int \<Rightarrow> Wrapped ptr option" where
  "wrap_mode n = wrap_short (sint (of_int n :: u16))"

definition add_attach :: "AmqpAttach \<Rightarrow> mem ptr option" where
  "add_attach p = mandatory (att_name p \<noteq> Null \<and> att_handle p \<noteq> Null \<and> att_role p \<noteq> Null)
     (arguments_of ATTACH (do {
       l \<leftarrow> add_field 1 wrap_string (att_name p) new_list;
       l \<leftarrow> add_field 2 wrap_long (att_handle p) l;
       l \<leftarrow> add_field 3 wrap_bool (att_role p) l;
       l \<leftarrow> add_field 4 wrap_mode (att_snd_settle_mode p) l;
       l \<leftarrow> add_field 5 wrap_mode (att_rcv_settle_mode p) l;
       l \<leftarrow> add_field 6 wrap_amqp_source (att_source p) l;
       l \<leftarrow> add_field 7 wrap_amqp_target (att_target p) l;
       l \<leftarrow> add_field 8 wrap_map (att_unsettled p) l;
       l \<leftarrow> add_field 9 wrap_int (att_incomplete_unsettled p) l;
       l \<leftarrow> add_field 10 wrap_long (att_initial_delivery_count p) l;
       l \<leftarrow> add_field 11 wrap_long (att_max_message_size p) l;
       l \<leftarrow> add_field 12 wrap_array (att_offered_capabilities p) l;
       l \<leftarrow> add_field 13 wrap_array (att_desired_capabilities p) l;
       add_field 14 wrap_map (att_properties p) l
     }))"

text \<open>An aborted flag is wrapped into the variable of the flag before it, and the length of its own, NULL, is read.\<close>

definition wrap_aborted :: "int \<Rightarrow> Wrapped ptr option" where
  "wrap_aborted n = do { _ \<leftarrow> wrap_bool n; Some Null }"

definition add_transfer :: "AmqpTransfer \<Rightarrow> mem ptr option" where
  "add_transfer p = mandatory (tra_handle p \<noteq> Null) (arguments_of TRANSFER (do {
     l \<leftarrow> add_field 1 wrap_long (tra_handle p) new_list;
     l \<leftarrow> add_field 2 wrap_long (tra_delivery_id p) l;
     l \<leftarrow> add_field 3 (\<lambda>v. do { n \<leftarrow> deref (tra_delivery_tag_length p); wrap_binary v n })
       (tra_delivery_tag p) l;
     l \<leftarrow> add_field 4 wrap_long (tra_message_format p) l;
     l \<leftarrow> add_field 5 wrap_bool (tra_settled p) l;
     l \<leftarrow> add_field 6 wrap_bool (tra_more p) l;
     l \<leftarrow> add_field 7 wrap_mode (tra_rcv_settle_mode p) l;
     l \<leftarrow> add_field 8 wrap_state (tra_state p) l;
     l \<leftarrow> add_field 9 wrap_bool (tra_resume p) l;
     l \<leftarrow> add_field 10 wrap_aborted (tra_aborted p) l;
     add_field 11 wrap_bool (tra_batchable p) l
   }))"

definition add_disposition :: "AmqpDisposition \<Rightarrow> mem ptr option" where
  "add_disposition p = mandatory (dis_role p \<noteq> Null \<and> dis_first p \<noteq> Null)
     (arguments_of DISPOSITION (do {
       l \<leftarrow> add_field 1 wrap_bool (dis_role p) new_list;
       l \<leftarrow> add_field 2 wrap_long (dis_first p) l;
       l \<leftarrow> add_field 3 wrap_long (dis_last p) l;
       l \<leftarrow> add_field 4 wrap_bool (dis_settled p) l;
       l \<leftarrow> add_field 5 wrap_state (dis_state p) l;
       add_field 6 wrap_bool (dis_batchable p) l
     }))"

definition add_detach :: "AmqpDetach \<Rightarrow> mem ptr option" where
  "add_detach p = mandatory (det_handle p \<noteq> Null) (arguments_of DETACH (do {
     l \<leftarrow> add_field 1 wrap_long (det_handle p) new_list;
     l \<leftarrow> add_field 2 wrap_bool (det_closed p) l;
     add_field 3 wrap_amqp_error (det_error p) l
   }))"

definition add_end :: "byte \<Rightarrow> mem ptr option" where
  "add_end code = map_option Ref (calculate_bytes code
     \<lparr>tl_list = [wrap_null], tl_size = 2, tl_width = 1, tl_count = Some 1, tl_not_null = 0\<rparr>)"

definition add_arguments :: "byte \<Rightarrow> AmqpHeader \<Rightarrow> mem ptr option" where
  "add_arguments code h =
     (if code = INIT then do { p \<leftarrow> as_init h; add_init p }
      else if code = OPEN then do { p \<leftarrow> as_open h; add_open p }
      else if code = BEGIN then do { p \<leftarrow> as_begin h; add_begin p }
      else if code = ATTACH then do { p \<leftarrow> as_attach h; add_attach p }
      else if code = TRANSFER then do { p \<leftarrow> as_transfer h; add_transfer p }
      else if code = DISPOSITION then do { p \<leftarrow> as_disposition h; add_disposition p }
      else if code = DETACH then do { p \<leftarrow> as_detach h; add_detach p }
      else if code = CLOSE \<or> code = AMQP_END then add_end code
      else Some Wild)"

text \<open>
  A section: for every code but DATA its length stays unset. The bytes are those of the array the
  value was wrapped from, two less than the value has.
\<close>

definition add_section :: "SectionEntry \<Rightarrow> mem option" where
  "add_section e =
     (if sec_code e = DATA then do {
        data \<leftarrow> deref (sec_section e);
        v \<leftarrow> deref (dat_data data);
        n \<leftarrow> dat_length data;
        r \<leftarrow> wrap_binary v n;
        t \<leftarrow> deref r;
        code \<leftarrow> w_code t;
        value_array \<leftarrow> deref (w_value t);
        bs \<leftarrow> rd_n value_array 0 (w_length t - 2);
        Some (map Some ([0, SMALL_ULONG, sec_code e, code, of_int (w_length t - 2)] @ bs))
      } else None)"

fun add_sections :: "nat \<Rightarrow> SectionEntry list \<Rightarrow> mem option" where
  "add_sections 0 es = Some []"
| "add_sections (Suc k) [] = None"
| "add_sections (Suc k) (e # es) = do {
     s \<leftarrow> add_section e;
     r \<leftarrow> add_sections k es;
     Some (s @ r)
   }"

definition transfer_sections :: "AmqpTransfer \<Rightarrow> mem option" where
  "transfer_sections p =
     (case tra_sections p of
        Null \<Rightarrow> Some []
      | Wild \<Rightarrow> None
      | Ref es \<Rightarrow> do { n \<leftarrow> deref (tra_section_number p); add_sections (nat n) es })"

definition sections_of :: "byte \<Rightarrow> AmqpHeader \<Rightarrow> mem option" where
  "sections_of code h =
     (if code = TRANSFER then do { p \<leftarrow> as_transfer h; transfer_sections p } else Some [])"

text \<open>Doff, type and channel, as one byte each and a short.\<close>

definition header_bytes :: "AmqpHeader \<Rightarrow> byte list option" where
  "header_bytes h = do {
     doff \<leftarrow> hdr_doff h;
     type \<leftarrow> hdr_type h;
     channel \<leftarrow> hdr_channel h;
     Some ([of_int doff, of_int type] @ short_bytes (of_int channel))
   }"

text \<open>The first \<open>*length\<close> bytes of the result. The protocol header is written to eight bytes.\<close>

definition amqp_encode :: "AmqpHeader \<Rightarrow> mem option" where
  "amqp_encode h = do {
     code \<leftarrow> hdr_code h;
     if code = PROTO then do {
       proto \<leftarrow> as_proto h;
       protocol \<leftarrow> deref (proto_protocol proto);
       (major, minor, revision) \<leftarrow> proto_version proto;
       map_option fst (put (protocol @ map of_int [proto_id proto, major, minor, revision]) (c_malloc 8, 0))
     } else if code = PING then do {
       h \<leftarrow> header_bytes h;
       Some (map Some (int_bytes 8 @ h))
     } else do {
       r \<leftarrow> add_arguments code h;
       arguments \<leftarrow> deref r;
       hs \<leftarrow> header_bytes h;
       sections \<leftarrow> sections_of code h;
       Some (map Some (int_bytes (of_nat (8 + length arguments + length sections)) @ hs) @ arguments @ sections)
     }
   }"

subsection \<open>What is encoded\<close>

text \<open>
  The values of a packet in the order of its fields, \<open>VNull\<close> for an absent one, without those the code cannot
  wrap. A \<open>ushort\<close> has its bytes in memory order, low byte first.
\<close>

definition opt :: "('a \<Rightarrow> amqp_value) \<Rightarrow> 'a ptr \<Rightarrow> amqp_value" where
  "opt f p = (case p of Ref x \<Rightarrow> f x | _ \<Rightarrow> VNull)"

definition field :: "('a \<Rightarrow> bool) \<Rightarrow> 'a ptr \<Rightarrow> bool" where
  "field P p = (case p of Ref x \<Rightarrow> P x | Null \<Rightarrow> True | Wild \<Rightarrow> False)"

definition uint_value :: "int \<Rightarrow> amqp_value" where "uint_value n = VUint (of_int n)"
definition mode_value :: "int \<Rightarrow> amqp_value" where "mode_value n = VUbyte (of_int n)"
definition bool_value :: "int \<Rightarrow> amqp_value" where "bool_value n = VBool (n \<noteq> 0)"
definition state_value :: "byte \<Rightarrow> amqp_value" where "state_value c = VDescribed c (VList [])"
definition swapped_value :: "int \<Rightarrow> amqp_value" where
  "swapped_value n = VUshort (let w = of_int n in push_bit 8 w OR drop_bit 8 w)"

abbreviation (input) short_bytes_ok :: "byte list \<Rightarrow> bool" where
  "short_bytes_ok s \<equiv> length s \<le> 255"
abbreviation (input) c_ulong :: "int \<Rightarrow> bool" where
  "c_ulong n \<equiv> 0 \<le> n \<and> n < 2 ^ 31"
abbreviation (input) c_mode :: "int \<Rightarrow> bool" where
  "c_mode n \<equiv> 0 \<le> n \<and> n < 2 ^ 15"

definition source_fields :: "AmqpSource \<Rightarrow> amqp_value list" where
  "source_fields s = [opt VString (src_address s), opt uint_value (src_durable s), VNull,
     opt uint_value (src_timeout s), opt bool_value (src_dynamic s), VNull, VNull, VNull, VNull, VNull, VNull]"

definition source_ok :: "AmqpSource \<Rightarrow> bool" where
  "source_ok s \<longleftrightarrow> field short_bytes_ok (src_address s) \<and> field c_ulong (src_durable s) \<and>
     src_expiry_period s = Null \<and> field c_ulong (src_timeout s) \<and> field (\<lambda>_. True) (src_dynamic s) \<and>
     src_dynamic_node_properties s = Null \<and> src_distribution_mode s = Null \<and> src_filter s = Null \<and>
     src_default_outcome s = Null \<and> src_outcomes s = Null \<and> src_capabilities s = Null \<and>
     strip (source_fields s) \<noteq> []"

definition target_fields :: "AmqpTarget \<Rightarrow> amqp_value list" where
  "target_fields t = [opt VString (tgt_address t), opt uint_value (tgt_durable t), VNull,
     opt uint_value (tgt_timeout t), opt bool_value (tgt_dynamic t), VNull, VNull]"

definition target_ok :: "AmqpTarget \<Rightarrow> bool" where
  "target_ok t \<longleftrightarrow> field short_bytes_ok (tgt_address t) \<and> field c_ulong (tgt_durable t) \<and>
     tgt_expiry_period t = Null \<and> field c_ulong (tgt_timeout t) \<and> field (\<lambda>_. True) (tgt_dynamic t) \<and>
     tgt_dynamic_node_properties t = Null \<and> tgt_capabilities t = Null \<and> strip (target_fields t) \<noteq> []"

definition source_value :: "AmqpSource \<Rightarrow> amqp_value" where
  "source_value s = VDescribed 0x28 (VList (strip (source_fields s)))"

definition target_value :: "AmqpTarget \<Rightarrow> amqp_value" where
  "target_value t = VDescribed 0x29 (VList (strip (target_fields t)))"

fun amqp_code :: "amqp_packet \<Rightarrow> byte" where
  "amqp_code (AProto _) = PROTO"
| "amqp_code (AOpen _) = OPEN"
| "amqp_code (ABegin _) = BEGIN"
| "amqp_code (AAttach _) = ATTACH"
| "amqp_code AFlow = FLOW"
| "amqp_code (ATransfer _) = TRANSFER"
| "amqp_code (ADisposition _) = DISPOSITION"
| "amqp_code (ADetach _) = DETACH"
| "amqp_code AEnd = AMQP_END"
| "amqp_code AClose = CLOSE"
| "amqp_code (AMechanisms _) = MECHANISMS"
| "amqp_code (AInit _) = INIT"
| "amqp_code (AChallenge _) = CHALLENGE"
| "amqp_code AResponse = RESPONSE"
| "amqp_code (AOutcome _) = OUTCOME"

fun amqp_fields :: "amqp_packet \<Rightarrow> amqp_value list" where
  "amqp_fields (AOpen p) = [opt VString (open_container_id p), opt VString (open_hostname p),
     opt uint_value (open_max_frame_size p), opt swapped_value (open_channel_max p),
     opt uint_value (open_idle_timeout p)]"
| "amqp_fields (ABegin p) = [opt swapped_value (begin_remote_channel p),
     opt uint_value (begin_next_outgoing_id p), opt uint_value (begin_incoming_window p),
     opt uint_value (begin_outgoing_window p), opt uint_value (begin_handle_max p), VNull, VNull, VNull]"
| "amqp_fields (AAttach p) = [opt VString (att_name p), opt uint_value (att_handle p),
     opt bool_value (att_role p), opt mode_value (att_snd_settle_mode p),
     opt mode_value (att_rcv_settle_mode p), opt source_value (att_source p),
     opt target_value (att_target p), VNull, opt swapped_value (att_incomplete_unsettled p),
     opt uint_value (att_initial_delivery_count p), opt uint_value (att_max_message_size p),
     VNull, VNull, VNull]"
| "amqp_fields (ATransfer p) = [opt uint_value (tra_handle p), opt uint_value (tra_delivery_id p),
     opt VBinary (tra_delivery_tag p), opt uint_value (tra_message_format p), opt bool_value (tra_settled p),
     opt bool_value (tra_more p), opt mode_value (tra_rcv_settle_mode p), opt state_value (tra_state p),
     opt bool_value (tra_resume p), VNull, opt bool_value (tra_batchable p)]"
| "amqp_fields (ADisposition p) = [opt bool_value (dis_role p), opt uint_value (dis_first p),
     opt uint_value (dis_last p), opt bool_value (dis_settled p), opt state_value (dis_state p),
     opt bool_value (dis_batchable p)]"
| "amqp_fields (ADetach p) = [opt uint_value (det_handle p), opt bool_value (det_closed p), VNull]"
| "amqp_fields (AInit p) = [opt VSymbol (ini_mechanism p), opt VBinary (ini_response p),
     opt VString (ini_host_name p)]"
| "amqp_fields _ = []"

text \<open>
  The packets the encoder handles: strings of at most 255 bytes, no negative number, no field that was never
  set, the mandatory ones present, and at most 255 bytes in all.
\<close>

fun fields_ok :: "amqp_packet \<Rightarrow> bool" where
  "fields_ok (AOpen p) \<longleftrightarrow> open_container_id p \<noteq> Null \<and> field short_bytes_ok (open_container_id p) \<and>
     field short_bytes_ok (open_hostname p) \<and> field c_ulong (open_max_frame_size p) \<and>
     field c_ulong (open_channel_max p) \<and> field c_ulong (open_idle_timeout p)"
| "fields_ok (ABegin p) \<longleftrightarrow> begin_next_outgoing_id p \<noteq> Null \<and> begin_incoming_window p \<noteq> Null \<and>
     field c_ulong (begin_remote_channel p) \<and> field c_ulong (begin_next_outgoing_id p) \<and>
     field c_ulong (begin_incoming_window p) \<and> field c_ulong (begin_outgoing_window p) \<and>
     field c_ulong (begin_handle_max p) \<and> begin_offered_capabilities p = Null \<and>
     begin_desired_capabilities p = Null \<and> begin_properties p = Null"
| "fields_ok (AAttach p) \<longleftrightarrow> att_name p \<noteq> Null \<and> att_handle p \<noteq> Null \<and> att_role p \<noteq> Null \<and>
     field short_bytes_ok (att_name p) \<and> field c_ulong (att_handle p) \<and> field (\<lambda>_. True) (att_role p) \<and>
     field c_mode (att_snd_settle_mode p) \<and> field c_mode (att_rcv_settle_mode p) \<and>
     field (\<lambda>s. source_ok s \<and> length (item_bytes (strip (source_fields s))) \<le> 255) (att_source p) \<and>
     field (\<lambda>t. target_ok t \<and> length (item_bytes (strip (target_fields t))) \<le> 255) (att_target p) \<and>
     att_unsettled p = Null \<and> field c_ulong (att_incomplete_unsettled p) \<and>
     field c_ulong (att_initial_delivery_count p) \<and> field c_ulong (att_max_message_size p) \<and>
     att_offered_capabilities p = Null \<and> att_desired_capabilities p = Null \<and> att_properties p = Null"
| "fields_ok (ATransfer p) \<longleftrightarrow> tra_handle p \<noteq> Null \<and> field c_ulong (tra_handle p) \<and>
     field c_ulong (tra_delivery_id p) \<and>
     field (\<lambda>v. length v \<le> 255 \<and> tra_delivery_tag_length p = Ref (int (length v))) (tra_delivery_tag p) \<and>
     field c_ulong (tra_message_format p) \<and> field (\<lambda>_. True) (tra_settled p) \<and>
     field (\<lambda>_. True) (tra_more p) \<and> field c_mode (tra_rcv_settle_mode p) \<and>
     field (\<lambda>_. True) (tra_state p) \<and> field (\<lambda>_. True) (tra_resume p) \<and> tra_aborted p = Null \<and>
     field (\<lambda>_. True) (tra_batchable p)"
| "fields_ok (ADisposition p) \<longleftrightarrow> dis_role p \<noteq> Null \<and> dis_first p \<noteq> Null \<and>
     field (\<lambda>_. True) (dis_role p) \<and> field c_ulong (dis_first p) \<and> field c_ulong (dis_last p) \<and>
     field (\<lambda>_. True) (dis_settled p) \<and> field (\<lambda>_. True) (dis_state p) \<and>
     field (\<lambda>_. True) (dis_batchable p)"
| "fields_ok (ADetach p) \<longleftrightarrow> det_handle p \<noteq> Null \<and> field c_ulong (det_handle p) \<and>
     field (\<lambda>_. True) (det_closed p) \<and> det_error p = Null"
| "fields_ok (AInit p) \<longleftrightarrow> ini_mechanism p \<noteq> Null \<and> field short_bytes_ok (ini_mechanism p) \<and>
     field (\<lambda>v. length v \<le> 255 \<and> ini_response_length p = Some (int (length v))) (ini_response p) \<and>
     ini_response p \<noteq> Null \<and> field short_bytes_ok (ini_host_name p)"
| "fields_ok AEnd = True"
| "fields_ok AClose = True"
| "fields_ok _ = False"

definition packet_ok :: "amqp_packet \<Rightarrow> bool" where
  "packet_ok p \<longleftrightarrow> fields_ok p \<and> length (item_bytes (strip (amqp_fields p))) \<le> 255"

text \<open>A sequence of fields adds the values \<open>ws\<close> to a list for \<open>vs\<close>.\<close>

definition builds :: "amqp_value list \<Rightarrow> TlvList option \<Rightarrow> amqp_value list \<Rightarrow> bool" where
  "builds vs m ws \<longleftrightarrow> (\<exists>l. m = Some l \<and> built l (vs @ ws))"

lemma builds_step:
  assumes "built l vs" "carries wrap p w" "k = int (length vs) + 1"
    and "\<And>l'. built l' (vs @ [w]) \<Longrightarrow> builds (vs @ [w]) (f l') ws"
  shows "builds vs (Option.bind (add_field k wrap p l) f) (w # ws)"
  by (rule add_field_built [OF assms(1-3)]) (use assms(4) in \<open>fastforce simp: builds_def\<close>)

lemma builds_last:
  assumes "built l vs" "carries wrap p w" "k = int (length vs) + 1"
  shows "builds vs (add_field k wrap p l) [w]"
  by (rule add_field_built [OF assms]) (auto simp: builds_def)

lemma arguments_built:
  assumes "builds [] m vs" "strip vs \<noteq> []" "length (item_bytes (strip vs)) \<le> 255"
  shows "arguments_of code m = Some (map Some (own_bytes (VDescribed code (VList (strip vs)))))"
proof -
  obtain l where l: "m = Some l" "built l vs" using assms(1) by (auto simp: builds_def)
  show ?thesis
    by (rule calculate_built [OF l(2) assms(2,3)]) (simp add: arguments_of_def l(1))
qed

lemma carries_opt:
  "field P p \<Longrightarrow> (\<And>x. P x \<Longrightarrow> carries wrap (Ref x) (f x)) \<Longrightarrow> carries wrap p (opt f p)"
  by (cases p) (auto simp: field_def opt_def wraps)

text \<open>The fields of each kind.\<close>

named_theorems carried "how the fields of the packets are carried"

lemma carries_uint_field [carried]: "field c_ulong p \<Longrightarrow> carries wrap_long p (opt uint_value p)"
  by (erule carries_opt) (simp add: uint_value_def wraps)

lemma carries_string_field [carried]: "field short_bytes_ok p \<Longrightarrow> carries wrap_string p (opt VString p)"
  by (erule carries_opt) (rule carries_string)

lemma carries_bool_field [carried]: "field (\<lambda>_. True) p \<Longrightarrow> carries wrap_bool p (opt bool_value p)"
  by (erule carries_opt) (simp add: bool_value_def carries_bool)

lemma carries_state_field [carried]: "field (\<lambda>_. True) p \<Longrightarrow> carries wrap_state p (opt state_value p)"
  by (erule carries_opt) (simp add: state_value_def carries_state)

lemma carries_symbol_field [carried]:
  "field short_bytes_ok p \<Longrightarrow> carries (\<lambda>v. wrap_symbol (Ref v)) p (opt VSymbol p)"
  by (erule carries_opt) (rule carries_symbol)

lemma carries_mode_field [carried]: "field c_mode p \<Longrightarrow> carries wrap_mode p (opt mode_value p)"
proof (erule carries_opt)
  fix n assume n: "c_mode n"
  then have "sint (of_int n :: u16) = n"
    by (transfer fixing: n) (simp add: signed_take_bit_int_eq_self)
  then show "carries wrap_mode (Ref n) (mode_value n)"
    using n carries_short [of n] by (simp add: carries_def wrap_mode_def mode_value_def)
qed

lemma swapped_bytes:
  "short_bytes (push_bit 8 w OR drop_bit 8 w) = rev (short_bytes w)"
proof -
  have "(ucast (drop_bit 8 (push_bit 8 w OR drop_bit 8 w)) :: byte) = ucast w"
    "(ucast (push_bit 8 w OR drop_bit 8 w) :: byte) = ucast (drop_bit 8 w)"
    by (rule bit_word_eqI; auto simp: bit_simps)+
  then show ?thesis by (auto simp: short_bytes_def intro!: bit_word_eqI) (auto simp: bit_simps)
qed

lemma low_short: "take 2 (le_bytes n) = rev (short_bytes (of_int n))"
  by (auto simp: le_bytes_def int_bytes_def short_bytes_def intro!: bit_word_eqI) (auto simp: bit_simps)

lemma carries_swapped_field [carried]: "field c_ulong p \<Longrightarrow> carries wrap_int p (opt swapped_value p)"
proof (erule carries_opt)
  fix n assume "c_ulong n"
  then show "carries wrap_int (Ref n) (swapped_value n)"
    by (intro carriesI, simp add: wrap_int_def Let_def)
      (simp_all add: wrapped_def swapped_value_def Let_def swapped_bytes low_short)
qed

lemma carries_binary_field [carried]:
  "field (\<lambda>v. length v \<le> 255 \<and> m = Some (int (length v))) p \<Longrightarrow>
   carries (\<lambda>v. do { n \<leftarrow> m; wrap_binary v n }) p (opt VBinary p)"
  by (erule carries_opt) (use carries_binary in \<open>auto simp: carries_def\<close>)

lemma carries_absent [carried]: "p = Null \<Longrightarrow> carries wrap p VNull"
  by (simp add: wraps)

text \<open>The sources and targets.\<close>

lemma wrapped_list_built:
  assumes "builds [] m vs" "strip vs \<noteq> []" "length (item_bytes (strip vs)) \<le> 255"
    and "wrap s = Option.bind m (wrapped_list code)"
  shows "carries wrap (Ref s) (VDescribed code (VList (strip vs)))"
proof -
  obtain l where l: "m = Some l" "built l vs" using assms(1) by (auto simp: builds_def)
  show ?thesis
    by (rule calculate_built [OF l(2) assms(2,3), of code])
      (simp add: carries_def assms(4) l(1) wrapped_list_def del: amqp_bytes.simps)
qed

lemma carries_source:
  assumes "source_ok s" "length (item_bytes (strip (source_fields s))) \<le> 255"
  shows "carries wrap_amqp_source (Ref s) (source_value s)"
proof -
  note ok = assms(1) [unfolded source_ok_def]
  have ok_flag: "node_properties_ok (src_dynamic s) (src_dynamic_node_properties s) = Some True"
    using ok by (simp add: node_properties_ok_def)
  have "builds [] (do {
       l \<leftarrow> add_field 1 wrap_string (src_address s) new_list;
       l \<leftarrow> add_field 2 wrap_long (src_durable s) l;
       l \<leftarrow> add_field 3 (wrap_enum string_terminus_expiry_policy) (src_expiry_period s) l;
       l \<leftarrow> add_field 4 wrap_long (src_timeout s) l;
       l \<leftarrow> add_field 5 wrap_bool (src_dynamic s) l;
       l \<leftarrow> add_field 6 wrap_map (src_dynamic_node_properties s) l;
       l \<leftarrow> add_field 7 wrap_distribution_mode (src_distribution_mode s) l;
       l \<leftarrow> add_field 8 wrap_map (src_filter s) l;
       l \<leftarrow> add_field 9 wrap_outcome (src_default_outcome s) l;
       l \<leftarrow> add_field 10 wrap_array (src_outcomes s) l;
       add_field 11 wrap_array (src_capabilities s) l }) (source_fields s)"
    unfolding source_fields_def
    by (rule builds_step builds_last, (rule built_new | assumption), use ok in \<open>simp add: carried\<close>, simp)+
  then show ?thesis
    unfolding source_value_def
    by (rule wrapped_list_built) (simp_all add: ok assms(2) wrap_amqp_source_def ok_flag [simplified ok])
qed

lemma carries_target:
  assumes "target_ok t" "length (item_bytes (strip (target_fields t))) \<le> 255"
  shows "carries wrap_amqp_target (Ref t) (target_value t)"
proof -
  note ok = assms(1) [unfolded target_ok_def]
  have ok_flag: "node_properties_ok (tgt_dynamic t) (tgt_dynamic_node_properties t) = Some True"
    using ok by (simp add: node_properties_ok_def)
  have "builds [] (do {
       l \<leftarrow> add_field 1 wrap_string (tgt_address t) new_list;
       l \<leftarrow> add_field 2 wrap_long (tgt_durable t) l;
       l \<leftarrow> add_field 3 (wrap_enum string_terminus_expiry_policy) (tgt_expiry_period t) l;
       l \<leftarrow> add_field 4 wrap_long (tgt_timeout t) l;
       l \<leftarrow> add_field 5 wrap_bool (tgt_dynamic t) l;
       l \<leftarrow> add_field 6 wrap_map (tgt_dynamic_node_properties t) l;
       add_field 7 wrap_list (tgt_capabilities t) l }) (target_fields t)"
    unfolding target_fields_def
    by (rule builds_step builds_last, (rule built_new | assumption), use ok in \<open>simp add: carried\<close>, simp)+
  then show ?thesis
    unfolding target_value_def
    by (rule wrapped_list_built) (simp_all add: ok assms(2) wrap_amqp_target_def ok_flag [simplified ok])
qed

lemma carries_source_field [carried]:
  "field (\<lambda>s. source_ok s \<and> length (item_bytes (strip (source_fields s))) \<le> 255) p \<Longrightarrow>
   carries wrap_amqp_source p (opt source_value p)"
  by (erule carries_opt) (blast intro: carries_source)

lemma carries_target_field [carried]:
  "field (\<lambda>t. target_ok t \<and> length (item_bytes (strip (target_fields t))) \<le> 255) p \<Longrightarrow>
   carries wrap_amqp_target p (opt target_value p)"
  by (erule carries_opt) (blast intro: carries_target)

text \<open>The arguments of a packet are its fields as one described list.\<close>

definition arguments_bytes :: "amqp_packet \<Rightarrow> byte list" where
  "arguments_bytes p = own_bytes (VDescribed (amqp_code p) (VList (strip (amqp_fields p))))"

lemma opt_not_null: "field P p \<Longrightarrow> p \<noteq> Null \<Longrightarrow> (\<And>x. f x \<noteq> VNull) \<Longrightarrow> opt f p \<noteq> VNull"
  by (cases p) (auto simp: field_def opt_def)

lemma strip_not_Nil: "v \<noteq> VNull \<Longrightarrow> v \<in> set vs \<Longrightarrow> strip vs \<noteq> []"
  by (auto simp: strip_def dropWhile_eq_Nil_conv)

lemma mandatory_built:
  assumes "v \<noteq> VNull" "builds [] m vs" "ok" "v \<in> set vs" "length (item_bytes (strip vs)) \<le> 255"
  shows "mandatory ok (arguments_of code m) =
    Some (Ref (map Some (own_bytes (VDescribed code (VList (strip vs))))))"
  using arguments_built [OF assms(2) strip_not_Nil [OF assms(1,4)] assms(5)] assms(3)
  by (simp add: mandatory_def del: amqp_bytes.simps)

lemma value_not_null: "VString s \<noteq> VNull" "uint_value n \<noteq> VNull" "bool_value n \<noteq> VNull"
  by (simp_all add: uint_value_def bool_value_def)

named_theorems packet_bytes "the arguments of each kind of packet"

lemma add_open_bytes [packet_bytes]:
  assumes "packet_ok (AOpen p)"
  shows "add_open p = Some (Ref (map Some (arguments_bytes (AOpen p))))"
proof -
  note ok = assms [unfolded packet_ok_def fields_ok.simps amqp_fields.simps]
  have v: "opt VString (open_container_id p) \<noteq> VNull" using ok opt_not_null value_not_null by blast
  show ?thesis
    unfolding add_open_def arguments_bytes_def amqp_code.simps amqp_fields.simps
    by (rule mandatory_built [OF v], (rule builds_step builds_last, (rule built_new | assumption),
          use ok in \<open>simp add: carried\<close>, simp)+, (use ok in simp)+)
qed

lemma add_begin_bytes [packet_bytes]:
  assumes "packet_ok (ABegin p)"
  shows "add_begin p = Some (Ref (map Some (arguments_bytes (ABegin p))))"
proof -
  note ok = assms [unfolded packet_ok_def fields_ok.simps amqp_fields.simps]
  have v: "opt uint_value (begin_next_outgoing_id p) \<noteq> VNull" using ok opt_not_null value_not_null by blast
  show ?thesis
    unfolding add_begin_def arguments_bytes_def amqp_code.simps amqp_fields.simps
    by (rule mandatory_built [OF v], (rule builds_step builds_last, (rule built_new | assumption),
          use ok in \<open>simp add: carried\<close>, simp)+, (use ok in simp)+)
qed

lemma add_attach_bytes [packet_bytes]:
  assumes "packet_ok (AAttach p)"
  shows "add_attach p = Some (Ref (map Some (arguments_bytes (AAttach p))))"
proof -
  note ok = assms [unfolded packet_ok_def fields_ok.simps amqp_fields.simps]
  have v: "opt VString (att_name p) \<noteq> VNull" using ok opt_not_null value_not_null by blast
  show ?thesis
    unfolding add_attach_def arguments_bytes_def amqp_code.simps amqp_fields.simps
    by (rule mandatory_built [OF v], (rule builds_step builds_last, (rule built_new | assumption),
          use ok in \<open>simp add: carried\<close>, simp)+, (use ok in simp)+)
qed

lemma add_transfer_bytes [packet_bytes]:
  assumes "packet_ok (ATransfer p)"
  shows "add_transfer p = Some (Ref (map Some (arguments_bytes (ATransfer p))))"
proof -
  note ok = assms [unfolded packet_ok_def fields_ok.simps amqp_fields.simps]
  have v: "opt uint_value (tra_handle p) \<noteq> VNull" using ok opt_not_null value_not_null by blast
  show ?thesis
    unfolding add_transfer_def arguments_bytes_def amqp_code.simps amqp_fields.simps
    by (rule mandatory_built [OF v], (rule builds_step builds_last, (rule built_new | assumption),
          use ok in \<open>simp add: carried\<close>, simp)+, (use ok in simp)+)
qed

lemma add_disposition_bytes [packet_bytes]:
  assumes "packet_ok (ADisposition p)"
  shows "add_disposition p = Some (Ref (map Some (arguments_bytes (ADisposition p))))"
proof -
  note ok = assms [unfolded packet_ok_def fields_ok.simps amqp_fields.simps]
  have v: "opt uint_value (dis_first p) \<noteq> VNull" using ok opt_not_null value_not_null by blast
  show ?thesis
    unfolding add_disposition_def arguments_bytes_def amqp_code.simps amqp_fields.simps
    by (rule mandatory_built [OF v], (rule builds_step builds_last, (rule built_new | assumption),
          use ok in \<open>simp add: carried\<close>, simp)+, (use ok in simp)+)
qed

lemma add_detach_bytes [packet_bytes]:
  assumes "packet_ok (ADetach p)"
  shows "add_detach p = Some (Ref (map Some (arguments_bytes (ADetach p))))"
proof -
  note ok = assms [unfolded packet_ok_def fields_ok.simps amqp_fields.simps]
  have v: "opt uint_value (det_handle p) \<noteq> VNull" using ok opt_not_null value_not_null by blast
  show ?thesis
    unfolding add_detach_def arguments_bytes_def amqp_code.simps amqp_fields.simps
    by (rule mandatory_built [OF v], (rule builds_step builds_last, (rule built_new | assumption),
          use ok in \<open>simp add: carried\<close>, simp)+, (use ok in simp)+)
qed

lemma add_init_bytes [packet_bytes]:
  assumes "packet_ok (AInit p)"
  shows "add_init p = Some (Ref (map Some (arguments_bytes (AInit p))))"
proof -
  note ok = assms [unfolded packet_ok_def fields_ok.simps amqp_fields.simps]
  have nn: "opt VSymbol (ini_mechanism p) \<noteq> VNull" "opt VBinary (ini_response p) \<noteq> VNull"
    using ok opt_not_null value_not_null by blast+
  have "builds [] (do {
     l \<leftarrow> add_field 1 (\<lambda>v. wrap_symbol (Ref v)) (ini_mechanism p) new_list;
     l \<leftarrow> add_field 2 (\<lambda>v. do { n \<leftarrow> ini_response_length p; wrap_binary v n }) (ini_response p) l;
     add_field 3 wrap_string (ini_host_name p) l }) (amqp_fields (AInit p))"
    unfolding amqp_fields.simps
    by (rule builds_step builds_last, (rule built_new | assumption), use ok in \<open>simp add: carried\<close>, simp)+
  then obtain l where l: "(do {
     l \<leftarrow> add_field 1 (\<lambda>v. wrap_symbol (Ref v)) (ini_mechanism p) new_list;
     l \<leftarrow> add_field 2 (\<lambda>v. do { n \<leftarrow> ini_response_length p; wrap_binary v n }) (ini_response p) l;
     add_field 3 wrap_string (ini_host_name p) l }) = Some l" "built l (amqp_fields (AInit p))"
    by (auto simp: builds_def)
  have "strip (amqp_fields (AInit p)) = (if opt VString (ini_host_name p) = VNull
      then take 2 (amqp_fields (AInit p)) else amqp_fields (AInit p))"
    using nn strip_snoc [of "[opt VSymbol (ini_mechanism p), opt VBinary (ini_response p)]" "opt VString (ini_host_name p)"]
      strip_snoc [of "[opt VSymbol (ini_mechanism p)]" "opt VBinary (ini_response p)"] by simp
  then have "count_nulls l = Some l"
    using l(2) nn by (cases l) (auto simp: count_nulls_def built_def split: if_splits)
  then have "calculate_bytes INIT l = Some (map Some (arguments_bytes (AInit p)))"
    using calculate_built [OF l(2), of INIT] strip_not_Nil [OF nn(1)] ok
    by (simp add: arguments_bytes_def del: amqp_bytes.simps) blast
  then show ?thesis
    using ok l(1) by (auto simp: add_init_def mandatory_def bind_Some_iff)
qed

text \<open>The two packets without arguments send a list of one null, whose size counts the byte of the count.\<close>

fun packet_body :: "amqp_packet \<Rightarrow> byte list" where
  "packet_body AEnd = amqp_bytes Suc (VDescribed AMQP_END (VList [VNull]))"
| "packet_body AClose = amqp_bytes Suc (VDescribed CLOSE (VList [VNull]))"
| "packet_body p = arguments_bytes p"

lemma add_end_bytes:
  "add_end code = Some (Ref (map Some (amqp_bytes Suc (VDescribed code (VList [VNull])))))"
  using le_bytes_small [of 1] le_bytes_small [of 2]
  by (simp add: add_end_def calculate_bytes_def get_bytes_def wrap_null_def wrapped_def c_malloc_def Let_def
      numeral_eq_Suc)

lemma add_arguments_bytes:
  assumes "packet_ok p" "hdr_packet h = Ref p"
  shows "add_arguments (amqp_code p) h = Some (Ref (map Some (packet_body p)))"
proof (cases p)
  case AEnd
  then show ?thesis by (simp add: add_arguments_def add_end_bytes del: amqp_bytes.simps)
next
  case AClose
  then show ?thesis by (simp add: add_arguments_def add_end_bytes del: amqp_bytes.simps)
qed (use assms packet_bytes in \<open>auto simp: add_arguments_def as_amqp_defs packet_ok_def\<close>)

text \<open>The sections of a message, and the frame.\<close>

definition data_entry :: "byte list \<Rightarrow> SectionEntry" where
  "data_entry v = \<lparr>sec_code = DATA, sec_section = Ref \<lparr>dat_data = Ref v, dat_length = Some (int (length v))\<rparr>\<rparr>"

definition section_bytes :: "byte list \<Rightarrow> byte list" where
  "section_bytes v = own_bytes (VDescribed DATA (VBinary v))"

fun sections_ok :: "amqp_packet \<Rightarrow> byte list list \<Rightarrow> bool" where
  "sections_ok (ATransfer p) vs \<longleftrightarrow> tra_sections p = Ref (map data_entry vs) \<and>
     tra_section_number p = Ref (int (length vs)) \<and> list_all short_bytes_ok vs"
| "sections_ok p vs \<longleftrightarrow> vs = []"

definition amqp_frame :: "int \<Rightarrow> int \<Rightarrow> int \<Rightarrow> byte list \<Rightarrow> byte list" where
  "amqp_frame doff type channel body =
     int_bytes (of_nat (8 + length body)) @ [of_int doff, of_int type] @ short_bytes (of_int channel) @ body"

definition amqp_header :: "amqp_packet \<Rightarrow> int \<Rightarrow> int \<Rightarrow> int \<Rightarrow> AmqpHeader" where
  "amqp_header p doff type channel = \<lparr>hdr_code = Some (amqp_code p), hdr_doff = Some doff,
     hdr_type = Some type, hdr_channel = Some channel, hdr_packet = Ref p\<rparr>"

lemma add_section_data:
  assumes "length v \<le> 255"
  shows "add_section (data_entry v) = Some (map Some (section_bytes v))"
  using assms rd_n_all [of "int (length v)" v]
  by (simp add: add_section_def data_entry_def wrap_binary_def init_tlv_variable_all w_length_def wrapped_def
      section_bytes_def)

lemma add_sections_data:
  "list_all short_bytes_ok vs \<Longrightarrow>
   add_sections (length vs) (map data_entry vs) = Some (map Some (concat (map section_bytes vs)))"
  by (induction vs) (simp_all add: add_section_data)

lemma amqp_encode_frame:
  assumes "packet_ok p" "sections_ok p vs"
  shows "amqp_encode (amqp_header p doff type channel) =
    Some (map Some (amqp_frame doff type channel (packet_body p @ concat (map section_bytes vs))))"
proof -
  let ?h = "amqp_header p doff type channel"
  have args: "add_arguments (amqp_code p) ?h = Some (Ref (map Some (packet_body p)))"
    by (rule add_arguments_bytes [OF assms(1)]) (simp add: amqp_header_def)
  have code: "amqp_code p \<noteq> PROTO" "amqp_code p \<noteq> PING"
    using assms(1) by (cases p; simp add: packet_ok_def)+
  have secs: "sections_of (amqp_code p) ?h = Some (map Some (concat (map section_bytes vs)))"
    using assms add_sections_data [of vs]
    by (cases p) (auto simp: sections_of_def as_transfer_def amqp_header_def transfer_sections_def packet_ok_def)
  have "header_bytes ?h = Some ([of_int doff, of_int type] @ short_bytes (of_int channel))"
    "hdr_code ?h = Some (amqp_code p)"
    by (simp_all add: header_bytes_def amqp_header_def)
  then show ?thesis
    using code args secs by (simp add: amqp_encode_def amqp_frame_def add.assoc)
qed

end
