(* ===== verification/AmqpDecode.thy ===== *)
theory AmqpDecode
  imports AmqpEncode
begin

text \<open>
  src/src/amqp/header_factory.c and \<open>amqp_decode\<close> of src/src/amqp/amqp_parser.c: from the bytes of a frame to
  a packet.
\<close>

subsection \<open>Fields of a list\<close>

definition item :: "Tlv \<Rightarrow> nat \<Rightarrow> Tlv option" where
  "item tlv k = do { ts \<leftarrow> deref (tlv_list tlv); c_assert (k < length ts); Some (ts ! k) }"

text \<open>
  The two ways the code reads the field \<open>k\<close>: unless it is null, or whatever it is. A field that is
  not there stays unset.
\<close>

definition opt_field :: "nat \<Rightarrow> (Tlv \<Rightarrow> 'a ptr option) \<Rightarrow> Tlv \<Rightarrow> 'a ptr option" where
  "opt_field k unwrap_it tlv = do {
     count \<leftarrow> tlv_count tlv;
     if count > int k then do {
       element \<leftarrow> item tlv k;
       if tlv_code element \<noteq> 64 then unwrap_it element else Some Wild
     } else Some Wild
   }"

definition any_field :: "nat \<Rightarrow> (Tlv \<Rightarrow> 'a ptr option) \<Rightarrow> Tlv \<Rightarrow> 'a ptr option" where
  "any_field k unwrap_it tlv = do {
     count \<leftarrow> tlv_count tlv;
     if count > int k then do { element \<leftarrow> item tlv k; unwrap_it element } else Some Wild
   }"

text \<open>A value copied from behind the pointer: \<open>*x = *unwrap_..(element)\<close>.\<close>

definition copied :: "(Tlv \<Rightarrow> 'a ptr option) \<Rightarrow> Tlv \<Rightarrow> 'a ptr option" where
  "copied unwrap_it e = do { p \<leftarrow> unwrap_it e; n \<leftarrow> deref p; Some (Ref n) }"

text \<open>Pointers the code only tests, and pointers cast to \<open>struct AmqpSymbol *\<close>.\<close>

definition untyped :: "'a ptr \<Rightarrow> unit ptr" where
  "untyped p = (case p of Ref _ \<Rightarrow> Ref () | Null \<Rightarrow> Null | Wild \<Rightarrow> Wild)"

fun void_pointer :: "void \<Rightarrow> unit ptr" where
  "void_pointer (VoidBytes p) = untyped p"
| "void_pointer (VoidSymbol p) = untyped p"
| "void_pointer (VoidString p) = untyped p"
| "void_pointer (VoidInt p) = untyped p"
| "void_pointer (VoidDouble p) = untyped p"
| "void_pointer (VoidFloat p) = untyped p"
| "void_pointer (VoidDecimal p) = untyped p"
| "void_pointer (VoidArray vs) = Ref ()"
| "void_pointer VoidNull = Null"

fun symbol_pointer :: "void \<Rightarrow> cstr ptr" where
  "symbol_pointer (VoidSymbol p) = p"
| "symbol_pointer v = (if void_pointer v = Null then Null else Wild)"

definition first_void :: "Tlv \<Rightarrow> void option" where
  "first_void e = do {
     array \<leftarrow> unwrap_array e;
     vs \<leftarrow> deref array;
     c_assert (vs \<noteq> []);
     Some (hd vs)
   }"

definition first_symbol :: "Tlv \<Rightarrow> unit ptr option" where
  "first_symbol e = map_option void_pointer (first_void e)"

definition symbol_array :: "Tlv \<Rightarrow> unit ptr option" where
  "symbol_array e = map_option untyped (unwrap_array e)"

text \<open>The characters of a symbol, kept in a pointer to an enum: not a number to read.\<close>

definition symbol_value :: "Tlv \<Rightarrow> int ptr option" where
  "symbol_value e = do { p \<leftarrow> unwrap_symbol e; s \<leftarrow> deref p; Some Wild }"

definition is_list :: "Tlv \<Rightarrow> bool" where
  "is_list e \<longleftrightarrow> tlv_code e \<in> {LIST_0, LIST_8, LIST_32}"

text \<open>\<open>element->constructor->tlv->value_array[0]\<close>\<close>

definition descriptor_code :: "Tlv \<Rightarrow> byte option" where
  "descriptor_code tlv = do {
     con \<leftarrow> deref (tlv_constructor tlv);
     d \<leftarrow> deref (con_tlv con);
     v \<leftarrow> deref (tlv_value d);
     rd v 0
   }"

definition state_code :: "Tlv \<Rightarrow> byte ptr option" where
  "state_code e = map_option Ref (descriptor_code e)"

definition get_outcome :: "Tlv \<Rightarrow> unit ptr option" where
  "get_outcome tlv = do {
     code \<leftarrow> descriptor_code tlv;
     Some (if code \<in> {0x23, 0x24, 0x25, 0x26, 0x27} then Ref () else Null)
   }"

subsection \<open>The packets\<close>

text \<open>
  A return before \<open>header->packet\<close> is set leaves it \<open>Wild\<close>. Within \<open>fields\<close> it is \<open>Some None\<close>.
\<close>

definition or_return :: "'a option option \<Rightarrow> ('a \<Rightarrow> 'b ptr option) \<Rightarrow> 'b ptr option" where
  "or_return m f = do { r \<leftarrow> m; case r of None \<Rightarrow> Some Wild | Some x \<Rightarrow> f x }"

definition init_challenge :: "Tlv \<Rightarrow> amqp_packet ptr option" where
  "init_challenge list = do {
     count \<leftarrow> tlv_count list;
     if count = 0 \<or> count > 1 then Some Wild
     else do { c \<leftarrow> any_field 0 unwrap_binary list; Some (Ref (AChallenge c)) }
   }"

definition init_init :: "Tlv \<Rightarrow> amqp_packet ptr option" where
  "init_init list = do {
     count \<leftarrow> tlv_count list;
     if count = 0 \<or> count > 3 then Some Wild
     else do {
       mechanism \<leftarrow> any_field 0 unwrap_symbol list;
       response \<leftarrow> opt_field 1 unwrap_binary list;
       host \<leftarrow> opt_field 2 unwrap_string list;
       Some (Ref (AInit \<lparr>ini_mechanism = mechanism, ini_response = response,
         ini_response_length = None, ini_host_name = host\<rparr>))
     }
   }"

definition init_mechanisms :: "Tlv \<Rightarrow> amqp_packet ptr option" where
  "init_mechanisms list = do {
     m \<leftarrow> opt_field 0 (\<lambda>e. map_option symbol_pointer (first_void e)) list;
     Some (Ref (AMechanisms m))
   }"

text \<open>The additional data are read from the first field too.\<close>

definition init_outcome :: "Tlv \<Rightarrow> amqp_packet ptr option" where
  "init_outcome list = do {
     count \<leftarrow> tlv_count list;
     if count = 0 \<or> count > 2 then Some Wild
     else do {
       code \<leftarrow> any_field 0 (copied unwrap_ubyte) list;
       additional \<leftarrow> (if count > 1 then opt_field 0 unwrap_binary list else Some Wild);
       Some (Ref (AOutcome \<lparr>out_code = deref code, out_additional_data = additional\<rparr>))
     }
   }"

definition init_open :: "Tlv \<Rightarrow> amqp_packet ptr option" where
  "init_open list = do {
     count \<leftarrow> tlv_count list;
     if count = 0 then Some Wild
     else do {
       e \<leftarrow> item list 0;
       container_id \<leftarrow> unwrap_string e;
       hostname \<leftarrow> opt_field 1 unwrap_string list;
       max_frame_size \<leftarrow> opt_field 2 unwrap_uint list;
       channel_max \<leftarrow> opt_field 3 unwrap_ushort list;
       idle_timeout \<leftarrow> opt_field 4 unwrap_uint list;
       outgoing_locales \<leftarrow> opt_field 5 first_symbol list;
       incoming_locales \<leftarrow> opt_field 6 first_symbol list;
       offered_capabilities \<leftarrow> opt_field 7 first_symbol list;
       desired_capabilities \<leftarrow> opt_field 8 first_symbol list;
       properties \<leftarrow> opt_field 9 unwrap_map list;
       Some (Ref (AOpen \<lparr>open_container_id = container_id, open_hostname = hostname,
         open_max_frame_size = max_frame_size, open_channel_max = channel_max,
         open_idle_timeout = idle_timeout\<rparr>))
     }
   }"

definition init_begin :: "Tlv \<Rightarrow> amqp_packet ptr option" where
  "init_begin list = do {
     remote_channel \<leftarrow> opt_field 0 unwrap_ushort list;
     next_outgoing_id \<leftarrow> any_field 1 unwrap_uint list;
     incoming_window \<leftarrow> any_field 2 unwrap_uint list;
     outgoing_window \<leftarrow> any_field 3 unwrap_uint list;
     handle_max \<leftarrow> opt_field 4 unwrap_uint list;
     offered_capabilities \<leftarrow> opt_field 5 first_symbol list;
     desired_capabilities \<leftarrow> opt_field 6 first_symbol list;
     properties \<leftarrow> opt_field 7 unwrap_map list;
     Some (Ref (ABegin \<lparr>begin_remote_channel = remote_channel,
       begin_next_outgoing_id = next_outgoing_id, begin_incoming_window = incoming_window,
       begin_outgoing_window = outgoing_window, begin_handle_max = handle_max,
       begin_offered_capabilities = offered_capabilities,
       begin_desired_capabilities = desired_capabilities, begin_properties = properties\<rparr>))
   }"

text \<open>
  A source, with the returns from the whole function: another type than a list, node properties without the dynamic
  flag, another default outcome than a list.
\<close>

definition node_properties :: "int ptr \<Rightarrow> Tlv \<Rightarrow> unit ptr option option" where
  "node_properties dynamic list = do {
     properties \<leftarrow> opt_field 5 (\<lambda>e. Some (Ref e)) list;
     case properties of
       Ref e \<Rightarrow> do {
         ok \<leftarrow> node_properties_ok dynamic (Ref ());
         if ok then map_option Some (unwrap_map e) else Some None
       }
     | _ \<Rightarrow> Some (Some Wild)
   }"

definition default_outcome :: "Tlv \<Rightarrow> unit ptr option option" where
  "default_outcome list = do {
     outcome \<leftarrow> opt_field 8 (\<lambda>e. Some (Ref e)) list;
     case outcome of
       Ref e \<Rightarrow> if is_list e then map_option Some (get_outcome e) else Some None
     | _ \<Rightarrow> Some (Some Wild)
   }"

definition read_source :: "Tlv \<Rightarrow> AmqpSource option option" where
  "read_source list =
     (if \<not> is_list list then Some None
      else do {
        address \<leftarrow> opt_field 0 unwrap_string list;
        durable \<leftarrow> opt_field 1 (copied unwrap_uint) list;
        expiry_period \<leftarrow> opt_field 2 symbol_value list;
        timeout \<leftarrow> opt_field 3 unwrap_uint list;
        dynamic \<leftarrow> opt_field 4 unwrap_bool list;
        node \<leftarrow> node_properties dynamic list;
        case node of None \<Rightarrow> Some None | Some properties \<Rightarrow> do {
          distribution_mode \<leftarrow> opt_field 6 symbol_value list;
          filter \<leftarrow> opt_field 7 unwrap_map list;
          outcome \<leftarrow> default_outcome list;
          case outcome of None \<Rightarrow> Some None | Some state \<Rightarrow> do {
            outcomes \<leftarrow> opt_field 9 symbol_array list;
            capabilities \<leftarrow> opt_field 10 symbol_array list;
            Some (Some \<lparr>src_address = address, src_durable = durable, src_expiry_period = expiry_period,
              src_timeout = timeout, src_dynamic = dynamic, src_dynamic_node_properties = properties,
              src_distribution_mode = distribution_mode, src_filter = filter, src_default_outcome = state,
              src_outcomes = outcomes, src_capabilities = capabilities\<rparr>)
          }
        }
      })"

text \<open>A target is read and dropped: no assignment to \<open>attach->target\<close> follows.\<close>

definition read_target :: "Tlv \<Rightarrow> unit option option" where
  "read_target list = do {
     address \<leftarrow> opt_field 0 unwrap_string list;
     durable \<leftarrow> opt_field 1 (copied unwrap_uint) list;
     expiry_period \<leftarrow> opt_field 2 symbol_value list;
     timeout \<leftarrow> opt_field 3 unwrap_uint list;
     dynamic \<leftarrow> opt_field 4 unwrap_bool list;
     node \<leftarrow> node_properties dynamic list;
     case node of None \<Rightarrow> Some None | Some properties \<Rightarrow> do {
       capabilities \<leftarrow> opt_field 6 symbol_array list;
       Some (Some ())
     }
   }"

definition attach_source :: "Tlv \<Rightarrow> AmqpSource ptr option option" where
  "attach_source list = do {
     p \<leftarrow> opt_field 5 (\<lambda>e. Some (Ref e)) list;
     case p of Ref e \<Rightarrow> map_option (map_option Ref) (read_source e) | _ \<Rightarrow> Some (Some Wild)
   }"

definition attach_target :: "Tlv \<Rightarrow> unit option option" where
  "attach_target list = do {
     p \<leftarrow> opt_field 6 (\<lambda>e. Some (Ref e)) list;
     case p of Ref e \<Rightarrow> read_target e | _ \<Rightarrow> Some (Some ())
   }"

text \<open>The delivery count: a null one of a sender, role 0, ends the function.\<close>

definition attach_delivery_count :: "int ptr \<Rightarrow> Tlv \<Rightarrow> int ptr option option" where
  "attach_delivery_count role list = do {
     count \<leftarrow> tlv_count list;
     if count > 9 then do {
       e \<leftarrow> item list 9;
       if tlv_code e \<noteq> 64 then map_option Some (unwrap_uint e)
       else do { r \<leftarrow> deref role; Some (if r = 0 then None else Some Wild) }
     } else Some (Some Wild)
   }"

definition init_attach :: "Tlv \<Rightarrow> amqp_packet ptr option" where
  "init_attach list = do {
     count \<leftarrow> tlv_count list;
     if count < 3 \<or> count > 14 then Some Wild
     else do {
       name \<leftarrow> any_field 0 unwrap_string list;
       handle \<leftarrow> any_field 1 unwrap_uint list;
       role \<leftarrow> any_field 2 (copied unwrap_bool) list;
       snd_settle_mode \<leftarrow> opt_field 3 (copied unwrap_ubyte) list;
       rcv_settle_mode \<leftarrow> opt_field 4 (copied unwrap_ubyte) list;
       or_return (attach_source list) (\<lambda>source.
       or_return (attach_target list) (\<lambda>_. do {
         unsettled \<leftarrow> opt_field 7 unwrap_map list;
         incomplete_unsettled \<leftarrow> opt_field 8 unwrap_bool list;
         or_return (attach_delivery_count role list) (\<lambda>initial_delivery_count. do {
           max_message_size \<leftarrow> opt_field 10 unwrap_ulong list;
           offered_capabilities \<leftarrow> opt_field 11 symbol_array list;
           desired_capabilities \<leftarrow> opt_field 12 symbol_array list;
           properties \<leftarrow> opt_field 13 unwrap_map list;
           Some (Ref (AAttach \<lparr>att_name = name, att_handle = handle, att_role = role,
             att_snd_settle_mode = snd_settle_mode, att_rcv_settle_mode = rcv_settle_mode,
             att_source = source, att_target = Wild, att_unsettled = unsettled,
             att_incomplete_unsettled = incomplete_unsettled,
             att_initial_delivery_count = initial_delivery_count,
             att_max_message_size = max_message_size,
             att_offered_capabilities = offered_capabilities,
             att_desired_capabilities = desired_capabilities, att_properties = properties\<rparr>))
         })
       }))
     }
   }"

definition settled_field :: "Tlv \<Rightarrow> int ptr option" where
  "settled_field list = do {
     count \<leftarrow> tlv_count list;
     if count > 4 then do {
       e \<leftarrow> item list 4;
       if tlv_code e \<noteq> 64 then unwrap_bool e else Some Null
     } else Some Wild
   }"

definition init_transfer :: "Tlv \<Rightarrow> amqp_packet ptr option" where
  "init_transfer list = do {
     handle \<leftarrow> any_field 0 unwrap_uint list;
     delivery_id \<leftarrow> opt_field 1 unwrap_uint list;
     delivery_tag \<leftarrow> opt_field 2 unwrap_binary list;
     message_format \<leftarrow> opt_field 3 (copied unwrap_uint) list;
     settled \<leftarrow> settled_field list;
     more \<leftarrow> opt_field 5 unwrap_bool list;
     rcv_settle_mode \<leftarrow> opt_field 6 (copied unwrap_ubyte) list;
     state \<leftarrow> opt_field 7 state_code list;
     resume \<leftarrow> opt_field 8 unwrap_bool list;
     aborted \<leftarrow> opt_field 9 unwrap_bool list;
     batchable \<leftarrow> opt_field 10 unwrap_bool list;
     Some (Ref (ATransfer \<lparr>tra_handle = handle, tra_delivery_id = delivery_id,
       tra_delivery_tag = delivery_tag, tra_delivery_tag_length = Wild,
       tra_message_format = message_format, tra_settled = settled, tra_more = more,
       tra_rcv_settle_mode = rcv_settle_mode, tra_state = state, tra_resume = resume,
       tra_aborted = aborted, tra_batchable = batchable, tra_sections = Wild, tra_section_number = Wild\<rparr>))
   }"

text \<open>A null first field ends the function, as does a state that is not a list.\<close>

definition null_field :: "nat \<Rightarrow> Tlv \<Rightarrow> bool option" where
  "null_field k tlv = do {
     count \<leftarrow> tlv_count tlv;
     if count > int k then do { e \<leftarrow> item tlv k; Some (tlv_code e = 64) } else Some False
   }"

definition disposition_state :: "Tlv \<Rightarrow> byte ptr option option" where
  "disposition_state list = do {
     p \<leftarrow> opt_field 4 (\<lambda>e. Some (Ref e)) list;
     case p of
       Ref e \<Rightarrow> if is_list e then map_option Some (state_code e) else Some None
     | _ \<Rightarrow> Some (Some Wild)
   }"

definition init_disposition :: "Tlv \<Rightarrow> amqp_packet ptr option" where
  "init_disposition list = do {
     null \<leftarrow> null_field 0 list;
     if null then Some Wild
     else do {
       role \<leftarrow> any_field 0 (copied unwrap_bool) list;
       first \<leftarrow> any_field 1 unwrap_uint list;
       last \<leftarrow> opt_field 2 unwrap_uint list;
       settled \<leftarrow> opt_field 3 unwrap_bool list;
       or_return (disposition_state list) (\<lambda>state. do {
         batchable \<leftarrow> opt_field 5 unwrap_bool list;
         Some (Ref (ADisposition \<lparr>dis_role = role, dis_first = first, dis_last = last,
           dis_settled = settled, dis_state = state, dis_batchable = batchable\<rparr>))
       })
     }
   }"

text \<open>
  The error of a detach: the test is on the second field, the count is the third's, and the items are those
  of the sixth, which a list of at most three does not have.
\<close>

definition detach_error :: "Tlv \<Rightarrow> AmqpError ptr option option" where
  "detach_error list = do {
     count \<leftarrow> tlv_count list;
     if count > 2 then do {
       e \<leftarrow> item list 1;
       if tlv_code e = 64 then Some (Some Wild)
       else if \<not> is_list e then Some None
       else do {
         third \<leftarrow> item list 2;
         n \<leftarrow> tlv_count third;
         c_assert (n \<le> 0);
         Some (Some (Ref \<lparr>err_condition = Wild, err_description = Wild, err_info = Wild\<rparr>))
       }
     } else Some (Some Wild)
   }"

definition init_detach :: "Tlv \<Rightarrow> amqp_packet ptr option" where
  "init_detach list = do {
     count \<leftarrow> tlv_count list;
     if count = 0 \<or> count > 3 then Some Wild
     else do {
       null \<leftarrow> null_field 0 list;
       if null then Some Wild
       else do {
         handle \<leftarrow> any_field 0 unwrap_uint list;
         closed \<leftarrow> opt_field 1 unwrap_bool list;
         or_return (detach_error list) (\<lambda>error.
           Some (Ref (ADetach \<lparr>det_handle = handle, det_closed = closed, det_error = error\<rparr>)))
       }
     }
   }"

definition init_header :: "byte \<Rightarrow> Tlv \<Rightarrow> amqp_packet ptr option" where
  "init_header code list =
     (if code = CHALLENGE then init_challenge list
      else if code = INIT then init_init list
      else if code = MECHANISMS then init_mechanisms list
      else if code = OUTCOME then init_outcome list
      else if code = RESPONSE then Some (Ref AResponse)
      else if code = OPEN then init_open list
      else if code = BEGIN then init_begin list
      else if code = ATTACH then init_attach list
      else if code = FLOW then Some (Ref AFlow)
      else if code = TRANSFER then init_transfer list
      else if code = DISPOSITION then init_disposition list
      else if code = DETACH then init_detach list
      else if code = AMQP_END then Some (Ref AEnd)
      else if code = CLOSE then Some (Ref AClose)
      else Some Wild)"

subsection \<open>Frames\<close>

definition get_header_empty :: "byte \<Rightarrow> AmqpHeader" where
  "get_header_empty code = \<lparr>hdr_code = Some code, hdr_doff = None, hdr_type = None, hdr_channel = None,
     hdr_packet = Wild\<rparr>"

text \<open>\<open>get_sasl\<close> and \<open>get_amqp\<close> have the same body.\<close>

definition get_sasl :: "AmqpHeader reader" where
  "get_sasl data i = do {
     (list, i) \<leftarrow> get_tlv data i;
     code \<leftarrow> descriptor_code list;
     packet \<leftarrow> init_header code list;
     Some ((get_header_empty code)\<lparr>hdr_packet := packet\<rparr>, i)
   }"

definition get_amqp :: "AmqpHeader reader" where
  "get_amqp data i = do {
     (list, i) \<leftarrow> get_tlv data i;
     code \<leftarrow> descriptor_code list;
     packet \<leftarrow> init_header code list;
     Some ((get_header_empty code)\<lparr>hdr_packet := packet\<rparr>, i)
   }"

text \<open>Only a DATA section is one; its data may be NULL and its length unset.\<close>

definition get_section :: "SectionEntry ptr reader" where
  "get_section data i = do {
     (list, i) \<leftarrow> get_tlv data i;
     code \<leftarrow> descriptor_code list;
     if code = DATA then do {
       v \<leftarrow> unwrap_binary list;
       Some (Ref \<lparr>sec_code = code, sec_section = Ref \<lparr>dat_data = v, dat_length = tlv_length list\<rparr>\<rparr>, i)
     } else Some (Null, i)
   }"

text \<open>
  The sections of a transfer, written to an array of one: a second one is outside of it. The number is the index
  of the last, and unset (\<open>Wild\<close>) without any.
\<close>

definition read_sections :: "byte list \<Rightarrow> int \<Rightarrow> (SectionEntry list \<times> int ptr) option" where
  "read_sections data i =
     (if i < int (length data) then do {
        (section, i) \<leftarrow> get_section data i;
        s \<leftarrow> deref section;
        c_assert (\<not> i < int (length data));
        Some ([s], Ref 0)
      } else Some ([], Wild))"

definition add_read_sections :: "byte list \<Rightarrow> int \<Rightarrow> AmqpHeader \<Rightarrow> AmqpHeader option" where
  "add_read_sections data i h = do {
     p \<leftarrow> as_transfer h;
     (sections, number) \<leftarrow> read_sections data i;
     Some (h\<lparr>hdr_packet := Ref (ATransfer (p\<lparr>tra_sections := Ref sections, tra_section_number := number\<rparr>))\<rparr>)
   }"

text \<open>\<open>readable_bytes\<close> is the length of the buffer in every call. A ping is a header with nothing set.\<close>

definition amqp_decode :: "byte list \<Rightarrow> AmqpHeader ptr option" where
  "amqp_decode data = do {
     n \<leftarrow> get_int data 0;
     doff \<leftarrow> rd data 4;
     type \<leftarrow> rd data 5;
     channel \<leftarrow> get_short data 6;
     let readable = int (length data) - 8;
     if n = 8 \<and> doff = 2 \<and> (type = 0 \<or> type = 1) \<and> channel = 0 then
       Some (if readable = 0
             then Ref \<lparr>hdr_code = None, hdr_doff = None, hdr_type = None, hdr_channel = None, hdr_packet = Wild\<rparr>
             else Null)
     else if n = 0x414D5150 \<and> (doff = 3 \<or> doff = 0) \<and> type = 1 \<and> channel = 0 then
       Some (if readable = 0
             then Ref \<lparr>hdr_code = Some PROTO, hdr_doff = Some 0, hdr_type = Some 0, hdr_channel = Some 0,
               hdr_packet = Ref (AProto \<lparr>proto_protocol = Wild, proto_id = uint doff, proto_version = None\<rparr>)\<rparr>
             else Null)
     else if sint n \<noteq> readable + 8 \<or> type \<noteq> 0 \<and> type \<noteq> 1 then Some Null
     else do {
       (header, i) \<leftarrow> (if type = 0 then get_amqp data 8 else get_sasl data 8);
       let header = header\<lparr>hdr_doff := Some (uint doff), hdr_type := Some (uint type),
         hdr_channel := Some (sint channel)\<rparr>;
       if hdr_code header = Some TRANSFER then map_option Ref (add_read_sections data i header)
       else Some (Ref header)
     }
   }"

end
