(* ===== verification/AmqpRead.thy ===== *)
theory AmqpRead
  imports AmqpDecode
begin

text \<open>
  What the decoder of AMQP (AmqpDecode) makes of the frames of the encoder (AmqpEncode), and of the same
  frames with the size fields of the protocol: \<open>received\<close> is the packet read from another, \<open>decode_packet\<close> the result for
  a whole frame.
\<close>

subsection \<open>Fields read back\<close>

lemma set_constructor_sel [simp]:
  "tlv_code (set_constructor con t) = tlv_code t"
  "tlv_constructor (set_constructor con t) = Ref con"
  "tlv_value (set_constructor con t) = tlv_value t"
  "tlv_length (set_constructor con t) = tlv_length t"
  "tlv_list (set_constructor con t) = tlv_list t"
  "tlv_count (set_constructor con t) = tlv_count t"
  by (cases t; simp)+

lemma tlv_kinds [simp]:
  "tlv_code (tlv_plain c) = c" "tlv_code (tlv_fixed c v l) = c" "tlv_code (tlv_var c v l) = c"
  "tlv_code (tlv_items c ts w sz k) = c"
  "tlv_value (tlv_fixed c v l) = Ref v" "tlv_value (tlv_var c v l) = Ref v"
  "tlv_length (tlv_fixed c v l) = l" "tlv_length (tlv_var c v l) = l"
  "tlv_list (tlv_items c ts w sz k) = ts" "tlv_count (tlv_items c ts w sz k) = Some k"
  by (simp_all add: tlv_plain_def tlv_fixed_def tlv_var_def tlv_items_def)

fun amqp_null :: "amqp_value \<Rightarrow> bool" where
  "amqp_null VNull = True"
| "amqp_null (VDescribed d v) = amqp_null v"
| "amqp_null _ = False"

lemma null_code: "tlv_code (tlv_of \<delta> d v) = 64 \<longleftrightarrow> amqp_null v"
  by (induction \<delta> d v rule: tlv_of.induct) (auto simp: Let_def)

lemma strip_nth:
  "k < length (strip vs) \<Longrightarrow> strip vs ! k = vs ! k"
  "length (strip vs) \<le> k \<Longrightarrow> k < length vs \<Longrightarrow> vs ! k = VNull"
proof (induction vs rule: rev_induct)
  case (snoc v vs)
  { case 1 then show ?case using snoc length_strip [of vs] by (auto simp: nth_append split: if_splits)
  next case 2 then show ?case using snoc by (auto simp: nth_append less_Suc_eq split: if_splits) }
qed simp_all

lemma items_of_list:
  assumes "strip vs \<noteq> []"
  shows "tlv_count (tlv_of \<delta> d (VList (strip vs))) = Some (int (length (strip vs)))"
    "k < length (strip vs) \<Longrightarrow> item (tlv_of \<delta> d (VList (strip vs))) k = Some (tlv_of \<delta> Wild (vs ! k))"
  using assms by (simp_all add: item_def strip_nth)

lemma opt_field_strip:
  assumes "strip vs \<noteq> []" "k < length vs"
  shows "opt_field k u (tlv_of \<delta> d (VList (strip vs))) =
    (if amqp_null (vs ! k) then Some Wild else u (tlv_of \<delta> Wild (vs ! k)))"
proof (cases "k < length (strip vs)")
  case True
  then show ?thesis
    using assms by (simp add: opt_field_def items_of_list null_code del: tlv_of.simps)
next
  case False
  then have "vs ! k = VNull" using assms strip_nth(2) [of vs k] by simp
  then show ?thesis
    using False assms by (simp add: opt_field_def items_of_list del: tlv_of.simps)
qed

lemma any_field_strip:
  assumes "strip vs \<noteq> []"
  shows "any_field k u (tlv_of \<delta> d (VList (strip vs))) =
    (if k < length (strip vs) then u (tlv_of \<delta> Wild (vs ! k)) else Some Wild)"
  using assms by (simp add: any_field_def items_of_list del: tlv_of.simps)

lemma null_field_strip:
  assumes "strip vs \<noteq> []"
  shows "null_field k (tlv_of \<delta> d (VList (strip vs))) =
    Some (k < length (strip vs) \<and> amqp_null (vs ! k))"
  using assms by (simp add: null_field_def items_of_list null_code del: tlv_of.simps)

text \<open>What is read of a field: its value through \<open>g\<close>, unset for an absent one.\<close>

lemma field_weaken:
  "field P p \<Longrightarrow> field (\<lambda>_. True) p" "field (\<lambda>x. Q x \<and> R x) p \<Longrightarrow> field Q p"
  by (cases p; simp add: field_def)+

definition got :: "('a \<Rightarrow> 'b) \<Rightarrow> 'a ptr \<Rightarrow> 'b ptr" where
  "got g p = (case p of Ref x \<Rightarrow> Ref (g x) | _ \<Rightarrow> Wild)"

lemma opt_field_got:
  assumes "strip vs \<noteq> []" "k < length vs" "vs ! k = opt f p" "field P p"
    and "\<And>x. P x \<Longrightarrow> \<not> amqp_null (f x) \<and> u (tlv_of \<delta> Wild (f x)) = Some (Ref (g x))"
  shows "opt_field k u (tlv_of \<delta> d (VList (strip vs))) = Some (got g p)"
  using assms(3-5) unfolding opt_field_strip [OF assms(1,2)]
  by (cases p) (auto simp: opt_def got_def field_def)

text \<open>The unwrappers on the values; of a number above 255 only the highest byte is read.\<close>

definition got_uint :: "int \<Rightarrow> int" where
  "got_uint n = (if n < 256 then n else n div 2 ^ 24)"

definition got_bool :: "int \<Rightarrow> int" where
  "got_bool n = b2i (n \<noteq> 0)"

definition got_swapped :: "int \<Rightarrow> int" where
  "got_swapped n = uint (let w = of_int n :: u16 in push_bit 8 w OR drop_bit 8 w)"

named_theorems unwrapped "what the unwrappers make of a value"

lemma unwrap_uint_value [unwrapped]:
  assumes "c_ulong n"
  shows "unwrap_uint (tlv_of \<delta> d (uint_value n)) = Some (Ref (got_uint n))"
proof -
  have u: "uint (of_int n :: u32) = n" using assms uint_word_range [of n] by simp
  then have cmp: "(of_int n :: u32) = 0 \<longleftrightarrow> n = 0" "(of_int n :: u32) < 256 \<longleftrightarrow> n < 256"
    by (metis uint_0_iff, simp add: word_less_def u)
  have "uint (ucast (drop_bit 24 (of_int n :: u32)) :: byte) = n div 2 ^ 24"
  proof -
    have "n div 16777216 < 256" using zdiv_mono1 [of n 2147483647 16777216] assms by simp
    moreover have "uint (ucast (drop_bit 24 w) :: byte) = take_bit 8 (drop_bit 24 (uint w))" for w :: u32
      by (rule bit_eqI) (auto simp: bit_simps)
    ultimately show ?thesis
      using assms u by (simp add: drop_bit_eq_div take_bit_int_eq_self pos_imp_zdiv_nonneg_iff)
  qed
  moreover have "uint (ucast (of_int n :: u32) :: byte) = n" if "n < 256"
    using assms that by (simp add: unsigned_ucast_eq u take_bit_int_eq_self)
  ultimately show ?thesis
    using cmp by (auto simp: uint_value_def unwrap_uint_def by_length_def first_byte_def got_uint_def int_bytes_def)
qed

lemma unwrap_string_value [unwrapped]:
  "unwrap_string (tlv_of \<delta> d (VString s)) = Some (Ref (cstr_of s))"
  by (simp add: unwrap_string_def copy_string_def rd_n_all)

lemma unwrap_symbol_value [unwrapped]:
  "unwrap_symbol (tlv_of \<delta> d (VSymbol s)) = Some (Ref (cstr_of s))"
  by (simp add: unwrap_symbol_def copy_string_def rd_n_all)

lemma unwrap_binary_value [unwrapped]: "unwrap_binary (tlv_of \<delta> d (VBinary v)) = Some (Ref v)"
  by (simp add: unwrap_binary_def)

lemma unwrap_bool_value [unwrapped]: "unwrap_bool (tlv_of \<delta> d (bool_value n)) = Some (Ref (got_bool n))"
  by (simp add: unwrap_bool_def bool_value_def got_bool_def b2i_def Let_def)

lemma unwrap_ubyte_value [unwrapped]:
  "unwrap_ubyte (tlv_of \<delta> d (mode_value n)) = Some (Ref (n mod 256))"
  by (simp add: unwrap_ubyte_def mode_value_def first_byte_def uint_word_of_int)

lemma unwrap_ushort_value [unwrapped]:
  "unwrap_ushort (tlv_of \<delta> d (swapped_value n)) = Some (Ref (got_swapped n))"
  using get_short_here [of _ "[]"]
  by (simp add: unwrap_ushort_def swapped_value_def got_swapped_def Let_def)

lemma state_code_value [unwrapped]: "state_code (tlv_of \<delta> d (state_value c)) = Some (Ref c)"
  by (simp add: state_code_def state_value_def descriptor_code_def descriptor_of_def)

lemma copied_Ref [unwrapped]: "u e = Some (Ref n) \<Longrightarrow> copied u e = Some (Ref n)"
  by (simp add: copied_def)

lemma not_null_values [unwrapped]:
  "\<not> amqp_null (uint_value n)" "\<not> amqp_null (VString s)" "\<not> amqp_null (VSymbol s)" "\<not> amqp_null (VBinary v)"
  "\<not> amqp_null (bool_value n)" "\<not> amqp_null (mode_value n)" "\<not> amqp_null (swapped_value n)"
  "\<not> amqp_null (state_value c)" "\<not> amqp_null (source_value x)" "\<not> amqp_null (target_value y)"
  by (simp_all add: uint_value_def bool_value_def mode_value_def swapped_value_def state_value_def
      source_value_def target_value_def)

lemma unwrap_null [unwrapped]:
  "unwrap_uint (tlv_of \<delta> d VNull) = Some Null" "unwrap_bool (tlv_of \<delta> d VNull) = Some Null"
  by (simp_all add: unwrap_uint_def unwrap_bool_def)

declare tlv_of.simps [simp del]

lemma settled_field_any: "settled_field list = any_field 4 unwrap_bool list"
  by (auto simp: settled_field_def any_field_def unwrap_bool_def intro!: Option.bind_cong)

text \<open>A field read whatever it is: NULL where a null stands in its place.\<close>

definition got_any :: "nat \<Rightarrow> amqp_value list \<Rightarrow> ('a \<Rightarrow> 'b) \<Rightarrow> 'a ptr \<Rightarrow> 'b ptr" where
  "got_any k vs g p = (case p of Ref x \<Rightarrow> Ref (g x) | _ \<Rightarrow> if k < length (strip vs) then Null else Wild)"

lemma any_field_got_any:
  assumes "strip vs \<noteq> []" "k < length vs" "vs ! k = opt f p" "field P p"
    and "\<And>x. P x \<Longrightarrow> \<not> amqp_null (f x) \<and> u (tlv_of \<delta> Wild (f x)) = Some (Ref (g x))"
    and "u (tlv_of \<delta> Wild VNull) = Some Null"
  shows "any_field k u (tlv_of \<delta> d (VList (strip vs))) = Some (got_any k vs g p)"
proof (cases p)
  case (Ref x)
  then have v: "\<not> amqp_null (f x)" "u (tlv_of \<delta> Wild (f x)) = Some (Ref (g x))" "vs ! k = f x"
    using assms(3-5) by (auto simp: opt_def field_def)
  then have "k < length (strip vs)" using strip_nth(2) [of vs k] assms(2) by fastforce
  then show ?thesis using assms(1) v Ref by (simp add: any_field_strip got_any_def)
qed (use assms in \<open>auto simp: any_field_strip got_any_def opt_def field_def\<close>)

lemma any_field_got:
  assumes "strip vs \<noteq> []" "k < length vs" "vs ! k = opt f p" "field P p" "p \<noteq> Null"
    and "\<And>x. P x \<Longrightarrow> \<not> amqp_null (f x) \<and> u (tlv_of \<delta> Wild (f x)) = Some (Ref (g x))"
  shows "any_field k u (tlv_of \<delta> d (VList (strip vs))) = Some (got g p)"
proof (cases p)
  case (Ref x)
  then have v: "\<not> amqp_null (f x)" "u (tlv_of \<delta> Wild (f x)) = Some (Ref (g x))" "vs ! k = f x"
    using assms(3,4,6) by (auto simp: opt_def field_def)
  then have "k < length (strip vs)" using strip_nth(2) [of vs k] assms(2) by fastforce
  then show ?thesis using assms(1) v Ref by (simp add: any_field_strip got_def)
qed (use assms in \<open>auto simp: field_def\<close>)

lemma opt_field_absent:
  assumes "strip vs \<noteq> []" "k < length vs \<longrightarrow> vs ! k = VNull"
  shows "opt_field k u (tlv_of \<delta> d (VList (strip vs))) = Some Wild"
proof (cases "k < length vs")
  case True
  then show ?thesis using assms by (simp add: opt_field_strip)
next
  case False
  then have "\<not> int (length (strip vs)) > int k" using length_strip [of vs] by linarith
  then show ?thesis using assms(1) by (simp add: opt_field_def items_of_list del: tlv_of.simps)
qed

text \<open>A field of another type than the one expected is read as NULL.\<close>

definition rejected :: "'a ptr \<Rightarrow> 'b ptr" where
  "rejected p = (case p of Ref _ \<Rightarrow> Null | _ \<Rightarrow> Wild)"

text \<open>The packet that is made of the fields of another.\<close>

definition source_received :: "AmqpSource \<Rightarrow> AmqpSource" where
  "source_received s = \<lparr>src_address = got cstr_of (src_address s), src_durable = got got_uint (src_durable s),
     src_expiry_period = Wild, src_timeout = got got_uint (src_timeout s),
     src_dynamic = got got_bool (src_dynamic s), src_dynamic_node_properties = Wild,
     src_distribution_mode = Wild, src_filter = Wild, src_default_outcome = Wild, src_outcomes = Wild,
     src_capabilities = Wild\<rparr>"

fun received :: "amqp_packet \<Rightarrow> amqp_packet" where
  "received (AOpen p) = AOpen \<lparr>open_container_id = got cstr_of (open_container_id p),
     open_hostname = got cstr_of (open_hostname p), open_max_frame_size = got got_uint (open_max_frame_size p),
     open_channel_max = got got_swapped (open_channel_max p), open_idle_timeout = got got_uint (open_idle_timeout p)\<rparr>"
| "received (ABegin p) = ABegin \<lparr>begin_remote_channel = got got_swapped (begin_remote_channel p),
     begin_next_outgoing_id = got got_uint (begin_next_outgoing_id p),
     begin_incoming_window = got got_uint (begin_incoming_window p),
     begin_outgoing_window = got_any 3 (amqp_fields (ABegin p)) got_uint (begin_outgoing_window p),
     begin_handle_max = got got_uint (begin_handle_max p), begin_offered_capabilities = Wild,
     begin_desired_capabilities = Wild, begin_properties = Wild\<rparr>"
| "received (AAttach p) = AAttach \<lparr>att_name = got cstr_of (att_name p), att_handle = got got_uint (att_handle p),
     att_role = got got_bool (att_role p), att_snd_settle_mode = got (\<lambda>n. n mod 256) (att_snd_settle_mode p),
     att_rcv_settle_mode = got (\<lambda>n. n mod 256) (att_rcv_settle_mode p),
     att_source = got source_received (att_source p), att_target = Wild, att_unsettled = Wild,
     att_incomplete_unsettled = rejected (att_incomplete_unsettled p),
     att_initial_delivery_count = got got_uint (att_initial_delivery_count p),
     att_max_message_size = rejected (att_max_message_size p),
     att_offered_capabilities = Wild, att_desired_capabilities = Wild, att_properties = Wild\<rparr>"
| "received (ATransfer p) = ATransfer \<lparr>tra_handle = got got_uint (tra_handle p),
     tra_delivery_id = got got_uint (tra_delivery_id p), tra_delivery_tag = got id (tra_delivery_tag p),
     tra_delivery_tag_length = Wild, tra_message_format = got got_uint (tra_message_format p),
     tra_settled = got_any 4 (amqp_fields (ATransfer p)) got_bool (tra_settled p), tra_more = got got_bool (tra_more p),
     tra_rcv_settle_mode = got (\<lambda>n. n mod 256) (tra_rcv_settle_mode p), tra_state = got id (tra_state p),
     tra_resume = got got_bool (tra_resume p), tra_aborted = Wild, tra_batchable = got got_bool (tra_batchable p),
     tra_sections = Wild, tra_section_number = Wild\<rparr>"
| "received (ADisposition p) = ADisposition \<lparr>dis_role = got got_bool (dis_role p),
     dis_first = got got_uint (dis_first p), dis_last = got got_uint (dis_last p),
     dis_settled = got got_bool (dis_settled p), dis_state = got id (dis_state p),
     dis_batchable = got got_bool (dis_batchable p)\<rparr>"
| "received (ADetach p) = ADetach \<lparr>det_handle = got got_uint (det_handle p),
     det_closed = got got_bool (det_closed p), det_error = Wild\<rparr>"
| "received (AInit p) = AInit \<lparr>ini_mechanism = got cstr_of (ini_mechanism p), ini_response = got id (ini_response p),
     ini_response_length = None, ini_host_name = got cstr_of (ini_host_name p)\<rparr>"
| "received p = p"

text \<open>The kinds of fields: \<open>reads_as u f P g\<close> is what the rules above ask of the unwrapper.\<close>

definition reads_as :: "(Tlv \<Rightarrow> 'b ptr option) \<Rightarrow> ('a \<Rightarrow> amqp_value) \<Rightarrow> ('a \<Rightarrow> bool) \<Rightarrow> ('a \<Rightarrow> 'b) \<Rightarrow> bool" where
  "reads_as u f P g \<longleftrightarrow>
     (\<forall>x. P x \<longrightarrow> \<not> amqp_null (f x) \<and> (\<forall>\<delta> d. u (tlv_of \<delta> d (f x)) = Some (Ref (g x))))"

named_theorems field_kinds "the kinds of fields and their unwrappers"

lemma read_uint [field_kinds]: "reads_as unwrap_uint uint_value c_ulong got_uint"
  "reads_as (copied unwrap_uint) uint_value c_ulong got_uint"
  by (auto simp: reads_as_def unwrapped)

lemma read_string [field_kinds]: "reads_as unwrap_string VString short_bytes_ok cstr_of"
  "reads_as unwrap_symbol VSymbol short_bytes_ok cstr_of"
  by (auto simp: reads_as_def unwrapped)

lemma read_bool [field_kinds]: "reads_as unwrap_bool bool_value (\<lambda>_. True) got_bool"
  "reads_as (copied unwrap_bool) bool_value (\<lambda>_. True) got_bool"
  by (auto simp: reads_as_def unwrapped)

lemma read_mode [field_kinds]: "reads_as (copied unwrap_ubyte) mode_value c_mode (\<lambda>n. n mod 256)"
  by (auto simp: reads_as_def unwrapped)

lemma read_swapped [field_kinds]: "reads_as unwrap_ushort swapped_value c_ulong got_swapped"
  by (auto simp: reads_as_def unwrapped)

lemma read_binary [field_kinds]: "reads_as unwrap_binary VBinary (\<lambda>_. True) id"
  by (auto simp: reads_as_def unwrapped)

lemma read_state [field_kinds]: "reads_as state_code state_value (\<lambda>_. True) id"
  by (auto simp: reads_as_def unwrapped)

lemma opt_field_reads:
  assumes "reads_as u f P g" "strip vs \<noteq> []" "k < length vs" "vs ! k = opt f p" "field P p"
  shows "opt_field k u (tlv_of \<delta> d (VList (strip vs))) = Some (got g p)"
  using assms(1) by (intro opt_field_got [OF assms(2-5)]) (simp add: reads_as_def)

lemma any_field_reads:
  assumes "reads_as u f P g" "strip vs \<noteq> []" "k < length vs" "vs ! k = opt f p" "field P p" "p \<noteq> Null"
  shows "any_field k u (tlv_of \<delta> d (VList (strip vs))) = Some (got g p)"
  using assms(1) by (intro any_field_got [OF assms(2-6)]) (simp add: reads_as_def)

lemma any_field_reads_any:
  assumes "reads_as u f P g" "strip vs \<noteq> []" "k < length vs" "vs ! k = opt f p" "field P p"
    and "\<And>d. u (tlv_of \<delta> d VNull) = Some Null"
  shows "any_field k u (tlv_of \<delta> d (VList (strip vs))) = Some (got_any k vs g p)"
  using assms(1) by (intro any_field_got_any [OF assms(2-5)]) (simp_all add: reads_as_def assms(6))

lemma items_counted:
  assumes "strip vs \<noteq> []"
  shows "tlv_count (tlv_of \<delta> d (VList (strip vs))) = Some (int (length (strip vs)))"
    "0 < length (strip vs)" "length (strip vs) \<le> length vs"
  using items_of_list(1) [OF assms] assms length_strip by auto

text \<open>Each function of the factory on the fields of a packet.\<close>

named_theorems received_packet "the packet read from the fields of another"

lemmas field_reads = field_kinds [THEN opt_field_reads] field_kinds [THEN any_field_reads]

lemma strip_absent: "k \<le> length vs \<Longrightarrow> (\<And>j. k \<le> j \<Longrightarrow> j < length vs \<Longrightarrow> vs ! j = VNull) \<Longrightarrow> length (strip vs) \<le> k"
proof (induction vs rule: rev_induct)
  case (snoc v vs)
  show ?case
  proof (cases "k = length (vs @ [v])")
    case True
    then show ?thesis using length_strip [of "vs @ [v]"] by simp
  next
    case False
    then have "k \<le> length vs" using snoc.prems(1) by simp
    moreover from this have "v = VNull" using snoc.prems(2) [of "length vs"] by simp
    moreover have "vs ! j = VNull" if "k \<le> j" "j < length vs" for j
      using snoc.prems(2) [of j] that by (simp add: nth_append)
    ultimately show ?thesis using snoc.IH by simp
  qed
qed simp

lemma opt_present:
  "field P p \<Longrightarrow> p \<noteq> Null \<Longrightarrow> \<not> amqp_null (opt uint_value p)"
  "field P p \<Longrightarrow> p \<noteq> Null \<Longrightarrow> \<not> amqp_null (opt bool_value p)"
  by (cases p; simp add: field_def opt_def unwrapped)+

lemma init_detach_received [received_packet]:
  assumes "fields_ok (ADetach p)" "strip (amqp_fields (ADetach p)) \<noteq> []"
  shows "init_detach (tlv_of \<delta> d (VList (strip (amqp_fields (ADetach p))))) = Some (Ref (received (ADetach p)))"
proof -
  note ok = assms(1) [unfolded fields_ok.simps] and ne = assms(2) [unfolded amqp_fields.simps]
  have "length (strip (amqp_fields (ADetach p))) \<le> 2"
    by (rule strip_absent) (auto simp: less_Suc_eq nth_Cons')
  moreover have "\<not> amqp_null (opt uint_value (det_handle p))" using ok opt_present by blast
  ultimately show ?thesis
    using ok ne
    by (simp add: init_detach_def items_counted null_field_strip field_reads detach_error_def or_return_def)
qed

lemma init_open_received [received_packet]:
  assumes "fields_ok (AOpen p)" "strip (amqp_fields (AOpen p)) \<noteq> []"
  shows "init_open (tlv_of \<delta> d (VList (strip (amqp_fields (AOpen p))))) = Some (Ref (received (AOpen p)))"
proof -
  note ok = assms(1) [unfolded fields_ok.simps] and ne = assms(2) [unfolded amqp_fields.simps]
  obtain s where s: "open_container_id p = Ref s" using ok by (cases "open_container_id p") (auto simp: field_def)
  show ?thesis
    using ok ne
    by (simp add: init_open_def items_counted items_of_list(2) field_reads opt_field_absent unwrapped
        s opt_def [of VString "Ref s"] got_def [of _ "Ref s"])
qed

lemma init_begin_received [received_packet]:
  assumes "fields_ok (ABegin p)" "strip (amqp_fields (ABegin p)) \<noteq> []"
  shows "init_begin (tlv_of \<delta> d (VList (strip (amqp_fields (ABegin p))))) = Some (Ref (received (ABegin p)))"
proof -
  note ok = assms(1) [unfolded fields_ok.simps] and ne = assms(2) [unfolded amqp_fields.simps]
  show ?thesis
    using ok ne
    by (simp add: init_begin_def items_counted field_reads opt_field_absent
        any_field_reads_any [OF read_uint(1)] unwrapped)
qed

text \<open>The fields whose type is looked at: states, sources and targets.\<close>

lemma disposition_state_reads:
  assumes "strip vs \<noteq> []" "4 < length vs" "vs ! 4 = opt state_value p" "field (\<lambda>_. True) p"
  shows "disposition_state (tlv_of \<delta> d (VList (strip vs))) = Some (Some (got id p))"
proof (cases p)
  case (Ref c)
  have "is_list (tlv_of \<delta> Wild (state_value c))"
    by (simp add: is_list_def state_value_def tlv_of.simps)
  then show ?thesis
    using assms Ref by (simp add: disposition_state_def opt_field_strip opt_def got_def unwrapped)
qed (use assms in \<open>simp_all add: disposition_state_def opt_field_strip opt_def got_def field_def\<close>)

lemma described_list: "tlv_of \<delta> d (VDescribed c (VList vs)) = tlv_of \<delta> (Ref (descriptor_of c)) (VList vs)"
  by (simp add: tlv_of.simps)

lemma is_list_strip: "strip vs \<noteq> [] \<Longrightarrow> is_list (tlv_of \<delta> d (VList (strip vs)))"
  by (simp add: is_list_def tlv_of.simps)

lemma no_node_properties:
  "strip vs \<noteq> [] \<Longrightarrow> 5 < length vs \<longrightarrow> vs ! 5 = VNull \<Longrightarrow>
   node_properties p (tlv_of \<delta> d (VList (strip vs))) = Some (Some Wild)"
  by (simp add: node_properties_def opt_field_absent)

lemma no_default_outcome:
  "strip vs \<noteq> [] \<Longrightarrow> 8 < length vs \<longrightarrow> vs ! 8 = VNull \<Longrightarrow>
   default_outcome (tlv_of \<delta> d (VList (strip vs))) = Some (Some Wild)"
  by (simp add: default_outcome_def opt_field_absent)

lemma read_source_value:
  assumes "source_ok s"
  shows "read_source (tlv_of \<delta> d (source_value s)) = Some (Some (source_received s))"
proof -
  note ok = assms [unfolded source_ok_def source_fields_def]
  show ?thesis
    using ok
    by (simp add: source_value_def source_fields_def described_list read_source_def is_list_strip field_reads
        opt_field_absent no_node_properties no_default_outcome source_received_def)
qed

lemma read_target_value:
  assumes "target_ok t"
  shows "read_target (tlv_of \<delta> d (target_value t)) = Some (Some ())"
proof -
  note ok = assms [unfolded target_ok_def target_fields_def]
  show ?thesis
    using ok
    by (simp add: target_value_def target_fields_def described_list read_target_def field_reads
        opt_field_absent no_node_properties)
qed

lemma attach_source_reads:
  assumes "strip vs \<noteq> []" "5 < length vs" "vs ! 5 = opt source_value p" "field source_ok p"
  shows "attach_source (tlv_of \<delta> d (VList (strip vs))) = Some (Some (got source_received p))"
  using assms
  by (cases p) (simp_all add: attach_source_def opt_field_strip opt_def got_def field_def unwrapped read_source_value)

lemma attach_target_reads:
  assumes "strip vs \<noteq> []" "6 < length vs" "vs ! 6 = opt target_value p" "field target_ok p"
  shows "attach_target (tlv_of \<delta> d (VList (strip vs))) = Some (Some ())"
  using assms
  by (cases p) (simp_all add: attach_target_def opt_field_strip opt_def field_def unwrapped read_target_value)

text \<open>An attach of a sender, role 0, has its delivery count.\<close>

fun counted_packet :: "amqp_packet \<Rightarrow> bool" where
  "counted_packet (AAttach p) \<longleftrightarrow> att_initial_delivery_count p \<noteq> Null \<or> att_role p \<noteq> Ref 0"
| "counted_packet _ = True"

lemma attach_delivery_count_reads:
  assumes "strip vs \<noteq> []" "9 < length vs" "vs ! 9 = opt uint_value p" "field c_ulong p"
    and "p \<noteq> Null \<or> role \<noteq> Ref 0" "field (\<lambda>_. True) role" "role \<noteq> Null"
  shows "attach_delivery_count (got got_bool role) (tlv_of \<delta> d (VList (strip vs))) = Some (Some (got got_uint p))"
proof (cases p)
  case (Ref n)
  then have "vs ! 9 = uint_value n" "c_ulong n" using assms(3,4) by (simp_all add: opt_def field_def)
  moreover from this have "9 < length (strip vs)"
    using strip_nth(2) [of vs 9] assms(2) by (fastforce simp: uint_value_def)
  ultimately show ?thesis
    using assms(1) Ref
    by (simp add: attach_delivery_count_def items_of_list null_code unwrapped got_def)
next
  case Null
  moreover obtain r where "role = Ref r" "r \<noteq> 0"
    using assms(5-7) Null by (cases role) (auto simp: field_def)
  ultimately show ?thesis
    using assms(1,3)
    by (simp add: attach_delivery_count_def items_of_list null_code got_def got_bool_def opt_def b2i_def)
qed (use assms(4) in \<open>simp add: field_def\<close>)

lemma init_disposition_received [received_packet]:
  assumes "fields_ok (ADisposition p)" "strip (amqp_fields (ADisposition p)) \<noteq> []"
  shows "init_disposition (tlv_of \<delta> d (VList (strip (amqp_fields (ADisposition p))))) =
    Some (Ref (received (ADisposition p)))"
proof -
  note ok = assms(1) [unfolded fields_ok.simps] and ne = assms(2) [unfolded amqp_fields.simps]
  have "\<not> amqp_null (opt bool_value (dis_role p))" using ok opt_present by blast
  then show ?thesis
    using ok ne
    by (simp add: init_disposition_def items_counted null_field_strip field_reads or_return_def
        disposition_state_reads)
qed

lemma opt_field_rejected:
  assumes "strip vs \<noteq> []" "k < length vs" "vs ! k = opt f p"
    and "\<And>x. \<not> amqp_null (f x) \<and> u (tlv_of \<delta> Wild (f x)) = Some Null"
  shows "opt_field k u (tlv_of \<delta> d (VList (strip vs))) = Some (rejected p)"
  using assms by (cases p) (simp_all add: opt_field_strip opt_def rejected_def)

lemma unwrap_rejected:
  "unwrap_bool (tlv_of \<delta> d (swapped_value n)) = Some Null"
  "unwrap_ulong (tlv_of \<delta> d (uint_value n)) = Some Null"
  by (simp_all add: unwrap_bool_def unwrap_ulong_def swapped_value_def uint_value_def tlv_of.simps)

lemma init_transfer_received [received_packet]:
  assumes "fields_ok (ATransfer p)" "strip (amqp_fields (ATransfer p)) \<noteq> []"
  shows "init_transfer (tlv_of \<delta> d (VList (strip (amqp_fields (ATransfer p))))) =
    Some (Ref (received (ATransfer p)))"
proof -
  note ok = assms(1) [unfolded fields_ok.simps] and ne = assms(2) [unfolded amqp_fields.simps]
  have "field (\<lambda>_. True) (tra_delivery_tag p)" using ok by (auto intro: field_weaken(1))
  then show ?thesis
    using ok ne
    by (simp add: init_transfer_def field_reads opt_field_absent settled_field_any
        any_field_reads_any [OF read_bool(1)] unwrapped)
qed

lemma init_init_received [received_packet]:
  assumes "fields_ok (AInit p)" "strip (amqp_fields (AInit p)) \<noteq> []"
  shows "init_init (tlv_of \<delta> d (VList (strip (amqp_fields (AInit p))))) = Some (Ref (received (AInit p)))"
proof -
  note ok = assms(1) [unfolded fields_ok.simps] and ne = assms(2) [unfolded amqp_fields.simps]
  have "length (strip (amqp_fields (AInit p))) \<le> 3"
    using length_strip [of "amqp_fields (AInit p)"] by simp
  moreover have "field (\<lambda>_. True) (ini_response p)" using ok by (auto intro: field_weaken(1))
  ultimately show ?thesis
    using ok ne by (simp add: init_init_def items_counted field_reads)
qed

lemma init_attach_received [received_packet]:
  assumes "fields_ok (AAttach p)" "counted_packet (AAttach p)" "strip (amqp_fields (AAttach p)) \<noteq> []"
  shows "init_attach (tlv_of \<delta> d (VList (strip (amqp_fields (AAttach p))))) = Some (Ref (received (AAttach p)))"
proof -
  let ?vs = "amqp_fields (AAttach p)"
  note ok = assms(1) [unfolded fields_ok.simps] and ne = assms(3) [unfolded amqp_fields.simps]
  have "\<not> amqp_null (opt bool_value (att_role p))" using ok opt_present by blast
  then have "3 \<le> length (strip ?vs)"
    using strip_nth(2) [of ?vs 2] by (fastforce simp: not_le)
  moreover have "length (strip ?vs) \<le> 14" using length_strip [of ?vs] by simp
  moreover have "attach_source (tlv_of \<delta> d (VList (strip ?vs))) = Some (Some (got source_received (att_source p)))"
    by (rule attach_source_reads [OF assms(3)]) (use ok field_weaken(2) in auto)
  moreover have "attach_target (tlv_of \<delta> d (VList (strip ?vs))) = Some (Some ())"
    by (rule attach_target_reads [OF assms(3)]) (use ok field_weaken(2) in auto)
  moreover have "attach_delivery_count (got got_bool (att_role p)) (tlv_of \<delta> d (VList (strip ?vs))) =
      Some (Some (got got_uint (att_initial_delivery_count p)))"
    by (rule attach_delivery_count_reads [OF assms(3)]) (use ok assms(2) in simp_all)
  ultimately show ?thesis
    using ok ne
    by (simp add: init_attach_def items_counted field_reads opt_field_absent or_return_def
        opt_field_rejected [where f = swapped_value and p = "att_incomplete_unsettled p"]
        opt_field_rejected [where f = uint_value and p = "att_max_message_size p"]
        unwrap_rejected not_null_values)
qed

subsection \<open>Frames read back\<close>

text \<open>The value a packet is sent as; the two without arguments have a null one.\<close>

fun packet_value :: "amqp_packet \<Rightarrow> amqp_value" where
  "packet_value AEnd = VDescribed AMQP_END (VList [VNull])"
| "packet_value AClose = VDescribed CLOSE (VList [VNull])"
| "packet_value p = VDescribed (amqp_code p) (VList (strip (amqp_fields p)))"

definition size_field :: "amqp_packet \<Rightarrow> nat \<Rightarrow> nat" where
  "size_field p = (if p = AEnd \<or> p = AClose then Suc else id)"

lemma packet_body_value: "packet_body p = amqp_bytes (size_field p) (packet_value p)"
  by (cases p) (simp_all add: size_field_def arguments_bytes_def del: amqp_bytes.simps amqp_fields.simps)

lemma fields_present:
  assumes "fields_ok p" "p \<noteq> AEnd" "p \<noteq> AClose"
  shows "strip (amqp_fields p) \<noteq> []"
proof -
  have "\<exists>v \<in> set (amqp_fields p). v \<noteq> VNull"
    using assms by (cases p) (auto simp: field_def opt_def uint_value_def bool_value_def split: ptr.splits)
  then show ?thesis using strip_not_Nil by blast
qed

lemma init_header_received:
  assumes "fields_ok p" "counted_packet p"
  shows "init_header (amqp_code p) (tlv_of \<delta> Wild (packet_value p)) = Some (Ref (received p))"
proof -
  have ne: "strip (amqp_fields p) \<noteq> []" if "p \<noteq> AEnd" "p \<noteq> AClose"
    using fields_present [OF assms(1) that] .
  show ?thesis
  proof (cases "p = AEnd \<or> p = AClose")
    case True
    then show ?thesis by (auto simp: init_header_def)
  next
    case False
    then show ?thesis
      using assms ne
      by (cases p) (simp_all add: init_header_def described_list received_packet
          del: amqp_fields.simps(1-7) received.simps fields_ok.simps(1-7) counted_packet.simps(1))
  qed
qed

lemma set_strip: "set (strip vs) \<subseteq> set vs"
  unfolding strip_def by (auto dest: set_dropWhileD)

lemma opt_short: "field P q \<Longrightarrow> (\<And>x. P x \<Longrightarrow> amqp_short (f x)) \<Longrightarrow> amqp_short (opt f q)"
  by (cases q) (simp_all add: opt_def field_def)

lemma list_short:
  "list_all amqp_short vs \<Longrightarrow> length vs < 256 \<Longrightarrow> amqp_short (VDescribed c (VList (strip vs)))"
  using set_strip [of vs] length_strip [of vs] by (auto simp: list_all_iff)

lemma value_shorts:
  "amqp_short (uint_value n)" "amqp_short (bool_value n)" "amqp_short (mode_value n)"
  "amqp_short (swapped_value n)" "amqp_short (state_value c)"
  by (simp_all add: uint_value_def bool_value_def mode_value_def swapped_value_def state_value_def)

lemma opt_shorts:
  "amqp_short (opt uint_value p)" "amqp_short (opt bool_value p)" "amqp_short (opt mode_value p)"
  "amqp_short (opt swapped_value p)" "amqp_short (opt state_value s)"
  by (simp_all add: opt_def value_shorts split: ptr.splits)

lemma opt_counted:
  "field short_bytes_ok p \<Longrightarrow> amqp_short (opt VString p)"
  "field short_bytes_ok p \<Longrightarrow> amqp_short (opt VSymbol p)"
  "field short_bytes_ok p \<Longrightarrow> amqp_short (opt VBinary p)"
  by (auto simp: opt_def field_def split: ptr.splits)

lemma source_short: "source_ok s \<Longrightarrow> amqp_short (source_value s)"
  unfolding source_value_def
  by (rule list_short) (simp_all add: source_ok_def source_fields_def opt_shorts opt_counted)

lemma target_short: "target_ok t \<Longrightarrow> amqp_short (target_value t)"
  unfolding target_value_def
  by (rule list_short) (simp_all add: target_ok_def target_fields_def opt_shorts opt_counted)

lemma packet_short:
  assumes "fields_ok p"
  shows "amqp_short (packet_value p)"
proof -
  have "list_all amqp_short (amqp_fields p)"
  proof (cases p)
    case (AAttach q)
    then have "field source_ok (att_source q)" "field target_ok (att_target q)"
      using assms by (auto intro: field_weaken(2))
    then have "amqp_short (opt source_value (att_source q))" "amqp_short (opt target_value (att_target q))"
      using opt_short source_short target_short by blast+
    then show ?thesis using assms AAttach by (simp add: opt_shorts opt_counted)
  next
    case (ATransfer q)
    then have "field short_bytes_ok (tra_delivery_tag q)" using assms by (auto intro: field_weaken(2))
    then show ?thesis using assms ATransfer by (simp add: opt_shorts opt_counted)
  next
    case (AInit q)
    then have "field short_bytes_ok (ini_response q)" using assms by (auto intro: field_weaken(2))
    then show ?thesis using assms AInit by (simp add: opt_shorts opt_counted)
  qed (use assms in \<open>simp_all add: opt_shorts opt_counted\<close>)
  moreover have "length (amqp_fields p) < 256" by (cases p) simp_all
  ultimately show ?thesis using list_short [of "amqp_fields p"]
    by (cases p) (simp_all del: amqp_short.simps(6) amqp_fields.simps, simp_all)
qed

text \<open>The parts of a frame. The code's buffers are far below the bound on the length.\<close>

definition fits :: "byte list \<Rightarrow> bool" where
  "fits body \<longleftrightarrow> body \<noteq> [] \<and> length body < 2 ^ 30"

lemma int_bytes_join:
  "push_bit 24 (ucast (ucast (drop_bit 24 n) :: byte)) OR push_bit 16 (ucast (ucast (drop_bit 16 n) :: byte)) OR
   push_bit 8 (ucast (ucast (drop_bit 8 n) :: byte)) OR ucast (ucast n :: byte) = (n :: u32)"
proof (rule bit_word_eqI)
  fix i assume "i < LENGTH(32)"
  then have i: "i < 32" by simp
  consider "i < 8" | "8 \<le> i" "i < 16" | "16 \<le> i" "i < 24" | "24 \<le> i" by linarith
  then show "bit (push_bit 24 (ucast (ucast (drop_bit 24 n) :: byte)) OR push_bit 16 (ucast (ucast (drop_bit 16 n) :: byte)) OR
   push_bit 8 (ucast (ucast (drop_bit 8 n) :: byte)) OR ucast (ucast n :: byte) :: u32) i = bit n i"
    by cases (use i in \<open>auto simp: bit_simps\<close>)
qed

lemma get_int_bytes: "get_int (int_bytes n @ rest) 0 = Some n"
  using int_bytes_join [of n] by (simp add: get_int_def int_bytes_def cmem or.assoc)

lemma frame_parts:
  fixes doff type channel :: int and body :: "byte list"
  defines "data \<equiv> amqp_frame doff type channel body"
  shows "get_int data 0 = Some (of_nat (8 + length body))" "rd data 4 = Some (of_int doff)"
    "rd data 5 = Some (of_int type)" "get_short data 6 = Some (of_int channel)"
    "length data = 8 + length body"
    "reads bs t \<Longrightarrow> body = mid @ bs @ rest \<Longrightarrow>
       get_tlv data (8 + int (length mid)) = Some (t, 8 + int (length mid) + int (length bs))"
proof -
  show "get_int data 0 = Some (of_nat (8 + length body))"
    unfolding data_def amqp_frame_def by (rule get_int_bytes)
  show "rd data 4 = Some (of_int doff)" "rd data 5 = Some (of_int type)" "length data = 8 + length body"
    by (simp_all add: data_def amqp_frame_def int_bytes_def cmem)
  show "get_short data 6 = Some (of_int channel)"
    using get_short_shift [of 0 "int_bytes (of_nat (8 + length body)) @ [of_int doff, of_int type]"
        "short_bytes (of_int channel) @ body"] get_short_here
    by (simp add: data_def amqp_frame_def)
  assume "reads bs t" "body = mid @ bs @ rest"
  then show "get_tlv data (8 + int (length mid)) = Some (t, 8 + int (length mid) + int (length bs))"
    unfolding reads_def data_def amqp_frame_def
    by (elim allE [where x = "int_bytes (of_nat (8 + length body)) @ [of_int doff, of_int type] @
        short_bytes (of_int channel) @ mid"] allE [where x = rest]) (simp add: add.commute)
qed

lemma packet_reads:
  assumes "fields_ok p"
  shows "reads (amqp_bytes \<delta> (packet_value p)) (tlv_of \<delta> Wild (packet_value p))"
  using value_reads [OF packet_short [OF assms]] by blast

lemma packet_descriptor:
  "fields_ok p \<Longrightarrow> descriptor_code (tlv_of \<delta> Wild (packet_value p)) = Some (amqp_code p)"
  by (cases p) (simp_all add: descriptor_code_def descriptor_of_def tlv_of.simps del: amqp_fields.simps fields_ok.simps)

lemma section_reads:
  assumes "length v \<le> 255"
  shows "reads (section_bytes v) (tlv_of id (Ref (descriptor_of DATA)) (VBinary v))"
  using value_reads [of "VDescribed DATA (VBinary v)" id] assms by (simp add: section_bytes_def tlv_of.simps)

lemma get_section_data:
  assumes "get_tlv data i = Some (tlv_of id (Ref (descriptor_of DATA)) (VBinary v), j)"
  shows "get_section data i = Some (Ref (data_entry v), j)"
  using assms
  by (simp add: get_section_def descriptor_code_def descriptor_of_def unwrap_binary_def data_entry_def tlv_of.simps)

fun with_sections :: "amqp_packet \<Rightarrow> byte list list \<Rightarrow> amqp_packet" where
  "with_sections (ATransfer p) vs = ATransfer (p\<lparr>tra_sections := Ref (map data_entry vs),
     tra_section_number := (if vs = [] then Wild else Ref 0)\<rparr>)"
| "with_sections p vs = p"

lemma with_sections_code [simp]: "amqp_code (with_sections (received p) vs) = amqp_code p"
  by (cases p) simp_all

lemma read_sections_frame:
  assumes "list_all short_bytes_ok vs" "length vs \<le> 1"
  shows "read_sections (amqp_frame doff type channel (mid @ concat (map section_bytes vs))) (8 + int (length mid)) =
    Some (map data_entry vs, if vs = [] then Wild else Ref 0)"
proof (cases vs)
  case Nil
  then show ?thesis by (simp add: read_sections_def frame_parts(5))
next
  case (Cons v ws)
  then have v: "vs = [v]" "length v \<le> 255" using assms by simp_all
  have pos: "section_bytes v \<noteq> []" by (simp add: section_bytes_def)
  let ?data = "amqp_frame doff type channel (mid @ section_bytes v)"
  have "get_tlv ?data (8 + int (length mid)) = Some (tlv_of id (Ref (descriptor_of DATA)) (VBinary v),
      8 + int (length mid) + int (length (section_bytes v)))"
    by (rule frame_parts(6) [OF section_reads [OF v(2)]]) simp
  from get_section_data [OF this] show ?thesis
    using v(1) pos by (simp add: read_sections_def frame_parts(5))
qed

text \<open>The decoder on a frame that starts with a described value.\<close>

lemma decode_value:
  assumes val: "reads bs t" "descriptor_code t = Some code" "init_header code t = Some p"
    and head: "0 \<le> doff" "doff < 256" "type = 0 \<or> type = 1" "- (2 ^ 15) \<le> channel" "channel < 2 ^ 15"
    and fits: "fits (bs @ rest)"
  shows "amqp_decode (amqp_frame doff type channel (bs @ rest)) =
    (let h = \<lparr>hdr_code = Some code, hdr_doff = Some doff, hdr_type = Some type, hdr_channel = Some channel,
       hdr_packet = p\<rparr>
     in if code = TRANSFER
        then map_option Ref (add_read_sections (amqp_frame doff type channel (bs @ rest)) (8 + int (length bs)) h)
        else Some (Ref h))"
proof -
  let ?body = "bs @ rest"
  let ?data = "amqp_frame doff type channel ?body"
  let ?i = "8 + int (length bs)"
  note parts = frame_parts [where doff = doff and type = type and channel = channel and body = ?body]
  have tlv: "get_tlv ?data 8 = Some (t, ?i)"
    using frame_parts(6) [OF val(1), of ?body "[]" rest] by simp
  define h where "h = (get_header_empty code)\<lparr>hdr_packet := p\<rparr>"
  have get: "get_amqp ?data 8 = Some (h, ?i)" "get_sasl ?data 8 = Some (h, ?i)"
    using tlv val(2,3) by (simp_all add: get_amqp_def get_sasl_def h_def)
  have small: "0 < length ?body" "length ?body < 2 ^ 30" and len32: "8 + length ?body < 2 ^ LENGTH(32)"
    using fits unfolding fits_def by auto
  have lt: "int (length ?body) < 1073741824" using small(2) by simp
  define w :: u32 where "w = of_nat (8 + length ?body)"
  have u: "uint w = int (8 + length ?body)"
    using len32 unfolding w_def by (simp add: uint_nat unat_of_nat take_bit_nat_eq_self del: of_nat_add length_append)
  have w: "w \<noteq> 8" "w \<noteq> 0x414D5150" "sint w = int (8 + length ?body)"
  proof -
    have "uint w \<noteq> 8" "uint w \<noteq> 0x414D5150" using u small lt by linarith+
    then show "w \<noteq> 8" "w \<noteq> 0x414D5150" by auto
    have "sint w = signed_take_bit 31 (uint w)" by (simp add: sint_uint)
    also have "\<dots> = uint w" using small u by (intro signed_take_bit_int_eq_self) simp_all
    finally show "sint w = int (8 + length ?body)" using u by simp
  qed
  have head': "uint (of_int doff :: byte) = doff" "uint (of_int type :: byte) = type"
    "(of_int type :: byte) = 0 \<or> (of_int type :: byte) = 1"
    using head by (auto simp: uint_word_of_int)
  have channel: "sint (of_int channel :: u16) = channel"
    using head by (transfer fixing: channel) (simp add: signed_take_bit_int_eq_self)
  have data: "get_int ?data 0 = Some w" "rd ?data 4 = Some (of_int doff)" "rd ?data 5 = Some (of_int type)"
    "get_short ?data 6 = Some (of_int channel)" "int (length ?data) - 8 = int (length ?body)"
    using parts(1-5) by (simp_all add: w_def)
  define h' where "h' = h\<lparr>hdr_doff := Some doff, hdr_type := Some type, hdr_channel := Some channel\<rparr>"
  have h': "h' = \<lparr>hdr_code = Some code, hdr_doff = Some doff, hdr_type = Some type, hdr_channel = Some channel,
       hdr_packet = p\<rparr>"
    by (simp add: h'_def h_def get_header_empty_def)
  have hc: "hdr_code h = Some code" "hdr_code h' = Some code" by (simp_all add: h' h_def get_header_empty_def)
  have "amqp_decode ?data = (if hdr_code h' = Some TRANSFER
      then map_option Ref (add_read_sections ?data ?i h') else Some (Ref h'))"
    unfolding amqp_decode_def data Let_def Option.bind.simps head'(1,2) channel w(3)
    using w(1,2) head'(3) get small(1) by (auto simp: h'_def [symmetric] hc add.commute)
  then show ?thesis unfolding h' by simp
qed

text \<open>
  The decoder on the frame of a packet, with the size fields of the encoder or of the protocol, and at most one
  section.
\<close>

lemma decode_packet:
  assumes ok: "fields_ok p" "counted_packet p" and secs: "sections_ok p vs" "length vs \<le> 1"
    and head: "0 \<le> doff" "doff < 256" "type = 0 \<or> type = 1" "- (2 ^ 15) \<le> channel" "channel < 2 ^ 15"
    and fits: "fits (amqp_bytes \<delta> (packet_value p) @ concat (map section_bytes vs))"
  shows "amqp_decode (amqp_frame doff type channel
      (amqp_bytes \<delta> (packet_value p) @ concat (map section_bytes vs))) =
    Some (Ref (amqp_header (with_sections (received p) vs) doff type channel))"
proof -
  let ?bs = "amqp_bytes \<delta> (packet_value p)"
  let ?data = "amqp_frame doff type channel (?bs @ concat (map section_bytes vs))"
  note decoded = decode_value [OF packet_reads [OF ok(1)] packet_descriptor [OF ok(1)]
      init_header_received [OF ok] head fits]
  show ?thesis
  proof (cases "amqp_code p = TRANSFER")
    case True
    then obtain q where q: "p = ATransfer q" by (cases p) auto
    have "read_sections ?data (8 + int (length ?bs)) = Some (map data_entry vs, if vs = [] then Wild else Ref 0)"
      by (rule read_sections_frame) (use secs q in simp_all)
    then show ?thesis
      unfolding decoded Let_def using q
      by (simp add: amqp_header_def add_read_sections_def as_transfer_def)
  next
    case False
    then have "with_sections (received p) vs = received p" "amqp_code (received p) = amqp_code p"
      by (cases p; simp)+
    then show ?thesis unfolding decoded Let_def using False by (simp add: amqp_header_def)
  qed
qed

lemma length_bytes_described: "length (amqp_bytes \<delta> (VDescribed c (VList vs))) \<le> 6 + length (concat (map (amqp_bytes \<delta>) vs))"
  by (simp add: Let_def)

lemma packet_body_small: "packet_ok p \<Longrightarrow> length (packet_body p) \<le> 300"
proof (cases "p = AEnd \<or> p = AClose")
  case False
  then have "packet_body p = arguments_bytes p" by (cases p) simp_all
  then show "packet_ok p \<Longrightarrow> length (packet_body p) \<le> 300"
    using length_bytes_described [of id "amqp_code p" "strip (amqp_fields p)"]
    by (simp add: packet_ok_def arguments_bytes_def item_bytes_def del: amqp_bytes.simps amqp_fields.simps)
qed auto

lemma packet_fits:
  assumes "packet_ok p" "sections_ok p vs" "length vs \<le> 1"
  shows "fits (packet_body p @ concat (map section_bytes vs))"
proof -
  have "length (packet_body p) \<le> 300" using assms(1) by (rule packet_body_small)
  moreover have "packet_body p \<noteq> []" by (cases p) (simp_all add: arguments_bytes_def)
  moreover have "length (concat (map section_bytes vs)) \<le> 300"
    using assms(2,3) by (cases vs; cases p) (auto simp: section_bytes_def)
  ultimately show ?thesis by (simp add: fits_def)
qed

subsection \<open>The value a struct of the reader stands for\<close>

text \<open>
  \<open>tlv_abs\<close> reads a value of AMQP's type system out of the struct \<open>Tlv\<close>: from its type code and its bytes, in network order,
  of a list from its items, of an array from the bytes of its items, and from the code of its descriptor. The length of a
  counted value and the number of items have to be those of the bytes and of the items. The other fields, the length of
  a number and the size and width of a list, are not looked at.
\<close>

definition symbol_abs :: "Tlv \<Rightarrow> byte list option" where
  "symbol_abs t = (if tlv_code t = SYMBOL_8 then do {
       v \<leftarrow> deref (tlv_value t);
       c_assert (tlv_length t = Some (int (length v)));
       Some v
     } else None)"

fun symbols_abs :: "Tlv list \<Rightarrow> byte list list option" where
  "symbols_abs [] = Some []"
| "symbols_abs (t # ts) = do { v \<leftarrow> symbol_abs t; vs \<leftarrow> symbols_abs ts; Some (v # vs) }"

definition counted_abs :: "(byte list \<Rightarrow> amqp_value) \<Rightarrow> Tlv \<Rightarrow> amqp_value option" where
  "counted_abs f t = do { v \<leftarrow> deref (tlv_value t); c_assert (tlv_length t = Some (int (length v))); Some (f v) }"

definition scalar_abs :: "Tlv \<Rightarrow> amqp_value option" where
  "scalar_abs t = (let c = tlv_code t; v = tlv_value t in
     if c = AMQP_NULL then Some VNull
     else if c = BOOLEAN_TRUE then Some (VBool True)
     else if c = BOOLEAN_FALSE then Some (VBool False)
     else if c = UBYTE then (case v of Ref [x] \<Rightarrow> Some (VUbyte x) | _ \<Rightarrow> None)
     else if c = USHORT then (case v of Ref [x, y] \<Rightarrow> Some (VUshort (push_bit 8 (ucast x) OR ucast y)) | _ \<Rightarrow> None)
     else if c = UINT_0 then Some (VUint 0)
     else if c = SMALL_UINT then (case v of Ref [x] \<Rightarrow> Some (VUint (ucast x)) | _ \<Rightarrow> None)
     else if c = UINT then (case v of
         Ref [x, y, z, w] \<Rightarrow> Some (VUint (push_bit 24 (ucast x) OR push_bit 16 (ucast y) OR push_bit 8 (ucast z) OR ucast w))
       | _ \<Rightarrow> None)
     else if c = BINARY_8 then counted_abs VBinary t
     else if c = STRING_8 then counted_abs VString t
     else if c = SYMBOL_8 then counted_abs VSymbol t
     else if c = ARRAY_8 then do {
       ts \<leftarrow> deref (tlv_list t);
       c_assert (tlv_count t = Some (int (length ts)));
       ss \<leftarrow> symbols_abs ts;
       Some (VSymbols ss)
     }
     else if c = LIST_0 then Some (VList [])
     else None)"

definition described_abs :: "Tlv \<Rightarrow> amqp_value \<Rightarrow> amqp_value option" where
  "described_abs t v = do {
     con \<leftarrow> deref (tlv_constructor t);
     (case con_tlv con of
        Ref d \<Rightarrow> (if tlv_code d = SMALL_ULONG
          then (case tlv_value d of Ref [c] \<Rightarrow> Some (VDescribed c v) | _ \<Rightarrow> None) else None)
      | _ \<Rightarrow> Some v)
   }"

function tlv_abs :: "Tlv \<Rightarrow> amqp_value option" and tlvs_abs :: "Tlv list \<Rightarrow> amqp_value list option" where
  "tlv_abs t = do {
     v \<leftarrow> (if tlv_code t = LIST_8 then
             (case tlv_list t of
                Ref ts \<Rightarrow> do {
                  vs \<leftarrow> tlvs_abs ts;
                  c_assert (tlv_count t = Some (int (length ts)));
                  Some (VList vs)
                }
              | _ \<Rightarrow> None)
           else scalar_abs t);
     described_abs t v
   }"
| "tlvs_abs [] = Some []"
| "tlvs_abs (t # ts) = do { v \<leftarrow> tlv_abs t; vs \<leftarrow> tlvs_abs ts; Some (v # vs) }"
  by pat_completeness auto
termination
proof (relation "measure (\<lambda>x. case x of Inl t \<Rightarrow> 2 * size t | Inr ts \<Rightarrow> Suc (2 * size_list size ts))")
  fix t ts
  assume "tlv_list t = Ref ts"
  then have "size_list size ts < size t" by (cases t) simp
  then show "(Inr ts, Inl t) \<in> measure (\<lambda>x. case x of Inl t \<Rightarrow> 2 * size t | Inr ts \<Rightarrow> Suc (2 * size_list size ts))"
    by simp
qed simp_all

declare tlv_abs.simps [simp del]

lemma short_bytes_word:
  "push_bit 8 (ucast (ucast (take_bit 8 (drop_bit 8 n)) :: byte)) OR ucast (ucast (take_bit 8 n) :: byte) = (n :: u16)"
  by (auto intro!: bit_word_eqI simp: bit_simps)

lemma symbols_abs_map:
  "symbols_abs (map (\<lambda>v. tlv_var SYMBOL_8 v (Some (int (length v)))) ss) = Some ss"
  by (induction ss) (simp_all add: symbol_abs_def)

lemma described_abs_set [simp]:
  "described_abs (set_constructor (TlvConstructor c Wild) t) v = Some v"
  "described_abs (set_constructor (TlvConstructor c (Ref (descriptor_of x))) t) v = Some (VDescribed x v)"
  by (simp_all add: described_abs_def descriptor_of_def)

lemma tlv_abs_of:
  "amqp_short v \<Longrightarrow> tlv_abs (tlv_of \<delta> Wild v) = Some v \<and>
     ((\<forall>d' v'. v \<noteq> VDescribed d' v') \<longrightarrow> tlv_abs (tlv_of \<delta> (Ref (descriptor_of c)) v) = Some (VDescribed c v))"
proof (induction v arbitrary: c)
  case (VList vs)
  have "tlvs_abs (map (tlv_of \<delta> Wild) vs) = Some vs"
    using VList by (induction vs) simp_all
  then show ?case
    by (cases "vs = []") (simp_all add: tlv_of.simps tlv_abs.simps scalar_abs_def)
next
  case (VDescribed d v)
  then show ?case by (simp add: tlv_of.simps)
next
  case (VUshort n)
  then show ?case
    using short_bytes_word [of n] by (simp add: tlv_of.simps tlv_abs.simps scalar_abs_def short_bytes_def)
next
  case (VUint n)
  have "ucast (ucast n :: byte) = n" if "n < 256"
    using that by (simp add: word_less_nat_alt word_unat_eq_iff unsigned_ucast_eq unsigned_take_bit_eq take_bit_nat_eq_self)
  then show ?case
    using int_bytes_join [of n] by (simp add: tlv_of.simps tlv_abs.simps scalar_abs_def int_bytes_def or.assoc)
qed (simp_all add: tlv_of.simps tlv_abs.simps scalar_abs_def counted_abs_def Let_def symbols_abs_map)

subsection \<open>The properties of the codec\<close>

text \<open>
  C10: the reader of typed values ends on every buffer, valid or not, from every index that is not negative. With twice the bytes that are left behind the index,
  and two more, as the bound on the depth of its recursion, or with any larger bound, the result does not depend on what is
  answered where the bound is reached (\<open>stop\<close>, any result at all): the bound is never reached. It is always the same
  result, and satisfies the equations of the code, which have no bound.
\<close>

theorem amqp_reader_terminates:
  assumes "0 \<le> i" and "2 * nat (int (length buf) - i) + 2 \<le> n"
  shows "get_tlv_upto stop n buf i = get_tlv buf i \<and>
    get_element_upto stop n c buf i = get_element c buf i \<and>
    get_tlv buf i = do {
      (con, i) \<leftarrow> get_constructor get_tlv buf i;
      (tlv, i) \<leftarrow> get_element con buf i;
      Some (set_constructor con tlv, i)
    } \<and>
    get_element c buf i = element_case get_tlv get_element (con_code c) buf i"
  using get_tlv_bytes_left [OF assms] get_tlv_unfold [OF assms(1)] get_element_unfold [OF assms(1)] by blast

theorem amqp_reader_terminates_witness:
  "get_tlv_upto (Some (tlv_plain 1, 0)) 4 [9, 9, 9, 0] 3 = None \<and>
   get_tlv_upto (Some (tlv_plain 1, 0)) 6 [UBYTE, 7] 0 = Some (tlv_of id Wild (VUbyte 7), 2)"
proof
  have "get_tlv [9, 9, 9, 0] 4 = None"
    using get_tlv_unfold [of 4 "[9, 9, 9, 0]"] by (simp add: get_constructor_def rd_def)
  then have "get_tlv [9, 9, 9, 0] 3 = None"
    using get_tlv_unfold [of 3 "[9, 9, 9, 0]"] by (simp add: get_constructor_def rd_def)
  then show "get_tlv_upto (Some (tlv_plain 1, 0)) 4 [9, 9, 9, 0] 3 = None"
    using amqp_reader_terminates [of 3 "[9, 9, 9, 0]" 4] by simp
  have "get_tlv [UBYTE, 7] 0 = Some (tlv_of id Wild (VUbyte 7), 2)"
    using value_reads [of "VUbyte 7" id] by (auto simp: reads_def dest!: spec [where x = "[]"])
  then show "get_tlv_upto (Some (tlv_plain 1, 0)) 6 [UBYTE, 7] 0 = Some (tlv_of id Wild (VUbyte 7), 2)"
    using amqp_reader_terminates [of 0 "[UBYTE, 7]" 6] by simp
qed

text \<open>
  C9: take a null, a boolean in one byte, a \<open>ubyte\<close>, a \<open>ushort\<close>, a \<open>uint\<close> in its shortest form (0, 1 or 4 bytes), a
  binary, string or symbol of less than 256 bytes with a length of one byte, an array of less than 256 such symbols with sizes
  of one byte, a list of less than 256 such values with sizes of one byte (or the empty list), or one of these behind a
  descriptor in the form of a small \<open>ulong\<close>. Wherever its encoding stands in a buffer and whatever surrounds it,
  \<open>get_tlv\<close> stops right behind it, with a struct that stands for that value: its code, bytes, items and their number, and
  its descriptor are those of the value (\<open>tlv_abs\<close>). This holds for the size fields the protocol has (\<open>\<delta> = Suc\<close>) as for
  those the client writes (\<open>\<delta> = id\<close>). Not covered are lists, arrays and counted values with sizes of four bytes,
  maps, the other numbers, and the length field of a number, which is wrong for a \<open>uint\<close> of four bytes.
\<close>

theorem amqp_reader_correct:
  assumes "amqp_short v"
  shows "\<exists>t. get_tlv (pre @ amqp_bytes \<delta> v @ rest) (int (length pre)) =
      Some (t, int (length pre) + int (length (amqp_bytes \<delta> v))) \<and> tlv_abs t = Some v"
  using value_reads [OF assms, of \<delta>] tlv_abs_of [OF assms, of \<delta>] by (simp add: reads_def)

theorem amqp_reader_correct_witness:
  "\<exists>t. get_tlv [9, 0, 0x53, 0x24, 0xC0, 10, 3, 0x41, 0xA1, 1, 0x61, 0x70, 0, 1, 0, 2, 9] 1 = Some (t, 16) \<and>
     tlv_abs t = Some (VDescribed 0x24 (VList [VBool True, VString [0x61], VUint 65538]))"
proof -
  have "int_bytes 65538 = [0, 1, 0, 2]" by (simp add: int_bytes_def)
  then show ?thesis
    using amqp_reader_correct [of "VDescribed 0x24 (VList [VBool True, VString [0x61], VUint 65538])" "[9]" Suc "[9]"]
    by simp
qed

text \<open>
  C7: every packet the client sends is encoded as one frame, with the header's fields in network order, the packet's
  fields in the order of the protocol as one described list without trailing nulls, and the message's data behind it.
  The size fields of the lists are one less than the protocol's, but for the two packets without arguments.
\<close>

theorem amqp_encoder_correct:
  assumes "packet_ok p" and "sections_ok p vs"
  shows "amqp_encode (amqp_header p doff type channel) =
    Some (map Some (amqp_frame doff type channel
      (amqp_bytes (size_field p) (packet_value p) @ concat (map section_bytes vs))))"
  using amqp_encode_frame [OF assms] by (simp add: packet_body_value)

definition sample_disposition :: amqp_packet where
  "sample_disposition = ADisposition \<lparr>dis_role = Ref 1, dis_first = Ref 7, dis_last = Ref 7, dis_settled = Ref 1,
     dis_state = Ref 0x24, dis_batchable = Null\<rparr>"

lemma sample_disposition_ok:
  "packet_ok sample_disposition" "counted_packet sample_disposition" "sections_ok sample_disposition []"
  by (simp_all add: sample_disposition_def packet_ok_def field_def opt_def uint_value_def bool_value_def
      state_value_def item_bytes_def strip_def)

lemma sample_disposition_bytes:
  "amqp_bytes (size_field sample_disposition) (packet_value sample_disposition) =
     [0, 0x53, 0x15, 0xC0, 10, 5, 0x41, 0x52, 7, 0x52, 7, 0x41, 0, 0x53, 0x24, 0x45]"
  by (simp add: sample_disposition_def size_field_def opt_def uint_value_def bool_value_def state_value_def strip_def)

theorem amqp_encoder_correct_witness:
  "amqp_encode (amqp_header sample_disposition 2 0 0) = Some (map Some
     [0, 0, 0, 24, 2, 0, 0, 0, 0, 0x53, 0x15, 0xC0, 10, 5, 0x41, 0x52, 7, 0x52, 7, 0x41, 0, 0x53, 0x24, 0x45])"
  using amqp_encoder_correct [OF sample_disposition_ok(1,3), of 2 0 0]
  unfolding sample_disposition_bytes by (simp add: amqp_frame_def int_bytes_def short_bytes_def)

text \<open>
  What the client encodes it decodes to the packet \<open>received\<close> gives, the same but for the fields the decoder
  loses: of a number above 255 it keeps the highest byte, a \<open>ushort\<close> is swapped, the target of an attach and the
  numbers it does not take for one are gone, and absent fields are unset.
\<close>

lemma amqp_decode_encode:
  assumes "packet_ok p" "counted_packet p" and "sections_ok p vs" "length vs \<le> 1"
    and "0 \<le> doff" "doff < 256" "type = 0 \<or> type = 1" "- (2 ^ 15) \<le> channel" "channel < 2 ^ 15"
  shows "\<exists>buf. amqp_encode (amqp_header p doff type channel) = Some (map Some buf) \<and>
    amqp_decode buf = Some (Ref (amqp_header (with_sections (received p) vs) doff type channel))"
proof -
  have "fields_ok p" using assms(1) by (simp add: packet_ok_def)
  then have "amqp_decode (amqp_frame doff type channel (packet_body p @ concat (map section_bytes vs))) =
      Some (Ref (amqp_header (with_sections (received p) vs) doff type channel))"
    unfolding packet_body_value
    by (rule decode_packet) (use assms packet_fits in \<open>auto simp: packet_body_value\<close>)
  then show ?thesis using amqp_encode_frame [OF assms(1,3), of doff type channel] by blast
qed

text \<open>
  The packets that come back as they were: those without the fields the decoder loses or mistakes, whose numbers are below
  256, whose flags are 0 or 1 and whose strings have no zero byte.
\<close>

abbreviation (input) byte_number :: "int \<Rightarrow> bool" where "byte_number n \<equiv> 0 \<le> n \<and> n < 256"
abbreviation (input) flag_number :: "int \<Rightarrow> bool" where "flag_number n \<equiv> n = 0 \<or> n = 1"

definition source_faithful :: "AmqpSource \<Rightarrow> bool" where
  "source_faithful s \<longleftrightarrow> field cstr_ok (src_address s) \<and> field byte_number (src_durable s) \<and>
     field byte_number (src_timeout s) \<and> field flag_number (src_dynamic s)"

fun amqp_faithful :: "amqp_packet \<Rightarrow> bool" where
  "amqp_faithful (AOpen p) \<longleftrightarrow> field cstr_ok (open_container_id p) \<and> field cstr_ok (open_hostname p) \<and>
     field byte_number (open_max_frame_size p) \<and> open_channel_max p = Null \<and> field byte_number (open_idle_timeout p)"
| "amqp_faithful (ABegin p) \<longleftrightarrow> begin_remote_channel p = Null \<and> field byte_number (begin_next_outgoing_id p) \<and>
     field byte_number (begin_incoming_window p) \<and> field byte_number (begin_outgoing_window p) \<and>
     field byte_number (begin_handle_max p)"
| "amqp_faithful (AAttach p) \<longleftrightarrow> field cstr_ok (att_name p) \<and> field byte_number (att_handle p) \<and>
     field flag_number (att_role p) \<and> field byte_number (att_snd_settle_mode p) \<and>
     field byte_number (att_rcv_settle_mode p) \<and> field source_faithful (att_source p) \<and> att_target p = Null \<and>
     att_incomplete_unsettled p = Null \<and> field byte_number (att_initial_delivery_count p) \<and>
     att_max_message_size p = Null"
| "amqp_faithful (ATransfer p) \<longleftrightarrow> field byte_number (tra_handle p) \<and> field byte_number (tra_delivery_id p) \<and>
     field byte_number (tra_message_format p) \<and> field flag_number (tra_settled p) \<and> field flag_number (tra_more p) \<and>
     field byte_number (tra_rcv_settle_mode p) \<and> field flag_number (tra_resume p) \<and> field flag_number (tra_batchable p)"
| "amqp_faithful (ADisposition p) \<longleftrightarrow> field flag_number (dis_role p) \<and> field byte_number (dis_first p) \<and>
     field byte_number (dis_last p) \<and> field flag_number (dis_settled p) \<and> field flag_number (dis_batchable p)"
| "amqp_faithful (ADetach p) \<longleftrightarrow> field byte_number (det_handle p) \<and> field flag_number (det_closed p)"
| "amqp_faithful (AInit p) \<longleftrightarrow> field cstr_ok (ini_mechanism p) \<and> field cstr_ok (ini_host_name p)"
| "amqp_faithful AEnd = True"
| "amqp_faithful AClose = True"
| "amqp_faithful _ = False"

text \<open>
  Two packets are the same if each field that is present in one has the same value in the other; a field that is absent
  in the first is NULL or unset in the second. Left out are the numbers of the bytes of a delivery tag and of a SASL response
  and the number of the sections, which the decoder does not store (or stores one too small).
\<close>

definition same :: "'a ptr \<Rightarrow> 'a ptr \<Rightarrow> bool" where
  "same x y \<longleftrightarrow> (case x of Ref a \<Rightarrow> y = Ref a | _ \<Rightarrow> y = Null \<or> y = Wild)"

definition same_source :: "AmqpSource \<Rightarrow> AmqpSource \<Rightarrow> bool" where
  "same_source s t \<longleftrightarrow> same (src_address s) (src_address t) \<and> same (src_durable s) (src_durable t) \<and>
     same (src_expiry_period s) (src_expiry_period t) \<and> same (src_timeout s) (src_timeout t) \<and>
     same (src_dynamic s) (src_dynamic t) \<and> same (src_dynamic_node_properties s) (src_dynamic_node_properties t) \<and>
     same (src_distribution_mode s) (src_distribution_mode t) \<and> same (src_filter s) (src_filter t) \<and>
     same (src_default_outcome s) (src_default_outcome t) \<and> same (src_outcomes s) (src_outcomes t) \<and>
     same (src_capabilities s) (src_capabilities t)"

definition same_by :: "('a \<Rightarrow> 'a \<Rightarrow> bool) \<Rightarrow> 'a ptr \<Rightarrow> 'a ptr \<Rightarrow> bool" where
  "same_by R x y \<longleftrightarrow> (case x of Ref a \<Rightarrow> (\<exists>b. y = Ref b \<and> R a b) | _ \<Rightarrow> y = Null \<or> y = Wild)"

fun same_packet :: "amqp_packet \<Rightarrow> amqp_packet \<Rightarrow> bool" where
  "same_packet (AOpen p) x \<longleftrightarrow> (case x of AOpen q \<Rightarrow> same (open_container_id p) (open_container_id q) \<and>
     same (open_hostname p) (open_hostname q) \<and> same (open_max_frame_size p) (open_max_frame_size q) \<and>
     same (open_channel_max p) (open_channel_max q) \<and> same (open_idle_timeout p) (open_idle_timeout q) | _ \<Rightarrow> False)"
| "same_packet (ABegin p) x \<longleftrightarrow> (case x of ABegin q \<Rightarrow> same (begin_remote_channel p) (begin_remote_channel q) \<and>
     same (begin_next_outgoing_id p) (begin_next_outgoing_id q) \<and>
     same (begin_incoming_window p) (begin_incoming_window q) \<and>
     same (begin_outgoing_window p) (begin_outgoing_window q) \<and> same (begin_handle_max p) (begin_handle_max q) \<and>
     same (begin_offered_capabilities p) (begin_offered_capabilities q) \<and>
     same (begin_desired_capabilities p) (begin_desired_capabilities q) \<and> same (begin_properties p) (begin_properties q) | _ \<Rightarrow> False)"
| "same_packet (AAttach p) x \<longleftrightarrow> (case x of AAttach q \<Rightarrow> same (att_name p) (att_name q) \<and> same (att_handle p) (att_handle q) \<and>
     same (att_role p) (att_role q) \<and> same (att_snd_settle_mode p) (att_snd_settle_mode q) \<and>
     same (att_rcv_settle_mode p) (att_rcv_settle_mode q) \<and>
     same_by same_source (att_source p) (att_source q) \<and>
     same (att_target p) (att_target q) \<and> same (att_unsettled p) (att_unsettled q) \<and>
     same (att_incomplete_unsettled p) (att_incomplete_unsettled q) \<and>
     same (att_initial_delivery_count p) (att_initial_delivery_count q) \<and>
     same (att_max_message_size p) (att_max_message_size q) \<and>
     same (att_offered_capabilities p) (att_offered_capabilities q) \<and>
     same (att_desired_capabilities p) (att_desired_capabilities q) \<and> same (att_properties p) (att_properties q) | _ \<Rightarrow> False)"
| "same_packet (ATransfer p) x \<longleftrightarrow> (case x of ATransfer q \<Rightarrow> same (tra_handle p) (tra_handle q) \<and>
     same (tra_delivery_id p) (tra_delivery_id q) \<and> same (tra_delivery_tag p) (tra_delivery_tag q) \<and>
     same (tra_message_format p) (tra_message_format q) \<and> same (tra_settled p) (tra_settled q) \<and>
     same (tra_more p) (tra_more q) \<and> same (tra_rcv_settle_mode p) (tra_rcv_settle_mode q) \<and>
     same (tra_state p) (tra_state q) \<and> same (tra_resume p) (tra_resume q) \<and> same (tra_aborted p) (tra_aborted q) \<and>
     same (tra_batchable p) (tra_batchable q) \<and> same (tra_sections p) (tra_sections q) | _ \<Rightarrow> False)"
| "same_packet (ADisposition p) x \<longleftrightarrow> (case x of ADisposition q \<Rightarrow> same (dis_role p) (dis_role q) \<and>
     same (dis_first p) (dis_first q) \<and> same (dis_last p) (dis_last q) \<and> same (dis_settled p) (dis_settled q) \<and>
     same (dis_state p) (dis_state q) \<and> same (dis_batchable p) (dis_batchable q) | _ \<Rightarrow> False)"
| "same_packet (ADetach p) x \<longleftrightarrow> (case x of ADetach q \<Rightarrow> same (det_handle p) (det_handle q) \<and>
     same (det_closed p) (det_closed q) \<and> same (det_error p) (det_error q) | _ \<Rightarrow> False)"
| "same_packet (AInit p) x \<longleftrightarrow> (case x of AInit q \<Rightarrow> same (ini_mechanism p) (ini_mechanism q) \<and>
     same (ini_response p) (ini_response q) \<and> same (ini_host_name p) (ini_host_name q) | _ \<Rightarrow> False)"
| "same_packet AEnd x \<longleftrightarrow> x = AEnd"
| "same_packet AClose x \<longleftrightarrow> x = AClose"
| "same_packet _ x \<longleftrightarrow> False"

lemma same_got:
  "field byte_number x \<Longrightarrow> same x (got got_uint x)" "field byte_number x \<Longrightarrow> same x (got (\<lambda>n. n mod 256) x)"
  "field flag_number x \<Longrightarrow> same x (got got_bool x)" "field cstr_ok y \<Longrightarrow> same y (got cstr_of y)" "same z (got id z)"
  "field byte_number x \<Longrightarrow> same x (got_any k vs got_uint x)" "field flag_number x \<Longrightarrow> same x (got_any k vs got_bool x)"
  "same Null (got g Null)" "same Null (rejected Null)" "same Null Wild"
  by (auto simp: same_def got_def got_any_def rejected_def field_def got_uint_def got_bool_def b2i_def split: ptr.splits)

lemma same_source_received: "source_ok s \<Longrightarrow> source_faithful s \<Longrightarrow> same_source s (source_received s)"
  by (simp add: same_source_def source_received_def source_ok_def source_faithful_def same_got)

lemma same_received:
  assumes "fields_ok p" "amqp_faithful p" "sections_ok p vs"
  shows "same_packet p (with_sections (received p) vs)"
proof (cases p)
  case (AAttach q)
  then have s: "field source_ok (att_source q)" "field source_faithful (att_source q)"
    using assms(1,2) by (auto intro: field_weaken(2))
  have "same_by same_source (att_source q) (got source_received (att_source q))"
    using s by (cases "att_source q") (simp_all add: same_by_def got_def field_def same_source_received)
  then show ?thesis using assms AAttach by (simp add: same_got)
next
  case (ATransfer q)
  then show ?thesis using assms by (simp add: same_got same_def [of "Ref _"])
qed (use assms in \<open>simp_all add: same_got\<close>)

text \<open>
  C8: take a packet that the client sends (OPEN, BEGIN, ATTACH, TRANSFER, DISPOSITION, DETACH, END, CLOSE or SASL INIT), as
  \<open>amqp_encoder_correct\<close> asks for it (mandatory fields present, no capabilities or properties, each string and all fields
  together at most 255 bytes), with at most one section, with the delivery count if it attaches a sender, and with a header in
  the range of its fields. Suppose
  that its numbers are below 256, its flags 0 or 1, its strings without zero bytes, and that it has none of the fields
  the decoder mistakes: the channel numbers of OPEN and BEGIN, the target, the incomplete-unsettled flag and the maximum message
  size of ATTACH. Then \<open>amqp_decode\<close> makes of what \<open>amqp_encode\<close> writes the same header and the same packet: every field
  that is present comes back with its value, the data of the section included, and what is absent comes back as NULL or
  unset. Not stored by the decoder are the number of bytes of a delivery tag and of a SASL response and the number of
  sections.
\<close>

theorem amqp_roundtrip:
  assumes "packet_ok p" "counted_packet p" "amqp_faithful p" and "sections_ok p vs" "length vs \<le> 1"
    and "0 \<le> doff" "doff < 256" "type = 0 \<or> type = 1" "- (2 ^ 15) \<le> channel" "channel < 2 ^ 15"
  shows "\<exists>buf q. amqp_encode (amqp_header p doff type channel) = Some (map Some buf) \<and>
    amqp_decode buf = Some (Ref (amqp_header q doff type channel)) \<and> same_packet p q"
proof -
  have "fields_ok p" using assms(1) by (simp add: packet_ok_def)
  from amqp_decode_encode [OF assms(1,2,4-10)] same_received [OF this assms(3,4)] show ?thesis by blast
qed

theorem amqp_roundtrip_witness:
  "\<exists>buf q. amqp_encode (amqp_header sample_disposition 2 0 3) = Some (map Some buf) \<and>
    amqp_decode buf = Some (Ref (amqp_header q 2 0 3)) \<and> same_packet sample_disposition q"
proof -
  have "amqp_faithful sample_disposition" by (simp add: sample_disposition_def field_def)
  from amqp_roundtrip [OF sample_disposition_ok(1,2) this sample_disposition_ok(3), of 2 0 3] show ?thesis by simp
qed

text \<open>
  The frames of a peer, with the size fields of AMQP 1.0, are decoded to the same packets as the client's own.
\<close>

theorem amqp_protocol_frame_read:
  assumes "fields_ok p" "counted_packet p" and "sections_ok p vs" "length vs \<le> 1"
    and "0 \<le> doff" "doff < 256" "type = 0 \<or> type = 1" "- (2 ^ 15) \<le> channel" "channel < 2 ^ 15"
    and "length (amqp_bytes Suc (packet_value p) @ concat (map section_bytes vs)) < 2 ^ 30"
  shows "amqp_decode (amqp_frame doff type channel
      (amqp_bytes Suc (packet_value p) @ concat (map section_bytes vs))) =
    Some (Ref (amqp_header (with_sections (received p) vs) doff type channel))"
proof (rule decode_packet [OF assms(1-9)])
  have "amqp_bytes Suc (packet_value p) \<noteq> []" by (cases p) simp_all
  then show "fits (amqp_bytes Suc (packet_value p) @ concat (map section_bytes vs))"
    using assms(10) by (simp add: fits_def)
qed

theorem amqp_protocol_frame_read_witness:
  "amqp_decode [0, 0, 0, 24, 2, 0, 0, 0, 0, 0x53, 0x15, 0xC0, 11, 5, 0x41, 0x52, 7, 0x52, 7, 0x41, 0, 0x53, 0x24, 0x45] =
     Some (Ref (amqp_header (received sample_disposition) 2 0 0))"
proof -
  have "amqp_bytes Suc (packet_value sample_disposition) =
      [0, 0x53, 0x15, 0xC0, 11, 5, 0x41, 0x52, 7, 0x52, 7, 0x41, 0, 0x53, 0x24, 0x45]"
    by (simp add: sample_disposition_def opt_def uint_value_def bool_value_def state_value_def strip_def)
  then show ?thesis
    using amqp_protocol_frame_read [OF _ sample_disposition_ok(2,3), of 2 0 0] sample_disposition_ok(1)
    by (simp add: packet_ok_def amqp_frame_def int_bytes_def short_bytes_def sample_disposition_def)
qed

end
