(* ===== verification/AmqpTimers.thy ===== *)
theory AmqpTimers
  imports AmqpRead MqttTimers
begin

text \<open>
  src/src/amqp/amqp_timers.c, with the functions of src/src/amqp/amqp_client.c that it calls
  (\<open>amqp_encode_and_fire\<close>, \<open>send_amqp_ping\<close>, \<open>send_amqp_end\<close>): the state of the AMQP client, its five tables and
  its threads. Threads and \<open>pthread_cancel\<close> are those of \<open>MqttTimers\<close>.
\<close>

subsection \<open>The state\<close>

datatype amqp_event =
    AmqpSend mem
  | AmqpClose
  | AmqpStopNet
  | AmqpConnected

text \<open>
  \<open>am_handler\<close> and \<open>am_delivery\<close> keep messages by handle and by delivery id, \<open>am_incoming\<close> and
  \<open>am_outgoing\<close> the handle of a topic, \<open>am_topics\<close> the topic of a handle.
\<close>

record amqp_state =
  am_account :: "Account ptr"
  am_listener :: bool
  am_channel :: int
  am_next_handle :: int
  am_packet_id :: int
  am_delay :: u32
  am_handler :: "AmqpHeader map_base"
  am_delivery :: "AmqpHeader map_base"
  am_incoming :: "int map_base"
  am_outgoing :: "int map_base"
  am_topics :: "cstr ptr map_base"
  am_pinger :: thread
  am_messager :: thread
  am_connecter :: thread
  am_events :: "amqp_event list"
  am_exited :: bool

definition amqp_init :: amqp_state where
  "amqp_init = \<lparr>am_account = Null, am_listener = False, am_channel = 0, am_next_handle = 1,
     am_packet_id = 1, am_delay = 10, am_handler = map_init, am_delivery = map_init,
     am_incoming = map_init, am_outgoing = map_init, am_topics = map_init, am_pinger = NotStarted,
     am_messager = NotStarted, am_connecter = NotStarted, am_events = [], am_exited = False\<rparr>"

definition amqp_emit :: "amqp_event \<Rightarrow> amqp_state \<Rightarrow> amqp_state" where
  "amqp_emit e st = st\<lparr>am_events := am_events st @ [e]\<rparr>"

subsection \<open>Sending\<close>

definition amqp_encode_and_fire :: "AmqpHeader \<Rightarrow> amqp_state \<Rightarrow> amqp_state option" where
  "amqp_encode_and_fire h st = do { buf \<leftarrow> amqp_encode h; Some (amqp_emit (AmqpSend buf) st) }"

text \<open>The header the client sends with: doff 2, type 0, its channel.\<close>

definition client_header :: "byte \<Rightarrow> amqp_packet ptr \<Rightarrow> amqp_state \<Rightarrow> AmqpHeader" where
  "client_header code p st = \<lparr>hdr_code = Some code, hdr_doff = Some 2, hdr_type = Some 0,
     hdr_channel = Some (am_channel st), hdr_packet = p\<rparr>"

definition send_amqp_ping :: "amqp_state \<Rightarrow> amqp_state option" where
  "send_amqp_ping st = amqp_encode_and_fire (client_header PING Null st) st"

definition send_amqp_end :: "amqp_state \<Rightarrow> amqp_state option" where
  "send_amqp_end st = amqp_encode_and_fire (client_header AMQP_END Null st) st"

subsection \<open>The tables\<close>

definition amqp_add_message_in_map_by_handler :: "u16 \<Rightarrow> AmqpHeader \<Rightarrow> amqp_state \<Rightarrow> amqp_state option" where
  "amqp_add_message_in_map_by_handler handler message st = do {
     (m', r) \<leftarrow> id_set (am_handler st) handler message;
     Some (st\<lparr>am_handler := m'\<rparr>)
   }"

definition amqp_add_message_in_map_by_delivery_id :: "u16 \<Rightarrow> AmqpHeader \<Rightarrow> amqp_state \<Rightarrow> amqp_state option" where
  "amqp_add_message_in_map_by_delivery_id delivery_id message st = do {
     (m', r) \<leftarrow> id_set (am_delivery st) delivery_id message;
     Some (st\<lparr>am_delivery := m'\<rparr>)
   }"

definition amqp_get_message_from_map_by_handler :: "u16 \<Rightarrow> amqp_state \<Rightarrow> AmqpHeader ptr option" where
  "amqp_get_message_from_map_by_handler handler st = map_scan (am_handler st) (id_key handler) map_iter"

definition amqp_get_message_from_map_by_delivery_id :: "u16 \<Rightarrow> amqp_state \<Rightarrow> AmqpHeader ptr option" where
  "amqp_get_message_from_map_by_delivery_id delivery_id st =
     map_scan (am_delivery st) (id_key delivery_id) map_iter"

definition amqp_remove_message_from_map_handler :: "u16 \<Rightarrow> amqp_state \<Rightarrow> amqp_state option" where
  "amqp_remove_message_from_map_handler handler st = do {
     m' \<leftarrow> id_remove (am_handler st) handler;
     Some (st\<lparr>am_handler := m'\<rparr>)
   }"

definition amqp_remove_message_from_map_delivery_id :: "u16 \<Rightarrow> amqp_state \<Rightarrow> amqp_state option" where
  "amqp_remove_message_from_map_delivery_id delivery_id st = do {
     m' \<leftarrow> id_remove (am_delivery st) delivery_id;
     Some (st\<lparr>am_delivery := m'\<rparr>)
   }"

definition amqp_remove_topic_name_from_map :: "cstr ptr \<Rightarrow> amqp_state \<Rightarrow> amqp_state option" where
  "amqp_remove_topic_name_from_map name st = do {
     key \<leftarrow> deref name;
     m' \<leftarrow> map_remove (am_incoming st) key;
     Some (st\<lparr>am_incoming := m'\<rparr>)
   }"

definition amqp_remove_topic_name_from_map_outgoing :: "cstr ptr \<Rightarrow> amqp_state \<Rightarrow> amqp_state option" where
  "amqp_remove_topic_name_from_map_outgoing name st = do {
     key \<leftarrow> deref name;
     m' \<leftarrow> map_remove (am_outgoing st) key;
     Some (st\<lparr>am_outgoing := m'\<rparr>)
   }"

definition amqp_remove_handle_from_map :: "u16 \<Rightarrow> amqp_state \<Rightarrow> amqp_state option" where
  "amqp_remove_handle_from_map handle st = do {
     m' \<leftarrow> id_remove (am_topics st) handle;
     Some (st\<lparr>am_topics := m'\<rparr>)
   }"

definition amqp_add_handler_in_map :: "cstr ptr \<Rightarrow> u16 \<Rightarrow> amqp_state \<Rightarrow> amqp_state option" where
  "amqp_add_handler_in_map name handler st = do {
     key \<leftarrow> deref name;
     (m', r) \<leftarrow> name_set (am_incoming st) key (uint handler);
     Some (st\<lparr>am_incoming := m'\<rparr>)
   }"

definition amqp_add_handler_in_map_outgoing :: "cstr ptr \<Rightarrow> u16 \<Rightarrow> amqp_state \<Rightarrow> amqp_state option" where
  "amqp_add_handler_in_map_outgoing name handler st = do {
     key \<leftarrow> deref name;
     (m', r) \<leftarrow> name_set (am_outgoing st) key (uint handler);
     Some (st\<lparr>am_outgoing := m'\<rparr>)
   }"

definition amqp_add_topic_name_in_map :: "u16 \<Rightarrow> cstr ptr \<Rightarrow> amqp_state \<Rightarrow> amqp_state option" where
  "amqp_add_topic_name_in_map handler name st = do {
     (m', r) \<leftarrow> id_set (am_topics st) handler name;
     Some (st\<lparr>am_topics := m'\<rparr>)
   }"

text \<open>The name is read only when there is a key to compare it with. No entry is 0.\<close>

definition scan_handler :: "int map_base \<Rightarrow> cstr ptr \<Rightarrow> u16 option" where
  "scan_handler m name =
     (case name of
        Ref s \<Rightarrow> do {
          r \<leftarrow> map_scan m s map_iter;
          (case r of Ref v \<Rightarrow> Some (of_int v) | _ \<Rightarrow> Some 0)
        }
      | _ \<Rightarrow> do {
          r \<leftarrow> map_next m map_iter;
          (case fst r of Null \<Rightarrow> Some 0 | _ \<Rightarrow> None)
        })"

definition amqp_get_handler_from_map :: "cstr ptr \<Rightarrow> amqp_state \<Rightarrow> u16 option" where
  "amqp_get_handler_from_map name st = scan_handler (am_incoming st) name"

definition amqp_get_handler_from_map_outgoing :: "cstr ptr \<Rightarrow> amqp_state \<Rightarrow> u16 option" where
  "amqp_get_handler_from_map_outgoing name st = scan_handler (am_outgoing st) name"

definition amqp_get_topic_name_from_map :: "u16 \<Rightarrow> amqp_state \<Rightarrow> cstr ptr option" where
  "amqp_get_topic_name_from_map handler st = do {
     r \<leftarrow> map_scan (am_topics st) (id_key handler) map_iter;
     (case r of Ref name \<Rightarrow> Some name | _ \<Rightarrow> Some Null)
   }"

subsection \<open>Threads\<close>

definition amqp_stop_connect_timer :: "amqp_state \<Rightarrow> amqp_state option" where
  "amqp_stop_connect_timer st = do {
     t \<leftarrow> pthread_cancel (am_connecter st); Some (st\<lparr>am_connecter := t\<rparr>) }"

definition amqp_stop_ping_timer :: "amqp_state \<Rightarrow> amqp_state option" where
  "amqp_stop_ping_timer st = do {
     m1 \<leftarrow> map_deinit (am_handler st);
     m2 \<leftarrow> map_deinit (am_delivery st);
     m3 \<leftarrow> map_deinit (am_incoming st);
     m4 \<leftarrow> map_deinit (am_outgoing st);
     m5 \<leftarrow> map_deinit (am_topics st);
     t \<leftarrow> pthread_cancel (am_pinger st);
     Some (st\<lparr>am_handler := m1, am_delivery := m2, am_incoming := m3, am_outgoing := m4,
       am_topics := m5, am_pinger := t\<rparr>)
   }"

definition amqp_stop_message_timer :: "amqp_state \<Rightarrow> amqp_state option" where
  "amqp_stop_message_timer st = do {
     t \<leftarrow> pthread_cancel (am_messager st); Some (st\<lparr>am_messager := t\<rparr>) }"

definition amqp_stop_all_timers :: "amqp_state \<Rightarrow> amqp_state option" where
  "amqp_stop_all_timers st = do { st \<leftarrow> amqp_stop_ping_timer st; amqp_stop_message_timer st }"

text \<open>\<open>ok\<close> says whether \<open>pthread_create\<close> succeeds; if not, an END is sent and the process exits.\<close>

definition amqp_thread_failed :: "amqp_state \<Rightarrow> amqp_state option" where
  "amqp_thread_failed st = do { st \<leftarrow> send_amqp_end st; Some (st\<lparr>am_exited := True\<rparr>) }"

definition start_amqp_ping_timer :: "bool \<Rightarrow> u32 \<Rightarrow> amqp_state \<Rightarrow> amqp_state option" where
  "start_amqp_ping_timer ok delay st =
     (let st = st\<lparr>am_handler := map_init, am_delivery := map_init, am_incoming := map_init,
                  am_outgoing := map_init, am_topics := map_init, am_delay := delay\<rparr> in
      if ok then Some (st\<lparr>am_pinger := Running\<rparr>) else amqp_thread_failed st)"

definition amqp_start_message_timer :: "bool \<Rightarrow> amqp_state \<Rightarrow> amqp_state option" where
  "amqp_start_message_timer ok st =
     (if ok then Some (st\<lparr>am_messager := Running\<rparr>) else amqp_thread_failed st)"

definition amqp_start_connect_timer :: "bool \<Rightarrow> amqp_state \<Rightarrow> amqp_state option" where
  "amqp_start_connect_timer ok st =
     (if ok then Some (st\<lparr>am_connecter := Running\<rparr>) else amqp_thread_failed st)"

subsection \<open>One round of each thread\<close>

definition amqp_ping_round :: "amqp_state \<Rightarrow> amqp_state option" where
  "amqp_ping_round st = send_amqp_ping st"

definition amqp_connect_round :: "amqp_state \<Rightarrow> amqp_state option" where
  "amqp_connect_round st = Some (amqp_emit AmqpStopNet st)"

fun amqp_fire_all :: "(cstr \<times> AmqpHeader) list \<Rightarrow> amqp_state \<Rightarrow> amqp_state option" where
  "amqp_fire_all [] st = Some st"
| "amqp_fire_all (e # es) st = do { st \<leftarrow> amqp_encode_and_fire (snd e) st; amqp_fire_all es st }"

definition amqp_resend_round :: "amqp_state \<Rightarrow> amqp_state option" where
  "amqp_resend_round st = do { es \<leftarrow> map_walk (am_delivery st) map_iter; amqp_fire_all es st }"

end
