(* ===== verification/AmqpClient.thy ===== *)
theory AmqpClient
  imports AmqpTimers
begin

text \<open>
  src/src/amqp/amqp_client.c: the operations the application calls, the handler of incoming frames, and
  the AMQP client as a transition system over them. \<open>ok\<close> arguments are the results of \<open>pthread_create\<close>.
\<close>

subsection \<open>Connecting\<close>

text \<open>\<open>connected\<close> is the result of \<open>open_lws_net_connection\<close>.\<close>

definition init_amqp_client :: "Account \<Rightarrow> int \<Rightarrow> amqp_state \<Rightarrow> amqp_state \<times> int" where
  "init_amqp_client acc connected st = (st\<lparr>am_account := Ref acc, am_listener := True\<rparr>, connected)"

definition proto_header :: "int \<Rightarrow> AmqpHeader" where
  "proto_header protocol_id = \<lparr>hdr_code = Some PROTO, hdr_doff = None, hdr_type = None, hdr_channel = None,
     hdr_packet = Ref (AProto \<lparr>proto_protocol = Ref (ascii ''AMQP''), proto_id = protocol_id,
       proto_version = Some (1, 0, 0)\<rparr>)\<rparr>"

definition send_amqp_proto_header :: "int \<Rightarrow> amqp_state \<Rightarrow> amqp_state option" where
  "send_amqp_proto_header protocol_id st = amqp_encode_and_fire (proto_header protocol_id) st"

definition start_amqp_connect :: "bool \<Rightarrow> amqp_state \<Rightarrow> amqp_state option" where
  "start_amqp_connect ok st = do { st \<leftarrow> send_amqp_proto_header 3 st; amqp_start_connect_timer ok st }"

text \<open>The response is the user name twice and the password, with zeros between.\<close>

definition sasl_response :: "cstr \<Rightarrow> cstr \<Rightarrow> byte list" where
  "sasl_response user pass = user @ [0] @ user @ [0] @ pass"

definition send_amqp_sasl_init :: "AmqpHeader \<Rightarrow> amqp_state \<Rightarrow> amqp_state option" where
  "send_amqp_sasl_init in_header st = do {
     mechanism \<leftarrow> as_mechanisms in_header;
     acc \<leftarrow> deref (am_account st);
     user \<leftarrow> deref (acc_username acc);
     pass \<leftarrow> deref (acc_password acc);
     let challenge = sasl_response user pass;
     amqp_encode_and_fire (in_header\<lparr>hdr_code := Some INIT, hdr_packet := Ref (AInit
       \<lparr>ini_mechanism = mechanism, ini_response = Ref challenge,
        ini_response_length = Some (int (length challenge)), ini_host_name = Null\<rparr>)\<rparr>) st
   }"

definition c_int :: "int \<Rightarrow> int option" where
  "c_int n = do { c_assert (- (2 ^ 31) \<le> n \<and> n < 2 ^ 31); Some n }"

definition send_amqp_open :: "amqp_state \<Rightarrow> amqp_state option" where
  "send_amqp_open st = do {
     acc \<leftarrow> deref (am_account st);
     timeout \<leftarrow> c_int (acc_keep_alive acc * 1000);
     amqp_encode_and_fire (client_header OPEN (Ref (AOpen
       \<lparr>open_container_id = acc_client_id acc, open_hostname = Null, open_max_frame_size = Null,
        open_channel_max = Null, open_idle_timeout = Ref timeout\<rparr>)) st) st
   }"

definition begin_packet :: amqp_packet where
  "begin_packet = ABegin \<lparr>begin_remote_channel = Null, begin_next_outgoing_id = Ref 0,
     begin_incoming_window = Ref 2147483647, begin_outgoing_window = Ref 0, begin_handle_max = Null,
     begin_offered_capabilities = Null, begin_desired_capabilities = Null, begin_properties = Null\<rparr>"

definition send_amqp_begin :: "amqp_state \<Rightarrow> amqp_state option" where
  "send_amqp_begin st = amqp_encode_and_fire (client_header BEGIN (Ref begin_packet) st) st"

definition send_amqp_close :: "amqp_state \<Rightarrow> amqp_state option" where
  "send_amqp_close st = amqp_encode_and_fire (client_header CLOSE Null st) st"

subsection \<open>Subscribing and publishing\<close>

text \<open>Role 1 is RECEIVER, 0 SENDER; settle mode 2 is MIXED, 0 FIRST; durability 0 is NONE.\<close>

definition receiver_attach :: "cstr ptr \<Rightarrow> int \<Rightarrow> amqp_packet" where
  "receiver_attach name handle = AAttach \<lparr>att_name = name, att_handle = Ref handle, att_role = Ref 1,
     att_snd_settle_mode = Ref 2, att_rcv_settle_mode = Null, att_source = Null,
     att_target = Ref \<lparr>tgt_address = name, tgt_durable = Ref 0, tgt_expiry_period = Null,
       tgt_timeout = Ref 0, tgt_dynamic = Ref 0, tgt_dynamic_node_properties = Null, tgt_capabilities = Null\<rparr>,
     att_unsettled = Null, att_incomplete_unsettled = Null, att_initial_delivery_count = Null,
     att_max_message_size = Null, att_offered_capabilities = Null, att_desired_capabilities = Null,
     att_properties = Null\<rparr>"

definition sender_attach :: "cstr ptr \<Rightarrow> int \<Rightarrow> amqp_packet" where
  "sender_attach name handle = AAttach \<lparr>att_name = name, att_handle = Ref handle, att_role = Ref 0,
     att_snd_settle_mode = Null, att_rcv_settle_mode = Ref 0,
     att_source = Ref \<lparr>src_address = name, src_durable = Ref 0, src_expiry_period = Null,
       src_timeout = Ref 0, src_dynamic = Ref 0, src_dynamic_node_properties = Null,
       src_distribution_mode = Null, src_filter = Null, src_default_outcome = Null, src_outcomes = Null,
       src_capabilities = Null\<rparr>,
     att_target = Null, att_unsettled = Null, att_incomplete_unsettled = Null,
     att_initial_delivery_count = Ref 0, att_max_message_size = Null, att_offered_capabilities = Null,
     att_desired_capabilities = Null, att_properties = Null\<rparr>"

definition send_amqp_attach_with_handler :: "cstr ptr \<Rightarrow> int \<Rightarrow> amqp_state \<Rightarrow> amqp_state option" where
  "send_amqp_attach_with_handler name handler st =
     amqp_encode_and_fire (client_header ATTACH (Ref (receiver_attach name handler)) st) st"

text \<open>\<open>next_handle++\<close> and \<open>packet_id_counter++\<close>\<close>

definition next_handle :: "amqp_state \<Rightarrow> (int \<times> amqp_state) option" where
  "next_handle st = do {
     n \<leftarrow> int_inc (am_next_handle st);
     Some (am_next_handle st, st\<lparr>am_next_handle := n\<rparr>)
   }"

definition next_delivery_id :: "amqp_state \<Rightarrow> (int \<times> amqp_state) option" where
  "next_delivery_id st = do {
     n \<leftarrow> int_inc (am_packet_id st);
     Some (am_packet_id st, st\<lparr>am_packet_id := n\<rparr>)
   }"

definition send_amqp_attach :: "cstr ptr \<Rightarrow> int \<Rightarrow> amqp_state \<Rightarrow> amqp_state option" where
  "send_amqp_attach name q st = do {
     (handle, st) \<leftarrow> next_handle st;
     send_amqp_attach_with_handler name handle st
   }"

text \<open>A topic without a handle is only printed.\<close>

definition send_amqp_detach :: "cstr ptr \<Rightarrow> amqp_state \<Rightarrow> amqp_state option" where
  "send_amqp_detach name st = do {
     handle \<leftarrow> amqp_get_handler_from_map name st;
     if handle = 0 then do { printed \<leftarrow> deref name; Some st }
     else amqp_encode_and_fire (client_header DETACH (Ref (ADetach
       \<lparr>det_handle = Ref (uint handle), det_closed = Ref 1, det_error = Null\<rparr>)) st) st
   }"

definition accepted_disposition :: "int \<Rightarrow> amqp_packet" where
  "accepted_disposition delivery_id = ADisposition \<lparr>dis_role = Ref 1, dis_first = Ref delivery_id,
     dis_last = Ref delivery_id, dis_settled = Ref 1, dis_state = Ref 0x24, dis_batchable = Null\<rparr>"

definition send_amqp_disposition :: "int \<Rightarrow> amqp_state \<Rightarrow> amqp_state option" where
  "send_amqp_disposition delivery_id st =
     amqp_encode_and_fire (client_header DISPOSITION (Ref (accepted_disposition delivery_id)) st) st"

definition transfer_packet :: "int \<Rightarrow> int \<Rightarrow> int \<Rightarrow> byte list \<Rightarrow> AmqpTransfer" where
  "transfer_packet handle delivery_id q content = \<lparr>tra_handle = Ref handle, tra_delivery_id = Ref delivery_id,
     tra_delivery_tag = Null, tra_delivery_tag_length = Wild, tra_message_format = Ref 0,
     tra_settled = Ref (if q = 0 then 1 else 0), tra_more = Ref 0, tra_rcv_settle_mode = Null,
     tra_state = Null, tra_resume = Null, tra_aborted = Null, tra_batchable = Null,
     tra_sections = Ref [data_entry content], tra_section_number = Ref 1\<rparr>"

definition amqp_store_waiting :: "cstr ptr \<Rightarrow> u16 \<Rightarrow> AmqpHeader \<Rightarrow> amqp_state \<Rightarrow> amqp_state option" where
  "amqp_store_waiting name handle message st = do {
     st \<leftarrow> amqp_add_handler_in_map_outgoing name handle st;
     st \<leftarrow> amqp_add_topic_name_in_map handle name st;
     amqp_add_message_in_map_by_handler handle message st
   }"

text \<open>
  With a handle the message is sent, and not kept; without one it is kept under a new handle, which is
  attached.
\<close>

definition send_amqp_transfer :: "cstr ptr \<Rightarrow> cstr ptr \<Rightarrow> int \<Rightarrow> int \<Rightarrow> int \<Rightarrow> amqp_state \<Rightarrow> amqp_state option" where
  "send_amqp_transfer content name q retain dup st = do {
     (delivery_id, st) \<leftarrow> next_delivery_id st;
     bs \<leftarrow> deref content;
     handle \<leftarrow> amqp_get_handler_from_map_outgoing name st;
     if handle \<noteq> 0 then
       amqp_encode_and_fire
         (client_header TRANSFER (Ref (ATransfer (transfer_packet (uint handle) delivery_id q bs))) st) st
     else do {
       (current, st) \<leftarrow> next_handle st;
       st \<leftarrow> amqp_store_waiting name (of_int current)
         (client_header TRANSFER (Ref (ATransfer (transfer_packet current delivery_id q bs))) st) st;
       amqp_encode_and_fire (client_header ATTACH (Ref (sender_attach name current)) st) st
     }
   }"

subsection \<open>Incoming frames\<close>

definition amqp_handle_proto :: "AmqpHeader \<Rightarrow> amqp_state \<Rightarrow> amqp_state option" where
  "amqp_handle_proto h st = do {
     p \<leftarrow> as_proto h;
     if proto_id p = 0 then do {
       c \<leftarrow> hdr_channel h;
       send_amqp_open (st\<lparr>am_channel := c\<rparr>)
     } else Some st
   }"

definition amqp_handle_open :: "bool \<Rightarrow> amqp_state \<Rightarrow> amqp_state option" where
  "amqp_handle_open ok st = do {
     st \<leftarrow> amqp_stop_connect_timer st;
     acc \<leftarrow> deref (am_account st);
     st \<leftarrow> start_amqp_ping_timer ok (of_int (acc_keep_alive acc)) st;
     if am_exited st then Some st else send_amqp_begin st
   }"

text \<open>\<open>transfer->settled != NULL && *(transfer->settled)\<close>\<close>

definition is_settled :: "AmqpTransfer \<Rightarrow> bool option" where
  "is_settled p = (case tra_settled p of Null \<Rightarrow> Some False | Ref n \<Rightarrow> Some (n \<noteq> 0) | Wild \<Rightarrow> None)"

text \<open>The receiver of a topic is attached: the message kept for its handle is sent, and kept for its delivery.\<close>

definition amqp_receiver_attached :: "AmqpAttach \<Rightarrow> amqp_state \<Rightarrow> amqp_state option" where
  "amqp_receiver_attached a st = do {
     real_handle \<leftarrow> amqp_get_handler_from_map_outgoing (att_name a) st;
     if real_handle \<noteq> 0 then do {
       r \<leftarrow> amqp_get_message_from_map_by_handler real_handle st;
       (case r of
          Ref message \<Rightarrow> do {
            st \<leftarrow> amqp_encode_and_fire message st;
            st \<leftarrow> amqp_remove_message_from_map_handler real_handle st;
            p \<leftarrow> as_transfer message;
            settled \<leftarrow> is_settled p;
            if settled then Some st
            else do {
              i \<leftarrow> deref (tra_delivery_id p);
              amqp_add_message_in_map_by_delivery_id (of_int i) message st
            }
          }
        | _ \<Rightarrow> Some st)
     } else do { printed \<leftarrow> deref (att_name a); Some st }
   }"

definition amqp_add_link :: "cstr ptr \<Rightarrow> u16 \<Rightarrow> amqp_state \<Rightarrow> amqp_state option" where
  "amqp_add_link name handle st = do {
     st \<leftarrow> amqp_add_handler_in_map name handle st;
     amqp_add_topic_name_in_map handle name st
   }"

definition amqp_sender_attached :: "AmqpAttach \<Rightarrow> amqp_state \<Rightarrow> amqp_state option" where
  "amqp_sender_attached a st = do {
     current \<leftarrow> amqp_get_handler_from_map (att_name a) st;
     handle \<leftarrow> deref (att_handle a);
     st \<leftarrow> (if current = 0 then amqp_add_link (att_name a) (of_int handle) st else Some st);
     if handle \<ge> am_next_handle st then do {
       n \<leftarrow> int_inc handle;
       Some (st\<lparr>am_next_handle := n\<rparr>)
     } else Some st
   }"

definition amqp_handle_attach :: "AmqpHeader \<Rightarrow> amqp_state \<Rightarrow> amqp_state option" where
  "amqp_handle_attach h st = do {
     a \<leftarrow> as_attach h;
     (case att_role a of
        Null \<Rightarrow> Some st
      | Wild \<Rightarrow> None
      | Ref role \<Rightarrow>
          if role = 1 then amqp_receiver_attached a st
          else if role = 0 then amqp_sender_attached a st
          else Some st)
   }"

text \<open>The content is copied to a string that nothing uses: the listener never sees it.\<close>

definition amqp_handle_transfer :: "AmqpHeader \<Rightarrow> amqp_state \<Rightarrow> amqp_state option" where
  "amqp_handle_transfer h st = do {
     p \<leftarrow> as_transfer h;
     settled \<leftarrow> is_settled p;
     st \<leftarrow> (if settled then Some st
           else do { i \<leftarrow> deref (tra_delivery_id p); send_amqp_disposition i st });
     sections \<leftarrow> deref (tra_sections p);
     c_assert (sections \<noteq> []);
     data \<leftarrow> deref (sec_section (hd sections));
     n \<leftarrow> dat_length data;
     v \<leftarrow> deref (dat_data data);
     content \<leftarrow> rd_n v 0 n;
     Some st
   }"

definition amqp_handle_disposition :: "AmqpHeader \<Rightarrow> amqp_state \<Rightarrow> amqp_state option" where
  "amqp_handle_disposition h st = do {
     p \<leftarrow> as_disposition h;
     first \<leftarrow> deref (dis_first p);
     r \<leftarrow> amqp_get_message_from_map_by_delivery_id (of_int first) st;
     if r = Null then Some st else amqp_remove_message_from_map_delivery_id (of_int first) st
   }"

definition amqp_drop_link :: "cstr ptr \<Rightarrow> u16 \<Rightarrow> amqp_state \<Rightarrow> amqp_state option" where
  "amqp_drop_link name handle st = do {
     st \<leftarrow> amqp_remove_topic_name_from_map name st;
     amqp_remove_handle_from_map handle st
   }"

text \<open>The topic's handle is removed from the incoming table, whichever it was in.\<close>

definition amqp_handle_detach :: "AmqpHeader \<Rightarrow> amqp_state \<Rightarrow> amqp_state option" where
  "amqp_handle_detach h st = do {
     p \<leftarrow> as_detach h;
     handle \<leftarrow> deref (det_handle p);
     name \<leftarrow> amqp_get_topic_name_from_map (of_int handle) st;
     if name \<noteq> Null then amqp_drop_link name (of_int handle) st else Some st
   }"

definition amqp_handle_outcome :: "AmqpHeader \<Rightarrow> amqp_state \<Rightarrow> amqp_state option" where
  "amqp_handle_outcome h st = do {
     p \<leftarrow> as_outcome h;
     code \<leftarrow> out_code p;
     if code = 0 then send_amqp_proto_header 0 st else Some st
   }"

definition amqp_handle_header :: "bool \<Rightarrow> byte \<Rightarrow> AmqpHeader \<Rightarrow> amqp_state \<Rightarrow> amqp_state option" where
  "amqp_handle_header ok code h st =
     (if code = PROTO then amqp_handle_proto h st
      else if code = OPEN then amqp_handle_open ok st
      else if code = BEGIN then do { c_assert (am_listener st); Some (amqp_emit AmqpConnected st) }
      else if code = ATTACH then amqp_handle_attach h st
      else if code = TRANSFER then amqp_handle_transfer h st
      else if code = DISPOSITION then amqp_handle_disposition h st
      else if code = DETACH then amqp_handle_detach h st
      else if code = AMQP_END then send_amqp_close st
      else if code = CLOSE then Some (amqp_emit AmqpClose st)
      else if code = MECHANISMS then send_amqp_sasl_init h st
      else if code = OUTCOME then amqp_handle_outcome h st
      else Some st)"

text \<open>The result of the decoder is not tested for NULL, and the code of a ping is never set.\<close>

definition process_amqp_rx :: "bool \<Rightarrow> byte list \<Rightarrow> amqp_state \<Rightarrow> amqp_state option" where
  "process_amqp_rx ok data st = do {
     r \<leftarrow> amqp_decode data;
     h \<leftarrow> deref r;
     code \<leftarrow> hdr_code h;
     amqp_handle_header ok code h st
   }"

lemma process_amqp_rx_Nil [simp]: "process_amqp_rx ok [] st = None"
  by (simp add: process_amqp_rx_def amqp_decode_def get_int_def rd_def)

text \<open>
  The frames of a read of \<open>readable\<close> bytes. \<open>buf\<close> is the memory behind the pointer: the loop reads the length of a next
  frame, four bytes, before it looks whether there is one. It ends, too, when a frame makes the process exit.
\<close>

function amqp_frames :: "bool \<Rightarrow> byte list \<Rightarrow> int \<Rightarrow> int \<Rightarrow> int \<Rightarrow> amqp_state \<Rightarrow> amqp_state option" where
  "amqp_frames ok buf readable i n st = do {
     next_bytes \<leftarrow> rd_n buf i n;
     st \<leftarrow> process_amqp_rx ok next_bytes st;
     if am_exited st then Some st
     else do {
       w \<leftarrow> get_int buf (i + n);
       if i + n < readable then amqp_frames ok buf readable (i + n) (sint w) st else Some st
     }
   }"
  by pat_completeness auto
termination
proof (relation "measure (\<lambda>(ok, buf, readable, i, n, st). nat (readable - i))")
  fix ok :: bool and buf readable i n st bs st' w
  assume "rd_n buf i n = Some bs" "process_amqp_rx ok bs st = Some st'" "i + n < readable"
  then have "bs \<noteq> []" "length bs = nat n" using rd_n_length by auto
  then have "0 < n" by (cases "0 < n") auto
  then show "((ok, buf, readable, i + n, sint w, st'), (ok, buf, readable, i, n, st)) \<in>
      measure (\<lambda>(ok, buf, readable, i, n, st). nat (readable - i))"
    using \<open>i + n < readable\<close> by simp
qed simp

declare amqp_frames.simps [simp del]

definition amqp_data_received :: "bool \<Rightarrow> byte list \<Rightarrow> int \<Rightarrow> amqp_state \<Rightarrow> amqp_state option" where
  "amqp_data_received ok buf readable st = do {
     w \<leftarrow> get_int buf 0;
     if w = 0x414D5150 then do {
       protocol_id \<leftarrow> rd buf 4;
       major \<leftarrow> rd buf 5;
       minor \<leftarrow> rd buf 6;
       revision \<leftarrow> rd buf 7;
       if (protocol_id = 0 \<or> protocol_id = 3) \<and> major = 1 \<and> minor = 0 \<and> revision = 0 \<and> readable - 8 > 0
       then do {
         proto_bytes \<leftarrow> rd_n buf 0 8;
         st \<leftarrow> process_amqp_rx ok proto_bytes st;
         mech_bytes \<leftarrow> rd_n buf 8 (readable - 8);
         process_amqp_rx ok mech_bytes st
       } else do {
         data \<leftarrow> rd_n buf 0 readable;
         process_amqp_rx ok data st
       }
     } else amqp_frames ok buf readable 0 (sint w) st
   }"

subsection \<open>The client as a transition system\<close>

text \<open>A read is a step for each of its frames; \<open>data_received_process\<close> in \<open>AmqpBehaviour\<close> shows that it is nothing more.\<close>

inductive amqp_step :: "amqp_state \<Rightarrow> amqp_state \<Rightarrow> bool" where
  init: "init_amqp_client acc connected st = (st', r) \<Longrightarrow> amqp_step st st'"
| connect: "start_amqp_connect ok st = Some st' \<Longrightarrow> amqp_step st st'"
| subscribe: "send_amqp_attach name q st = Some st' \<Longrightarrow> amqp_step st st'"
| unsubscribe: "send_amqp_detach name st = Some st' \<Longrightarrow> amqp_step st st'"
| publish: "send_amqp_transfer content name q retain dup st = Some st' \<Longrightarrow> amqp_step st st'"
| disconnect: "send_amqp_end st = Some st' \<Longrightarrow> amqp_step st st'"
| frame: "process_amqp_rx ok data st = Some st' \<Longrightarrow> amqp_step st st'"
| ping: "am_pinger st = Running \<Longrightarrow> amqp_ping_round st = Some st' \<Longrightarrow> amqp_step st st'"
| connecting: "am_connecter st = Running \<Longrightarrow> amqp_connect_round st = Some st' \<Longrightarrow> amqp_step st st'"
| resend: "am_messager st = Running \<Longrightarrow> amqp_resend_round st = Some st' \<Longrightarrow> amqp_step st st'"

text \<open>The reachable states of a process that has not exited, while the tables of names fit the address space.\<close>

inductive amqp_reachable :: "amqp_state \<Rightarrow> bool" where
  start: "amqp_reachable amqp_init"
| step: "amqp_reachable st \<Longrightarrow> \<not> am_exited st \<Longrightarrow> amqp_step st st' \<Longrightarrow>
    name_room (am_incoming st') \<Longrightarrow> name_room (am_outgoing st') \<Longrightarrow> amqp_reachable st'"

inductive_cases amqp_stepE: "amqp_step st st'"

end
