(* ===== verification/AmqpStates.thy ===== *)
theory AmqpStates
  imports AmqpClient
begin

text \<open>
  The invariant of the reachable states of the AMQP client: its tables are intact, and hold what its operations put
  there.
\<close>

subsection \<open>The invariant\<close>

text \<open>The messages the client keeps are those of \<open>send_amqp_transfer\<close>, under their handle or delivery id.\<close>

definition transfer_message :: "int \<Rightarrow> int \<Rightarrow> int \<Rightarrow> int \<Rightarrow> byte list \<Rightarrow> AmqpHeader" where
  "transfer_message channel handle delivery_id q content =
     \<lparr>hdr_code = Some TRANSFER, hdr_doff = Some 2, hdr_type = Some 0, hdr_channel = Some channel,
      hdr_packet = Ref (ATransfer (transfer_packet handle delivery_id q content))\<rparr>"

definition waiting_ok :: "AmqpHeader map_base \<Rightarrow> bool" where
  "waiting_ok m \<longleftrightarrow> (\<forall>i h. id_abs m i = Some h \<longrightarrow>
     (\<exists>channel handle delivery_id q content.
        h = transfer_message channel handle delivery_id q content \<and> of_int handle = i))"

definition unsettled_ok :: "AmqpHeader map_base \<Rightarrow> bool" where
  "unsettled_ok m \<longleftrightarrow> (\<forall>i h. id_abs m i = Some h \<longrightarrow>
     (\<exists>channel handle delivery_id q content.
        h = transfer_message channel handle delivery_id q content \<and> of_int delivery_id = i \<and> q \<noteq> 0))"

text \<open>A message that waits for its topic to be attached is one whose topic has that handle.\<close>

definition topics_ok :: "AmqpHeader map_base \<Rightarrow> int map_base \<Rightarrow> bool" where
  "topics_ok m outgoing \<longleftrightarrow> (\<forall>i. id_abs m i \<noteq> None \<longrightarrow> i \<noteq> 0 \<longrightarrow> (\<exists>s. hm_abs outgoing s = Some (uint i)))"

definition named :: "cstr ptr map_base \<Rightarrow> bool" where
  "named m \<longleftrightarrow> (\<forall>i p. id_abs m i = Some p \<longrightarrow> (\<exists>s. p = Ref s))"

definition amqp_inv :: "amqp_state \<Rightarrow> bool" where
  "amqp_inv st \<longleftrightarrow>
     id_table (am_handler st) \<and> waiting_ok (am_handler st) \<and>
     id_table (am_delivery st) \<and> unsettled_ok (am_delivery st) \<and>
     hm_inv (am_incoming st) \<and> hm_inv (am_outgoing st) \<and> topics_ok (am_handler st) (am_outgoing st) \<and>
     id_table (am_topics st) \<and> named (am_topics st) \<and> am_messager st = NotStarted"

lemma amqp_invD:
  assumes "amqp_inv st"
  shows "id_table (am_handler st)" "waiting_ok (am_handler st)" "id_table (am_delivery st)"
    "unsettled_ok (am_delivery st)" "hm_inv (am_incoming st)" "hm_inv (am_outgoing st)"
    "topics_ok (am_handler st) (am_outgoing st)" "id_table (am_topics st)" "named (am_topics st)"
    "am_messager st = NotStarted"
  using assms by (simp_all add: amqp_inv_def)

lemma amqp_inv_frame [simp]:
  "amqp_inv (amqp_emit e st) = amqp_inv st"
  "amqp_inv (st\<lparr>am_account := a, am_listener := l\<rparr>) = amqp_inv st"
  "amqp_inv (st\<lparr>am_channel := n\<rparr>) = amqp_inv st"
  "amqp_inv (st\<lparr>am_next_handle := n\<rparr>) = amqp_inv st"
  "amqp_inv (st\<lparr>am_packet_id := n\<rparr>) = amqp_inv st"
  "amqp_inv (st\<lparr>am_pinger := t\<rparr>) = amqp_inv st"
  "amqp_inv (st\<lparr>am_connecter := t\<rparr>) = amqp_inv st"
  "amqp_inv (st\<lparr>am_exited := b\<rparr>) = amqp_inv st"
  by (simp_all add: amqp_inv_def amqp_emit_def)

lemma amqp_emit_simps [simp]:
  "am_handler (amqp_emit e st) = am_handler st"
  "am_delivery (amqp_emit e st) = am_delivery st"
  "am_incoming (amqp_emit e st) = am_incoming st"
  "am_outgoing (amqp_emit e st) = am_outgoing st"
  "am_topics (amqp_emit e st) = am_topics st"
  "am_messager (amqp_emit e st) = am_messager st"
  "am_pinger (amqp_emit e st) = am_pinger st"
  "am_connecter (amqp_emit e st) = am_connecter st"
  "am_exited (amqp_emit e st) = am_exited st"
  "am_account (amqp_emit e st) = am_account st"
  "am_listener (amqp_emit e st) = am_listener st"
  "am_channel (amqp_emit e st) = am_channel st"
  "am_next_handle (amqp_emit e st) = am_next_handle st"
  "am_packet_id (amqp_emit e st) = am_packet_id st"
  "am_events (amqp_emit e st) = am_events st @ [e]"
  by (simp_all add: amqp_emit_def)

lemma amqp_fire_emits:
  assumes "amqp_encode_and_fire h st = Some st'"
  obtains e where "st' = amqp_emit e st"
  using assms by (auto simp: amqp_encode_and_fire_def bind_Some_iff)

lemma amqp_fire_inv: "amqp_encode_and_fire h st = Some st' \<Longrightarrow> amqp_inv st \<Longrightarrow> amqp_inv st'"
  by (erule amqp_fire_emits) simp

lemma empty_tables [simp]:
  "waiting_ok map_init" "unsettled_ok map_init" "named map_init" "topics_ok map_init m"
  "id_table map_init" "hm_inv map_init" "id_abs map_init = Map.empty"
  by (simp_all add: ids.init_inv ids.init_abs waiting_ok_def unsettled_ok_def named_def topics_ok_def map_init_ok)

lemma waiting_put:
  assumes "waiting_ok m" "id_abs m' = (id_abs m)(of_int n \<mapsto> transfer_message c n d q bs)"
  shows "waiting_ok m'"
  using assms unfolding waiting_ok_def by (metis fun_upd_apply option.inject)

lemma unsettled_put:
  assumes "unsettled_ok m" "id_abs m' = (id_abs m)(of_int d \<mapsto> transfer_message c n d q bs)" "q \<noteq> 0"
  shows "unsettled_ok m'"
  using assms unfolding unsettled_ok_def by (metis fun_upd_apply option.inject)

lemma table_del:
  "waiting_ok m \<Longrightarrow> id_abs m' = (id_abs m)(i := None) \<Longrightarrow> waiting_ok m'"
  "unsettled_ok m \<Longrightarrow> id_abs m' = (id_abs m)(i := None) \<Longrightarrow> unsettled_ok m'"
  "named t \<Longrightarrow> id_abs t' = (id_abs t)(i := None) \<Longrightarrow> named t'"
  "topics_ok m names \<Longrightarrow> id_abs m' = (id_abs m)(i := None) \<Longrightarrow> topics_ok m' names"
  by (simp_all add: waiting_ok_def unsettled_ok_def named_def topics_ok_def)

lemma transfer_message_simps [simp]:
  "as_transfer (transfer_message c n d q bs) = Some (transfer_packet n d q bs)"
  "tra_delivery_id (transfer_packet n d q bs) = Ref d"
  "is_settled (transfer_packet n d q bs) = Some (q = 0)"
  "hdr_code (transfer_message c n d q bs) = Some TRANSFER"
  by (simp_all add: transfer_message_def as_transfer_def transfer_packet_def is_settled_def)

subsection \<open>The tables\<close>

lemma scan_handler_ok:
  assumes "hm_inv m"
  shows "scan_handler m (Ref s) = Some (case hm_abs m s of None \<Rightarrow> 0 | Some v \<Rightarrow> of_int v)"
  using map_scan_get [OF assms, of s] names.get_abs [OF assms, of s]
  by (simp add: scan_handler_def split: option.splits)

lemma table_lookup:
  assumes "id_table m"
  shows "map_scan m (id_key i) map_iter = Some (ptr_of (id_abs m i))"
  using assms map_scan_get [of m "id_key i"] ids.get_abs [OF assms, of i]
  by (simp add: id_get_def id_table_def)

lemma topic_name_ok:
  assumes "amqp_inv st"
  shows "amqp_get_topic_name_from_map i st =
    Some (case id_abs (am_topics st) i of None \<Rightarrow> Null | Some p \<Rightarrow> p)"
  using table_lookup [OF amqp_invD(8) [OF assms], of i]
  by (simp add: amqp_get_topic_name_from_map_def split: option.splits)

text \<open>Adding a message under a new handle, with the topic it is for.\<close>

lemma amqp_wait_ok:
  fixes st :: amqp_state
  defines "h \<equiv> \<lambda>st n d q bs. transfer_message (am_channel st) n d q bs"
  assumes "amqp_inv st" "name_room (am_outgoing st)"
    and "hm_abs (am_outgoing st) s = None \<or> of_int (the (hm_abs (am_outgoing st) s)) = (0 :: u16)"
  obtains m1 m2 m3 where
    "amqp_store_waiting (Ref s) (of_int n) (h st n d q bs) st =
       Some (st\<lparr>am_outgoing := m1, am_topics := m2, am_handler := m3\<rparr>)"
    "amqp_inv (st\<lparr>am_outgoing := m1, am_topics := m2, am_handler := m3\<rparr>)"
    "hm_abs m1 = (hm_abs (am_outgoing st))(s \<mapsto> uint (of_int n :: u16))"
    "id_abs m2 = (id_abs (am_topics st))(of_int n \<mapsto> Ref s)"
    "id_abs m3 = (id_abs (am_handler st))(of_int n \<mapsto> h st n d q bs)"
proof -
  note inv = amqp_invD [OF assms(2)]
  from names.putE [OF inv(6) assms(3), of s "uint (of_int n :: u16)"] obtain m1 where
    m1: "name_set (am_outgoing st) s (uint (of_int n :: u16)) = Some (m1, 0)" "hm_inv m1"
    "hm_abs m1 = (hm_abs (am_outgoing st))(s \<mapsto> uint (of_int n :: u16))" .
  from ids.putE [OF inv(8), of "of_int n" "Ref s"] obtain m2 where
    m2: "id_set (am_topics st) (of_int n) (Ref s) = Some (m2, 0)" "id_table m2"
    "id_abs m2 = (id_abs (am_topics st))(of_int n \<mapsto> Ref s)" .
  from ids.putE [OF inv(1), of "of_int n" "h st n d q bs"] obtain m3 where
    m3: "id_set (am_handler st) (of_int n) (h st n d q bs) = Some (m3, 0)" "id_table m3"
    "id_abs m3 = (id_abs (am_handler st))(of_int n \<mapsto> h st n d q bs)" .
  have "waiting_ok m3"
    using waiting_put [OF inv(2)] m3(3) by (simp add: h_def)
  moreover have "named m2"
    using inv(9) m2(3) by (auto simp: named_def)
  moreover have "topics_ok m3 m1"
    unfolding topics_ok_def
  proof (intro allI impI)
    fix i
    assume i: "id_abs m3 i \<noteq> None" "i \<noteq> 0"
    show "\<exists>s. hm_abs m1 s = Some (uint i)"
    proof (cases "i = of_int n")
      case True
      then show ?thesis using m1(3) by auto
    next
      case False
      then obtain s' where s': "hm_abs (am_outgoing st) s' = Some (uint i)"
        using inv(7) i m3(3) by (auto simp: topics_ok_def)
      then have "s' \<noteq> s" using assms(4) i(2) by auto
      then show ?thesis using s' m1(3) by auto
    qed
  qed
  ultimately show thesis
    using that [of m3 m2 m1] m1 m2 m3 inv
    by (simp add: amqp_store_waiting_def amqp_add_handler_in_map_outgoing_def amqp_add_topic_name_in_map_def
        amqp_add_message_in_map_by_handler_def amqp_inv_def h_def)
qed

text \<open>Removing a waiting message and keeping it for its delivery.\<close>

lemma amqp_remove_waiting_ok:
  assumes "amqp_inv st"
  obtains m' where "amqp_remove_message_from_map_handler i st = Some (st\<lparr>am_handler := m'\<rparr>)"
    "amqp_inv (st\<lparr>am_handler := m'\<rparr>)" "id_abs m' = (id_abs (am_handler st))(i := None)"
proof -
  from ids.delE [OF amqp_invD(1) [OF assms], of i] obtain m' where
    m': "id_remove (am_handler st) i = Some m'" "id_table m'"
    "id_abs m' = (id_abs (am_handler st))(i := None)" .
  then show thesis
    using that [of m'] assms table_del(1,4) [OF _ m'(3)]
    by (simp add: amqp_remove_message_from_map_handler_def amqp_inv_def)
qed

lemma amqp_keep_ok:
  assumes "amqp_inv st" "q \<noteq> 0"
  obtains m' where
    "amqp_add_message_in_map_by_delivery_id (of_int d) (transfer_message c n d q bs) st =
       Some (st\<lparr>am_delivery := m'\<rparr>)"
    "amqp_inv (st\<lparr>am_delivery := m'\<rparr>)"
    "id_abs m' = (id_abs (am_delivery st))(of_int d \<mapsto> transfer_message c n d q bs)"
proof -
  from ids.putE [OF amqp_invD(3) [OF assms(1)], of "of_int d" "transfer_message c n d q bs"] obtain m' where
    m': "id_set (am_delivery st) (of_int d) (transfer_message c n d q bs) = Some (m', 0)" "id_table m'"
    "id_abs m' = (id_abs (am_delivery st))(of_int d \<mapsto> transfer_message c n d q bs)" .
  then show thesis
    using that [of m'] assms unsettled_put [OF _ m'(3) assms(2)]
    by (simp add: amqp_add_message_in_map_by_delivery_id_def amqp_inv_def)
qed

lemma amqp_forget_ok:
  assumes "amqp_inv st"
  obtains m' where "amqp_remove_message_from_map_delivery_id i st = Some (st\<lparr>am_delivery := m'\<rparr>)"
    "amqp_inv (st\<lparr>am_delivery := m'\<rparr>)" "id_abs m' = (id_abs (am_delivery st))(i := None)"
proof -
  from ids.delE [OF amqp_invD(3) [OF assms], of i] obtain m' where
    m': "id_remove (am_delivery st) i = Some m'" "id_table m'"
    "id_abs m' = (id_abs (am_delivery st))(i := None)" .
  then show thesis
    using that [of m'] assms table_del(2) [OF _ m'(3)]
    by (simp add: amqp_remove_message_from_map_delivery_id_def amqp_inv_def)
qed

text \<open>The topics of the peer's links.\<close>

lemma amqp_add_link_ok:
  assumes "amqp_inv st" "name_room (am_incoming st)"
  obtains m1 m2 where
    "amqp_add_link (Ref s) i st =
       Some (st\<lparr>am_incoming := m1, am_topics := m2\<rparr>)"
    "amqp_inv (st\<lparr>am_incoming := m1, am_topics := m2\<rparr>)"
    "hm_abs m1 = (hm_abs (am_incoming st))(s \<mapsto> uint i)" "id_abs m2 = (id_abs (am_topics st))(i \<mapsto> Ref s)"
proof -
  note inv = amqp_invD [OF assms(1)]
  from names.putE [OF inv(5) assms(2), of s "uint i"] obtain m1 where
    m1: "name_set (am_incoming st) s (uint i) = Some (m1, 0)" "hm_inv m1"
    "hm_abs m1 = (hm_abs (am_incoming st))(s \<mapsto> uint i)" .
  from ids.putE [OF inv(8), of i "Ref s"] obtain m2 where
    m2: "id_set (am_topics st) i (Ref s) = Some (m2, 0)" "id_table m2"
    "id_abs m2 = (id_abs (am_topics st))(i \<mapsto> Ref s)" .
  have "named m2" using inv(9) m2(3) by (auto simp: named_def)
  then show thesis
    using that [of m2 m1] m1 m2 inv
    by (simp add: amqp_add_link_def amqp_add_handler_in_map_def amqp_add_topic_name_in_map_def amqp_inv_def)
qed

lemma amqp_drop_link_ok:
  assumes "amqp_inv st"
  obtains m1 m2 where
    "amqp_drop_link (Ref s) i st =
       Some (st\<lparr>am_incoming := m1, am_topics := m2\<rparr>)"
    "amqp_inv (st\<lparr>am_incoming := m1, am_topics := m2\<rparr>)"
    "hm_abs m1 = (hm_abs (am_incoming st))(s := None)" "id_abs m2 = (id_abs (am_topics st))(i := None)"
proof -
  note inv = amqp_invD [OF assms]
  from map_remove_ok [OF inv(5), of s] obtain m1 where
    m1: "map_remove (am_incoming st) s = Some m1" "hm_inv m1"
    "hm_abs m1 = (hm_abs (am_incoming st))(s := None)" by blast
  from ids.delE [OF inv(8), of i] obtain m2 where
    m2: "id_remove (am_topics st) i = Some m2" "id_table m2"
    "id_abs m2 = (id_abs (am_topics st))(i := None)" .
  show thesis
    using that [of m2 m1] m1 m2 inv table_del(3) [OF _ m2(3)]
    by (simp add: amqp_drop_link_def amqp_remove_topic_name_from_map_def amqp_remove_handle_from_map_def amqp_inv_def)
qed

subsection \<open>Every step keeps it\<close>

lemma amqp_thread_failed_inv: "amqp_thread_failed st = Some st' \<Longrightarrow> amqp_inv st \<Longrightarrow> amqp_inv st'"
  by (auto simp: amqp_thread_failed_def send_amqp_end_def bind_Some_iff dest: amqp_fire_inv)

lemma start_amqp_connect_inv: "start_amqp_connect ok st = Some st' \<Longrightarrow> amqp_inv st \<Longrightarrow> amqp_inv st'"
  by (auto simp: start_amqp_connect_def send_amqp_proto_header_def amqp_start_connect_timer_def bind_Some_iff
      split: if_splits dest: amqp_fire_inv amqp_thread_failed_inv)

lemma send_amqp_attach_inv: "send_amqp_attach name q st = Some st' \<Longrightarrow> amqp_inv st \<Longrightarrow> amqp_inv st'"
  by (auto simp: send_amqp_attach_def next_handle_def send_amqp_attach_with_handler_def bind_Some_iff
      dest: amqp_fire_inv)

lemma send_amqp_detach_inv: "send_amqp_detach name st = Some st' \<Longrightarrow> amqp_inv st \<Longrightarrow> amqp_inv st'"
  by (auto simp: send_amqp_detach_def bind_Some_iff split: if_splits dest: amqp_fire_inv)

lemma client_header_transfer:
  "client_header TRANSFER (Ref (ATransfer (transfer_packet n d q bs))) st = transfer_message (am_channel st) n d q bs"
  by (simp add: client_header_def transfer_message_def)

lemma scan_handler_ok_iff:
  "hm_inv m \<Longrightarrow> scan_handler m (Ref s) = Some 0 \<longleftrightarrow> hm_abs m s = None \<or> of_int (the (hm_abs m s)) = (0 :: u16)"
  by (simp add: scan_handler_ok split: option.splits)

lemma amqp_store_waiting_inv:
  assumes "amqp_store_waiting name (of_int n) (transfer_message (am_channel st) n d q bs) st = Some st'"
    and "amqp_inv st" "name_room (am_outgoing st)" "scan_handler (am_outgoing st) name = Some 0"
  shows "amqp_inv st'"
proof -
  obtain s where s: "name = Ref s"
    using assms(1) by (auto simp: amqp_store_waiting_def amqp_add_handler_in_map_outgoing_def bind_Some_iff)
  then have "hm_abs (am_outgoing st) s = None \<or> of_int (the (hm_abs (am_outgoing st) s)) = (0 :: u16)"
    using assms(4) scan_handler_ok_iff [OF amqp_invD(6) [OF assms(2)]] by simp
  from amqp_wait_ok [OF assms(2,3) this, of n d q bs] assms(1) s show ?thesis by auto
qed

lemma send_amqp_transfer_inv:
  assumes "send_amqp_transfer content name q retain dup st = Some st'" "amqp_inv st" "name_room (am_outgoing st)"
  shows "amqp_inv st'"
proof -
  from assms(1) have "(\<exists>h d'. amqp_encode_and_fire h (st\<lparr>am_packet_id := d'\<rparr>) = Some st') \<or>
      (\<exists>n n' d d' bs st1 h. scan_handler (am_outgoing st) name = Some 0 \<and>
         amqp_store_waiting name (of_int n) (transfer_message (am_channel st) n d q bs)
           (st\<lparr>am_packet_id := d', am_next_handle := n'\<rparr>) = Some st1 \<and>
         amqp_encode_and_fire h st1 = Some st')"
    by (auto simp: send_amqp_transfer_def next_delivery_id_def next_handle_def bind_Some_iff client_header_transfer
        amqp_get_handler_from_map_outgoing_def split: if_splits)
  then show ?thesis
  proof (elim disjE exE conjE)
    fix n n' d d' bs st1 h
    let ?st = "st\<lparr>am_packet_id := d', am_next_handle := n'\<rparr>"
    assume "amqp_store_waiting name (of_int n) (transfer_message (am_channel st) n d q bs) ?st = Some st1"
      "scan_handler (am_outgoing st) name = Some 0" "amqp_encode_and_fire h st1 = Some st'"
    then show ?thesis
      using amqp_store_waiting_inv [of name n ?st d q bs st1] assms(2,3) by (auto dest: amqp_fire_inv)
  qed (use assms(2) in \<open>auto dest: amqp_fire_inv\<close>)
qed

lemma amqp_handle_open_inv:
  assumes "amqp_handle_open ok st = Some st'" "amqp_inv st"
  shows "amqp_inv st'"
proof -
  from assms(1) obtain s1 d s2 where s: "amqp_stop_connect_timer st = Some s1"
    "start_amqp_ping_timer ok d s1 = Some s2" "st' = s2 \<or> send_amqp_begin s2 = Some st'"
    by (auto simp: amqp_handle_open_def bind_Some_iff split: if_splits)
  let ?s1 = "s1\<lparr>am_handler := map_init, am_delivery := map_init, am_incoming := map_init,
                 am_outgoing := map_init, am_topics := map_init, am_delay := d\<rparr>"
  have "amqp_inv s1" using s(1) assms(2) by (auto simp: amqp_stop_connect_timer_def bind_Some_iff)
  then have "amqp_inv ?s1" by (simp add: amqp_inv_def)
  moreover have "s2 = ?s1\<lparr>am_pinger := Running\<rparr> \<or> amqp_thread_failed ?s1 = Some s2"
    using s(2) unfolding start_amqp_ping_timer_def Let_def by (simp split: if_splits)
  ultimately have "amqp_inv s2" using amqp_thread_failed_inv amqp_inv_frame(6) by blast
  then show ?thesis using s(3) by (auto simp: send_amqp_begin_def dest: amqp_fire_inv)
qed

lemma waiting_message:
  assumes "amqp_inv st" "amqp_get_message_from_map_by_handler i st = Some (Ref h)"
  obtains c n d q bs where "h = transfer_message c n d q bs" "of_int n = i"
    "id_abs (am_handler st) i = Some h"
proof -
  have "id_abs (am_handler st) i = Some h"
    using assms(2) table_lookup [OF amqp_invD(1) [OF assms(1)], of i]
    by (cases "id_abs (am_handler st) i") (simp_all add: amqp_get_message_from_map_by_handler_def)
  then show thesis
    using that amqp_invD(2) [OF assms(1)] unfolding waiting_ok_def by blast
qed

lemma amqp_receiver_attached_inv:
  assumes "amqp_receiver_attached a st = Some st'" "amqp_inv st"
  shows "amqp_inv st'"
proof -
  from assms(1) obtain i where i: "amqp_get_handler_from_map_outgoing (att_name a) st = Some i"
    by (auto simp: amqp_receiver_attached_def bind_Some_iff)
  have "st' = st \<or> (\<exists>i h s1 s2 p. amqp_get_message_from_map_by_handler i st = Some (Ref h) \<and>
      amqp_encode_and_fire h st = Some s1 \<and> amqp_remove_message_from_map_handler i s1 = Some s2 \<and>
      as_transfer h = Some p \<and> (st' = s2 \<or> is_settled p = Some False \<and> (\<exists>d. tra_delivery_id p = Ref d \<and>
        amqp_add_message_in_map_by_delivery_id (of_int d) h s2 = Some st')))"
  proof (cases "i = 0")
    case False
    with assms(1) i obtain r where r: "amqp_get_message_from_map_by_handler i st = Some r"
      by (auto simp: amqp_receiver_attached_def bind_Some_iff)
    show ?thesis
    proof (cases r)
      case (Ref h)
      with assms(1) i r False obtain s1 s2 p b where "amqp_encode_and_fire h st = Some s1"
        "amqp_remove_message_from_map_handler i s1 = Some s2" "as_transfer h = Some p" "is_settled p = Some b"
        "(if b then Some s2 else do { d \<leftarrow> deref (tra_delivery_id p);
            amqp_add_message_in_map_by_delivery_id (of_int d) h s2 }) = Some st'"
        by (auto simp: amqp_receiver_attached_def bind_Some_iff)
      with r Ref show ?thesis by (cases b) (auto simp: bind_Some_iff, blast+)
    qed (use assms(1) i r False in \<open>simp_all add: amqp_receiver_attached_def\<close>)
  qed (use assms(1) i in \<open>simp add: amqp_receiver_attached_def bind_Some_iff\<close>)
  then show ?thesis
  proof (elim disjE exE conjE)
    fix i h s1 s2 p
    assume a: "amqp_get_message_from_map_by_handler i st = Some (Ref h)" "amqp_encode_and_fire h st = Some s1"
      "amqp_remove_message_from_map_handler i s1 = Some s2" "as_transfer h = Some p"
    from waiting_message [OF assms(2) a(1)] obtain c n d q bs where h: "h = transfer_message c n d q bs" .
    have i1: "amqp_inv s1" using a(2) assms(2) by (rule amqp_fire_inv)
    from amqp_remove_waiting_ok [OF i1, of i] a(3) have i2: "amqp_inv s2" by auto
    { assume "st' = s2" then show ?thesis using i2 by simp }
    { fix d'
      assume "is_settled p = Some False" "tra_delivery_id p = Ref d'"
        "amqp_add_message_in_map_by_delivery_id (of_int d') h s2 = Some st'"
      then have k: "q \<noteq> 0"
        "amqp_add_message_in_map_by_delivery_id (of_int d) (transfer_message c n d q bs) s2 = Some st'"
        using h a(4) by auto
      from amqp_keep_ok [OF i2 k(1), of d c n bs] k(2) show ?thesis by auto }
  qed (use assms(2) in simp)
qed

lemma amqp_sender_attached_inv:
  assumes "amqp_sender_attached a st = Some st'" "amqp_inv st" "name_room (am_incoming st)"
  shows "amqp_inv st'"
proof -
  from assms(1) obtain s1 i n where s: "s1 = st \<or> amqp_add_link (att_name a) i st = Some s1"
    "st' = s1 \<or> st' = s1\<lparr>am_next_handle := n\<rparr>"
    by (auto simp: amqp_sender_attached_def bind_Some_iff split: if_splits)
  have "amqp_inv s1"
  proof (cases "s1 = st")
    case False
    then obtain t where t: "att_name a = Ref t"
      using s(1) by (auto simp: amqp_add_link_def amqp_add_handler_in_map_def bind_Some_iff)
    from amqp_add_link_ok [OF assms(2,3), of t i] s(1) t False show ?thesis by auto
  qed (use assms(2) in simp)
  then show ?thesis using s(2) by auto
qed

lemma amqp_handle_detach_inv:
  assumes "amqp_handle_detach h st = Some st'" "amqp_inv st"
  shows "amqp_inv st'"
proof -
  from assms(1) obtain i name where s: "amqp_get_topic_name_from_map i st = Some name"
    "st' = st \<or> name \<noteq> Null \<and> amqp_drop_link name i st = Some st'"
    by (auto simp: amqp_handle_detach_def bind_Some_iff split: if_splits)
  then consider "st' = st" | t where "name = Ref t" "amqp_drop_link name i st = Some st'"
    using topic_name_ok [OF assms(2), of i] amqp_invD(9) [OF assms(2)]
    by (auto simp: named_def split: option.splits)
  then show ?thesis
  proof cases
    case 2
    from amqp_drop_link_ok [OF assms(2), of t i] 2 show ?thesis by auto
  qed (use assms(2) in simp)
qed

lemma amqp_handle_disposition_inv:
  assumes "amqp_handle_disposition h st = Some st'" "amqp_inv st"
  shows "amqp_inv st'"
proof -
  from assms(1) obtain i where "st' = st \<or> amqp_remove_message_from_map_delivery_id i st = Some st'"
    by (auto simp: amqp_handle_disposition_def bind_Some_iff split: if_splits)
  moreover obtain m' where "amqp_remove_message_from_map_delivery_id i st = Some (st\<lparr>am_delivery := m'\<rparr>)"
    "amqp_inv (st\<lparr>am_delivery := m'\<rparr>)"
    by (rule amqp_forget_ok [OF assms(2)])
  ultimately show ?thesis using assms(2) by auto
qed

lemma amqp_handle_attach_inv:
  assumes "amqp_handle_attach h st = Some st'" "amqp_inv st" "name_room (am_incoming st)"
  shows "amqp_inv st'"
proof -
  from assms(1) obtain a where "as_attach h = Some a"
    by (auto simp: amqp_handle_attach_def bind_Some_iff)
  with assms show ?thesis
    by (cases "att_role a") (auto simp: amqp_handle_attach_def split: if_splits
      dest: amqp_receiver_attached_inv amqp_sender_attached_inv)
qed

lemma amqp_handle_transfer_inv: "amqp_handle_transfer h st = Some st' \<Longrightarrow> amqp_inv st \<Longrightarrow> amqp_inv st'"
  by (auto simp: amqp_handle_transfer_def send_amqp_disposition_def bind_Some_iff split: if_splits dest: amqp_fire_inv)

lemma amqp_handle_proto_inv: "amqp_handle_proto h st = Some st' \<Longrightarrow> amqp_inv st \<Longrightarrow> amqp_inv st'"
  by (auto simp: amqp_handle_proto_def send_amqp_open_def bind_Some_iff split: if_splits dest: amqp_fire_inv)

lemma amqp_handle_outcome_inv: "amqp_handle_outcome h st = Some st' \<Longrightarrow> amqp_inv st \<Longrightarrow> amqp_inv st'"
  by (auto simp: amqp_handle_outcome_def send_amqp_proto_header_def bind_Some_iff split: if_splits dest: amqp_fire_inv)

lemma send_amqp_sasl_init_inv: "send_amqp_sasl_init h st = Some st' \<Longrightarrow> amqp_inv st \<Longrightarrow> amqp_inv st'"
  by (auto simp: send_amqp_sasl_init_def bind_Some_iff Let_def dest: amqp_fire_inv)

lemma send_amqp_close_inv: "send_amqp_close st = Some st' \<Longrightarrow> amqp_inv st \<Longrightarrow> amqp_inv st'"
  by (auto simp: send_amqp_close_def dest: amqp_fire_inv)

lemmas amqp_handler_invs = amqp_handle_proto_inv amqp_handle_outcome_inv send_amqp_sasl_init_inv
  send_amqp_close_inv amqp_handle_open_inv amqp_handle_attach_inv
  amqp_handle_transfer_inv amqp_handle_detach_inv amqp_handle_disposition_inv

lemma amqp_handle_header_inv:
  assumes "amqp_handle_header ok code h st = Some st'" "amqp_inv st" "name_room (am_incoming st)"
  shows "amqp_inv st'"
proof -
  have "am_listener st \<and> st' = amqp_emit AmqpConnected st \<or> st' = amqp_emit AmqpClose st \<or> st' = st \<or>
      amqp_handle_proto h st = Some st' \<or> amqp_handle_open ok st = Some st' \<or> amqp_handle_attach h st = Some st' \<or>
      amqp_handle_transfer h st = Some st' \<or> amqp_handle_disposition h st = Some st' \<or>
      amqp_handle_detach h st = Some st' \<or> send_amqp_close st = Some st' \<or> send_amqp_sasl_init h st = Some st' \<or>
      amqp_handle_outcome h st = Some st'"
    using assms(1) unfolding amqp_handle_header_def by (simp add: bind_Some_iff split: if_split_asm)
  with assms(2,3) amqp_handler_invs show ?thesis by (elim disjE conjE) simp_all
qed

lemma amqp_step_inv:
  assumes "amqp_step st st'" "amqp_inv st" "name_room (am_incoming st)" "name_room (am_outgoing st)"
  shows "amqp_inv st'"
  using assms(1)
proof cases
  case (frame ok data)
  then show ?thesis
    using amqp_handle_header_inv assms(2,3) by (auto simp: process_amqp_rx_def bind_Some_iff)
next
  case resend
  then show ?thesis using amqp_invD(10) [OF assms(2)] by simp
qed (use assms in \<open>auto simp: init_amqp_client_def amqp_ping_round_def send_amqp_ping_def amqp_connect_round_def
    send_amqp_end_def bind_Some_iff intro: start_amqp_connect_inv send_amqp_attach_inv send_amqp_detach_inv
    send_amqp_transfer_inv amqp_fire_inv\<close>)

lemma amqp_reachable_inv:
  "amqp_reachable st \<Longrightarrow> amqp_inv st \<and> name_room (am_incoming st) \<and> name_room (am_outgoing st)"
proof (induction rule: amqp_reachable.induct)
  case start
  show ?case
    by (simp add: amqp_inv_def amqp_init_def name_room_def) (simp add: map_init_def)
next
  case (step st st')
  then show ?case using amqp_step_inv by blast
qed

end
