(* ===== verification/AmqpBehaviour.thy ===== *)
theory AmqpBehaviour
  imports AmqpStates
begin

text \<open>
  What the operations of the AMQP client and the frames of a peer do in the states of \<open>AmqpStates\<close>, and the
  properties of the client.
\<close>

subsection \<open>Frames sent and received\<close>

definition amqp_sent :: "amqp_packet \<Rightarrow> byte list list \<Rightarrow> int \<Rightarrow> amqp_event" where
  "amqp_sent p vs channel =
     AmqpSend (map Some (amqp_frame 2 0 channel (packet_body p @ concat (map section_bytes vs))))"

lemma amqp_fire_frame:
  assumes "packet_ok p" "sections_ok p vs"
  shows "amqp_encode_and_fire (amqp_header p 2 0 channel) st = Some (amqp_emit (amqp_sent p vs channel) st)"
  using amqp_encode_frame [OF assms] by (simp add: amqp_encode_and_fire_def amqp_sent_def)

lemma client_header_packet: "code = amqp_code p \<Longrightarrow> client_header code (Ref p) st = amqp_header p 2 0 (am_channel st)"
  by (simp add: client_header_def amqp_header_def)

lemma transfer_message_header:
  "transfer_message c n d q bs = amqp_header (ATransfer (transfer_packet n d q bs)) 2 0 c"
  by (simp add: transfer_message_def amqp_header_def)

text \<open>A frame as a peer sends it, with the size fields of the protocol.\<close>

definition peer_frame :: "amqp_packet \<Rightarrow> byte list list \<Rightarrow> int \<Rightarrow> byte list" where
  "peer_frame p vs channel =
     amqp_frame 2 0 channel (amqp_bytes Suc (packet_value p) @ concat (map section_bytes vs))"

lemma length_amqp_bytes: "length (amqp_bytes \<delta> v) = length (amqp_bytes \<delta>' v)"
proof (induction v)
  case (VList vs)
  then have "map (length \<circ> amqp_bytes \<delta>) vs = map (length \<circ> amqp_bytes \<delta>') vs" by simp
  then have "length (concat (map (amqp_bytes \<delta>) vs)) = length (concat (map (amqp_bytes \<delta>') vs))"
    by (simp only: length_concat map_map)
  then show ?case by (simp add: Let_def)
qed (simp_all add: Let_def)

lemma length_packet_bytes: "length (amqp_bytes Suc (packet_value p)) = length (packet_body p)"
  unfolding packet_body_value by (rule length_amqp_bytes)

lemma peer_frame_fits:
  assumes "packet_ok p" "sections_ok p vs" "length vs \<le> 1"
  shows "fits (amqp_bytes Suc (packet_value p) @ concat (map section_bytes vs))"
proof -
  have "amqp_bytes Suc (packet_value p) \<noteq> []" by (cases p) simp_all
  then show ?thesis using packet_fits [OF assms] length_packet_bytes [of p] by (simp add: fits_def)
qed

lemma process_peer_frame:
  assumes "packet_ok p" "counted_packet p" "sections_ok p vs" "length vs \<le> 1"
    and "- (2 ^ 15) \<le> channel" "channel < 2 ^ 15"
  shows "process_amqp_rx ok (peer_frame p vs channel) st =
    amqp_handle_header ok (amqp_code p) (amqp_header (with_sections (received p) vs) 2 0 channel) st"
proof -
  have "fields_ok p" using assms(1) by (simp add: packet_ok_def)
  from decode_packet [OF this assms(2-4), of 2 0 channel Suc] peer_frame_fits [OF assms(1,3,4)] assms(5,6)
  show ?thesis by (simp add: process_amqp_rx_def peer_frame_def) (simp add: amqp_header_def)
qed

subsection \<open>Publishing\<close>

lemma length_uint_bytes: "length (amqp_bytes \<delta> (uint_value n)) \<le> 5"
  by (simp add: uint_value_def length_int_bytes)

lemma length_item_bytes_strip: "length (item_bytes (strip vs)) \<le> length (item_bytes vs)"
  using item_bytes_strip [of vs] length_strip [of vs] by linarith

lemma packet_okI: "fields_ok p \<Longrightarrow> length (item_bytes (amqp_fields p)) \<le> 255 \<Longrightarrow> packet_ok p"
  using length_item_bytes_strip [of "amqp_fields p"] by (simp add: packet_ok_def)

lemma transfer_ok:
  assumes "c_ulong n" "c_ulong d"
  shows "packet_ok (ATransfer (transfer_packet n d q bs))"
    and "length bs \<le> 255 \<Longrightarrow> sections_ok (ATransfer (transfer_packet n d q bs)) [bs]"
proof -
  show "packet_ok (ATransfer (transfer_packet n d q bs))"
    using assms length_uint_bytes [of id n] length_uint_bytes [of id d]
    by (intro packet_okI) (simp_all add: transfer_packet_def field_def opt_def item_bytes_def bool_value_def
        uint_value_def [of 0])
  show "length bs \<le> 255 \<Longrightarrow> sections_ok (ATransfer (transfer_packet n d q bs)) [bs]"
    by (simp add: transfer_packet_def)
qed

lemma attach_ok:
  assumes "c_ulong n" "length s \<le> 100"
  shows "packet_ok (sender_attach (Ref s) n)" "packet_ok (receiver_attach (Ref s) n)"
  using assms length_uint_bytes [of id n]
  by (auto intro!: packet_okI simp: sender_attach_def receiver_attach_def field_def opt_def item_bytes_def
      bool_value_def mode_value_def uint_value_def [of 0] source_value_def target_value_def source_ok_def
      target_ok_def source_fields_def target_fields_def strip_def)

text \<open>A publication to a topic without a handle waits for the topic to be attached.\<close>

lemma send_amqp_transfer_waits:
  fixes st :: amqp_state and q :: int and bs :: "byte list"
  defines "n \<equiv> am_next_handle st" and "d \<equiv> am_packet_id st"
  defines "message \<equiv> transfer_message (am_channel st) n d q bs"
  assumes "amqp_inv st" "name_room (am_outgoing st)" "hm_abs (am_outgoing st) s = None"
    and "0 \<le> n" "n < 2 ^ 31 - 1" "d < 2 ^ 31 - 1" "length s \<le> 100"
  obtains m1 m2 m3 where "send_amqp_transfer (Ref bs) (Ref s) q retain dup st =
      Some (amqp_emit (amqp_sent (sender_attach (Ref s) n) [] (am_channel st))
        (st\<lparr>am_packet_id := d + 1, am_next_handle := n + 1, am_outgoing := m1, am_topics := m2, am_handler := m3\<rparr>))"
    "hm_abs m1 = (hm_abs (am_outgoing st))(s \<mapsto> uint (of_int n :: u16))"
    "id_abs m2 = (id_abs (am_topics st))(of_int n \<mapsto> Ref s)"
    "id_abs m3 = (id_abs (am_handler st))(of_int n \<mapsto> message)"
proof -
  let ?st = "st\<lparr>am_packet_id := d + 1, am_next_handle := n + 1\<rparr>"
  have inv: "amqp_inv ?st" and room: "name_room (am_outgoing ?st)" using assms(4,5) by simp_all
  have free: "hm_abs (am_outgoing ?st) s = None \<or> of_int (the (hm_abs (am_outgoing ?st) s)) = (0 :: u16)"
    using assms(6) by simp
  obtain m1 m2 m3 where m: "amqp_store_waiting (Ref s) (of_int n) message ?st =
      Some (?st\<lparr>am_outgoing := m1, am_topics := m2, am_handler := m3\<rparr>)"
    "hm_abs m1 = (hm_abs (am_outgoing st))(s \<mapsto> uint (of_int n :: u16))"
    "id_abs m2 = (id_abs (am_topics st))(of_int n \<mapsto> Ref s)"
    "id_abs m3 = (id_abs (am_handler st))(of_int n \<mapsto> message)"
    by (rule amqp_wait_ok [OF inv room free, of n d q bs]) (simp add: message_def)
  have next': "next_delivery_id st = Some (d, st\<lparr>am_packet_id := d + 1\<rparr>)"
    "next_handle (st\<lparr>am_packet_id := d + 1\<rparr>) = Some (n, ?st)"
    using assms(8,9) by (simp_all add: next_delivery_id_def next_handle_def int_inc_def n_def d_def)
  have handle: "amqp_get_handler_from_map_outgoing (Ref s) (st\<lparr>am_packet_id := d + 1\<rparr>) = Some 0"
    using scan_handler_ok [OF amqp_invD(6) [OF assms(4)], of s] assms(6)
    by (simp add: amqp_get_handler_from_map_outgoing_def)
  have "packet_ok (sender_attach (Ref s) n)" using attach_ok [of n s] assms(7,8,10) by simp
  from amqp_fire_frame [OF this, of "[]"]
  have fire: "amqp_encode_and_fire (client_header ATTACH (Ref (sender_attach (Ref s) n)) st') st' =
      Some (amqp_emit (amqp_sent (sender_attach (Ref s) n) [] (am_channel st')) st')" for st'
    by (simp add: sender_attach_def client_header_packet)
  show thesis
    using that [of m3 m2 m1] m next' handle fire
    by (simp add: send_amqp_transfer_def client_header_transfer message_def)
qed

text \<open>The answer of the peer, attached as receiver: the waiting message is sent, and kept if it is unsettled.\<close>

lemma received_attach:
  assumes "att_name a = Ref s" "cstr_ok s" "att_role a = Ref r" "att_handle a = Ref m"
  shows "\<exists>b. received (AAttach a) = AAttach b \<and> att_name b = Ref s \<and> att_role b = Ref (if r = 0 then 0 else 1) \<and>
    att_handle b = Ref (got_uint m)"
  using assms by (simp add: got_def got_bool_def b2i_def)

lemma amqp_receiver_attached_ok:
  fixes st :: amqp_state and c n d q :: int and bs :: "byte list"
  defines "message \<equiv> transfer_message c n d q bs"
  assumes "amqp_inv st" "att_name a = Ref s" "hm_abs (am_outgoing st) s = Some (uint i)" "i \<noteq> 0"
    and "id_abs (am_handler st) i = Some message" "c_ulong n" "c_ulong d" "length bs \<le> 255"
  obtains m1 m2 where "amqp_receiver_attached a st =
      Some (amqp_emit (amqp_sent (ATransfer (transfer_packet n d q bs)) [bs] c)
        (st\<lparr>am_handler := m1, am_delivery := m2\<rparr>))"
    "id_abs m1 = (id_abs (am_handler st))(i := None)"
    "id_abs m2 = (if q = 0 then id_abs (am_delivery st) else (id_abs (am_delivery st))(of_int d \<mapsto> message))"
proof -
  have handle: "amqp_get_handler_from_map_outgoing (Ref s) st = Some i"
    using scan_handler_ok [OF amqp_invD(6) [OF assms(2)], of s] assms(4)
    by (simp add: amqp_get_handler_from_map_outgoing_def)
  have get: "amqp_get_message_from_map_by_handler i st = Some (Ref message)"
    using table_lookup [OF amqp_invD(1) [OF assms(2)], of i] assms(6)
    by (simp add: amqp_get_message_from_map_by_handler_def)
  let ?e = "amqp_emit (amqp_sent (ATransfer (transfer_packet n d q bs)) [bs] c)"
  have fire: "amqp_encode_and_fire message st = Some (?e st)"
    unfolding message_def transfer_message_header
    by (rule amqp_fire_frame) (use assms(7-9) transfer_ok in auto)
  have "amqp_inv (?e st)" using assms(2) by simp
  from amqp_remove_waiting_ok [OF this, of i] obtain m1 where
    m1: "amqp_remove_message_from_map_handler i (?e st) = Some ((?e st)\<lparr>am_handler := m1\<rparr>)"
    "amqp_inv ((?e st)\<lparr>am_handler := m1\<rparr>)" "id_abs m1 = (id_abs (am_handler st))(i := None)" by auto
  show thesis
  proof (cases "q = 0")
    case True
    then have "amqp_receiver_attached a st = Some ((?e st)\<lparr>am_handler := m1\<rparr>)"
      using handle get fire m1(1) assms(3,5) by (simp add: amqp_receiver_attached_def message_def)
    then show ?thesis using that [of "am_delivery st" m1] m1(3) True by (simp add: amqp_emit_def)
  next
    case False
    from amqp_keep_ok [OF m1(2) False, of d c n bs] obtain m2 where
      m2: "amqp_add_message_in_map_by_delivery_id (of_int d) message ((?e st)\<lparr>am_handler := m1\<rparr>) =
        Some ((?e st)\<lparr>am_handler := m1, am_delivery := m2\<rparr>)"
      "id_abs m2 = (id_abs (am_delivery st))(of_int d \<mapsto> message)" by (auto simp: message_def)
    then have "amqp_receiver_attached a st = Some ((?e st)\<lparr>am_handler := m1, am_delivery := m2\<rparr>)"
      using handle get fire m1(1) assms(3,5) False by (simp add: amqp_receiver_attached_def message_def)
    then show ?thesis using that [of m2 m1] m1(3) m2(2) False by (simp add: amqp_emit_def)
  qed
qed

subsection \<open>Handlers\<close>

lemma got_uint_range: "c_ulong n \<Longrightarrow> 0 \<le> got_uint n \<and> got_uint n < 256"
  by (auto simp: got_uint_def)

lemma disposition_ok: "c_ulong d \<Longrightarrow> packet_ok (accepted_disposition d)"
  using length_uint_bytes [of id d]
  by (intro packet_okI) (simp_all add: accepted_disposition_def field_def opt_def item_bytes_def bool_value_def
      state_value_def)

lemma fire_disposition:
  assumes "c_ulong d"
  shows "send_amqp_disposition d st = Some (amqp_emit (amqp_sent (accepted_disposition d) [] (am_channel st)) st)"
  using amqp_fire_frame [OF disposition_ok [OF assms], of "[]"]
  by (simp add: send_amqp_disposition_def accepted_disposition_def client_header_packet)

lemma fire_detach:
  assumes "c_ulong m" "p = ADetach \<lparr>det_handle = Ref m, det_closed = Ref 1, det_error = Null\<rparr>"
  shows "amqp_encode_and_fire (client_header DETACH (Ref p) st) st =
    Some (amqp_emit (amqp_sent p [] (am_channel st)) st)"
proof -
  have "packet_ok p"
    unfolding assms(2) using assms(1) length_uint_bytes [of id m]
    by (intro packet_okI) (simp_all add: field_def opt_def item_bytes_def bool_value_def)
  from amqp_fire_frame [OF this, of "[]"] show ?thesis by (simp add: assms(2) client_header_packet)
qed

text \<open>An acknowledgement: of its message id above 255 only the highest byte is looked up.\<close>

lemma amqp_handle_disposition_ok:
  assumes "amqp_inv st" "as_disposition h = Some p" "dis_first p = Ref m"
  obtains m' where "amqp_handle_disposition h st = Some (st\<lparr>am_delivery := m'\<rparr>)"
    "id_abs m' = (id_abs (am_delivery st))(of_int m := None)"
proof -
  have get: "amqp_get_message_from_map_by_delivery_id (of_int m) st = Some (ptr_of (id_abs (am_delivery st) (of_int m)))"
    using table_lookup [OF amqp_invD(3) [OF assms(1)]] by (simp add: amqp_get_message_from_map_by_delivery_id_def)
  show thesis
  proof (cases "id_abs (am_delivery st) (of_int m)")
    case None
    then have "amqp_handle_disposition h st = Some (st\<lparr>am_delivery := am_delivery st\<rparr>)"
      using get assms(2,3) by (simp add: amqp_handle_disposition_def)
    moreover have "id_abs (am_delivery st) = (id_abs (am_delivery st))(of_int m := None)"
      using None by (simp add: fun_upd_idem)
    ultimately show ?thesis using that by blast
  next
    case (Some x)
    obtain m' where "amqp_remove_message_from_map_delivery_id (of_int m) st = Some (st\<lparr>am_delivery := m'\<rparr>)"
      "id_abs m' = (id_abs (am_delivery st))(of_int m := None)"
      by (rule amqp_forget_ok [OF assms(1)])
    then show ?thesis using that [of m'] get Some assms(2,3) by (simp add: amqp_handle_disposition_def)
  qed
qed

lemma amqp_sender_attached_ok:
  assumes "amqp_inv st" "name_room (am_incoming st)" "att_name a = Ref s" "att_handle a = Ref m"
    and "hm_abs (am_incoming st) s = None" "m < 2 ^ 31 - 1" "- (2 ^ 31) \<le> m"
  obtains m1 m2 where "amqp_sender_attached a st =
      Some (st\<lparr>am_incoming := m1, am_topics := m2, am_next_handle := max (am_next_handle st) (m + 1)\<rparr>)"
    "hm_abs m1 = (hm_abs (am_incoming st))(s \<mapsto> uint (of_int m :: u16))"
    "id_abs m2 = (id_abs (am_topics st))(of_int m \<mapsto> Ref s)"
    "amqp_inv (st\<lparr>am_incoming := m1, am_topics := m2\<rparr>)"
proof -
  obtain m1 m2 where m: "amqp_add_link (Ref s) (of_int m) st = Some (st\<lparr>am_incoming := m1, am_topics := m2\<rparr>)"
    "hm_abs m1 = (hm_abs (am_incoming st))(s \<mapsto> uint (of_int m :: u16))"
    "id_abs m2 = (id_abs (am_topics st))(of_int m \<mapsto> Ref s)"
    "amqp_inv (st\<lparr>am_incoming := m1, am_topics := m2\<rparr>)"
    by (rule amqp_add_link_ok [OF assms(1,2), of s "of_int m"])
  have "amqp_get_handler_from_map (Ref s) st = Some 0"
    using scan_handler_ok [OF amqp_invD(5) [OF assms(1)], of s] assms(5)
    by (simp add: amqp_get_handler_from_map_def)
  then have "amqp_sender_attached a st =
      Some (st\<lparr>am_incoming := m1, am_topics := m2, am_next_handle := max (am_next_handle st) (m + 1)\<rparr>)"
    using m(1) assms(3,4,6,7) by (simp add: amqp_sender_attached_def int_inc_def max_def)
  with m show thesis using that by blast
qed

lemma amqp_handle_detach_ok:
  assumes "amqp_inv st" "as_detach h = Some p" "det_handle p = Ref m"
    and "id_abs (am_topics st) (of_int m) = Some (Ref s)"
  obtains m1 m2 where "amqp_handle_detach h st = Some (st\<lparr>am_incoming := m1, am_topics := m2\<rparr>)"
    "hm_abs m1 = (hm_abs (am_incoming st))(s := None)"
    "id_abs m2 = (id_abs (am_topics st))(of_int m := None)"
proof -
  obtain m1 m2 where m: "amqp_drop_link (Ref s) (of_int m) st = Some (st\<lparr>am_incoming := m1, am_topics := m2\<rparr>)"
    "hm_abs m1 = (hm_abs (am_incoming st))(s := None)"
    "id_abs m2 = (id_abs (am_topics st))(of_int m := None)"
    by (rule amqp_drop_link_ok [OF assms(1), of s "of_int m"])
  then show thesis
    using that assms(2-4) topic_name_ok [OF assms(1), of "of_int m"] by (simp add: amqp_handle_detach_def)
qed

subsection \<open>The frames of a read\<close>

text \<open>The frames one after the other, until one makes the process exit.\<close>

fun amqp_process_all :: "bool \<Rightarrow> byte list list \<Rightarrow> amqp_state \<Rightarrow> amqp_state option" where
  "amqp_process_all ok [] st = Some st"
| "amqp_process_all ok (f # fs) st = do {
     st \<leftarrow> process_amqp_rx ok f st;
     if am_exited st then Some st else amqp_process_all ok fs st
   }"

lemma amqp_frames_process:
  assumes "amqp_frames ok buf readable i n st = Some st'"
  shows "\<exists>fs. fs \<noteq> [] \<and> amqp_process_all ok fs st = Some st'"
  using assms
proof (induction ok buf readable i n st rule: amqp_frames.induct)
  case (1 ok buf readable i n st)
  from 1(2) obtain f s1 where f: "rd_n buf i n = Some f" "process_amqp_rx ok f st = Some s1"
    by (subst (asm) amqp_frames.simps) (auto simp: bind_Some_iff)
  consider "am_exited s1" "st' = s1" | "\<not> am_exited s1" "st' = s1"
    | w where "\<not> am_exited s1" "get_int buf (i + n) = Some w" "i + n < readable"
        "amqp_frames ok buf readable (i + n) (sint w) s1 = Some st'"
    using 1(2) f by (subst (asm) amqp_frames.simps) (auto simp: bind_Some_iff split: if_splits)
  then show ?case
  proof cases
    case 3
    from 1(1) [OF f 3] obtain fs where "amqp_process_all ok fs s1 = Some st'" by blast
    then show ?thesis using f(2) 3(1) by (intro exI [of _ "f # fs"]) simp
  qed (use f(2) in \<open>auto intro!: exI [of _ "[f]"]\<close>)
qed

lemma proto_frame_header:
  assumes "get_int data 0 = Some 0x414D5150" "process_amqp_rx ok data st = Some st'"
    and "rd data 4 = Some d" "rd data 5 = Some 1" "d = 0 \<or> d = 3" "get_short data 6 = Some 0"
  shows "am_exited st' = am_exited st"
proof -
  obtain h where h: "amqp_decode data = Some (Ref h)"
    using assms(2) by (auto simp: process_amqp_rx_def bind_Some_iff)
  then have "hdr_code h = Some PROTO"
    using assms(1,3-6) by (auto simp: amqp_decode_def split: if_splits)
  then have "amqp_handle_proto h st = Some st'"
    using assms(2) h by (simp add: process_amqp_rx_def amqp_handle_header_def)
  then show ?thesis
    by (auto simp: amqp_handle_proto_def send_amqp_open_def bind_Some_iff split: if_splits
        elim!: amqp_fire_emits)
qed

lemma rd_prefix: "0 \<le> k \<Longrightarrow> k < int (length f) \<Longrightarrow> rd (pre @ f @ rest) (int (length pre) + k) = rd f k"
  by (auto simp: rd_def nth_append nat_add_distrib nat_less_iff)

lemma get_int_prefix:
  assumes "4 \<le> length f"
  shows "get_int (pre @ f @ rest) (int (length pre)) = get_int f 0" "\<exists>w. get_int f 0 = Some w"
proof -
  have "f \<noteq> []" "1 < int (length f)" "2 < int (length f)" "3 < int (length f)" using assms by auto
  then show "get_int (pre @ f @ rest) (int (length pre)) = get_int f 0" "\<exists>w. get_int f 0 = Some w"
    using rd_prefix [of 0 f pre rest] rd_prefix [of 1 f pre rest] rd_prefix [of 2 f pre rest]
      rd_prefix [of 3 f pre rest]
    by (simp_all add: get_int_def) (simp add: rd_def)
qed

text \<open>Whatever is received is a sequence of frames: the steps of \<open>amqp_step\<close>.\<close>

lemma data_received_process:
  assumes "amqp_data_received ok buf readable st = Some st'" "\<not> am_exited st"
  shows "\<exists>fs. fs \<noteq> [] \<and> amqp_process_all ok fs st = Some st'"
proof -
  obtain w where w: "get_int buf 0 = Some w"
    using assms(1) by (auto simp: amqp_data_received_def bind_Some_iff)
  consider (frames) "amqp_frames ok buf readable 0 (sint w) st = Some st'"
    | (one) data where "process_amqp_rx ok data st = Some st'"
    | (proto) d p s1 m where "w = 0x414D5150" "rd buf 4 = Some d" "d = 0 \<or> d = 3" "rd buf 5 = Some 1"
        "rd buf 6 = Some 0" "rd buf 7 = Some 0" "rd_n buf 0 8 = Some p" "process_amqp_rx ok p st = Some s1"
        "process_amqp_rx ok m s1 = Some st'"
    using assms(1) w by (auto simp: amqp_data_received_def bind_Some_iff split: if_splits)
  then show ?thesis
  proof cases
    case frames
    then show ?thesis by (rule amqp_frames_process)
  next
    case one
    then show ?thesis by (intro exI [of _ "[data]"]) simp
  next
    case proto
    have len: "length p = 8" and buf: "buf = [] @ p @ drop 8 buf"
      using proto(7) by (auto simp: rd_n_def split: if_splits)
    have rd: "rd p k = rd buf k" if "0 \<le> k" "k < 8" for k
      using rd_prefix [of k p "[]" "drop 8 buf"] that len buf by simp
    have "get_int p 0 = Some 0x414D5150"
      using get_int_prefix(1) [of p "[]" "drop 8 buf"] len buf w proto(1) by simp
    moreover have "get_short p 6 = Some 0"
      using rd [of 6] rd [of 7] proto(5,6) by (simp add: get_short_def)
    ultimately have "am_exited s1 = am_exited st"
      using proto_frame_header [OF _ proto(8), of d] rd [of 4] rd [of 5] proto(2-4) by simp
    then show ?thesis
      using proto(8,9) assms(2) by (intro exI [of _ "[p, m]"]) simp
  qed
qed

text \<open>Well-formed frames are processed in their order.\<close>

definition amqp_sized :: "byte list \<Rightarrow> bool" where
  "amqp_sized f \<longleftrightarrow> 8 \<le> length f \<and> length f < 2 ^ 30 \<and> get_int f 0 = Some (of_nat (length f))"

lemma small_word:
  assumes "n < 2 ^ 30"
  shows "sint (of_nat n :: u32) = int n" "(of_nat n :: u32) \<noteq> 0x414D5150"
proof -
  have u: "uint (of_nat n :: u32) = int n"
    using assms by (simp add: uint_nat unat_of_nat take_bit_nat_eq_self)
  show "sint (of_nat n :: u32) = int n"
    using assms u by (simp add: sint_uint signed_take_bit_int_eq_self)
  have "int n \<noteq> uint (0x414D5150 :: u32)" using assms by simp
  then show "(of_nat n :: u32) \<noteq> 0x414D5150" using u by metis
qed

lemma get_int_short: "int (length buf) < i + 4 \<Longrightarrow> get_int buf i = None"
  by (auto simp: get_int_def rd_def bind_eq_None_conv)

lemma amqp_frames_ok:
  assumes "\<forall>f \<in> set (f # fs). amqp_sized f"
    and "buf = pre @ concat (f # fs) @ rest" "i = int (length pre)"
    and "readable = i + int (length (concat (f # fs)))"
  shows "amqp_frames ok buf readable i (int (length f)) st = do {
    st' \<leftarrow> amqp_process_all ok (f # fs) st;
    if am_exited st' \<or> 4 \<le> length rest then Some st' else None
  }"
  using assms
proof (induction fs arbitrary: f pre i st)
  case Nil
  then have f: "rd_n buf i (int (length f)) = Some f" by (simp add: rd_n_def)
  show ?case
  proof (cases "4 \<le> length rest")
    case True
    then obtain w where "get_int buf (i + int (length f)) = Some w"
      using get_int_prefix(1) [OF True, of "pre @ f" "[]"] get_int_prefix(2) [OF True] Nil(2,3)
      by (auto simp: add.commute)
    then show ?thesis
      using f Nil(4) True by (subst amqp_frames.simps) (simp cong: if_cong)
  next
    case False
    then have "get_int buf (i + int (length f)) = None"
      using Nil(2,3) by (intro get_int_short) simp
    then show ?thesis
      using f Nil(4) False by (subst amqp_frames.simps) (simp cong: if_cong)
  qed
next
  case (Cons g gs)
  have "rd_n buf i (int (length f)) = Some f" using Cons.prems(2,3) by (simp add: rd_n_def)
  moreover have "get_int buf (i + int (length f)) = Some (of_nat (length g))"
    using get_int_prefix(1) [of g "pre @ f" "concat gs @ rest"] Cons.prems(1-3) by (simp add: amqp_sized_def add.commute)
  moreover have "sint (of_nat (length g) :: u32) = int (length g)"
    using small_word(1) Cons.prems(1) by (simp add: amqp_sized_def)
  moreover have "i + int (length f) < readable"
    using Cons.prems(1,4) by (auto simp: amqp_sized_def)
  ultimately have "amqp_frames ok buf readable i (int (length f)) st = do {
      s1 \<leftarrow> process_amqp_rx ok f st;
      if am_exited s1 then Some s1 else amqp_frames ok buf readable (i + int (length f)) (int (length g)) s1
    }"
    by (subst amqp_frames.simps) (simp cong: if_cong)
  moreover have "amqp_frames ok buf readable (i + int (length f)) (int (length g)) s1 = do {
      st' \<leftarrow> amqp_process_all ok (g # gs) s1;
      if am_exited st' \<or> 4 \<le> length rest then Some st' else None
    }" for s1
    by (rule Cons.IH [where pre = "pre @ f"]) (use Cons.prems in simp_all)
  moreover have "amqp_process_all ok (f # g # gs) st = do {
      s1 \<leftarrow> process_amqp_rx ok f st;
      if am_exited s1 then Some s1 else amqp_process_all ok (g # gs) s1
    }" by simp
  ultimately show ?case
    by (cases "process_amqp_rx ok f st") (simp_all del: amqp_process_all.simps)
qed

subsection \<open>The properties of the client\<close>

definition sample_amqp :: amqp_state where
  "sample_amqp = fst (init_amqp_client sample_account 0 amqp_init)"

lemma sample_amqp_simps [simp]:
  "am_account sample_amqp = Ref sample_account" "am_listener sample_amqp" "am_channel sample_amqp = 0"
  "am_next_handle sample_amqp = 1" "am_packet_id sample_amqp = 1" "am_events sample_amqp = []"
  "am_handler sample_amqp = map_init" "am_delivery sample_amqp = map_init" "am_incoming sample_amqp = map_init"
  "am_outgoing sample_amqp = map_init" "am_topics sample_amqp = map_init" "am_messager sample_amqp = NotStarted"
  "\<not> am_exited sample_amqp" "am_connecter sample_amqp = NotStarted"
  by (simp_all add: sample_amqp_def init_amqp_client_def amqp_init_def)

lemma sample_amqp_inv: "amqp_inv sample_amqp" "name_room (map_init :: int map_base)"
  by (simp_all add: amqp_inv_def name_room_def) (simp add: map_init_def)

lemma sample_amqp_reachable: "amqp_reachable sample_amqp"
proof (rule amqp_reachable.step [OF amqp_reachable.start])
  show "amqp_step amqp_init sample_amqp"
    by (rule amqp_step.init [of sample_account 0 _ _ 0]) (simp add: sample_amqp_def init_amqp_client_def)
qed (simp_all add: sample_amqp_inv(2), simp add: amqp_init_def)

text \<open>
  C20: in every reachable state of the AMQP client its five tables are intact and the scans over them are lookups.
  A message that waits is a TRANSFER under its own handle, which is that of a topic; one kept for its delivery is
  an unsettled TRANSFER under its own delivery id; and nothing is retransmitted, for the thread that would is never
  started.
\<close>

theorem amqp_table_invariant:
  assumes "amqp_reachable st"
  shows "id_table (am_handler st) \<and> id_table (am_delivery st) \<and> id_table (am_topics st) \<and>
      hm_inv (am_incoming st) \<and> hm_inv (am_outgoing st) \<and>
      amqp_get_message_from_map_by_handler i st = Some (ptr_of (id_abs (am_handler st) i)) \<and>
      amqp_get_message_from_map_by_delivery_id i st = Some (ptr_of (id_abs (am_delivery st) i)) \<and>
      amqp_get_handler_from_map_outgoing (Ref s) st =
        Some (case hm_abs (am_outgoing st) s of None \<Rightarrow> 0 | Some v \<Rightarrow> of_int v) \<and>
      (\<forall>i h. id_abs (am_handler st) i = Some h \<longrightarrow>
        (\<exists>channel handle delivery_id q content.
           h = transfer_message channel handle delivery_id q content \<and> of_int handle = i) \<and>
        (i = 0 \<or> (\<exists>s. hm_abs (am_outgoing st) s = Some (uint i)))) \<and>
      (\<forall>i h. id_abs (am_delivery st) i = Some h \<longrightarrow>
        (\<exists>channel handle delivery_id q content.
           h = transfer_message channel handle delivery_id q content \<and> of_int delivery_id = i \<and> q \<noteq> 0)) \<and>
      am_messager st = NotStarted \<and> amqp_stop_all_timers st = None"
proof -
  have inv: "amqp_inv st" using amqp_reachable_inv [OF assms] by simp
  note d = amqp_invD [OF inv]
  have "amqp_get_message_from_map_by_handler i st = Some (ptr_of (id_abs (am_handler st) i)) \<and>
      amqp_get_message_from_map_by_delivery_id i st = Some (ptr_of (id_abs (am_delivery st) i)) \<and>
      amqp_get_handler_from_map_outgoing (Ref s) st =
        Some (case hm_abs (am_outgoing st) s of None \<Rightarrow> 0 | Some v \<Rightarrow> of_int v)"
    using table_lookup [OF d(1)] table_lookup [OF d(3)] scan_handler_ok [OF d(6)]
    by (simp add: amqp_get_message_from_map_by_handler_def amqp_get_message_from_map_by_delivery_id_def
        amqp_get_handler_from_map_outgoing_def)
  moreover have "amqp_stop_all_timers st = None"
    using d(10) by (auto simp: amqp_stop_all_timers_def amqp_stop_ping_timer_def amqp_stop_message_timer_def
        pthread_cancel_def bind_eq_None_conv)
  ultimately show ?thesis
    using d unfolding waiting_ok_def unsettled_ok_def topics_ok_def by blast
qed

theorem amqp_table_invariant_witness:
  "id_table (am_handler sample_amqp) \<and> amqp_get_handler_from_map_outgoing (Ref [0x61]) sample_amqp = Some 0 \<and>
    amqp_stop_all_timers sample_amqp = None"
  using amqp_table_invariant [OF sample_amqp_reachable, of 0 "[0x61]"] by (simp add: map_init_ok)

text \<open>
  Publishing to a topic the client has no handle for sends an ATTACH as sender, in its wire format, under a new
  handle. The TRANSFER waits under that handle, with a new delivery id, and the topic and the handle are recorded in both
  directions.
\<close>

theorem amqp_publish_waits:
  assumes "amqp_inv st" "name_room (am_outgoing st)" "hm_abs (am_outgoing st) s = None"
    and "n = am_next_handle st" "0 \<le> n" "n < 2 ^ 31 - 1" and "d = am_packet_id st" "d < 2 ^ 31 - 1"
    and "length s \<le> 100"
  shows "\<exists>st'. send_amqp_transfer (Ref content) (Ref s) q retain dup st = Some st' \<and> amqp_inv st' \<and>
    am_events st' = am_events st @ [amqp_sent (sender_attach (Ref s) n) [] (am_channel st)] \<and>
    hm_abs (am_outgoing st') = (hm_abs (am_outgoing st))(s \<mapsto> uint (of_int n :: u16)) \<and>
    id_abs (am_topics st') = (id_abs (am_topics st))(of_int n \<mapsto> Ref s) \<and>
    id_abs (am_handler st') = (id_abs (am_handler st))(of_int n \<mapsto> transfer_message (am_channel st) n d q content) \<and>
    am_delivery st' = am_delivery st \<and> am_incoming st' = am_incoming st \<and>
    am_next_handle st' = n + 1 \<and> am_packet_id st' = d + 1"
proof -
  obtain m1 m2 m3 where m: "send_amqp_transfer (Ref content) (Ref s) q retain dup st =
      Some (amqp_emit (amqp_sent (sender_attach (Ref s) n) [] (am_channel st))
        (st\<lparr>am_packet_id := d + 1, am_next_handle := n + 1, am_outgoing := m1, am_topics := m2, am_handler := m3\<rparr>))"
    "hm_abs m1 = (hm_abs (am_outgoing st))(s \<mapsto> uint (of_int n :: u16))"
    "id_abs m2 = (id_abs (am_topics st))(of_int n \<mapsto> Ref s)"
    "id_abs m3 = (id_abs (am_handler st))(of_int n \<mapsto> transfer_message (am_channel st) n d q content)"
    by (rule send_amqp_transfer_waits [OF assms(1-3), of content q retain dup])
      (use assms in simp_all)
  then show ?thesis
    using send_amqp_transfer_inv [OF m(1) assms(1,2)] by simp
qed

theorem amqp_publish_waits_witness:
  "\<exists>st'. send_amqp_transfer (Ref [0x68]) (Ref [0x61]) 1 0 0 sample_amqp = Some st' \<and> amqp_inv st' \<and>
    am_events st' = [amqp_sent (sender_attach (Ref [0x61]) 1) [] 0] \<and>
    id_abs (am_handler st') = [1 \<mapsto> transfer_message 0 1 1 1 [0x68]] \<and>
    hm_abs (am_outgoing st') = [[0x61] \<mapsto> 1] \<and> am_delivery st' = map_init"
  using amqp_publish_waits [OF sample_amqp_inv(1), of "[0x61]" 1 1 "[0x68]" 1 0 0] sample_amqp_inv(2)
  by (auto simp: map_init_ok)

text \<open>
  C22: a publication to an unknown topic (its name of at most 100 bytes without zeros, its content of at most 255, the next
  handle below \<open>2 ^ 16\<close> and the next delivery id below \<open>2 ^ 31 - 1\<close>) is delivered as soon as the peer attaches the topic
  as receiver: the reply makes the client send the TRANSFER with the content, in its wire format. It waits no longer,
  and from QoS 1 on is kept under its delivery id.
\<close>

theorem amqp_publication_delivered:
  assumes "amqp_inv st" "name_room (am_outgoing st)" "hm_abs (am_outgoing st) s = None"
    and "n = am_next_handle st" "0 < n" "n < 2 ^ 16" and "d = am_packet_id st" "0 \<le> d" "d < 2 ^ 31 - 1"
    and "length s \<le> 100" "cstr_ok s" "length content \<le> 255"
    and reply: "packet_ok (AAttach a)" "counted_packet (AAttach a)" "att_name a = Ref s" "att_role a = Ref r" "r \<noteq> 0"
    and "- (2 ^ 15) \<le> channel" "channel < 2 ^ 15"
  shows "\<exists>st1 st2. send_amqp_transfer (Ref content) (Ref s) q retain dup st = Some st1 \<and>
    process_amqp_rx ok (peer_frame (AAttach a) [] channel) st1 = Some st2 \<and>
    am_events st2 = am_events st @ [amqp_sent (sender_attach (Ref s) n) [] (am_channel st),
      amqp_sent (ATransfer (transfer_packet n d q content)) [content] (am_channel st)] \<and>
    id_abs (am_handler st2) = (id_abs (am_handler st))(of_int n := None) \<and>
    id_abs (am_delivery st2) = (if q = 0 then id_abs (am_delivery st)
      else (id_abs (am_delivery st))(of_int d \<mapsto> transfer_message (am_channel st) n d q content))"
proof -
  let ?c = "am_channel st"
  obtain m1 m2 m3 where m: "send_amqp_transfer (Ref content) (Ref s) q retain dup st =
      Some (amqp_emit (amqp_sent (sender_attach (Ref s) n) [] ?c)
        (st\<lparr>am_packet_id := d + 1, am_next_handle := n + 1, am_outgoing := m1, am_topics := m2, am_handler := m3\<rparr>))"
    "hm_abs m1 = (hm_abs (am_outgoing st))(s \<mapsto> uint (of_int n :: u16))"
    "id_abs m3 = (id_abs (am_handler st))(of_int n \<mapsto> transfer_message ?c n d q content)"
    by (rule send_amqp_transfer_waits [OF assms(1-3), of content q retain dup]) (use assms in simp_all)
  let ?st1 = "amqp_emit (amqp_sent (sender_attach (Ref s) n) [] ?c)
      (st\<lparr>am_packet_id := d + 1, am_next_handle := n + 1, am_outgoing := m1, am_topics := m2, am_handler := m3\<rparr>)"
  have inv1: "amqp_inv ?st1" by (rule send_amqp_transfer_inv [OF m(1) assms(1,2)])
  obtain b where b: "received (AAttach a) = AAttach b" "att_name b = Ref s" "att_role b = Ref 1"
    using reply assms(11) by (auto simp: got_def got_bool_def b2i_def)
  have n0: "(of_int n :: u16) \<noteq> 0"
  proof
    assume "(of_int n :: u16) = 0"
    then have "uint (of_int n :: u16) = 0" by simp
    then show False using assms(5,6) by (simp add: uint_word_of_int)
  qed
  have bounds: "c_ulong n" "c_ulong d" using assms(5,6,8,9) by simp_all
  obtain w1 w2 where w: "amqp_receiver_attached b ?st1 =
      Some (amqp_emit (amqp_sent (ATransfer (transfer_packet n d q content)) [content] ?c)
        (?st1\<lparr>am_handler := w1, am_delivery := w2\<rparr>))"
    "id_abs w1 = (id_abs m3)(of_int n := None)"
    "id_abs w2 = (if q = 0 then id_abs (am_delivery st)
      else (id_abs (am_delivery st))(of_int d \<mapsto> transfer_message ?c n d q content))"
    by (rule amqp_receiver_attached_ok [OF inv1 b(2) _ n0 _ bounds assms(12), where q = q and c = ?c])
      (use m(2,3) in simp_all)
  have "process_amqp_rx ok (peer_frame (AAttach a) [] channel) ?st1 = amqp_receiver_attached b ?st1"
    using process_peer_frame [OF reply(1,2), of "[]" channel ok ?st1] assms(18,19) b
    by (simp add: amqp_handle_header_def amqp_handle_attach_def as_attach_def amqp_header_def del: received.simps)
  with m w show ?thesis by simp
qed

theorem amqp_publication_delivered_witness:
  "\<exists>st1 st2. send_amqp_transfer (Ref [0x68]) (Ref [0x61]) 1 0 0 sample_amqp = Some st1 \<and>
    process_amqp_rx True (peer_frame (receiver_attach (Ref [0x61]) 4) [] 0) st1 = Some st2 \<and>
    am_events st2 = [amqp_sent (sender_attach (Ref [0x61]) 1) [] 0,
      amqp_sent (ATransfer (transfer_packet 1 1 1 [0x68])) [[0x68]] 0] \<and>
    id_abs (am_handler st2) = Map.empty \<and> id_abs (am_delivery st2) = [1 \<mapsto> transfer_message 0 1 1 1 [0x68]]"
proof -
  have "packet_ok (receiver_attach (Ref [0x61]) 4)" using attach_ok(2) [of 4 "[0x61]"] by simp
  then show ?thesis
    unfolding receiver_attach_def
    using amqp_publication_delivered [OF sample_amqp_inv(1), of "[0x61]" 1 1 "[0x68]", where q = 1 and channel = 0]
      sample_amqp_inv(2)
    by (simp add: map_init_ok cstr_ok_def)
qed

text \<open>
  A DISPOSITION ends the delivery it names, and changes nothing else, as long as its id is below 256. Of a larger
  id the client reads the highest byte only, and looks for that delivery instead.
\<close>

theorem amqp_disposition_ends:
  assumes "amqp_inv st" "packet_ok (ADisposition p)" "dis_first p = Ref m" "- (2 ^ 15) \<le> channel" "channel < 2 ^ 15"
  shows "\<exists>deliveries. process_amqp_rx ok (peer_frame (ADisposition p) [] channel) st =
      Some (st\<lparr>am_delivery := deliveries\<rparr>) \<and>
    id_abs deliveries = (id_abs (am_delivery st))(of_int (if m < 256 then m else m div 2 ^ 24) := None)"
proof -
  obtain x where x: "received (ADisposition p) = ADisposition x" "dis_first x = Ref (got_uint m)"
    using assms(3) by (simp add: got_def)
  have "process_amqp_rx ok (peer_frame (ADisposition p) [] channel) st =
      amqp_handle_disposition (amqp_header (ADisposition x) 2 0 channel) st"
    using process_peer_frame [OF assms(2), of "[]" channel ok st] assms(4,5) x(1)
    by (simp add: amqp_handle_header_def del: received.simps)
  moreover obtain m' where "amqp_handle_disposition (amqp_header (ADisposition x) 2 0 channel) st =
      Some (st\<lparr>am_delivery := m'\<rparr>)" "id_abs m' = (id_abs (am_delivery st))(of_int (got_uint m) := None)"
    by (rule amqp_handle_disposition_ok [OF assms(1), of "amqp_header (ADisposition x) 2 0 channel" x "got_uint m"])
      (simp_all add: as_disposition_def amqp_header_def x(2))
  ultimately show ?thesis by (auto simp: got_uint_def)
qed

theorem amqp_disposition_ends_witness:
  "\<exists>deliveries. process_amqp_rx True (peer_frame (accepted_disposition 7) [] 0) sample_amqp =
     Some (sample_amqp\<lparr>am_delivery := deliveries\<rparr>) \<and> id_abs deliveries = Map.empty"
  using amqp_disposition_ends [OF sample_amqp_inv(1) disposition_ok [of 7, unfolded accepted_disposition_def], of 7 0 True]
  by (simp add: accepted_disposition_def)

text \<open>
  An incoming message is answered with an accepting DISPOSITION when it is unsettled, and that is all: it is
  neither stored nor given to the application.
\<close>

theorem amqp_incoming_dropped:
  assumes "packet_ok (ATransfer p)" "sections_ok (ATransfer p) [content]"
    and "tra_settled p = Ref b" "tra_delivery_id p = Ref d" and "- (2 ^ 15) \<le> channel" "channel < 2 ^ 15"
  shows "process_amqp_rx ok (peer_frame (ATransfer p) [content] channel) st =
    Some (if b \<noteq> 0 then st
      else amqp_emit (amqp_sent (accepted_disposition (if d < 256 then d else d div 2 ^ 24)) [] (am_channel st)) st)"
proof -
  have d: "c_ulong d" using assms(1,4) by (simp add: packet_ok_def field_def)
  then have "c_ulong (got_uint d)" using got_uint_range [of d] by simp
  note reply = fire_disposition [OF this]
  obtain t where t: "received (ATransfer p) = ATransfer t" "tra_settled t = Ref (got_bool b)"
    "tra_delivery_id t = Ref (got_uint d)"
    using assms(3,4) by (simp add: got_any_def got_def)
  have "process_amqp_rx ok (peer_frame (ATransfer p) [content] channel) st =
      amqp_handle_transfer (amqp_header (with_sections (received (ATransfer p)) [content]) 2 0 channel) st"
    using process_peer_frame [OF assms(1) _ assms(2), of channel ok st] assms(5,6)
    by (simp add: amqp_handle_header_def)
  also have "\<dots> = Some (if b \<noteq> 0 then st
      else amqp_emit (amqp_sent (accepted_disposition (got_uint d)) [] (am_channel st)) st)"
    unfolding t(1) using t(2,3) reply rd_n_all [of "int (length content)" content]
    by (simp add: amqp_handle_transfer_def as_transfer_def amqp_header_def is_settled_def got_bool_def b2i_def
        data_entry_def)
  finally show ?thesis by (simp add: got_uint_def)
qed

theorem amqp_incoming_dropped_witness:
  "process_amqp_rx True (peer_frame (ATransfer (transfer_packet 4 9 1 [0x68])) [[0x68]] 0) sample_amqp =
     Some (amqp_emit (amqp_sent (accepted_disposition 9) [] 0) sample_amqp)"
  using amqp_incoming_dropped [of "transfer_packet 4 9 1 [0x68]" "[0x68]" 0 9 0 True sample_amqp]
    transfer_ok [where n = 4 and d = 9 and q = 1 and bs = "[0x68]"]
  by (simp add: transfer_packet_def)

text \<open>
  The reply of the peer to a subscription, its ATTACH as sender, records the topic and the peer's handle in both
  directions, and unsubscribing then sends the DETACH of that handle. The handles the client chooses later are larger.
\<close>

theorem amqp_subscription_recorded:
  assumes "amqp_inv st" "name_room (am_incoming st)" "hm_abs (am_incoming st) s = None" "cstr_ok s"
    and "packet_ok (AAttach a)" "counted_packet (AAttach a)" "att_name a = Ref s" "att_role a = Ref 0"
    and "att_handle a = Ref m" "0 < m" "m < 256" and "- (2 ^ 15) \<le> channel" "channel < 2 ^ 15"
  shows "\<exists>st'. process_amqp_rx ok (peer_frame (AAttach a) [] channel) st = Some st' \<and> amqp_inv st' \<and>
    hm_abs (am_incoming st') = (hm_abs (am_incoming st))(s \<mapsto> m) \<and>
    id_abs (am_topics st') = (id_abs (am_topics st))(of_int m \<mapsto> Ref s) \<and>
    m < am_next_handle st' \<and> am_events st' = am_events st \<and>
    send_amqp_detach (Ref s) st' = Some (amqp_emit
      (amqp_sent (ADetach \<lparr>det_handle = Ref m, det_closed = Ref 1, det_error = Null\<rparr>) [] (am_channel st)) st')"
proof -
  have m: "uint (of_int m :: u16) = m" "got_uint m = m" using assms(10,11) by (simp_all add: uint_word_of_int got_uint_def)
  obtain b where b: "received (AAttach a) = AAttach b" "att_name b = Ref s" "att_role b = Ref 0" "att_handle b = Ref m"
    using assms(4,7-9) m(2) by (auto simp: got_def got_bool_def b2i_def)
  obtain w1 w2 where w: "amqp_sender_attached b st =
      Some (st\<lparr>am_incoming := w1, am_topics := w2, am_next_handle := max (am_next_handle st) (m + 1)\<rparr>)"
    "hm_abs w1 = (hm_abs (am_incoming st))(s \<mapsto> uint (of_int m :: u16))"
    "id_abs w2 = (id_abs (am_topics st))(of_int m \<mapsto> Ref s)"
    "amqp_inv (st\<lparr>am_incoming := w1, am_topics := w2\<rparr>)"
    by (rule amqp_sender_attached_ok [OF assms(1,2) b(2,4) assms(3)]) (use assms(10,11) in simp_all)
  let ?st = "st\<lparr>am_incoming := w1, am_topics := w2, am_next_handle := max (am_next_handle st) (m + 1)\<rparr>"
  have inv: "amqp_inv ?st" using w(4) by (simp add: amqp_inv_def)
  have "process_amqp_rx ok (peer_frame (AAttach a) [] channel) st = amqp_sender_attached b st"
    using process_peer_frame [OF assms(5,6), of "[]" channel ok st] assms(12,13) b
    by (simp add: amqp_handle_header_def amqp_handle_attach_def as_attach_def amqp_header_def del: received.simps)
  moreover have "amqp_get_handler_from_map (Ref s) ?st = Some (of_int m)"
    using scan_handler_ok [of w1 s] amqp_invD(5) [OF inv] w(2) m(1) by (simp add: amqp_get_handler_from_map_def)
  moreover have "(of_int m :: u16) \<noteq> 0" using m(1) assms(10) by auto
  ultimately show ?thesis
    using w inv m fire_detach [of m "ADetach \<lparr>det_handle = Ref m, det_closed = Ref 1, det_error = Null\<rparr>" ?st]
      assms(10,11)
    by (simp add: send_amqp_detach_def)
qed

theorem amqp_subscription_recorded_witness:
  "\<exists>st'. process_amqp_rx True (peer_frame (sender_attach (Ref [0x61]) 4) [] 0) sample_amqp = Some st' \<and>
    hm_abs (am_incoming st') = [[0x61] \<mapsto> 4] \<and>
    send_amqp_detach (Ref [0x61]) st' = Some (amqp_emit
      (amqp_sent (ADetach \<lparr>det_handle = Ref 4, det_closed = Ref 1, det_error = Null\<rparr>) [] 0) st')"
proof -
  obtain a where a: "sender_attach (Ref [0x61]) 4 = AAttach a" "counted_packet (AAttach a)" "att_name a = Ref [0x61]"
    "att_role a = Ref 0" "att_handle a = Ref 4"
    by (simp add: sender_attach_def)
  have "packet_ok (AAttach a)" using attach_ok(1) [of 4 "[0x61]"] a(1) by simp
  from amqp_subscription_recorded [OF sample_amqp_inv(1) _ _ _ this a(2-5), of 0 True] sample_amqp_inv(2)
  show ?thesis unfolding a(1) by (auto simp: map_init_ok cstr_ok_def)
qed

text \<open>
  A DETACH of a handle forgets the topic among those the peer sends, whichever side the link was of: a topic the
  client publishes to keeps its handle, and is published to under it although the peer has detached it.
\<close>

theorem amqp_detach_keeps_outgoing:
  assumes "amqp_inv st" "packet_ok (ADetach p)" "det_handle p = Ref m" "m < 256"
    and "id_abs (am_topics st) (of_int m) = Some (Ref s)"
    and "hm_abs (am_outgoing st) s = Some h" "(of_int h :: u16) \<noteq> 0"
    and "- (2 ^ 15) \<le> channel" "channel < 2 ^ 15" and "0 \<le> am_packet_id st" "am_packet_id st < 2 ^ 31 - 1"
    and "length content \<le> 255"
  shows "\<exists>st' st''. process_amqp_rx ok (peer_frame (ADetach p) [] channel) st = Some st' \<and>
    hm_abs (am_incoming st') = (hm_abs (am_incoming st))(s := None) \<and>
    id_abs (am_topics st') = (id_abs (am_topics st))(of_int m := None) \<and>
    send_amqp_transfer (Ref content) (Ref s) q retain dup st' = Some st'' \<and>
    am_events st'' = am_events st @ [amqp_sent (ATransfer
      (transfer_packet (uint (of_int h :: u16)) (am_packet_id st) q content)) [content] (am_channel st)]"
proof -
  have m: "got_uint m = m" using assms(4) by (simp add: got_uint_def)
  obtain x where x: "received (ADetach p) = ADetach x" "det_handle x = Ref m"
    using assms(3) m by (simp add: got_def)
  obtain w1 w2 where w: "amqp_handle_detach (amqp_header (ADetach x) 2 0 channel) st =
      Some (st\<lparr>am_incoming := w1, am_topics := w2\<rparr>)"
    "hm_abs w1 = (hm_abs (am_incoming st))(s := None)" "id_abs w2 = (id_abs (am_topics st))(of_int m := None)"
    by (rule amqp_handle_detach_ok [OF assms(1), of "amqp_header (ADetach x) 2 0 channel" x m s])
      (simp_all add: as_detach_def amqp_header_def x(2) assms(5))
  let ?st = "st\<lparr>am_incoming := w1, am_topics := w2\<rparr>"
  let ?n = "uint (of_int h :: u16)" and ?d = "am_packet_id st"
  have "process_amqp_rx ok (peer_frame (ADetach p) [] channel) st = Some ?st"
    using process_peer_frame [OF assms(2), of "[]" channel ok st] assms(8,9) x(1) w(1)
    by (simp add: amqp_handle_header_def del: received.simps)
  moreover have "amqp_get_handler_from_map_outgoing (Ref s) (?st\<lparr>am_packet_id := ?d + 1\<rparr>) = Some (of_int h)"
    using scan_handler_ok [OF amqp_invD(6) [OF assms(1)], of s] assms(6)
    by (simp add: amqp_get_handler_from_map_outgoing_def)
  moreover have "amqp_encode_and_fire (transfer_message c ?n ?d q content) st1 =
      Some (amqp_emit (amqp_sent (ATransfer (transfer_packet ?n ?d q content)) [content] c) st1)" for c st1
    unfolding transfer_message_header
    by (rule amqp_fire_frame) (use transfer_ok assms(10-12) uint_lt2p [of "of_int h :: u16"] in auto)
  ultimately show ?thesis
    using w assms(7,11)
    by (simp add: send_amqp_transfer_def next_delivery_id_def int_inc_def client_header_transfer)
qed

theorem amqp_detach_keeps_outgoing_witness:
  "\<exists>st st' st''. process_amqp_rx True (peer_frame (ADetach \<lparr>det_handle = Ref 1, det_closed = Ref 1, det_error = Null\<rparr>) [] 0) st =
      Some st' \<and> id_abs (am_topics st') = Map.empty \<and>
    send_amqp_transfer (Ref [0x68]) (Ref [0x61]) 0 0 0 st' = Some st'' \<and>
    am_events st'' = am_events st @ [amqp_sent (ATransfer (transfer_packet 1 2 0 [0x68])) [[0x68]] 0]"
proof -
  let ?a = "amqp_emit (amqp_sent (sender_attach (Ref [0x61]) 1) [] 0)"
  obtain m1 m2 m3 where m: "send_amqp_transfer (Ref [0x68]) (Ref [0x61]) 1 0 0 sample_amqp =
      Some (?a (sample_amqp\<lparr>am_packet_id := 2, am_next_handle := 2, am_outgoing := m1, am_topics := m2, am_handler := m3\<rparr>))"
    "hm_abs m1 = [[0x61] \<mapsto> 1]" "id_abs m2 = [1 \<mapsto> Ref [0x61]]"
    by (rule send_amqp_transfer_waits [OF sample_amqp_inv(1), of "[0x61]" "[0x68]" 1 0 0])
      (simp_all add: sample_amqp_inv(2) map_init_ok)
  let ?st = "?a (sample_amqp\<lparr>am_packet_id := 2, am_next_handle := 2, am_outgoing := m1, am_topics := m2, am_handler := m3\<rparr>)"
  have inv: "amqp_inv ?st"
    by (rule send_amqp_transfer_inv [OF m(1) sample_amqp_inv(1)]) (simp add: sample_amqp_inv(2))
  have "packet_ok (ADetach \<lparr>det_handle = Ref 1, det_closed = Ref 1, det_error = Null\<rparr>)"
    using length_uint_bytes [of id 1]
    by (intro packet_okI) (simp_all add: field_def opt_def item_bytes_def bool_value_def)
  from amqp_detach_keeps_outgoing [OF inv this, of 1 "[0x61]" 1 0 "[0x68]" True 0 0 0] m(2,3)
  obtain st' st'' where
    "process_amqp_rx True (peer_frame (ADetach \<lparr>det_handle = Ref 1, det_closed = Ref 1, det_error = Null\<rparr>) [] 0) ?st =
      Some st'" "id_abs (am_topics st') = Map.empty"
    "send_amqp_transfer (Ref [0x68]) (Ref [0x61]) 0 0 0 st' = Some st''"
    "am_events st'' = am_events ?st @ [amqp_sent (ATransfer (transfer_packet 1 2 0 [0x68])) [[0x68]] 0]"
    by auto
  then show ?thesis by blast
qed

end
