(* ===== verification/AmqpSession.thy ===== *)
theory AmqpSession
  imports AmqpBehaviour
begin

text \<open>
  The session of the AMQP client: the frames of a read are processed in their order, the handshake from the server's
  mechanisms to the notice that the client is connected, and the frames that leave the client without a defined state.
\<close>

subsection \<open>The frames of the handshake\<close>

lemma process_value:
  assumes "amqp_short v" "descriptor_code (tlv_of \<delta> Wild v) = Some code" "code \<noteq> TRANSFER"
    and "init_header code (tlv_of \<delta> Wild v) = Some p" "fits (amqp_bytes \<delta> v)" "type = 0 \<or> type = 1"
  shows "process_amqp_rx ok (amqp_frame 2 type 0 (amqp_bytes \<delta> v)) st =
    amqp_handle_header ok code \<lparr>hdr_code = Some code, hdr_doff = Some 2, hdr_type = Some type, hdr_channel = Some 0,
      hdr_packet = p\<rparr> st"
proof -
  have "reads (amqp_bytes \<delta> v) (tlv_of \<delta> Wild v)" using value_reads [OF assms(1)] by blast
  from decode_value [OF this assms(2,4), of 2 type 0 "[]"] assms(3,5,6) show ?thesis
    by (simp add: process_amqp_rx_def)
qed

lemma mechanisms_read:
  "init_header MECHANISMS (tlv_of \<delta> Wild (VDescribed MECHANISMS (VList [VSymbols (m # ms)]))) =
    Some (Ref (AMechanisms (Ref (cstr_of m))))"
proof -
  let ?sym = "\<lambda>v. tlv_var SYMBOL_8 v (Some (int (length v)))"
  have sym: "unwrap (?sym v) = Some (VoidSymbol (Ref (cstr_of v)))" for v
    using rd_n_all [of "int (length v)" v]
    by (subst unwrap.simps) (simp add: unwrap_scalar_def unwrap_symbol_def copy_string_def)
  have items: "unwrap_items (length vs) (map ?sym vs) = Some (map (\<lambda>v. VoidSymbol (Ref (cstr_of v))) vs)" for vs
    by (induction vs) (simp_all add: sym)
  have "nat (1 + int (length ms)) = Suc (length ms)" by simp
  then show ?thesis
    using items [of "m # ms"]
    by (simp add: init_header_def init_mechanisms_def opt_field_def item_def first_void_def unwrap_array_def tlv_of.simps
        del: unwrap_items.simps)
qed

lemma outcome_read:
  "init_header OUTCOME (tlv_of \<delta> Wild (VDescribed OUTCOME (VList [VUbyte c]))) =
    Some (Ref (AOutcome \<lparr>out_code = Some (uint c), out_additional_data = Wild\<rparr>))"
  by (simp add: init_header_def init_outcome_def any_field_def item_def copied_def unwrap_ubyte_def first_byte_def
      tlv_of.simps)

lemma described_code: "descriptor_code (tlv_of \<delta> Wild (VDescribed c (VList vs))) = Some c"
  by (simp add: tlv_of.simps descriptor_code_def descriptor_of_def)

lemma sasl_reply:
  assumes "am_account st = Ref acc" "acc_username acc = Ref u" "acc_password acc = Ref pw"
    and "length m \<le> 40" "2 * length u + length pw \<le> 200"
    and "h = \<lparr>hdr_code = Some MECHANISMS, hdr_doff = Some 2, hdr_type = Some 1, hdr_channel = Some 0,
      hdr_packet = Ref (AMechanisms (Ref m))\<rparr>"
    and "p = AInit \<lparr>ini_mechanism = Ref m, ini_response = Ref (sasl_response u pw),
      ini_response_length = Some (int (length (sasl_response u pw))), ini_host_name = Null\<rparr>"
  shows "send_amqp_sasl_init h st = Some (amqp_emit (AmqpSend (map Some (amqp_frame 2 1 0 (packet_body p)))) st)"
proof -
  have "length (sasl_response u pw) \<le> 202" using assms(5) by (simp add: sasl_response_def)
  then have "packet_ok p"
    unfolding assms(7) using assms(4)
    by (intro packet_okI) (simp_all add: field_def opt_def item_bytes_def)
  from amqp_encode_frame [OF this, of "[]" 2 1 0] show ?thesis
    using assms(1-3) unfolding assms(6,7)
    by (simp add: send_amqp_sasl_init_def as_mechanisms_def amqp_encode_and_fire_def amqp_header_def Let_def
        del: packet_body.simps)
qed

definition proto_bytes :: "byte \<Rightarrow> byte list" where
  "proto_bytes n = [0x41, 0x4D, 0x51, 0x50, n, 1, 0, 0]"

lemma proto_sent: "send_amqp_proto_header n st = Some (amqp_emit (AmqpSend (map Some (proto_bytes (of_int n)))) st)"
  by (simp add: send_amqp_proto_header_def amqp_encode_and_fire_def amqp_encode_def proto_header_def as_proto_def
      ascii_def c_malloc_def wr_at_def proto_bytes_def)

lemma proto_received:
  "process_amqp_rx ok (proto_bytes 0) st = send_amqp_open (st\<lparr>am_channel := 0\<rparr>)"
proof -
  have "amqp_decode (proto_bytes 0) = Some (Ref \<lparr>hdr_code = Some PROTO, hdr_doff = Some 0, hdr_type = Some 0,
      hdr_channel = Some 0, hdr_packet = Ref (AProto \<lparr>proto_protocol = Wild, proto_id = 0, proto_version = None\<rparr>)\<rparr>)"
    by (simp add: amqp_decode_def get_int_def get_short_def rd_def proto_bytes_def)
  then show ?thesis
    by (simp add: process_amqp_rx_def amqp_handle_header_def amqp_handle_proto_def as_proto_def)
qed

lemma open_packet_ok:
  assumes "length cid \<le> 200" "0 \<le> k" "k < 2000000"
  shows "packet_ok (AOpen \<lparr>open_container_id = Ref cid, open_hostname = Null, open_max_frame_size = Null,
        open_channel_max = Null, open_idle_timeout = Ref (k * 1000)\<rparr>)"
  using assms length_uint_bytes [of id "k * 1000"]
  by (intro packet_okI) (simp_all add: field_def opt_def item_bytes_def)

lemma open_sent:
  assumes "am_account st = Ref acc" "acc_client_id acc = Ref cid" "length cid \<le> 200"
    and "0 \<le> acc_keep_alive acc" "acc_keep_alive acc < 2000000"
    and "p = AOpen \<lparr>open_container_id = Ref cid, open_hostname = Null, open_max_frame_size = Null,
        open_channel_max = Null, open_idle_timeout = Ref (acc_keep_alive acc * 1000)\<rparr>"
  shows "send_amqp_open st = Some (amqp_emit (amqp_sent p [] (am_channel st)) st)"
proof -
  have "packet_ok p"
    unfolding assms(6) using assms(3-5) by (rule open_packet_ok)
  from amqp_fire_frame [OF this, of "[]"] show ?thesis
    using assms by (simp add: send_amqp_open_def c_int_def client_header_packet)
qed

lemma begin_packet_ok: "packet_ok begin_packet"
  using length_uint_bytes [of id 2147483647]
  by (intro packet_okI) (simp_all add: begin_packet_def field_def opt_def item_bytes_def uint_value_def [of 0])

lemma begin_sent: "send_amqp_begin st = Some (amqp_emit (amqp_sent begin_packet [] (am_channel st)) st)"
  using amqp_fire_frame [OF begin_packet_ok, of "[]"]
  by (simp add: send_amqp_begin_def begin_packet_def client_header_packet)

lemma length_symbols:
  "list_all (\<lambda>v. length v \<le> n) vs \<Longrightarrow> length (concat (map (\<lambda>v. of_nat (length v) # v :: byte list) vs)) \<le> (n + 1) * length vs"
  by (induction vs) simp_all

subsection \<open>The properties of the session\<close>

text \<open>
  C26: the handshake. The mechanisms of the server are answered with the first of them and the account's user name and
  password; an outcome of 0 with the protocol header; the server's header with an OPEN under the account's client id;
  its OPEN stops the connect timer, empties the tables, starts the pings and is answered with a BEGIN; and its BEGIN
  tells the application that it is connected.
\<close>

theorem amqp_handshake:
  assumes "am_account st = Ref acc" "acc_username acc = Ref u" "acc_password acc = Ref pw" "acc_client_id acc = Ref cid"
    and "0 \<le> acc_keep_alive acc" "acc_keep_alive acc < 2000000" "2 * length u + length pw \<le> 200" "length cid \<le> 200"
    and "cstr_ok mech" "length mech \<le> 40" "length mechs < 255" "list_all (\<lambda>m. length m < 256) mechs"
    and "packet_ok (AOpen po)" "packet_ok (ABegin pb)" "am_connecter st \<noteq> NotStarted" "am_listener st"
    and "\<not> am_exited st"
  shows "process_amqp_rx ok (amqp_frame 2 1 0 (amqp_bytes Suc (VDescribed MECHANISMS (VList [VSymbols (mech # mechs)])))) st =
      Some (amqp_emit (AmqpSend (map Some (amqp_frame 2 1 0 (packet_body (AInit
        \<lparr>ini_mechanism = Ref mech, ini_response = Ref (sasl_response u pw),
         ini_response_length = Some (int (length (sasl_response u pw))), ini_host_name = Null\<rparr>))))) st) \<and>
    process_amqp_rx ok (amqp_frame 2 1 0 (amqp_bytes Suc (VDescribed OUTCOME (VList [VUbyte c])))) st =
      Some (if c = 0 then amqp_emit (AmqpSend (map Some (proto_bytes 0))) st else st) \<and>
    process_amqp_rx ok (proto_bytes 0) st = Some (amqp_emit (amqp_sent (AOpen
      \<lparr>open_container_id = Ref cid, open_hostname = Null, open_max_frame_size = Null, open_channel_max = Null,
       open_idle_timeout = Ref (acc_keep_alive acc * 1000)\<rparr>) [] 0) (st\<lparr>am_channel := 0\<rparr>)) \<and>
    process_amqp_rx True (peer_frame (AOpen po) [] 0) st = Some (amqp_emit (amqp_sent begin_packet [] (am_channel st))
      (st\<lparr>am_connecter := Cancelled, am_handler := map_init, am_delivery := map_init, am_incoming := map_init,
          am_outgoing := map_init, am_topics := map_init, am_delay := of_int (acc_keep_alive acc),
          am_pinger := Running\<rparr>)) \<and>
    process_amqp_rx ok (peer_frame (ABegin pb) [] 0) st = Some (amqp_emit AmqpConnected st)"
proof -
  have "list_all (\<lambda>v. length v \<le> 255) mechs" using assms(12) by (auto simp: list_all_iff)
  from length_symbols [OF this] assms(10,11)
  have "length mech + length (concat (map (\<lambda>v. of_nat (length v) # v :: byte list) mechs)) < 1073741813" by simp
  then have "process_amqp_rx ok (amqp_frame 2 1 0 (amqp_bytes Suc (VDescribed MECHANISMS (VList [VSymbols (mech # mechs)])))) st =
      send_amqp_sasl_init \<lparr>hdr_code = Some MECHANISMS, hdr_doff = Some 2, hdr_type = Some 1, hdr_channel = Some 0,
        hdr_packet = Ref (AMechanisms (Ref (cstr_of mech)))\<rparr> st"
    using process_value [OF _ described_code _ mechanisms_read, of mech mechs Suc 1 ok st] assms(10-12)
    by (simp add: amqp_handle_header_def fits_def list_all_iff)
  then have mechanisms: "process_amqp_rx ok (amqp_frame 2 1 0 (amqp_bytes Suc (VDescribed MECHANISMS (VList [VSymbols (mech # mechs)])))) st =
      Some (amqp_emit (AmqpSend (map Some (amqp_frame 2 1 0 (packet_body (AInit
        \<lparr>ini_mechanism = Ref mech, ini_response = Ref (sasl_response u pw),
         ini_response_length = Some (int (length (sasl_response u pw))), ini_host_name = Null\<rparr>))))) st)"
    using sasl_reply [OF assms(1-3,10,7) refl refl] assms(9) by (simp del: packet_body.simps)
  have "process_amqp_rx ok (amqp_frame 2 1 0 (amqp_bytes Suc (VDescribed OUTCOME (VList [VUbyte c])))) st =
      amqp_handle_outcome \<lparr>hdr_code = Some OUTCOME, hdr_doff = Some 2, hdr_type = Some 1, hdr_channel = Some 0,
        hdr_packet = Ref (AOutcome \<lparr>out_code = Some (uint c), out_additional_data = Wild\<rparr>)\<rparr> st"
    using process_value [OF _ described_code _ outcome_read, of c Suc 1 ok st]
    by (simp add: amqp_handle_header_def fits_def)
  then have outcome: "process_amqp_rx ok (amqp_frame 2 1 0 (amqp_bytes Suc (VDescribed OUTCOME (VList [VUbyte c])))) st =
      Some (if c = 0 then amqp_emit (AmqpSend (map Some (proto_bytes 0))) st else st)"
    using proto_sent [of 0] by (simp add: amqp_handle_outcome_def as_outcome_def uint_0_iff)
  have opened: "process_amqp_rx True (peer_frame (AOpen po) [] 0) st = amqp_handle_open True st"
    using process_peer_frame [OF assms(13), of "[]" 0 True st] by (simp add: amqp_handle_header_def)
  have "process_amqp_rx ok (peer_frame (ABegin pb) [] 0) st = Some (amqp_emit AmqpConnected st)"
    using process_peer_frame [OF assms(14), of "[]" 0 ok st] assms(16) by (simp add: amqp_handle_header_def)
  then show ?thesis
    using mechanisms outcome opened proto_received [of ok st] open_sent [OF _ assms(4,8,5,6) refl] assms(1,15,17)
    by (simp add: amqp_handle_open_def amqp_stop_connect_timer_def pthread_cancel_def start_amqp_ping_timer_def
        begin_sent del: packet_body.simps amqp_bytes.simps)
qed

theorem amqp_handshake_witness:
  "process_amqp_rx True (peer_frame begin_packet [] 0) (sample_amqp\<lparr>am_connecter := Running\<rparr>) =
      Some (amqp_emit AmqpConnected (sample_amqp\<lparr>am_connecter := Running\<rparr>)) \<and>
    process_amqp_rx True (proto_bytes 0) (sample_amqp\<lparr>am_connecter := Running\<rparr>) = Some (amqp_emit (amqp_sent (AOpen
      \<lparr>open_container_id = Ref [0x63], open_hostname = Null, open_max_frame_size = Null, open_channel_max = Null,
       open_idle_timeout = Ref 60000\<rparr>) [] 0) (sample_amqp\<lparr>am_connecter := Running, am_channel := 0\<rparr>))"
  using amqp_handshake [of "sample_amqp\<lparr>am_connecter := Running\<rparr>" sample_account "[]" "[]" "[0x63]" "[0x50]" "[]" _ _ True 0,
      OF _ _ _ _ _ _ _ _ _ _ _ _ open_packet_ok [of "[]" 0] begin_packet_ok [unfolded begin_packet_def]]
  by (simp add: sample_account_def begin_packet_def cstr_ok_def)

lemma amqp_frames_processed:
  assumes "\<forall>f \<in> set fs. amqp_sized f" "fs \<noteq> []"
  shows "amqp_data_received ok (concat fs @ rest) (int (length (concat fs))) st = do {
    st' \<leftarrow> amqp_process_all ok fs st;
    if am_exited st' \<or> 4 \<le> length rest then Some st' else None
  }"
proof -
  obtain f gs where fs: "fs = f # gs" using assms(2) by (cases fs) auto
  then have f: "amqp_sized f" using assms(1) by simp
  have "get_int (concat fs @ rest) 0 = Some (of_nat (length f))"
    using get_int_prefix(1) [of f "[]" "concat gs @ rest"] f by (simp add: fs amqp_sized_def)
  moreover have "sint (of_nat (length f) :: u32) = int (length f)" "(of_nat (length f) :: u32) \<noteq> 0x414D5150"
    using small_word f by (simp_all add: amqp_sized_def)
  ultimately have "amqp_data_received ok (concat fs @ rest) (int (length (concat fs))) st =
      amqp_frames ok (concat fs @ rest) (int (length (concat fs))) 0 (int (length f)) st"
    by (simp add: amqp_data_received_def)
  also have "\<dots> = do {
    st' \<leftarrow> amqp_process_all ok fs st;
    if am_exited st' \<or> 4 \<le> length rest then Some st' else None
  }"
    unfolding fs by (rule amqp_frames_ok [where pre = "[]"]) (use assms fs in simp_all)
  finally show ?thesis .
qed

text \<open>
  C31: the frames of a read are processed in their order, each with the state the one before it left, until one ends the
  process. After the last one the client still reads the length of a next one: with fewer than four bytes behind it in
  the buffer the read is undefined.
\<close>

theorem amqp_frames_in_order:
  assumes "\<forall>f \<in> set fs. amqp_sized f" "fs \<noteq> []"
  shows "amqp_data_received ok (concat fs @ rest) (int (length (concat fs))) st = do {
    st' \<leftarrow> amqp_process_all ok fs st;
    if am_exited st' \<or> 4 \<le> length rest then Some st' else None
  }"
  using assms by (rule amqp_frames_processed)

lemma amqp_frame_sized: "length body < 2 ^ 30 - 8 \<Longrightarrow> amqp_sized (amqp_frame doff type channel body)"
  using frame_parts(1,5) [of doff type channel body] by (simp add: amqp_sized_def)

theorem amqp_frames_in_order_witness:
  "amqp_data_received True (peer_frame begin_packet [] 0 @ peer_frame begin_packet [] 0)
      (2 * int (length (peer_frame begin_packet [] 0))) sample_amqp = None"
proof -
  have "amqp_sized (peer_frame begin_packet [] 0)"
    unfolding peer_frame_def using packet_body_small [OF begin_packet_ok] length_packet_bytes [of begin_packet]
    by (intro amqp_frame_sized) simp
  moreover have "process_amqp_rx True (peer_frame begin_packet [] 0) st = Some (amqp_emit AmqpConnected st)"
    if "am_listener st" for st
    using process_peer_frame [OF begin_packet_ok, of "[]" 0 True st] that
    by (simp add: amqp_handle_header_def begin_packet_def)
  ultimately show ?thesis
    using amqp_frames_in_order [of "[peer_frame begin_packet [] 0, peer_frame begin_packet [] 0]" True "[]" sample_amqp]
    by simp
qed

text \<open>
  What the client does with a frame it refuses. A frame whose length field is not its length or whose type is
  neither AMQP's nor SASL's is decoded to no header, and an empty frame, the heartbeat, to a header without a code: the
  client uses the one and the other all the same, which is undefined.
\<close>

theorem amqp_bad_frame_undefined:
  assumes "n \<noteq> 0x414D5150"
    and "sint n \<noteq> 8 + int (length body) \<or> type \<noteq> 0 \<and> type \<noteq> 1 \<or> n = 8 \<and> doff = 2 \<and> ch = 0"
  shows "process_amqp_rx ok (int_bytes n @ [doff, type] @ short_bytes ch @ body) st = None"
proof -
  define data where "data = int_bytes n @ [doff, type] @ short_bytes ch @ body"
  have parts: "get_int data 0 = Some n" "get_short data 6 = Some ch" "rd data 4 = Some doff" "rd data 5 = Some type"
    "length data = 8 + length body"
    using get_short_shift [of 0 "int_bytes n @ [doff, type]" "short_bytes ch @ body"] get_short_here
    unfolding data_def by (simp_all add: get_int_bytes) (simp_all add: int_bytes_def cmem)
  have "amqp_decode data = Some Null \<or> (\<exists>h. amqp_decode data = Some (Ref h) \<and> hdr_code h = None)"
  proof (cases "n = 8 \<and> doff = 2 \<and> (type = 0 \<or> type = 1) \<and> ch = 0")
    case True
    then show ?thesis using parts by (simp add: amqp_decode_def)
  next
    case False
    moreover from this have "sint n \<noteq> int (length body) + 8 \<or> type \<noteq> 0 \<and> type \<noteq> 1"
      using assms(2) by (auto simp: add.commute)
    ultimately show ?thesis using parts assms(1) by (auto simp: amqp_decode_def)
  qed
  then show ?thesis unfolding data_def [symmetric] by (auto simp: process_amqp_rx_def)
qed

theorem amqp_bad_frame_undefined_witness: "process_amqp_rx True [0, 0, 0, 8, 2, 0, 0, 0] sample_amqp = None"
  using amqp_bad_frame_undefined [of 8 "[]" 0 2 0 True sample_amqp]
  by (simp add: int_bytes_def short_bytes_def)

end
