(* ===== verification/Base64.thy ===== *)
theory Base64
  imports Clib
begin

text \<open>
  The Base64 coder of src/src/ws/base64_parser.c, with the bounds of the buffers it allocates, and the encoding of
  RFC 4648 it is compared with.
\<close>

subsection \<open>The tables\<close>

definition encoding_table :: "byte list" where
  "encoding_table = map of_char ''ABCDEFGHIJKLMNOPQRSTUVWXYZabcdefghijklmnopqrstuvwxyz0123456789+/''"

definition mod_table :: "nat list" where "mod_table = [0, 2, 1]"

abbreviation pad_char :: byte where "pad_char \<equiv> 0x3D"

text \<open>The table comes from \<open>malloc\<close>: the entries that are not set are indeterminate.\<close>

definition build_decoding_table :: "u32 option list" where
  "build_decoding_table =
     foldl (\<lambda>t i. t[unat (encoding_table ! i) := Some (of_nat i)]) (replicate 256 None) [0..<64]"

subsection \<open>The encoder\<close>

text \<open>\<open>i < input_length ? data[i++] : 0\<close>, with the data that is left.\<close>

fun next_octet :: "byte list \<Rightarrow> u32 \<times> byte list" where
  "next_octet [] = (0, [])"
| "next_octet (b # bs) = (ucast b, bs)"

definition octets :: "u32 \<Rightarrow> u32 \<Rightarrow> u32 \<Rightarrow> u32" where
  "octets a b c = push_bit 16 a + push_bit 8 b + c"

definition sextet_char :: "nat \<Rightarrow> u32 \<Rightarrow> byte" where
  "sextet_char k triple = encoding_table ! unat (drop_bit (k * 6) triple AND 0x3F)"

lemma length_next_octet: "length (snd (next_octet bs)) = length bs - 1"
  by (cases bs) simp_all

function encode_loop :: "byte list \<Rightarrow> wbuf \<Rightarrow> wbuf option" where
  "encode_loop data w =
     (if data = [] then Some w
      else let (octet_a, d1) = next_octet data;
               (octet_b, d2) = next_octet d1;
               (octet_c, d3) = next_octet d2;
               triple = octets octet_a octet_b octet_c in do {
        w \<leftarrow> put [sextet_char 3 triple] w;
        w \<leftarrow> put [sextet_char 2 triple] w;
        w \<leftarrow> put [sextet_char 1 triple] w;
        w \<leftarrow> put [sextet_char 0 triple] w;
        encode_loop d3 w
      })"
  by pat_completeness auto
termination
proof (relation "measure (\<lambda>(data, w). length data)")
  fix data d1 d2 d3 :: "byte list" and x y z a b c w1
  assume "data \<noteq> []" "x = next_octet data" "(a, d1) = x" "y = next_octet d1" "(b, d2) = y"
    "z = next_octet d2" "(c, d3) = z"
  then have "d1 = snd (next_octet data)" "d2 = snd (next_octet d1)" "d3 = snd (next_octet d2)"
    by (metis snd_conv)+
  then show "((d3, w1), data, w) \<in> measure (\<lambda>(data, w). length data)" for w1 w :: wbuf
    using \<open>data \<noteq> []\<close> by (simp add: length_next_octet)
qed simp

declare encode_loop.simps [simp del]

fun pad_loop :: "nat \<Rightarrow> nat \<Rightarrow> mem \<Rightarrow> mem option" where
  "pad_loop 0 output_length m = Some m"
| "pad_loop (Suc i) output_length m = do {
     m \<leftarrow> pad_loop i output_length m;
     c_assert (i < output_length);
     wr_at (output_length - 1 - i) [pad_char] m
   }"

definition base64_encode :: "byte list \<Rightarrow> (mem \<times> nat) option" where
  "base64_encode data =
     (let input_length = length data; output_length = 4 * ((input_length + 2) div 3) in do {
        w \<leftarrow> encode_loop data (c_malloc output_length, 0);
        m \<leftarrow> pad_loop (mod_table ! (input_length mod 3)) output_length (fst w);
        Some (m, output_length)
      })"

subsection \<open>The decoder\<close>

definition sextet :: "byte \<Rightarrow> u32 option" where
  "sextet c = (if c = pad_char then Some 0 else build_decoding_table ! unat c)"

definition put_below :: "nat \<Rightarrow> u32 \<Rightarrow> wbuf \<Rightarrow> wbuf option" where
  "put_below output_length v w = (if snd w < output_length then put [ucast v] w else Some w)"

text \<open>A group that is not complete would end at the string's zero, which has no entry in the table.\<close>

fun decode_loop :: "byte list \<Rightarrow> nat \<Rightarrow> wbuf \<Rightarrow> wbuf option" where
  "decode_loop [] output_length w = Some w"
| "decode_loop (a # b # c # d # data) output_length w = do {
     sextet_a \<leftarrow> sextet a;
     sextet_b \<leftarrow> sextet b;
     sextet_c \<leftarrow> sextet c;
     sextet_d \<leftarrow> sextet d;
     let triple = push_bit 18 sextet_a + push_bit 12 sextet_b + push_bit 6 sextet_c + sextet_d;
     w \<leftarrow> put_below output_length (drop_bit 16 triple AND 0xFF) w;
     w \<leftarrow> put_below output_length (drop_bit 8 triple AND 0xFF) w;
     w \<leftarrow> put_below output_length (triple AND 0xFF) w;
     decode_loop data output_length w
   }"
| "decode_loop _ output_length w = None"

text \<open>
  The result and \<open>*output_length\<close>, which the return of NULL leaves unset. The last two characters are read before
  anything else, of an empty string in front of it.
\<close>

definition base64_decode :: "byte list \<Rightarrow> (mem ptr \<times> nat option) option" where
  "base64_decode data =
     (let input_length = length data in
      if input_length mod 4 \<noteq> 0 then Some (Null, None)
      else do {
        c1 \<leftarrow> rd data (int input_length - 1);
        c2 \<leftarrow> rd data (int input_length - 2);
        let output_length = input_length div 4 * 3 - (if c1 = pad_char then 1 else 0) - (if c2 = pad_char then 1 else 0);
        w \<leftarrow> decode_loop data output_length (c_malloc (output_length + 1), 0);
        Some (Ref (fst w), Some output_length)
      })"

subsection \<open>The encoding of RFC 4648\<close>

text \<open>
  The bits of the data, most significant first, in groups of six, the last one filled with zeros, each a character of
  the alphabet; and padding up to a multiple of four characters.
\<close>

definition octet_bits :: "byte \<Rightarrow> bool list" where
  "octet_bits b = map (bit b) (rev [0..<8])"

definition bits_char :: "bool list \<Rightarrow> byte" where
  "bits_char bs = encoding_table ! unat (horner_sum of_bool 2 (rev (bs @ replicate (6 - length bs) False)) :: u32)"

fun bits_chars :: "bool list \<Rightarrow> byte list" where
  "bits_chars bs = (if bs = [] then [] else bits_char (take 6 bs) # bits_chars (drop 6 bs))"

declare bits_chars.simps [simp del]

definition rfc4648 :: "byte list \<Rightarrow> byte list" where
  "rfc4648 data =
     (let cs = bits_chars (concat (map octet_bits data)) in cs @ replicate ((4 - length cs mod 4) mod 4) pad_char)"

subsection \<open>The groups of the encoding\<close>

text \<open>What both the encoder and the specification do with three octets at a time.\<close>

fun b64 :: "byte list \<Rightarrow> byte list" where
  "b64 [] = []"
| "b64 [x] = (let t = octets (ucast x) 0 0 in [sextet_char 3 t, sextet_char 2 t, pad_char, pad_char])"
| "b64 [x, y] = (let t = octets (ucast x) (ucast y) 0 in
     [sextet_char 3 t, sextet_char 2 t, sextet_char 1 t, pad_char])"
| "b64 (x # y # z # data) = (let t = octets (ucast x) (ucast y) (ucast z) in
     [sextet_char 3 t, sextet_char 2 t, sextet_char 1 t, sextet_char 0 t] @ b64 data)"

lemma octets_or:
  "octets (ucast (x :: byte)) (ucast (y :: byte)) (ucast (z :: byte)) =
   push_bit 16 (ucast x) OR push_bit 8 (ucast y) OR ucast z"
proof -
  have "push_bit 16 (ucast x) + push_bit 8 (ucast y) = (push_bit 16 (ucast x) OR push_bit 8 (ucast y) :: u32)"
    by (rule disjunctive_add) (auto simp: bit_simps dest!: bit_imp_le_length)
  moreover have "(push_bit 16 (ucast x) OR push_bit 8 (ucast y)) + ucast z =
      ((push_bit 16 (ucast x) OR push_bit 8 (ucast y)) OR ucast z :: u32)"
    by (rule disjunctive_add) (auto simp: bit_simps dest!: bit_imp_le_length)
  ultimately show ?thesis by (simp add: octets_def or.assoc)
qed

lemma list_by_three:
  assumes "P []" "\<And>x. P [x]" "\<And>x y. P [x, y]" "\<And>x y z data. P data \<Longrightarrow> P (x # y # z # data)"
  shows "P (data :: byte list)"
  using assms by (induction data rule: b64.induct) simp_all

lemma three_more: "4 * ((Suc (Suc (Suc n)) + 2) div 3) = 4 + 4 * ((n + 2) div 3)"
  using div_add_self2 [of 3 "n + 2"] by simp

text \<open>The encoder without its padding.\<close>

fun b64_raw :: "byte list \<Rightarrow> byte list" where
  "b64_raw [] = []"
| "b64_raw [x] = (let t = octets (ucast x) 0 0 in [sextet_char 3 t, sextet_char 2 t, sextet_char 1 t, sextet_char 0 t])"
| "b64_raw [x, y] = (let t = octets (ucast x) (ucast y) 0 in
     [sextet_char 3 t, sextet_char 2 t, sextet_char 1 t, sextet_char 0 t])"
| "b64_raw (x # y # z # data) = (let t = octets (ucast x) (ucast y) (ucast z) in
     [sextet_char 3 t, sextet_char 2 t, sextet_char 1 t, sextet_char 0 t] @ b64_raw data)"

lemma length_b64_raw: "length (b64_raw data) = 4 * ((length data + 2) div 3)"
proof (induction data rule: list_by_three)
  case (4 x y z data)
  then show ?case using three_more [of "length data"] by (simp add: Let_def)
qed (simp_all add: Let_def)

lemma encode_loop_Nil [simp]: "encode_loop [] w = Some w" "Option.bind m (encode_loop []) = m"
proof -
  show "encode_loop [] w = Some w" for w by (simp add: encode_loop.simps)
  then show "Option.bind m (encode_loop []) = m" by (cases m) simp_all
qed

lemma encode_loop_raw: "encode_loop data (wstate out k) = put (b64_raw data) (wstate out k)"
proof (induction data arbitrary: out k rule: list_by_three)
  case 1
  then show ?case by simp
next
  case (2 x)
  then show ?case by (subst encode_loop.simps) (simp add: Let_def)
next
  case (3 x y)
  then show ?case by (subst encode_loop.simps) (simp add: Let_def)
next
  case (4 x y z data)
  have "Option.bind (put bs (wstate out k)) (encode_loop data) = put (bs @ b64_raw data) (wstate out k)" for bs
    using 4 by (auto simp: put_wstate)
  then show ?case by (subst encode_loop.simps) (simp add: Let_def)
qed

definition pads :: "byte list \<Rightarrow> nat" where "pads data = mod_table ! (length data mod 3)"

lemma pads_three: "pads (x # y # z # data) = pads data"
proof -
  have "length (x # y # z # data) mod 3 = length data mod 3" using mod_add_self2 [of "length data" 3] by simp
  then show ?thesis by (simp add: pads_def)
qed

lemma pads_few [simp]: "pads [] = 0" "pads [x] = 2" "pads [x, y] = 1"
  by (simp_all add: pads_def mod_table_def)

lemma pads_le: "pads data \<le> length (b64_raw data)"
  by (induction data rule: list_by_three) (simp_all add: pads_three Let_def)

lemma b64_padded: "b64 data = take (length (b64_raw data) - pads data) (b64_raw data) @ replicate (pads data) pad_char"
proof (induction data rule: list_by_three)
  case (4 x y z data)
  then show ?case using pads_le [of data] by (simp add: Let_def pads_three take_Cons')
qed (simp_all add: Let_def eval_nat_numeral)

lemma pad_loop_ok:
  "k \<le> length m \<Longrightarrow> pad_loop k (length m) m = Some (take (length m - k) m @ replicate k (Some pad_char))"
proof (induction k)
  case (Suc k)
  then have "take (length m - 1 - k) (take (length m - k) m) = take (length m - Suc k) m"
    by (simp add: min_def)
  then show ?case using Suc by (simp add: wr_at_def Suc_diff_Suc)
qed simp

lemma base64_encode_b64: "base64_encode data = Some (map Some (b64 data), length (b64 data))"
proof -
  let ?n = "length (b64_raw data)"
  have "encode_loop data (c_malloc ?n, 0) = Some (wstate (b64_raw data) 0)"
    by (simp add: wstate_malloc encode_loop_raw put_wstate)
  moreover have "pad_loop (pads data) ?n (map Some (b64_raw data)) = Some (map Some (b64 data))"
    using pad_loop_ok [of "pads data" "map Some (b64_raw data)"] pads_le [of data] b64_padded [of data]
    by (simp add: take_map)
  moreover have "length (b64 data) = ?n"
    using b64_padded [of data] pads_le [of data] by simp
  ultimately show ?thesis
    unfolding base64_encode_def Let_def length_b64_raw [symmetric] by (simp add: pads_def wstate_def)
qed

subsection \<open>The encoder and the specification\<close>

lemma bit_octets:
  "bit (octets (ucast (x :: byte)) (ucast (y :: byte)) (ucast (z :: byte))) n \<longleftrightarrow>
    (if n < 8 then bit z n else if n < 16 then bit y (n - 8) else n < 24 \<and> bit x (n - 16))"
  unfolding octets_or by (auto simp: bit_simps dest: bit_imp_le_length)

lemma octet_bits_list:
  "octet_bits b = [bit b 7, bit b 6, bit b 5, bit b 4, bit b 3, bit b 2, bit b 1, bit b 0]"
  by (simp add: octet_bits_def upt_rec eval_nat_numeral)

lemma bits_char_sextet:
  assumes "length bs = 6" "\<And>n. n < 6 \<Longrightarrow> rev bs ! n = bit t (k * 6 + n)"
  shows "bits_char bs = sextet_char k t"
proof -
  have "(horner_sum of_bool 2 (rev bs) :: u32) = drop_bit (k * 6) t AND 0x3F"
  proof (rule bit_word_eqI)
    fix n assume n: "n < LENGTH(32)"
    have mask: "(0x3F :: u32) = mask 6" by (simp add: mask_eq_exp_minus_1)
    have "bit (drop_bit (k * 6) t AND 0x3F) n \<longleftrightarrow> n < 6 \<and> bit t (k * 6 + n)"
      unfolding mask using n by (auto simp: bit_simps)
    then show "bit (horner_sum of_bool 2 (rev bs) :: u32) n = bit (drop_bit (k * 6) t AND 0x3F) n"
      using assms n by (auto simp: bit_simps)
  qed
  then show ?thesis using assms(1) by (simp add: bits_char_def sextet_char_def)
qed

lemma sextet_bits:
  "bits_char [bit t (k * 6 + 5), bit t (k * 6 + 4), bit t (k * 6 + 3), bit t (k * 6 + 2), bit t (k * 6 + 1), bit t (k * 6)] =
   sextet_char k t"
  by (rule bits_char_sextet) (auto simp: less_Suc_eq eval_nat_numeral)

lemma bits_char_fill:
  "bits_char [a, b] = bits_char [a, b, False, False, False, False]"
  "bits_char [a, b, c, d] = bits_char [a, b, c, d, False, False]"
  by (simp_all add: bits_char_def eval_nat_numeral)

lemma bits_chars_six:
  "bits_chars (a # b # c # d # e # f # bs) = bits_char [a, b, c, d, e, f] # bits_chars bs"
  by (subst bits_chars.simps) simp

lemma bits_chars_few: "bs \<noteq> [] \<Longrightarrow> length bs \<le> 6 \<Longrightarrow> bits_chars bs = [bits_char bs]"
  by (subst bits_chars.simps) (simp add: bits_chars.simps)

lemma rfc_chars:
  "bits_chars (concat (map octet_bits data)) = take (length (b64 data) - pads data) (b64 data)"
proof (induction data rule: list_by_three)
  case 1
  then show ?case by (simp add: bits_chars.simps)
next
  case (2 x)
  define t where "t = octets (ucast x) 0 0"
  have bits: "bit t n \<longleftrightarrow> 16 \<le> n \<and> n < 24 \<and> bit x (n - 16)" for n
    using bit_octets [of x 0 0 n] by (auto simp: t_def)
  have "bits_char [bit x 7, bit x 6, bit x 5, bit x 4, bit x 3, bit x 2] = sextet_char 3 t"
    "bits_char [bit x 1, bit x 0, False, False, False, False] = sextet_char 2 t"
    using sextet_bits [of t 3] sextet_bits [of t 2] by (simp_all add: bits)
  then show ?case
    using bits_char_fill(1) [of "bit x 1" "bit x 0"]
    by (simp add: octet_bits_list bits_chars_six bits_chars_few t_def Let_def)
next
  case (3 x y)
  define t where "t = octets (ucast x) (ucast y) 0"
  have bits: "bit t n \<longleftrightarrow> (if n < 8 then False else if n < 16 then bit y (n - 8) else n < 24 \<and> bit x (n - 16))" for n
    using bit_octets [of x y 0 n] by (auto simp: t_def)
  have "bits_char [bit x 7, bit x 6, bit x 5, bit x 4, bit x 3, bit x 2] = sextet_char 3 t"
    "bits_char [bit x 1, bit x 0, bit y 7, bit y 6, bit y 5, bit y 4] = sextet_char 2 t"
    "bits_char [bit y 3, bit y 2, bit y 1, bit y 0, False, False] = sextet_char 1 t"
    using sextet_bits [of t 3] sextet_bits [of t 2] sextet_bits [of t 1] by (simp_all add: bits)
  then show ?case
    using bits_char_fill(2) [of "bit y 3" "bit y 2" "bit y 1" "bit y 0"]
    by (simp add: octet_bits_list bits_chars_six bits_chars_few t_def Let_def)
next
  case (4 x y z data)
  define t where "t = octets (ucast x) (ucast y) (ucast z)"
  have "bits_char [bit x 7, bit x 6, bit x 5, bit x 4, bit x 3, bit x 2] = sextet_char 3 t"
    "bits_char [bit x 1, bit x 0, bit y 7, bit y 6, bit y 5, bit y 4] = sextet_char 2 t"
    "bits_char [bit y 3, bit y 2, bit y 1, bit y 0, bit z 7, bit z 6] = sextet_char 1 t"
    "bits_char [bit z 5, bit z 4, bit z 3, bit z 2, bit z 1, bit z 0] = sextet_char 0 t"
    using sextet_bits [of t 3] sextet_bits [of t 2] sextet_bits [of t 1] sextet_bits [of t 0, unfolded mult_0 add_0]
    unfolding t_def by (simp_all add: bit_octets)
  then have "bits_chars (octet_bits x @ octet_bits y @ octet_bits z @ rest) =
      [sextet_char 3 t, sextet_char 2 t, sextet_char 1 t, sextet_char 0 t] @ bits_chars rest" for rest
    unfolding octet_bits_list append.simps bits_chars_six by (simp only: append.simps)
  moreover have "pads data \<le> length (b64 data)"
    using pads_le [of data] b64_padded [of data] by (metis le_add2 length_append length_replicate)
  ultimately show ?case
    using 4 by (simp add: t_def Let_def pads_three Suc_diff_le)
qed

lemma length_b64: "length (b64 data) = 4 * ((length data + 2) div 3)"
  using b64_padded [of data] pads_le [of data] length_b64_raw [of data] by simp

lemma pads_length: "pads data < 4" "data = [] \<Longrightarrow> pads data = 0"
proof -
  have "length data mod 3 < 3" by simp
  then consider "length data mod 3 = 0" | "length data mod 3 = 1" | "length data mod 3 = 2" by linarith
  then show "pads data < 4" by cases (simp_all add: pads_def mod_table_def)
qed simp

lemma pads_mod:
  assumes "(n :: nat) mod 4 = 0" "p \<le> n" "p < 4"
  shows "(4 - (n - p) mod 4) mod 4 = p"
proof (cases "p = 0")
  case False
  obtain m where m: "n = 4 * m" using assms(1) by (metis mod_0_imp_dvd dvdE)
  then obtain k where "m = Suc k" using False assms(2) by (cases m) auto
  then have "n - p = 4 - p + 4 * k" using m assms(3) by simp
  then have "(n - p) mod 4 = 4 - p" using False by simp
  then show ?thesis using assms(3) by simp
qed (use assms in simp)

lemma rfc4648_b64: "rfc4648 data = b64 data"
proof -
  define n where "n = length (b64 data)"
  have raw: "length (b64_raw data) = n" by (simp add: n_def length_b64 length_b64_raw)
  then have pads: "pads data \<le> n" using pads_le [of data] by simp
  have "(4 - (n - pads data) mod 4) mod 4 = pads data"
    using pads pads_length(1) [of data] by (intro pads_mod) (simp_all add: n_def length_b64)
  moreover have parts: "b64 data = take (n - pads data) (b64_raw data) @ replicate (pads data) pad_char"
    using b64_padded [of data] unfolding raw .
  moreover have "take (n - pads data) (b64 data) = take (n - pads data) (b64_raw data)"
    using arg_cong [OF parts, of "take (n - pads data)"] raw pads by simp
  ultimately show ?thesis using pads raw by (simp add: rfc4648_def rfc_chars Let_def n_def [symmetric])
qed

subsection \<open>The decoder on what the encoder writes\<close>

lemma encoding_table_simps: "length encoding_table = 64" "distinct encoding_table"
    "\<forall>c \<in> set encoding_table. c \<noteq> 0 \<and> c < 128 \<and> c \<noteq> pad_char"
  by (simp_all add: encoding_table_def)

lemma foldl_updates:
  assumes "distinct (map p is)" "i \<in> set is" "\<forall>i \<in> set is. p i < length t"
  shows "foldl (\<lambda>t i. t[p i := f i]) t is ! p i = f i"
  using assms
proof (induction "is" rule: rev_induct)
  case (snoc k ks)
  have "length (foldl (\<lambda>t i. t[p i := f i]) t ks) = length t" by (induction ks rule: rev_induct) simp_all
  then show ?case using snoc by (cases "i = k") (auto simp: nth_list_update)
qed simp

lemma decoding_table_inverse:
  assumes "i < 64"
  shows "build_decoding_table ! unat (encoding_table ! i) = Some (of_nat i)"
proof -
  have "map (\<lambda>i. unat (encoding_table ! i)) [0..<64] = map unat encoding_table"
    using encoding_table_simps(1) by (intro nth_equalityI) simp_all
  then have "distinct (map (\<lambda>i. unat (encoding_table ! i)) [0..<64])"
    using encoding_table_simps(2) by (simp add: distinct_map inj_on_def word_unat_eq_iff)
  moreover have "unat (b :: byte) < 256" for b by (rule order.strict_trans2 [OF unsigned_less]) simp
  ultimately show ?thesis
    unfolding build_decoding_table_def using assms by (intro foldl_updates) simp_all
qed

lemma sextet_index_less: "unat (v AND 0x3F :: u32) < 64"
  using word_and_le1 [of v "0x3F"] by (simp add: word_le_nat_alt)

text \<open>The encoding is a string of characters other than zero, as a C string has to be.\<close>

lemma sextet_char_ascii: "sextet_char k t \<noteq> 0 \<and> sextet_char k t < 128 \<and> sextet_char k t \<noteq> pad_char"
  using encoding_table_simps(1) sextet_index_less [of "drop_bit (k * 6) t"]
  unfolding sextet_char_def by (intro bspec [OF encoding_table_simps(3)] nth_mem) simp

lemma b64_ascii: "c \<in> set (b64 data) \<Longrightarrow> c \<noteq> 0 \<and> c < 128"
  by (induction data rule: list_by_three) (auto simp: Let_def sextet_char_ascii)

lemma sextet_pad [simp]: "sextet pad_char = Some 0"
  by (simp add: sextet_def)

lemma sextet_char_not_pad [simp]: "sextet_char k t \<noteq> pad_char"
  by (simp add: sextet_char_ascii)

lemma sextet_sextet_char [simp]: "sextet (sextet_char k t) = Some (drop_bit (k * 6) t AND 0x3F)"
  using decoding_table_inverse [OF sextet_index_less [of "drop_bit (k * 6) t"]] sextet_char_not_pad [of k t]
  unfolding sextet_def sextet_char_def by simp

text \<open>The octets a group of four sextets is made of.\<close>

definition regroup :: "u32 \<Rightarrow> u32" where
  "regroup t = push_bit 18 (drop_bit 18 t AND 0x3F) + push_bit 12 (drop_bit 12 t AND 0x3F) +
     push_bit 6 (drop_bit 6 t AND 0x3F) + (t AND 0x3F)"

lemma low6: "(0x3F :: u32) = mask 6"
  by (simp add: mask_eq_exp_minus_1)

lemma low8: "(0xFF :: u32) = mask 8"
  by (simp add: mask_eq_exp_minus_1)

lemma regroup_bits: "bit (regroup t) n \<longleftrightarrow> n < 24 \<and> bit t n"
proof -
  let ?a = "push_bit 18 (drop_bit 18 t AND mask 6) :: u32" and ?b = "push_bit 12 (drop_bit 12 t AND mask 6) :: u32"
    and ?c = "push_bit 6 (drop_bit 6 t AND mask 6) :: u32" and ?d = "t AND mask 6 :: u32"
  have "?a + ?b = ?a OR ?b" by (rule disjunctive_add) (auto simp: bit_simps)
  moreover have "(?a OR ?b) + ?c = (?a OR ?b) OR ?c" by (rule disjunctive_add) (auto simp: bit_simps)
  moreover have "((?a OR ?b) OR ?c) + ?d = ((?a OR ?b) OR ?c) OR ?d" by (rule disjunctive_add) (auto simp: bit_simps)
  ultimately have "regroup t = ((?a OR ?b) OR ?c) OR ?d" by (simp add: regroup_def low6)
  moreover have "bit (((?a OR ?b) OR ?c) OR ?d) n \<longleftrightarrow> n < 24 \<and> bit t n"
  proof -
    consider "n < 6" | "6 \<le> n" "n < 12" | "12 \<le> n" "n < 18" | "18 \<le> n" "n < 24" | "24 \<le> n" by linarith
    then show ?thesis by cases (auto simp: bit_simps)
  qed
  ultimately show ?thesis by simp
qed

lemma regroup_octets:
  fixes x y z :: byte
  defines "t \<equiv> octets (ucast x) (ucast y) (ucast z)"
  shows "ucast (drop_bit 16 (regroup t) AND 0xFF) = x" "ucast (drop_bit 8 (regroup t) AND 0xFF) = y"
    "ucast (regroup t AND 0xFF) = z"
  unfolding low8 t_def by (rule bit_word_eqI; auto simp: bit_simps regroup_bits bit_octets)+

text \<open>A sextet behind the data has no bits.\<close>

lemma sextet_behind:
  "drop_bit 0 (octets (ucast (x :: byte)) (ucast (y :: byte)) 0) AND (0x3F :: u32) = 0"
  "drop_bit 6 (octets (ucast (x :: byte)) 0 0) AND (0x3F :: u32) = 0"
  unfolding low6 by (rule bit_word_eqI; use bit_octets [of x y 0] bit_octets [of x 0 0] in \<open>auto simp: bit_simps\<close>)+

lemma put_below_wstate [simp]:
  "put_below n v (wstate out k) = (if length out < n then put [ucast v] (wstate out k) else Some (wstate out k))"
  by (simp add: put_below_def wstate_def)

lemma put_one: "0 < k \<Longrightarrow> put [b] (wstate out k) = Some (wstate (out @ [b]) (k - 1))"
  by (simp add: put_wstate)

lemma decode_loop_b64:
  "length data \<le> k \<Longrightarrow> decode_loop (b64 data) (length out + length data) (wstate out k) =
     Some (wstate (out @ data) (k - length data))"
proof (induction data arbitrary: out k rule: list_by_three)
  case 1
  then show ?case by simp
next
  case (2 x)
  define t where "t = octets (ucast x) 0 0"
  have "push_bit 18 (drop_bit 18 t AND 0x3F) + push_bit 12 (drop_bit 12 t AND 0x3F) = regroup t"
    using sextet_behind(1) [of x 0] sextet_behind(2) [of x] by (simp add: regroup_def t_def)
  moreover have "ucast (drop_bit 16 (regroup t) AND 0xFF) = x"
    using regroup_octets(1) [of x 0 0] by (simp add: t_def)
  ultimately show ?case using 2
    by (simp add: put_one t_def [symmetric] Let_def del: put_below_wstate) (simp add: put_one)
next
  case (3 x y)
  define t where "t = octets (ucast x) (ucast y) 0"
  have "push_bit 18 (drop_bit 18 t AND 0x3F) + push_bit 12 (drop_bit 12 t AND 0x3F) + push_bit 6 (drop_bit 6 t AND 0x3F) =
      regroup t"
    using sextet_behind(1) [of x y] by (simp add: regroup_def t_def)
  moreover have "ucast (drop_bit 16 (regroup t) AND 0xFF) = x" "ucast (drop_bit 8 (regroup t) AND 0xFF) = y"
    using regroup_octets(1,2) [of x y 0] by (simp_all add: t_def)
  ultimately show ?case using 3
    by (simp add: put_one t_def [symmetric] Let_def del: put_below_wstate) (simp add: put_one)
next
  case (4 x y z data)
  define t where "t = octets (ucast x) (ucast y) (ucast z)"
  have "push_bit 18 (drop_bit 18 t AND 0x3F) + push_bit 12 (drop_bit 12 t AND 0x3F) + push_bit 6 (drop_bit 6 t AND 0x3F) +
      (t AND 0x3F) = regroup t"
    by (simp add: regroup_def)
  moreover have "ucast (drop_bit 16 (regroup t) AND 0xFF) = x" "ucast (drop_bit 8 (regroup t) AND 0xFF) = y"
    "ucast (regroup t AND 0xFF) = z"
    using regroup_octets [of x y z] by (simp_all add: t_def)
  moreover have "decode_loop (b64 data) (length out + length (x # y # z # data)) (wstate (out @ [x, y, z]) (k - 3)) =
      Some (wstate (out @ x # y # z # data) (k - length (x # y # z # data)))"
    using "4.IH" [of "k - 3" "out @ [x, y, z]"] "4.prems" by (simp add: eval_nat_numeral)
  ultimately show ?case using "4.prems"
    by (simp add: put_one t_def [symmetric] Let_def del: put_below_wstate) (simp add: put_one eval_nat_numeral)
qed

lemma pads_split: "length data + pads data = length (b64 data) div 4 * 3"
proof (induction data rule: list_by_three)
  case (4 x y z data)
  then show ?case using div_add_self1 [of 4 "length (b64 data)"] by (simp add: pads_three Let_def)
qed (simp_all add: Let_def)

text \<open>The last two characters tell the padding.\<close>

lemma last_two:
  "data \<noteq> [] \<Longrightarrow> \<exists>cs c2 c1. b64 data = cs @ [c2, c1] \<and>
     (if c1 = pad_char then 1 else 0) + (if c2 = pad_char then 1 else 0) = pads data"
proof (induction data rule: list_by_three)
  case (4 x y z data)
  show ?case
  proof (cases "data = []")
    case False
    then obtain cs c2 c1 where "b64 data = cs @ [c2, c1]"
      "(if c1 = pad_char then 1 else 0) + (if c2 = pad_char then 1 else 0) = pads data"
      using 4 by blast
    then show ?thesis
      by (intro exI [of _ "take 4 (b64 (x # y # z # data)) @ cs"] exI [of _ c2] exI [of _ c1])
        (simp add: Let_def pads_three)
  qed (auto simp: Let_def pads_three)
qed (auto simp: Let_def)

lemma base64_decode_b64:
  assumes "data \<noteq> []"
  shows "base64_decode (b64 data) = Some (Ref (map Some data @ [None]), Some (length data))"
proof -
  obtain cs c2 c1 where last: "b64 data = cs @ [c2, c1]"
    "(if c1 = pad_char then 1 else 0) + (if c2 = pad_char then 1 else 0) = pads data"
    using last_two [OF assms] by blast
  have "rd (b64 data) (int (length (b64 data)) - 1) = Some c1" "rd (b64 data) (int (length (b64 data)) - 2) = Some c2"
    by (simp_all add: last(1) rd_def nth_append nat_add_distrib)
  moreover have "length (b64 data) div 4 * 3 - (if c1 = pad_char then 1 else 0) - (if c2 = pad_char then 1 else 0) =
      length data"
    using pads_split [of data] last(2) by linarith
  moreover have "decode_loop (b64 data) (length data) (c_malloc (length data + 1), 0) = Some (wstate data 1)"
    using decode_loop_b64 [of data "length data + 1" "[]"] by (simp add: wstate_malloc del: One_nat_def)
  moreover have "length (b64 data) mod 4 = 0" by (simp add: length_b64)
  ultimately show ?thesis by (simp add: base64_decode_def Let_def wstate_def)
qed

subsection \<open>The properties of the coder\<close>

text \<open>
  C12: the encoder allocates exactly what it writes, and writes the Base64 encoding of RFC 4648, padding included,
  for data of every length.
\<close>

theorem base64_encoder_correct:
  "base64_encode data = Some (map Some (rfc4648 data), length (rfc4648 data))"
  unfolding rfc4648_b64 by (rule base64_encode_b64)

text \<open>
  C13: what the encoder writes the decoder takes back, with one byte more in its buffer that the callers set to zero. The
  encoding of no data is the exception: the decoder reads in front of an empty string. Text whose length is
  not a multiple of four is refused.
\<close>

theorem base64_roundtrip:
  "\<exists>cs. base64_encode data = Some (map Some cs, length cs) \<and>
    base64_decode cs = (if data = [] then None else Some (Ref (map Some data @ [None]), Some (length data))) \<and>
    (length bad mod 4 = 0 \<or> base64_decode bad = Some (Null, None))"
proof -
  have "base64_decode (b64 []) = None" by (simp add: base64_decode_def rd_def)
  then show ?thesis
    using base64_encode_b64 [of data] base64_decode_b64 [of data]
    by (intro exI [of _ "b64 data"]) (auto simp: base64_decode_def Let_def)
qed

end
