(* ===== verification/Jansson.thy ===== *)
theory Jansson
  imports Clib "HOL-Library.AList"
begin

text \<open>
  The interface of the JSON library the WebSocket codec calls. The library is not part of the repository: a value of it
  is of an unknown type \<open>'j\<close>, its functions are a record, and \<open>jansson_laws\<close> is what its documentation says of them. An
  object the code builds is not shared, so that setting a key is a function of the object.
\<close>

subsection \<open>The functions\<close>

record 'j jansson =
  json_object :: 'j
  json_array :: 'j
  json_true :: 'j
  json_false :: 'j
  json_null :: 'j
  json_integer :: "int \<Rightarrow> 'j"
  json_stringn :: "byte list \<Rightarrow> 'j ptr"
  json_object_set_new :: "'j \<Rightarrow> string \<Rightarrow> 'j ptr \<Rightarrow> 'j"
  json_array_append_new :: "'j \<Rightarrow> 'j ptr \<Rightarrow> 'j"
  json_object_get :: "'j ptr \<Rightarrow> string \<Rightarrow> 'j ptr"
  json_integer_value :: "'j ptr \<Rightarrow> int"
  json_string_value :: "'j ptr \<Rightarrow> cstr ptr"
  json_is_true :: "'j \<Rightarrow> bool"
  json_array_size :: "'j ptr \<Rightarrow> nat"
  json_array_get :: "'j ptr \<Rightarrow> nat \<Rightarrow> 'j ptr"
  json_dumps :: "'j \<Rightarrow> cstr ptr"
  json_loads :: "cstr \<Rightarrow> 'j ptr"

text \<open>\<open>json_string\<close> measures its argument, and returns NULL for NULL.\<close>

definition json_string :: "'j jansson \<Rightarrow> cstr ptr \<Rightarrow> 'j ptr option" where
  "json_string J p = (case p of Null \<Rightarrow> Some Null | Wild \<Rightarrow> None | Ref s \<Rightarrow> Some (json_stringn J s))"

text \<open>What \<open>json_true\<close> and \<open>json_false\<close> are chosen by, and what \<open>json_typeof\<close> compares, which follows the pointer.\<close>

definition json_bool :: "'j jansson \<Rightarrow> int \<Rightarrow> 'j" where
  "json_bool J n = (if n \<noteq> 0 then json_true J else json_false J)"

definition json_flag :: "'j jansson \<Rightarrow> 'j ptr \<Rightarrow> int option" where
  "json_flag J p = do { j \<leftarrow> deref p; Some (b2i (json_is_true J j)) }"

subsection \<open>What its documentation says\<close>

text \<open>ASCII text without a zero is valid UTF-8.\<close>

definition ascii_text :: "byte list \<Rightarrow> bool" where
  "ascii_text s \<longleftrightarrow> (\<forall>c \<in> set s. c \<noteq> 0 \<and> c < 128)"

text \<open>
  The values built by the library's functions, by their depth: objects (\<open>True\<close>), arrays and the others. The library
  refuses values that are too deep; those of the codec are at most four deep.
\<close>

datatype json_kind = JsonObject | JsonArray | JsonOther

inductive json_built :: "'j jansson \<Rightarrow> nat \<Rightarrow> json_kind \<Rightarrow> 'j \<Rightarrow> bool" for J where
  object: "json_built J d JsonObject (json_object J)"
| array: "json_built J d JsonArray (json_array J)"
| true: "json_built J d JsonOther (json_true J)"
| false: "json_built J d JsonOther (json_false J)"
| null: "json_built J d JsonOther (json_null J)"
| integer: "- (2 ^ 63) \<le> n \<Longrightarrow> n < 2 ^ 63 \<Longrightarrow> json_built J d JsonOther (json_integer J n)"
| string: "ascii_text s \<Longrightarrow> json_stringn J s = Ref v \<Longrightarrow> json_built J d JsonOther v"
| set: "json_built J (Suc d) JsonObject j \<Longrightarrow> json_built J d kind v \<Longrightarrow> ascii_text (map of_char k) \<Longrightarrow>
    json_built J (Suc d) JsonObject (json_object_set_new J j k (Ref v))"
| append: "json_built J (Suc d) JsonArray j \<Longrightarrow> json_built J d kind v \<Longrightarrow>
    json_built J (Suc d) JsonArray (json_array_append_new J j (Ref v))"

definition jansson_laws :: "'j jansson \<Rightarrow> bool" where
  "jansson_laws J \<longleftrightarrow>
     (\<forall>k. json_object_get J (Ref (json_object J)) k = Null) \<and>
     (\<forall>d j kind v k k'. json_built J (Suc d) JsonObject j \<longrightarrow> json_built J d kind v \<longrightarrow>
        json_object_get J (Ref (json_object_set_new J j k (Ref v))) k' =
          (if k' = k then Ref v else json_object_get J (Ref j) k')) \<and>
     (\<forall>d j k. json_built J d JsonObject j \<longrightarrow> json_object_set_new J j k Null = j) \<and>
     (\<forall>d v k. json_built J d JsonOther v \<longrightarrow> json_object_get J (Ref v) k = Null) \<and>
     (\<forall>k. json_object_get J Null k = Null) \<and>
     (\<forall>n. - (2 ^ 63) \<le> n \<longrightarrow> n < 2 ^ 63 \<longrightarrow> json_integer_value J (Ref (json_integer J n)) = n) \<and>
     json_integer_value J Null = 0 \<and>
     (\<forall>s. ascii_text s \<longrightarrow> (\<exists>v. json_stringn J s = Ref v \<and> json_string_value J (Ref v) = Ref s)) \<and>
     json_string_value J Null = Null \<and>
     json_is_true J (json_true J) \<and> \<not> json_is_true J (json_false J) \<and>
     json_array_size J (Ref (json_array J)) = 0 \<and>
     (\<forall>d j kind v. json_built J (Suc d) JsonArray j \<longrightarrow> json_built J d kind v \<longrightarrow>
        json_array_size J (Ref (json_array_append_new J j (Ref v))) = Suc (json_array_size J (Ref j)) \<and>
        (\<forall>i. json_array_get J (Ref (json_array_append_new J j (Ref v))) i =
          (if i = json_array_size J (Ref j) then Ref v else json_array_get J (Ref j) i))) \<and>
     (\<forall>j. json_built J 3 JsonObject j \<longrightarrow>
        (\<exists>s. json_dumps J j = Ref s \<and> cstr_ok s \<and> json_loads J s = Ref j))"

lemma jansson_lawsD:
  assumes "jansson_laws J"
  shows "json_object_get J (Ref (json_object J)) k = Null"
    and "json_built J (Suc d) JsonObject j \<Longrightarrow> json_built J d kind v \<Longrightarrow>
      json_object_get J (Ref (json_object_set_new J j k (Ref v))) k' = (if k' = k then Ref v else json_object_get J (Ref j) k')"
    and "json_built J d JsonObject j \<Longrightarrow> json_object_set_new J j k Null = j"
    and "json_built J d JsonOther v \<Longrightarrow> json_object_get J (Ref v) k = Null"
    and "json_object_get J Null k = Null"
    and "- (2 ^ 63) \<le> n \<Longrightarrow> n < 2 ^ 63 \<Longrightarrow> json_integer_value J (Ref (json_integer J n)) = n"
    and "json_integer_value J Null = 0"
    and "ascii_text s \<Longrightarrow> \<exists>v. json_stringn J s = Ref v \<and> json_string_value J (Ref v) = Ref s"
    and "json_string_value J Null = Null"
    and "json_is_true J (json_true J)" "\<not> json_is_true J (json_false J)"
    and "json_array_size J (Ref (json_array J)) = 0"
    and "json_built J (Suc d) JsonArray j \<Longrightarrow> json_built J d kind v \<Longrightarrow>
      json_array_size J (Ref (json_array_append_new J j (Ref v))) = Suc (json_array_size J (Ref j))"
    and "json_built J (Suc d) JsonArray j \<Longrightarrow> json_built J d kind v \<Longrightarrow>
      json_array_get J (Ref (json_array_append_new J j (Ref v))) i =
        (if i = json_array_size J (Ref j) then Ref v else json_array_get J (Ref j) i)"
    and "json_built J 3 JsonObject j \<Longrightarrow> \<exists>s. json_dumps J j = Ref s \<and> cstr_ok s \<and> json_loads J s = Ref j"
  using assms unfolding jansson_laws_def by (meson | blast)+

subsection \<open>A library that obeys the laws\<close>

text \<open>
  It writes a value as the instructions of a stack machine that builds it, in bytes other than zero, and reads it by
  running them.
\<close>

datatype json = JInt int | JStr "byte list" | JBool bool | JNull | JArr "json list" | JObj "(string \<times> json) list"

fun nat_code :: "nat \<Rightarrow> byte list" where
  "nat_code n = (if n = 0 then [0x30] else nat_code (n div 2) @ [if even n then 0x31 else 0x32])"

declare nat_code.simps [simp del]

definition text_code :: "byte list \<Rightarrow> byte list" where
  "text_code s = 0x34 # concat (map (\<lambda>b. [0x35, b]) s)"

fun json_code :: "json \<Rightarrow> byte list" where
  "json_code (JInt n) = (if n < 0 then nat_code (nat (- n)) @ [0x33] else nat_code (nat n))"
| "json_code (JStr s) = text_code s"
| "json_code (JBool b) = [if b then 0x36 else 0x37]"
| "json_code JNull = [0x38]"
| "json_code (JArr vs) = 0x39 # concat (map (\<lambda>v. json_code v @ [0x3A]) vs)"
| "json_code (JObj kvs) = 0x3B # concat (map (\<lambda>(k, v). text_code (map of_char k) @ json_code v @ [0x3C]) kvs)"

definition json_exec :: "byte \<Rightarrow> json list \<Rightarrow> json list option" where
  "json_exec b st =
     (if b = 0x30 then Some (JInt 0 # st)
      else if b = 0x31 then (case st of JInt n # st \<Rightarrow> Some (JInt (2 * n) # st) | _ \<Rightarrow> None)
      else if b = 0x32 then (case st of JInt n # st \<Rightarrow> Some (JInt (2 * n + 1) # st) | _ \<Rightarrow> None)
      else if b = 0x33 then (case st of JInt n # st \<Rightarrow> Some (JInt (- n) # st) | _ \<Rightarrow> None)
      else if b = 0x34 then Some (JStr [] # st)
      else if b = 0x36 then Some (JBool True # st)
      else if b = 0x37 then Some (JBool False # st)
      else if b = 0x38 then Some (JNull # st)
      else if b = 0x39 then Some (JArr [] # st)
      else if b = 0x3A then (case st of v # JArr vs # st \<Rightarrow> Some (JArr (vs @ [v]) # st) | _ \<Rightarrow> None)
      else if b = 0x3B then Some (JObj [] # st)
      else if b = 0x3C then
        (case st of v # JStr k # JObj kvs # st \<Rightarrow> Some (JObj (kvs @ [(map (\<lambda>b. char_of (unat b)) k, v)]) # st) | _ \<Rightarrow> None)
      else None)"

fun json_run :: "byte list \<Rightarrow> json list \<Rightarrow> json list option" where
  "json_run [] st = Some st"
| "json_run (b # bs) st =
     (if b = 0x35 then (case bs of
          [] \<Rightarrow> None
        | x # bs \<Rightarrow> (case st of JStr s # st \<Rightarrow> json_run bs (JStr (s @ [x]) # st) | _ \<Rightarrow> None))
      else Option.bind (json_exec b st) (json_run bs))"

lemma json_run_text: "json_run (concat (map (\<lambda>b. [0x35, b]) s) @ bs) (JStr r # st) = json_run bs (JStr (r @ s) # st)"
  by (induction s arbitrary: r) simp_all

lemma json_run_text_code: "json_run (text_code s @ bs) st = json_run bs (JStr s # st)"
  by (simp add: text_code_def json_exec_def json_run_text)

lemma json_run_nat: "json_run (nat_code n @ bs) st = json_run bs (JInt (int n) # st)"
proof (induction n arbitrary: bs rule: nat_code.induct)
  case (1 n)
  show ?case
  proof (cases "n = 0")
    case True
    then show ?thesis by (subst nat_code.simps) (simp add: json_exec_def)
  next
    case False
    have "int n = 2 * (int n div 2) + (if even n then 0 else 1)" by presburger
    then show ?thesis using 1 [OF False] False by (subst nat_code.simps) (simp add: json_exec_def zdiv_int)
  qed
qed

lemma key_bytes: "map (\<lambda>b. char_of (unat b)) (map of_char k :: byte list) = k"
proof -
  have "char_of (unat (of_char c :: byte)) = c" for c
  proof -
    have "(of_char c :: nat) < 256" by (simp add: of_char_def)
    then have "unat (of_nat (of_char c) :: byte) = of_char c" by (simp add: unat_of_nat)
    then show ?thesis by (simp add: of_nat_of_char)
  qed
  then show ?thesis by (induction k) simp_all
qed

lemma json_run_code: "json_run (json_code v @ bs) st = json_run bs (v # st)"
proof (induction v arbitrary: bs st)
  case (JInt n)
  then show ?case using json_run_nat [of "nat (- n)"] json_run_nat [of "nat n"] by (simp add: json_exec_def)
next
  case (JArr vs)
  have "json_run (concat (map (\<lambda>v. json_code v @ [0x3A]) us) @ bs) (JArr ws # st) = json_run bs (JArr (ws @ us) # st)"
    if "set us \<subseteq> set vs" for us ws
    using that by (induction us arbitrary: ws) (simp_all add: JArr json_exec_def)
  from this [of vs "[]"] show ?case by (simp add: json_exec_def)
next
  case (JObj kvs)
  have "json_run (concat (map (\<lambda>(k, v). text_code (map of_char k) @ json_code v @ [0x3C]) us) @ bs) (JObj ws # st) =
      json_run bs (JObj (ws @ us) # st)" if "set us \<subseteq> set kvs" for us ws
    using that
  proof (induction us arbitrary: ws)
    case (Cons u us)
    obtain k v where u: "u = (k, v)" by (cases u)
    then have "json_run (json_code v @ cs) st = json_run cs (v # st)" for cs st
      using JObj [of u v cs st] Cons.prems by (auto simp: u)
    then show ?case using Cons u key_bytes [of k] by (simp add: json_run_text_code json_exec_def)
  qed simp
  from this [of kvs "[]"] show ?case by (simp add: json_exec_def)
qed (simp_all add: json_run_text_code json_exec_def)

definition json_model :: "json jansson" where
  "json_model = \<lparr>json_object = JObj [], json_array = JArr [], json_true = JBool True, json_false = JBool False,
     json_null = JNull, json_integer = JInt,
     json_stringn = (\<lambda>s. if ascii_text s then Ref (JStr s) else Null),
     json_object_set_new = (\<lambda>j k p. case (j, p) of (JObj kvs, Ref v) \<Rightarrow> JObj (AList.update k v kvs) | _ \<Rightarrow> j),
     json_array_append_new = (\<lambda>j p. case (j, p) of (JArr vs, Ref v) \<Rightarrow> JArr (vs @ [v]) | _ \<Rightarrow> j),
     json_object_get = (\<lambda>p k. case p of Ref (JObj kvs) \<Rightarrow> (case map_of kvs k of Some v \<Rightarrow> Ref v | None \<Rightarrow> Null) | _ \<Rightarrow> Null),
     json_integer_value = (\<lambda>p. case p of Ref (JInt n) \<Rightarrow> n | _ \<Rightarrow> 0),
     json_string_value = (\<lambda>p. case p of Ref (JStr s) \<Rightarrow> Ref s | _ \<Rightarrow> Null),
     json_is_true = (\<lambda>j. j = JBool True),
     json_array_size = (\<lambda>p. case p of Ref (JArr vs) \<Rightarrow> length vs | _ \<Rightarrow> 0),
     json_array_get = (\<lambda>p i. case p of Ref (JArr vs) \<Rightarrow> if i < length vs then Ref (vs ! i) else Null | _ \<Rightarrow> Null),
     json_dumps = (\<lambda>j. Ref (json_code j)),
     json_loads = (\<lambda>s. case json_run s [] of Some [v] \<Rightarrow> Ref v | _ \<Rightarrow> Null)\<rparr>"

lemma nat_code_ok: "0 \<notin> set (nat_code n)"
  by (induction n rule: nat_code.induct) (subst nat_code.simps, simp)

lemma text_code_ok: "ascii_text s \<Longrightarrow> 0 \<notin> set (text_code s)"
  by (auto simp: text_code_def ascii_text_def)

lemma set_alist_update: "set (AList.update k v kvs) \<subseteq> insert (k, v) (set kvs)"
  by (induction kvs) auto

text \<open>What the functions build is of the kind they say, and is written without a zero.\<close>

lemma json_built_model:
  assumes "json_built json_model d kind v"
  shows "0 \<notin> set (json_code v) \<and> (kind = JsonObject \<longrightarrow> (\<exists>kvs. v = JObj kvs)) \<and>
    (kind = JsonArray \<longrightarrow> (\<exists>vs. v = JArr vs)) \<and> (kind = JsonOther \<longrightarrow> (\<forall>kvs. v \<noteq> JObj kvs))"
  using assms
proof induction
  case (set d j kind v k)
  then obtain kvs where j: "j = JObj kvs" by auto
  then have "0 \<notin> set (json_code w)" if "(l, w) \<in> set kvs" for l w
    using set(4) that by auto
  moreover have "0 \<notin> set (text_code (map of_char l))" if "(l, w) \<in> set kvs" for l w
    using set(4) that unfolding j by auto
  ultimately show ?case
    using set text_code_ok [of "map of_char k"] set_alist_update [of k v kvs] unfolding j
    by (auto simp: json_model_def)
next
  case (string s v d)
  then show ?case by (auto simp: json_model_def text_code_ok split: if_splits)
qed (auto simp: json_model_def nat_code_ok)

theorem json_model_laws: "jansson_laws json_model"
proof -
  have object: "\<exists>kvs. j = JObj kvs" if "json_built json_model d JsonObject j" for d j
    using json_built_model [OF that] by blast
  have array: "\<exists>vs. j = JArr vs" if "json_built json_model d JsonArray j" for d j
    using json_built_model [OF that] by blast
  have other: "j \<noteq> JObj kvs" if "json_built json_model d JsonOther j" for d j kvs
    using json_built_model [OF that] by blast
  have get: "json_object_get json_model (Ref (json_object_set_new json_model j k (Ref v))) k' =
      (if k' = k then Ref v else json_object_get json_model (Ref j) k')" if "json_built json_model (Suc d) JsonObject j" for d j k v k'
    using object [OF that] by (auto simp: json_model_def update_conv')
  have code: "json_dumps json_model j = Ref (json_code j) \<and> json_loads json_model (json_code j) = Ref j" for j
    using json_run_code [of j "[]" "[]"] by (simp add: json_model_def)
  have dumps: "\<exists>s. json_dumps json_model j = Ref s \<and> cstr_ok s \<and> json_loads json_model s = Ref j"
    if "json_built json_model 3 JsonObject j" for j
    using json_built_model [OF that] code [of j] by (simp add: cstr_ok_def)
  have append: "json_array_size json_model (Ref (json_array_append_new json_model j (Ref v))) = Suc (json_array_size json_model (Ref j)) \<and>
      json_array_get json_model (Ref (json_array_append_new json_model j (Ref v))) i =
        (if i = json_array_size json_model (Ref j) then Ref v else json_array_get json_model (Ref j) i)"
    if "json_built json_model (Suc d) JsonArray j" for d j v i
    using array [OF that] by (auto simp: json_model_def nth_append)
  have null: "json_object_set_new json_model j k Null = j" for j k
    by (cases j) (simp_all add: json_model_def)
  have other_get: "json_object_get json_model (Ref j) k = Null" if "json_built json_model d JsonOther j" for d j k
    using other [OF that] by (cases j) (auto simp: json_model_def)
  show ?thesis
    unfolding jansson_laws_def
    by (intro conjI allI impI)
      (erule get dumps append [THEN conjunct1] append [THEN conjunct2, rule_format] other_get | rule null |
       simp add: json_model_def ascii_text_def)+
qed

end
