(* ===== verification/WsParser.thy ===== *)
theory WsParser
  imports MqttTypes Base64 Jansson
begin

text \<open>
  The WebSocket codec of src/src/ws/ws_parser.c: an MQTT message as a JSON object, its content in Base64. The JSON
  library is the parameter \<open>J\<close> (\<open>Jansson\<close>).
\<close>

subsection \<open>Encoding\<close>

definition set_int :: "'j jansson \<Rightarrow> string \<Rightarrow> int \<Rightarrow> 'j \<Rightarrow> 'j" where
  "set_int J k n root = json_object_set_new J root k (Ref (json_integer J n))"

definition set_bool :: "'j jansson \<Rightarrow> string \<Rightarrow> int \<Rightarrow> 'j \<Rightarrow> 'j" where
  "set_bool J k n root = json_object_set_new J root k (Ref (json_bool J n))"

definition set_string :: "'j jansson \<Rightarrow> string \<Rightarrow> cstr ptr \<Rightarrow> 'j \<Rightarrow> 'j option" where
  "set_string J k s root = do { v \<leftarrow> json_string J s; Some (json_object_set_new J root k v) }"

text \<open>\<open>{"name": ..., "qos": ...}\<close>\<close>

definition topic_object :: "'j jansson \<Rightarrow> Topic \<Rightarrow> 'j option" where
  "topic_object J t = do {
     topic \<leftarrow> set_string J ''name'' (topic_name t) (json_object J);
     Some (set_int J ''qos'' (uint (qos t)) topic)
   }"

fun mem_bytes :: "mem \<Rightarrow> byte list option" where
  "mem_bytes [] = Some []"
| "mem_bytes (b # m) = do { b \<leftarrow> b; bs \<leftarrow> mem_bytes m; Some (b # bs) }"

text \<open>The content as a string in Base64.\<close>

definition content_string :: "'j jansson \<Rightarrow> cstr ptr \<Rightarrow> 'j ptr option" where
  "content_string J p = do {
     s \<leftarrow> deref p;
     (m, output_length) \<leftarrow> base64_encode s;
     bs \<leftarrow> mem_bytes (take output_length m);
     Some (json_stringn J bs)
   }"

definition ws_encode_will :: "'j jansson \<Rightarrow> Will \<Rightarrow> 'j option" where
  "ws_encode_will J w = do {
     topic \<leftarrow> topic_object J (will_topic w);
     let will = json_object_set_new J (json_object J) ''topic'' (Ref topic);
     content \<leftarrow> content_string J (will_content w);
     let will = json_object_set_new J will ''content'' content;
     Some (set_bool J ''retain'' (will_retain w) will)
   }"

definition ws_encode_connect :: "'j jansson \<Rightarrow> Connect \<Rightarrow> 'j \<Rightarrow> 'j option" where
  "ws_encode_connect J c root = do {
     let root = set_int J ''packet'' 1 root;
     let root = set_int J ''protocolLevel'' 4 root;
     root \<leftarrow> set_string J ''protocolName'' (Ref (map of_char ''MQTT'')) root;
     root \<leftarrow> set_string J ''username'' (username c) root;
     root \<leftarrow> set_string J ''password'' (password c) root;
     root \<leftarrow> set_string J ''clientID'' (client_id c) root;
     let root = set_bool J ''cleanSession'' (clean_session c) root;
     let root = set_int J ''keepalive'' (uint (keepalive c)) root;
     let root = set_bool J ''usernameFlag'' 1 root;
     let root = set_bool J ''passwordFlag'' 1 root;
     if will_flag c = 0
     then Some (json_object_set_new J (set_bool J ''willFlag'' 0 root) ''will'' (Ref (json_null J)))
     else do {
       let root = set_bool J ''willFlag'' 1 root;
       w \<leftarrow> ws_encode_will J (will c);
       Some (json_object_set_new J root ''will'' (Ref w))
     }
   }"

definition ws_encode_connack :: "'j jansson \<Rightarrow> Connack \<Rightarrow> 'j \<Rightarrow> 'j" where
  "ws_encode_connack J ca root =
     set_bool J ''sessionPresent'' (session_present ca)
       (set_int J ''returnCode'' (uint (return_code ca)) (set_int J ''packet'' 2 root))"

definition ws_encode_publish :: "'j jansson \<Rightarrow> Publish \<Rightarrow> 'j \<Rightarrow> 'j option" where
  "ws_encode_publish J p root = do {
     let root = set_int J ''packet'' 3 root;
     pid \<leftarrow> pub_packet_id p;
     let root = (if pid \<noteq> 0 then set_int J ''packetID'' (uint pid) root else root);
     topic \<leftarrow> topic_object J (pub_topic p);
     let root = json_object_set_new J root ''topic'' (Ref topic);
     content \<leftarrow> content_string J (pub_content p);
     let root = json_object_set_new J root ''content'' content;
     let root = set_bool J ''retain'' (pub_retain p) root;
     Some (set_bool J ''dup'' (pub_dup p) root)
   }"

text \<open>The messages that hold a packet id only.\<close>

definition ws_encode_ack :: "'j jansson \<Rightarrow> int \<Rightarrow> Message \<Rightarrow> 'j \<Rightarrow> 'j option" where
  "ws_encode_ack J code m root = do {
     pid \<leftarrow> as_packet_id m;
     Some (set_int J ''packetID'' (uint pid) (set_int J ''packet'' code root))
   }"

text \<open>\<open>json_stringn(name, strlen(name))\<close>, which measures the name first.\<close>

fun subscribe_array :: "'j jansson \<Rightarrow> Topic list \<Rightarrow> 'j \<Rightarrow> 'j option" where
  "subscribe_array J [] topics = Some topics"
| "subscribe_array J (t # ts) topics = do {
     name \<leftarrow> deref (topic_name t);
     let topic = json_object_set_new J (json_object J) ''name'' (json_stringn J name);
     let topic = set_int J ''qos'' (uint (qos t)) topic;
     subscribe_array J ts (json_array_append_new J topics (Ref topic))
   }"

definition ws_encode_subscribe :: "'j jansson \<Rightarrow> Subscribe \<Rightarrow> 'j \<Rightarrow> 'j option" where
  "ws_encode_subscribe J s root = do {
     let root = set_int J ''packetID'' (uint (sub_packet_id s)) (set_int J ''packet'' 8 root);
     topics \<leftarrow> subscribe_array J (sub_topics s) (json_array J);
     Some (json_object_set_new J root ''topics'' (Ref topics))
   }"

definition code_array :: "'j jansson \<Rightarrow> u32 list \<Rightarrow> 'j \<Rightarrow> 'j" where
  "code_array J cs a = foldl (\<lambda>a c. json_array_append_new J a (Ref (json_integer J (uint c)))) a cs"

definition ws_encode_suback :: "'j jansson \<Rightarrow> Suback \<Rightarrow> 'j \<Rightarrow> 'j" where
  "ws_encode_suback J sa root =
     json_object_set_new J (set_int J ''packetID'' (uint (suback_packet_id sa)) (set_int J ''packet'' 9 root))
       ''returnCodes'' (Ref (code_array J (codes sa) (json_array J)))"

fun unsubscribe_array :: "'j jansson \<Rightarrow> Topic list \<Rightarrow> 'j \<Rightarrow> 'j option" where
  "unsubscribe_array J [] topics = Some topics"
| "unsubscribe_array J (t # ts) topics = do {
     name \<leftarrow> json_string J (topic_name t);
     unsubscribe_array J ts (json_array_append_new J topics name)
   }"

definition ws_encode_unsubscribe :: "'j jansson \<Rightarrow> Unsubscribe \<Rightarrow> 'j \<Rightarrow> 'j option" where
  "ws_encode_unsubscribe J us root = do {
     let root = set_int J ''packetID'' (uint (unsub_packet_id us)) (set_int J ''packet'' 10 root);
     topics \<leftarrow> unsubscribe_array J (unsub_topics us) (json_array J);
     Some (json_object_set_new J root ''topics'' (Ref topics))
   }"

definition ws_encode_message :: "'j jansson \<Rightarrow> Message \<Rightarrow> 'j option" where
  "ws_encode_message J m = do {
     t \<leftarrow> message_type m;
     let root = json_object J;
     (case t of
        CONNECT \<Rightarrow> do { c \<leftarrow> as_connect m; ws_encode_connect J c root }
      | CONNACK \<Rightarrow> do { ca \<leftarrow> as_connack m; Some (ws_encode_connack J ca root) }
      | PUBLISH \<Rightarrow> do { p \<leftarrow> as_publish m; ws_encode_publish J p root }
      | PUBACK \<Rightarrow> ws_encode_ack J 4 m root
      | PUBREC \<Rightarrow> ws_encode_ack J 5 m root
      | PUBREL \<Rightarrow> ws_encode_ack J 6 m root
      | PUBCOMP \<Rightarrow> ws_encode_ack J 7 m root
      | SUBSCRIBE \<Rightarrow> do { s \<leftarrow> as_subscribe m; ws_encode_subscribe J s root }
      | SUBACK \<Rightarrow> do { sa \<leftarrow> as_suback m; Some (ws_encode_suback J sa root) }
      | UNSUBSCRIBE \<Rightarrow> do { us \<leftarrow> as_unsubscribe m; ws_encode_unsubscribe J us root }
      | UNSUBACK \<Rightarrow> ws_encode_ack J 11 m root
      | DISCONNECT \<Rightarrow> Some (set_int J ''packet'' 14 root)
      | PINGREQ \<Rightarrow> Some (set_int J ''packet'' 12 root)
      | PINGRESP \<Rightarrow> Some (set_int J ''packet'' 13 root))
   }"

definition ws_encode :: "'j jansson \<Rightarrow> Message \<Rightarrow> cstr ptr option" where
  "ws_encode J m = do { root \<leftarrow> ws_encode_message J m; Some (json_dumps J root) }"

subsection \<open>Decoding\<close>

definition get_int_value :: "'j jansson \<Rightarrow> string \<Rightarrow> 'j ptr \<Rightarrow> int" where
  "get_int_value J k j = json_integer_value J (json_object_get J j k)"

definition get_string_value :: "'j jansson \<Rightarrow> string \<Rightarrow> 'j ptr \<Rightarrow> cstr ptr" where
  "get_string_value J k j = json_string_value J (json_object_get J j k)"

definition get_flag :: "'j jansson \<Rightarrow> string \<Rightarrow> 'j ptr \<Rightarrow> int option" where
  "get_flag J k j = json_flag J (json_object_get J j k)"

text \<open>
  The content: decoded, closed with a zero and copied up to the first zero into a buffer of four times its length. A
  refused text leaves \<open>*output_length\<close> unset and the pointer NULL.
\<close>

definition decode_content :: "'j jansson \<Rightarrow> 'j ptr \<Rightarrow> cstr ptr option" where
  "decode_content J j = do {
     content_64 \<leftarrow> deref (get_string_value J ''content'' j);
     (p, n) \<leftarrow> base64_decode content_64;
     output_length \<leftarrow> n;
     content \<leftarrow> deref p;
     content \<leftarrow> wr_at output_length [0] content;
     bs \<leftarrow> mem_bytes content;
     c_assert (length (cstr_of bs) + 1 \<le> output_length * 4);
     Some (Ref (cstr_of bs))
   }"

definition ws_decode_connect :: "'j jansson \<Rightarrow> 'j ptr \<Rightarrow> Connect option" where
  "ws_decode_connect J j = do {
     clean \<leftarrow> get_flag J ''cleanSession'' j;
     wf \<leftarrow> get_flag J ''willFlag'' j;
     let will_j = json_object_get J j ''will'';
     content \<leftarrow> decode_content J will_j;
     retain \<leftarrow> get_flag J ''retain'' will_j;
     let topic_j = json_object_get J j ''topic'';
     Some \<lparr>username = get_string_value J ''username'' j, password = get_string_value J ''password'' j,
       client_id = get_string_value J ''clientID'' j, clean_session = clean, will_flag = wf,
       keepalive = of_int (get_int_value J ''keepalive'' j),
       protocol_level = of_int (get_int_value J ''protocolLevel'' j),
       will = \<lparr>will_topic = \<lparr>topic_name = get_string_value J ''name'' topic_j, qos = of_int (get_int_value J ''qos'' topic_j)\<rparr>,
         will_content = content, will_retain = retain\<rparr>\<rparr>
   }"

text \<open>An early return of NULL is \<open>Null\<close>.\<close>

definition ws_decode_connack :: "'j jansson \<Rightarrow> 'j ptr \<Rightarrow> Connack ptr option" where
  "ws_decode_connack J j = do {
     session \<leftarrow> get_flag J ''sessionPresent'' j;
     let code = (of_int (get_int_value J ''returnCode'' j) :: byte);
     if 5 < code then Some Null
     else Some (Ref \<lparr>session_present = session, return_code = ucast code\<rparr>)
   }"

definition ws_decode_publish :: "'j jansson \<Rightarrow> 'j ptr \<Rightarrow> Publish ptr option" where
  "ws_decode_publish J j = do {
     content \<leftarrow> decode_content J j;
     retain \<leftarrow> get_flag J ''retain'' j;
     dup \<leftarrow> get_flag J ''dup'' j;
     let topic = json_object_get J j ''topic'';
     let q = (of_int (get_int_value J ''qos'' topic) :: QoS);
     let pid = (of_int (get_int_value J ''packetID'' j) :: u16);
     if 2 < q then Some Null
     else if dup \<noteq> 0 \<and> q = AT_MOST_ONCE then Some Null
     else Some (Ref \<lparr>pub_topic = \<lparr>topic_name = get_string_value J ''name'' topic, qos = q\<rparr>, pub_content = content,
       pub_retain = retain, pub_dup = dup, is_incoming = None,
       pub_packet_id = (if q \<noteq> AT_MOST_ONCE then Some pid else None), pub_time_stamp = None\<rparr>)
   }"

text \<open>
  \<open>topics\<close> is never allocated, so that only an empty SUBSCRIBE or UNSUBSCRIBE can be decoded; the number of topics of
  the latter is left unset.
\<close>

definition ws_decode_subscribe :: "'j jansson \<Rightarrow> 'j ptr \<Rightarrow> Subscribe option" where
  "ws_decode_subscribe J j = do {
     c_assert (json_array_size J (json_object_get J j ''topics'') = 0);
     Some \<lparr>sub_topics = [], sub_packet_id = of_int (get_int_value J ''packetID'' j)\<rparr>
   }"

definition ws_decode_unsubscribe :: "'j jansson \<Rightarrow> 'j ptr \<Rightarrow> Unsubscribe option" where
  "ws_decode_unsubscribe J j = do {
     c_assert (json_array_size J (json_object_get J j ''topics'') = 0);
     Some \<lparr>unsub_topics = [], unsub_packet_id = of_int (get_int_value J ''packetID'' j)\<rparr>
   }"

text \<open>The codes from \<open>i\<close> on, \<open>None\<close> when one of them is refused.\<close>

fun read_codes :: "'j jansson \<Rightarrow> 'j ptr \<Rightarrow> nat \<Rightarrow> nat \<Rightarrow> u32 list option" where
  "read_codes J j i 0 = Some []"
| "read_codes J j i (Suc n) =
     (let code = sint (of_int (json_integer_value J (json_array_get J j i)) :: u32) in
      if code \<noteq> 128 \<and> (code < 0 \<or> 2 < code) then None
      else map_option ((#) (of_int code)) (read_codes J j (Suc i) n))"

definition ws_decode_suback :: "'j jansson \<Rightarrow> 'j ptr \<Rightarrow> Suback ptr" where
  "ws_decode_suback J j =
     (let j_codes = json_object_get J j ''returnCodes'' in
      case read_codes J j_codes 0 (json_array_size J j_codes) of
        None \<Rightarrow> Null
      | Some cs \<Rightarrow> if cs = [] then Null
          else Ref \<lparr>suback_packet_id = of_int (get_int_value J ''packetID'' j), codes = cs\<rparr>)"

definition decoded :: "MessageType \<Rightarrow> packet ptr \<Rightarrow> Message" where
  "decoded t p = \<lparr>message_type = Some t, packet = p\<rparr>"

definition ws_decode_case :: "'j jansson \<Rightarrow> 'j ptr \<Rightarrow> MessageType \<Rightarrow> Message ptr option" where
  "ws_decode_case J j t =
     (let ack = (\<lambda>con. Some (Ref (decoded t (Ref (con (of_int (get_int_value J ''packetID'' j))))))) in
      case t of
        CONNECT \<Rightarrow> do { c \<leftarrow> ws_decode_connect J j; Some (Ref (decoded t (Ref (PConnect c)))) }
      | CONNACK \<Rightarrow> do { r \<leftarrow> ws_decode_connack J j; Some (map_ptr (\<lambda>ca. decoded t (Ref (PConnack ca))) r) }
      | PUBLISH \<Rightarrow> do { r \<leftarrow> ws_decode_publish J j; Some (map_ptr (\<lambda>p. decoded t (Ref (PPublish p))) r) }
      | PUBACK \<Rightarrow> ack PPuback
      | PUBREC \<Rightarrow> ack PPubrec
      | PUBREL \<Rightarrow> ack PPubrel
      | PUBCOMP \<Rightarrow> ack PPubcomp
      | SUBSCRIBE \<Rightarrow> do { s \<leftarrow> ws_decode_subscribe J j; Some (Ref (decoded t (Ref (PSubscribe s)))) }
      | SUBACK \<Rightarrow> Some (map_ptr (\<lambda>sa. decoded t (Ref (PSuback sa))) (ws_decode_suback J j))
      | UNSUBSCRIBE \<Rightarrow> do { us \<leftarrow> ws_decode_unsubscribe J j; Some (Ref (decoded t (Ref (PUnsubscribe us)))) }
      | UNSUBACK \<Rightarrow> ack PUnsuback
      | _ \<Rightarrow> Some (Ref (decoded t Wild)))"

text \<open>
  The text ends at the first zero of the buffer. A text that is not JSON gives NULL, an unknown number for the packet
  a message of which nothing is set.
\<close>

definition ws_decode :: "'j jansson \<Rightarrow> byte list \<Rightarrow> Message ptr option" where
  "ws_decode J data = do {
     c_assert (0 \<in> set data);
     let j_message = json_loads J (cstr_of data);
     if j_message = Null then Some Null
     else (case mt_of (unat (of_int (get_int_value J ''packet'' j_message) :: u32)) of
         Some t \<Rightarrow> ws_decode_case J j_message t
       | None \<Rightarrow> Some (Ref \<lparr>message_type = None, packet = Wild\<rparr>))
   }"

subsection \<open>Objects as maps\<close>

definition object_of :: "'j jansson \<Rightarrow> nat \<Rightarrow> (string \<Rightarrow> 'j option) \<Rightarrow> 'j \<Rightarrow> bool" where
  "object_of J d f j \<longleftrightarrow> json_built J (Suc d) JsonObject j \<and>
     (\<forall>k. json_object_get J (Ref j) k = (case f k of Some v \<Rightarrow> Ref v | None \<Rightarrow> Null))"

lemma object_of_get: "object_of J d f j \<Longrightarrow> json_object_get J (Ref j) k = (case f k of Some v \<Rightarrow> Ref v | None \<Rightarrow> Null)"
  by (simp add: object_of_def)

lemma object_of_empty: "jansson_laws J \<Longrightarrow> object_of J d Map.empty (json_object J)"
  by (simp add: object_of_def json_built.object jansson_lawsD(1))

lemma object_of_set:
  assumes "jansson_laws J" "object_of J d f j" "json_built J d kind v" "ascii_text (map of_char k)"
  shows "object_of J d (f(k \<mapsto> v)) (json_object_set_new J j k (Ref v))"
  using assms jansson_lawsD(2) [OF assms(1), of d j kind v]
  by (auto simp: object_of_def intro: json_built.set)

lemma object_of_built: "object_of J d f j \<Longrightarrow> json_built J (Suc d) JsonObject j"
  by (simp add: object_of_def)

lemma built_bool: "json_built J d JsonOther (json_bool J n)"
  by (simp add: json_bool_def json_built.true json_built.false)

lemma flag_bool: "jansson_laws J \<Longrightarrow> json_flag J (Ref (json_bool J n)) = Some (b2i (n \<noteq> 0))"
  by (simp add: json_flag_def json_bool_def jansson_lawsD(10,11))

lemma uint_json:
  fixes v :: u16 and w :: u32
  shows "- (2 ^ 63) \<le> uint v" "uint v < 2 ^ 63" "- (2 ^ 63) \<le> uint w" "uint w < 2 ^ 63"
  using uint_lt2p [of v] uint_lt2p [of w] by (auto intro: order.trans [OF _ uint_ge_0])

lemma object_of_set_int:
  assumes "jansson_laws J" "object_of J d f j" "ascii_text (map of_char k)" "- (2 ^ 63) \<le> n" "n < 2 ^ 63"
  shows "object_of J d (f(k \<mapsto> json_integer J n)) (set_int J k n j)"
  unfolding set_int_def by (rule object_of_set [OF assms(1,2) json_built.integer [OF assms(4,5)] assms(3)])

lemma object_of_set_bool:
  assumes "jansson_laws J" "object_of J d f j" "ascii_text (map of_char k)"
  shows "object_of J d (f(k \<mapsto> json_bool J n)) (set_bool J k n j)"
  unfolding set_bool_def by (rule object_of_set [OF assms(1,2) built_bool assms(3)])

lemma object_of_set_string:
  assumes "jansson_laws J" "object_of J d f j" "ascii_text (map of_char k)" "ascii_text s"
  obtains v where "json_stringn J s = Ref v" "json_string_value J (Ref v) = Ref s"
    "object_of J d (f(k \<mapsto> v)) (json_object_set_new J j k (Ref v))"
proof -
  obtain v where v: "json_stringn J s = Ref v" "json_string_value J (Ref v) = Ref s"
    using jansson_lawsD(8) [OF assms(1,4)] by blast
  with that object_of_set [OF assms(1,2) json_built.string [OF assms(4) v(1)] assms(3)] show thesis by blast
qed

text \<open>A message that was printed is parsed again.\<close>

lemma ws_text:
  assumes "jansson_laws J" "object_of J 2 f root" "ws_encode_message J m = Some root"
    and "f ''packet'' = Some (json_integer J (int (mt_code t)))"
  shows "\<exists>s. ws_encode J m = Some (Ref s) \<and> cstr_ok s \<and>
    (\<forall>rest. ws_decode J (s @ 0 # rest) = ws_decode_case J (Ref root) t)"
proof -
  obtain s where s: "json_dumps J root = Ref s" "cstr_ok s" "json_loads J s = Ref root"
    using jansson_lawsD(15) [OF assms(1), of root] object_of_built [OF assms(2)] by (auto simp: eval_nat_numeral)
  have "cstr_of (s @ 0 # rest) = s" for rest
    using s(2) by (auto simp: cstr_of_def cstr_ok_def takeWhile_append)
  moreover have "get_int_value J ''packet'' (Ref root) = int (mt_code t)"
    using mt_code_bound [of t] assms(4)
    by (simp add: get_int_value_def object_of_get [OF assms(2)] jansson_lawsD(6) [OF assms(1)])
  moreover have "unat (word_of_nat (mt_code t) :: u32) = mt_code t"
    using mt_code_bound [of t] by (simp add: unat_of_nat)
  ultimately have "ws_decode J (s @ 0 # rest) = ws_decode_case J (Ref root) t" for rest
    using s(3) by (simp add: ws_decode_def)
  then show ?thesis using s assms(3) by (simp add: ws_encode_def)
qed

subsection \<open>The content\<close>

lemma mem_bytes_map [simp]: "mem_bytes (map Some bs) = Some bs"
  by (induction bs) simp_all

lemma mem_bytes_append_one: "mem_bytes (map Some bs @ [Some b]) = Some (bs @ [b])"
  by (induction bs) simp_all

lemma content_string_b64: "content_string J (Ref s) = Some (json_stringn J (b64 s))"
  by (simp add: content_string_def base64_encode_b64)

lemma ascii_b64: "ascii_text (b64 s)"
  by (simp add: ascii_text_def b64_ascii)

lemma decode_content_b64:
  assumes "get_string_value J ''content'' j = Ref (b64 s)" "s \<noteq> []" "cstr_ok s"
  shows "decode_content J j = Some (Ref s)"
proof -
  have "cstr_of (s @ [0]) = s" using assms(3) by (auto simp: cstr_of_def cstr_ok_def takeWhile_append)
  moreover have "length s + 1 \<le> length s * 4" using assms(2) by (cases s) simp_all
  ultimately show ?thesis
    using assms(1) mem_bytes_append_one [of s 0]
    by (simp add: decode_content_def base64_decode_b64 [OF assms(2)] wr_at_def)
qed

lemma decode_content_empty: "get_string_value J ''content'' j = Ref (b64 []) \<Longrightarrow> decode_content J j = None"
  by (simp add: decode_content_def base64_decode_def rd_def)

subsection \<open>The messages that survive\<close>

definition ws_flag :: "int \<Rightarrow> bool" where "ws_flag n \<longleftrightarrow> n = 0 \<or> n = 1"

definition ws_publish_ok :: "Publish \<Rightarrow> bool" where
  "ws_publish_ok p \<longleftrightarrow> (\<exists>name content. topic_name (pub_topic p) = Ref name \<and> ascii_text name \<and>
     pub_content p = Ref content \<and> content \<noteq> [] \<and> cstr_ok content) \<and>
     qos (pub_topic p) \<le> 2 \<and> (pub_dup p = 1 \<longrightarrow> qos (pub_topic p) \<noteq> AT_MOST_ONCE) \<and>
     ws_flag (pub_retain p) \<and> ws_flag (pub_dup p) \<and> pub_packet_id p \<noteq> None"

text \<open>What the client and the server exchange, but for what only the server receives.\<close>

fun ws_exchanged_packet :: "MessageType \<Rightarrow> packet \<Rightarrow> bool" where
  "ws_exchanged_packet t (PConnack ca) = (t = CONNACK \<and> ws_flag (session_present ca) \<and> return_code ca \<le> 5)"
| "ws_exchanged_packet t (PPublish p) = (t = PUBLISH \<and> ws_publish_ok p)"
| "ws_exchanged_packet t (PPuback i) = (t = PUBACK)"
| "ws_exchanged_packet t (PPubrec i) = (t = PUBREC)"
| "ws_exchanged_packet t (PPubrel i) = (t = PUBREL)"
| "ws_exchanged_packet t (PPubcomp i) = (t = PUBCOMP)"
| "ws_exchanged_packet t (PSuback sa) =
     (t = SUBACK \<and> codes sa \<noteq> [] \<and> list_all (\<lambda>c. c \<le> 2 \<or> c = FAILURE) (codes sa))"
| "ws_exchanged_packet t (PUnsuback i) = (t = UNSUBACK)"
| "ws_exchanged_packet t (PConnect c) = False"
| "ws_exchanged_packet t (PSubscribe s) = False"
| "ws_exchanged_packet t (PUnsubscribe us) = False"

fun ws_exchanged :: "MessageType \<Rightarrow> packet ptr \<Rightarrow> bool" where
  "ws_exchanged t (Ref p) = ws_exchanged_packet t p"
| "ws_exchanged t Wild = (t = PINGREQ \<or> t = PINGRESP \<or> t = DISCONNECT)"
| "ws_exchanged t Null = False"

text \<open>A publication comes back without what is not transmitted.\<close>

definition ws_received :: "packet ptr \<Rightarrow> packet ptr" where
  "ws_received q = (case q of
     Ref (PPublish p) \<Rightarrow> Ref (PPublish (p\<lparr>is_incoming := None, pub_time_stamp := None,
       pub_packet_id := if qos (pub_topic p) = AT_MOST_ONCE then None else pub_packet_id p\<rparr>))
   | _ \<Rightarrow> q)"

lemmas ascii_keys = ascii_text_def of_char_def

lemma word_back [simp]: "(word_of_int (uint (w :: 'a::len word)) :: 'a word) = w"
  by simp

lemma ws_empty_roundtrip:
  assumes "jansson_laws J" "t = PINGREQ \<or> t = PINGRESP \<or> t = DISCONNECT"
  shows "\<exists>s. ws_encode J (decoded t Wild) = Some (Ref s) \<and> cstr_ok s \<and>
    ws_decode J (s @ 0 # rest) = Some (Ref (decoded t Wild))"
proof -
  define root where "root = set_int J ''packet'' (int (mt_code t)) (json_object J)"
  have "object_of J 2 [''packet'' \<mapsto> json_integer J (int (mt_code t))] root"
    unfolding root_def
    by (rule object_of_set_int [OF assms(1) object_of_empty [OF assms(1)]]) (use mt_code_bound [of t] in \<open>simp_all add: ascii_keys\<close>)
  moreover have "ws_encode_message J (decoded t Wild) = Some root"
    using assms(2) by (auto simp: ws_encode_message_def decoded_def root_def)
  ultimately have "\<exists>s. ws_encode J (decoded t Wild) = Some (Ref s) \<and> cstr_ok s \<and>
      (\<forall>rest. ws_decode J (s @ 0 # rest) = ws_decode_case J (Ref root) t)"
    by (rule ws_text [OF assms(1)]) simp
  then show ?thesis using assms(2) by (auto simp: ws_decode_case_def)
qed

lemma ws_ack_roundtrip:
  assumes "jansson_laws J" and
    "(t, con) \<in> {(PUBACK, PPuback), (PUBREC, PPubrec), (PUBREL, PPubrel), (PUBCOMP, PPubcomp), (UNSUBACK, PUnsuback)}"
  shows "\<exists>s. ws_encode J (decoded t (Ref (con i))) = Some (Ref s) \<and> cstr_ok s \<and>
    ws_decode J (s @ 0 # rest) = Some (Ref (decoded t (Ref (con i))))"
proof -
  define root where "root = set_int J ''packetID'' (uint i) (set_int J ''packet'' (int (mt_code t)) (json_object J))"
  have root: "object_of J 2 [''packet'' \<mapsto> json_integer J (int (mt_code t)), ''packetID'' \<mapsto> json_integer J (uint i)] root"
    unfolding root_def
    by (intro object_of_set_int [OF assms(1)] object_of_empty [OF assms(1)] uint_json)
      (use mt_code_bound [of t] in \<open>simp_all add: ascii_keys\<close>)
  moreover have "ws_encode_message J (decoded t (Ref (con i))) = Some root"
    using assms(2) by (auto simp: ws_encode_message_def decoded_def root_def ws_encode_ack_def as_packet_id_def)
  ultimately have s: "\<exists>s. ws_encode J (decoded t (Ref (con i))) = Some (Ref s) \<and> cstr_ok s \<and>
      (\<forall>rest. ws_decode J (s @ 0 # rest) = ws_decode_case J (Ref root) t)"
    by (rule ws_text [OF assms(1)]) simp
  have "get_int_value J ''packetID'' (Ref root) = uint i"
    using jansson_lawsD(6) [OF assms(1) uint_json(1,2)] by (simp add: get_int_value_def object_of_get [OF root])
  then show ?thesis using s assms(2) by (auto simp: ws_decode_case_def)
qed

lemma small_code:
  assumes "(c :: u32) \<le> 255"
  shows "uint c < 256" "(ucast (word_of_int (uint c) :: byte) :: u32) = c"
proof -
  show c: "uint c < 256" using assms by (simp add: word_le_def)
  have "uint (ucast (word_of_int (uint c) :: byte) :: u32) = uint c"
    using c by (simp add: unsigned_ucast_eq unsigned_take_bit_eq take_bit_int_eq_self)
  then show "(ucast (word_of_int (uint c) :: byte) :: u32) = c" by (simp only: word_uint_eq_iff)
qed

lemma ws_connack_roundtrip:
  assumes "jansson_laws J" "ws_flag (session_present ca)" "return_code ca \<le> 5"
  shows "\<exists>s. ws_encode J (decoded CONNACK (Ref (PConnack ca))) = Some (Ref s) \<and> cstr_ok s \<and>
    ws_decode J (s @ 0 # rest) = Some (Ref (decoded CONNACK (Ref (PConnack ca))))"
proof -
  define root where "root = ws_encode_connack J ca (json_object J)"
  have root: "object_of J 2 [''packet'' \<mapsto> json_integer J 2, ''returnCode'' \<mapsto> json_integer J (uint (return_code ca)),
      ''sessionPresent'' \<mapsto> json_bool J (session_present ca)] root"
    unfolding root_def ws_encode_connack_def
    by (intro object_of_set_bool [OF assms(1)] object_of_set_int [OF assms(1)] object_of_empty [OF assms(1)] uint_json)
      (simp_all add: ascii_keys)
  have "ws_encode_message J (decoded CONNACK (Ref (PConnack ca))) = Some root"
    by (simp add: ws_encode_message_def decoded_def root_def as_connack_def)
  with root have s: "\<exists>s. ws_encode J (decoded CONNACK (Ref (PConnack ca))) = Some (Ref s) \<and> cstr_ok s \<and>
      (\<forall>rest. ws_decode J (s @ 0 # rest) = ws_decode_case J (Ref root) CONNACK)"
    by (rule ws_text [OF assms(1)]) simp
  have c: "return_code ca \<le> 255" using assms(3) by (rule order.trans) simp
  have "(word_of_int (uint (return_code ca)) :: byte) \<le> 5"
    using small_code(1) [OF c] assms(3) by (simp add: word_le_def unsigned_ucast_eq take_bit_int_eq_self)
  moreover have "get_int_value J ''returnCode'' (Ref root) = uint (return_code ca)"
    using jansson_lawsD(6) [OF assms(1) uint_json(3,4)] by (simp add: get_int_value_def object_of_get [OF root])
  moreover have "get_flag J ''sessionPresent'' (Ref root) = Some (session_present ca)"
    using assms(2) by (auto simp: get_flag_def object_of_get [OF root] flag_bool [OF assms(1)] ws_flag_def b2i_def)
  ultimately have "ws_decode_connack J (Ref root) = Some (Ref ca)"
    using small_code(2) [OF c] by (simp add: ws_decode_connack_def Let_def not_less)
  then show ?thesis using s by (auto simp: ws_decode_case_def)
qed

lemma code_array_codes:
  assumes "jansson_laws J" "json_built J 2 JsonArray a"
  shows "json_built J 2 JsonArray (code_array J cs a) \<and>
    json_array_size J (Ref (code_array J cs a)) = json_array_size J (Ref a) + length cs \<and>
    (\<forall>i. json_array_get J (Ref (code_array J cs a)) i =
      (if json_array_size J (Ref a) \<le> i \<and> i < json_array_size J (Ref a) + length cs
       then Ref (json_integer J (uint (cs ! (i - json_array_size J (Ref a))))) else json_array_get J (Ref a) i))"
  using assms(2)
proof (induction cs arbitrary: a)
  case (Cons c cs)
  let ?v = "json_integer J (uint c)" and ?n = "json_array_size J (Ref a)"
  define b where "b = json_array_append_new J a (Ref ?v)"
  have v: "json_built J 1 JsonOther ?v" by (rule json_built.integer [OF uint_json(3,4)])
  have a: "json_built J (Suc 1) JsonArray a" using Cons.prems by (simp add: numeral_2_eq_2)
  have b: "json_built J 2 JsonArray b"
    using json_built.append [OF a v] by (simp add: b_def numeral_2_eq_2)
  have get: "json_array_size J (Ref b) = Suc ?n"
    "json_array_get J (Ref b) i = (if i = ?n then Ref ?v else json_array_get J (Ref a) i)" for i
    using jansson_lawsD(13,14) [OF assms(1) a v] by (simp_all add: b_def)
  have "code_array J (c # cs) a = code_array J cs b" by (simp add: code_array_def b_def)
  then show ?case using Cons.IH [OF b] get by (auto simp: nth_Cons')
qed (auto simp: code_array_def)

lemma read_codes_array:
  assumes "jansson_laws J" "\<And>k. k < n \<Longrightarrow> json_array_get J j (i + k) = Ref (json_integer J (uint (cs ! k)))"
    and "length cs = n" "list_all (\<lambda>c. c \<le> 2 \<or> c = FAILURE) cs"
  shows "read_codes J j i n = Some cs"
  using assms(2-)
proof (induction n arbitrary: i cs)
  case (Suc n)
  then obtain c cs' where cs: "cs = c # cs'" by (cases cs) auto
  have c: "uint c \<le> 2 \<or> uint c = 128" using Suc.prems(3) cs by (auto simp: word_le_def)
  then have "sint c = uint c"
    unfolding sint_uint by (intro signed_take_bit_int_eq_self) (auto intro: order.trans [OF _ uint_ge_0])
  moreover have "json_array_get J j i = Ref (json_integer J (uint c))" using Suc.prems(1) [of 0] cs by simp
  moreover have "read_codes J j (Suc i) n = Some cs'"
    using Suc.prems(1) [of "Suc k" for k] Suc.prems(2,3) cs by (intro Suc.IH) auto
  ultimately show ?case
    using c Suc.prems(3) jansson_lawsD(6) [OF assms(1) uint_json(3,4), of c] uint_ge_0 [of c]
    by (auto simp: cs word_le_def simp del: uint_ge_0)
qed simp

lemma ws_suback_roundtrip:
  assumes "jansson_laws J" "codes sa \<noteq> []" "list_all (\<lambda>c. c \<le> 2 \<or> c = FAILURE) (codes sa)"
  shows "\<exists>s. ws_encode J (decoded SUBACK (Ref (PSuback sa))) = Some (Ref s) \<and> cstr_ok s \<and>
    ws_decode J (s @ 0 # rest) = Some (Ref (decoded SUBACK (Ref (PSuback sa))))"
proof -
  define a where "a = code_array J (codes sa) (json_array J)"
  define root where "root = ws_encode_suback J sa (json_object J)"
  have a: "json_built J 2 JsonArray a" "json_array_size J (Ref a) = length (codes sa)"
    "i < length (codes sa) \<Longrightarrow> json_array_get J (Ref a) i = Ref (json_integer J (uint (codes sa ! i)))" for i
    using code_array_codes [OF assms(1) json_built.array, of "codes sa"] jansson_lawsD(12) [OF assms(1)]
    by (simp_all add: a_def)
  have root: "object_of J 2 [''packet'' \<mapsto> json_integer J 9, ''packetID'' \<mapsto> json_integer J (uint (suback_packet_id sa)),
      ''returnCodes'' \<mapsto> a] root"
    unfolding root_def ws_encode_suback_def a_def [symmetric]
    by (intro object_of_set [OF assms(1) _ a(1)] object_of_set_int [OF assms(1)] object_of_empty [OF assms(1)] uint_json)
      (simp_all add: ascii_keys)
  have "ws_encode_message J (decoded SUBACK (Ref (PSuback sa))) = Some root"
    by (simp add: ws_encode_message_def decoded_def root_def as_suback_def)
  with root have s: "\<exists>s. ws_encode J (decoded SUBACK (Ref (PSuback sa))) = Some (Ref s) \<and> cstr_ok s \<and>
      (\<forall>rest. ws_decode J (s @ 0 # rest) = ws_decode_case J (Ref root) SUBACK)"
    by (rule ws_text [OF assms(1)]) simp
  have "read_codes J (Ref a) 0 (length (codes sa)) = Some (codes sa)"
    by (rule read_codes_array [OF assms(1)]) (use a(3) assms(3) in simp_all)
  moreover have "get_int_value J ''packetID'' (Ref root) = uint (suback_packet_id sa)"
    using jansson_lawsD(6) [OF assms(1) uint_json(1,2)] by (simp add: get_int_value_def object_of_get [OF root])
  ultimately have "ws_decode_suback J (Ref root) = Ref sa"
    using a(2) assms(2) by (simp add: ws_decode_suback_def object_of_get [OF root])
  then show ?thesis using s by (auto simp: ws_decode_case_def)
qed

text \<open>The topic of a publication, and its content.\<close>

lemma key: "ascii_text (map of_char ''name'')" "ascii_text (map of_char ''content'')"
  by (simp_all add: ascii_keys)

lemma topic_object_of:
  assumes "jansson_laws J" "topic_name t = Ref name" "ascii_text name"
  obtains j where "topic_object J t = Some j" "json_built J 2 JsonObject j"
    "get_string_value J ''name'' (Ref j) = Ref name" "get_int_value J ''qos'' (Ref j) = uint (qos t)"
proof -
  obtain v where v: "json_stringn J name = Ref v" "json_string_value J (Ref v) = Ref name"
    and o1: "object_of J 1 [''name'' \<mapsto> v] (json_object_set_new J (json_object J) ''name'' (Ref v))"
    by (rule object_of_set_string [OF assms(1) object_of_empty [OF assms(1)] key(1) assms(3)])
  define j where "j = set_int J ''qos'' (uint (qos t)) (json_object_set_new J (json_object J) ''name'' (Ref v))"
  have j: "object_of J 1 [''name'' \<mapsto> v, ''qos'' \<mapsto> json_integer J (uint (qos t))] j"
    unfolding j_def by (rule object_of_set_int [OF assms(1) o1 _ uint_json(3,4)]) (simp add: ascii_keys)
  show thesis
  proof (rule that)
    show "topic_object J t = Some j"
      using v(1) assms(2) by (simp add: topic_object_def set_string_def json_string_def j_def)
    show "json_built J 2 JsonObject j" using object_of_built [OF j] by (simp add: numeral_2_eq_2)
    show "get_string_value J ''name'' (Ref j) = Ref name" using v(2) by (simp add: get_string_value_def object_of_get [OF j])
    show "get_int_value J ''qos'' (Ref j) = uint (qos t)"
      using jansson_lawsD(6) [OF assms(1) uint_json(3,4)] by (simp add: get_int_value_def object_of_get [OF j])
  qed
qed

lemma object_of_set_content:
  assumes "jansson_laws J" "object_of J d f j"
  obtains v where "content_string J (Ref s) = Some (Ref v)" "json_string_value J (Ref v) = Ref (b64 s)"
    "object_of J d (f(''content'' \<mapsto> v)) (json_object_set_new J j ''content'' (Ref v))"
  by (rule object_of_set_string [OF assms key(2) ascii_b64 [of s]]) (simp add: content_string_b64)

lemma ws_publish_root:
  assumes "jansson_laws J" "topic_name (pub_topic p) = Ref name" "ascii_text name" "pub_content p = Ref content"
    and "pub_packet_id p = Some pid"
  obtains f v topic root where "ws_encode_message J (decoded PUBLISH (Ref (PPublish p))) = Some root"
    "object_of J 2 f root" "f ''packet'' = Some (json_integer J 3)" "f ''content'' = Some v"
    "json_string_value J (Ref v) = Ref (b64 content)" "f ''topic'' = Some topic"
    "get_string_value J ''name'' (Ref topic) = Ref name" "get_int_value J ''qos'' (Ref topic) = uint (qos (pub_topic p))"
    "f ''retain'' = Some (json_bool J (pub_retain p))" "f ''dup'' = Some (json_bool J (pub_dup p))"
    "f ''packetID'' = (if pid \<noteq> 0 then Some (json_integer J (uint pid)) else None)"
proof -
  obtain topic where topic: "topic_object J (pub_topic p) = Some topic" "json_built J 2 JsonObject topic"
    "get_string_value J ''name'' (Ref topic) = Ref name" "get_int_value J ''qos'' (Ref topic) = uint (qos (pub_topic p))"
    by (rule topic_object_of [OF assms(1-3)])
  define r1 where "r1 = set_int J ''packet'' 3 (json_object J)"
  define r2 where "r2 = (if pid \<noteq> 0 then set_int J ''packetID'' (uint pid) r1 else r1)"
  define f2 where "f2 = (if pid \<noteq> 0 then [''packet'' \<mapsto> json_integer J 3, ''packetID'' \<mapsto> json_integer J (uint pid)]
    else [''packet'' \<mapsto> json_integer J 3])"
  have r1: "object_of J 2 [''packet'' \<mapsto> json_integer J 3] r1"
    unfolding r1_def by (intro object_of_set_int [OF assms(1)] object_of_empty [OF assms(1)]) (simp_all add: ascii_keys)
  have r2: "object_of J 2 f2 r2"
    unfolding r2_def f2_def using r1 object_of_set_int [OF assms(1) r1 _ uint_json(1,2), of "''packetID''" pid]
    by (simp add: ascii_keys)
  define r3 where "r3 = json_object_set_new J r2 ''topic'' (Ref topic)"
  have r3: "object_of J 2 (f2(''topic'' \<mapsto> topic)) r3"
    unfolding r3_def by (rule object_of_set [OF assms(1) r2 topic(2)]) (simp add: ascii_keys)
  obtain v where v: "content_string J (Ref content) = Some (Ref v)" "json_string_value J (Ref v) = Ref (b64 content)"
    "object_of J 2 (f2(''topic'' \<mapsto> topic, ''content'' \<mapsto> v)) (json_object_set_new J r3 ''content'' (Ref v))"
    by (rule object_of_set_content [OF assms(1) r3])
  define root where "root = set_bool J ''dup'' (pub_dup p) (set_bool J ''retain'' (pub_retain p)
    (json_object_set_new J r3 ''content'' (Ref v)))"
  have root: "object_of J 2 (f2(''topic'' \<mapsto> topic, ''content'' \<mapsto> v, ''retain'' \<mapsto> json_bool J (pub_retain p),
      ''dup'' \<mapsto> json_bool J (pub_dup p))) root"
    unfolding root_def by (intro object_of_set_bool [OF assms(1)] v(3)) (simp_all add: ascii_keys)
  have "ws_encode_message J (decoded PUBLISH (Ref (PPublish p))) = Some root"
    using assms topic(1) v(1) by (simp add: ws_encode_message_def decoded_def as_publish_def ws_encode_publish_def Let_def
        root_def r3_def r2_def r1_def)
  from that [OF this root] show thesis using v(2) topic(3,4) by (simp add: f2_def)
qed

lemma ws_publish_roundtrip:
  assumes "jansson_laws J" "ws_publish_ok p"
  shows "\<exists>s. ws_encode J (decoded PUBLISH (Ref (PPublish p))) = Some (Ref s) \<and> cstr_ok s \<and>
    ws_decode J (s @ 0 # rest) = Some (Ref (decoded PUBLISH (ws_received (Ref (PPublish p)))))"
proof -
  obtain name content pid where p: "topic_name (pub_topic p) = Ref name" "ascii_text name" "pub_content p = Ref content"
    "content \<noteq> []" "cstr_ok content" "pub_packet_id p = Some pid"
    using assms(2) by (auto simp: ws_publish_ok_def)
  obtain f v topic root where root: "ws_encode_message J (decoded PUBLISH (Ref (PPublish p))) = Some root"
    "object_of J 2 f root" "f ''packet'' = Some (json_integer J 3)" "f ''content'' = Some v"
    "json_string_value J (Ref v) = Ref (b64 content)" "f ''topic'' = Some topic"
    "get_string_value J ''name'' (Ref topic) = Ref name" "get_int_value J ''qos'' (Ref topic) = uint (qos (pub_topic p))"
    "f ''retain'' = Some (json_bool J (pub_retain p))" "f ''dup'' = Some (json_bool J (pub_dup p))"
    "f ''packetID'' = (if pid \<noteq> 0 then Some (json_integer J (uint pid)) else None)"
    by (rule ws_publish_root [OF assms(1) p(1-3,6)])
  note get = object_of_get [OF root(2)]
  have s: "\<exists>s. ws_encode J (decoded PUBLISH (Ref (PPublish p))) = Some (Ref s) \<and> cstr_ok s \<and>
      (\<forall>rest. ws_decode J (s @ 0 # rest) = ws_decode_case J (Ref root) PUBLISH)"
    by (rule ws_text [OF assms(1) root(2,1)]) (simp add: root(3))
  have "decode_content J (Ref root) = Some (Ref content)"
    by (rule decode_content_b64 [OF _ p(4,5)]) (simp add: get_string_value_def get root(4,5))
  moreover have "get_flag J ''retain'' (Ref root) = Some (pub_retain p)" "get_flag J ''dup'' (Ref root) = Some (pub_dup p)"
    using assms(2) by (auto simp: get_flag_def get root(9,10) flag_bool [OF assms(1)] ws_publish_ok_def
        ws_flag_def b2i_def)
  moreover have "json_object_get J (Ref root) ''topic'' = Ref topic" by (simp add: get root(6))
  moreover have "get_int_value J ''packetID'' (Ref root) = uint pid"
    using jansson_lawsD(6) [OF assms(1) uint_json(1,2), of pid] jansson_lawsD(7) [OF assms(1)]
    by (simp add: get_int_value_def get root(11))
  ultimately have "ws_decode_publish J (Ref root) = Some (Ref (p\<lparr>is_incoming := None, pub_time_stamp := None,
      pub_packet_id := if qos (pub_topic p) = AT_MOST_ONCE then None else pub_packet_id p\<rparr>))"
    using assms(2) p root(7,8) by (auto simp: ws_decode_publish_def Let_def ws_publish_ok_def ws_flag_def not_less)
  then show ?thesis using s by (auto simp: ws_decode_case_def ws_received_def)
qed

lemma ws_roundtrip:
  assumes "jansson_laws J" "ws_exchanged t q"
  shows "\<exists>s. ws_encode J (decoded t q) = Some (Ref s) \<and> cstr_ok s \<and>
    ws_decode J (s @ 0 # rest) = Some (Ref (decoded t (ws_received q)))"
proof (cases q)
  case (Ref p)
  then show ?thesis
    using assms ws_ack_roundtrip [OF assms(1)] ws_connack_roundtrip [OF assms(1)] ws_suback_roundtrip [OF assms(1)]
      ws_publish_roundtrip [OF assms(1)]
    by (cases p) (simp_all add: ws_received_def [of "Ref (_ _)"])
qed (use assms ws_empty_roundtrip [OF assms(1)] in \<open>simp_all add: ws_received_def\<close>)

subsection \<open>The messages that cannot be decoded\<close>

text \<open>A string that is there or NULL is set or left out; no other key changes.\<close>

lemma object_of_string:
  assumes "jansson_laws J" "object_of J d f j" "ascii_text (map of_char k)" "ascii_text s"
  obtains j' v where "set_string J k (Ref s) j = Some j'" "object_of J d (f(k \<mapsto> v)) j'"
  by (rule object_of_set_string [OF assms]) (auto simp: set_string_def json_string_def intro: that)

lemma content_of_null: "jansson_laws J \<Longrightarrow> decode_content J (Ref (json_null J)) = None"
  using jansson_lawsD(4) [of J 0 "json_null J"]
  by (simp add: decode_content_def get_string_value_def json_built.null jansson_lawsD(9))

lemma ws_connect_undefined:
  assumes "jansson_laws J" "will_flag c = 0" "username c = Ref u" "password c = Ref pw" "client_id c = Ref cid"
    and "ascii_text u" "ascii_text pw" "ascii_text cid"
  shows "\<exists>s. ws_encode J (decoded CONNECT (Ref (PConnect c))) = Some (Ref s) \<and> ws_decode J (s @ 0 # rest) = None"
proof -
  have ascii: "ascii_text (map of_char ''MQTT'')" "ascii_text (map of_char ''protocolName'')" "ascii_text (map of_char ''username'')"
    "ascii_text (map of_char ''password'')" "ascii_text (map of_char ''clientID'')"
    by (simp_all add: ascii_keys)
  note int = object_of_set_int [OF assms(1)] and bool = object_of_set_bool [OF assms(1)]
  define r0 where "r0 = set_int J ''protocolLevel'' 4 (set_int J ''packet'' 1 (json_object J))"
  have r0: "object_of J 2 [''packet'' \<mapsto> json_integer J 1, ''protocolLevel'' \<mapsto> json_integer J 4] r0"
    unfolding r0_def by (intro int object_of_empty [OF assms(1)]) (simp_all add: ascii_keys)
  define f0 where "f0 = [''packet'' \<mapsto> json_integer J 1, ''protocolLevel'' \<mapsto> json_integer J 4]"
  note r0 = r0 [folded f0_def]
  obtain r1 v1 where r1: "set_string J ''protocolName'' (Ref (map of_char ''MQTT'')) r0 = Some r1"
      "object_of J 2 (f0(''protocolName'' \<mapsto> v1)) r1"
    by (rule object_of_string [OF assms(1) r0 ascii(2,1)])
  obtain r2 v2 where r2: "set_string J ''username'' (Ref u) r1 = Some r2"
      "object_of J 2 (f0(''protocolName'' \<mapsto> v1, ''username'' \<mapsto> v2)) r2"
    by (rule object_of_string [OF assms(1) r1(2) ascii(3) assms(6)])
  obtain r3 v3 where r3: "set_string J ''password'' (Ref pw) r2 = Some r3"
      "object_of J 2 (f0(''protocolName'' \<mapsto> v1, ''username'' \<mapsto> v2, ''password'' \<mapsto> v3)) r3"
    by (rule object_of_string [OF assms(1) r2(2) ascii(4) assms(7)])
  obtain r4 v4 where r4: "set_string J ''clientID'' (Ref cid) r3 = Some r4"
      "object_of J 2 (f0(''protocolName'' \<mapsto> v1, ''username'' \<mapsto> v2, ''password'' \<mapsto> v3, ''clientID'' \<mapsto> v4)) r4"
    by (rule object_of_string [OF assms(1) r3(2) ascii(5) assms(8)])
  define root where "root = json_object_set_new J (set_bool J ''willFlag'' 0 (set_bool J ''passwordFlag'' 1
    (set_bool J ''usernameFlag'' 1 (set_int J ''keepalive'' (uint (keepalive c))
      (set_bool J ''cleanSession'' (clean_session c) r4))))) ''will'' (Ref (json_null J))"
  have root: "object_of J 2 (f0(''protocolName'' \<mapsto> v1, ''username'' \<mapsto> v2, ''password'' \<mapsto> v3, ''clientID'' \<mapsto> v4,
      ''cleanSession'' \<mapsto> json_bool J (clean_session c), ''keepalive'' \<mapsto> json_integer J (uint (keepalive c)),
      ''usernameFlag'' \<mapsto> json_bool J 1, ''passwordFlag'' \<mapsto> json_bool J 1, ''willFlag'' \<mapsto> json_bool J 0,
      ''will'' \<mapsto> json_null J)) root"
    unfolding root_def
    by (intro object_of_set [OF assms(1) _ json_built.null] int bool r4(2) uint_json) (simp_all add: ascii_keys)
  have "ws_encode_message J (decoded CONNECT (Ref (PConnect c))) = Some root"
    using r1(1) r2(1) r3(1) r4(1) assms(2-5)
    by (simp add: ws_encode_message_def decoded_def as_connect_def ws_encode_connect_def Let_def root_def r0_def)
  with root have "\<exists>s. ws_encode J (decoded CONNECT (Ref (PConnect c))) = Some (Ref s) \<and> cstr_ok s \<and>
      (\<forall>rest. ws_decode J (s @ 0 # rest) = ws_decode_case J (Ref root) CONNECT)"
    by (rule ws_text [OF assms(1)]) (simp add: f0_def)
  moreover have "ws_decode_connect J (Ref root) = None"
    using content_of_null [OF assms(1)]
    by (simp add: ws_decode_connect_def Let_def object_of_get [OF root] bind_eq_None_conv)
  ultimately show ?thesis by (auto simp: ws_decode_case_def)
qed

lemma ws_empty_undefined:
  assumes "jansson_laws J" "pub_content p = Ref []" "topic_name (pub_topic p) = Ref name" "ascii_text name"
    and "pub_packet_id p = Some pid"
  shows "\<exists>s. ws_encode J (decoded PUBLISH (Ref (PPublish p))) = Some (Ref s) \<and> ws_decode J (s @ 0 # rest) = None"
proof -
  obtain f v root where root: "ws_encode_message J (decoded PUBLISH (Ref (PPublish p))) = Some root"
    "object_of J 2 f root" "f ''packet'' = Some (json_integer J 3)" "f ''content'' = Some v"
    "json_string_value J (Ref v) = Ref (b64 [])"
    by (rule ws_publish_root [OF assms(1,3,4,2,5)])
  have "\<exists>s. ws_encode J (decoded PUBLISH (Ref (PPublish p))) = Some (Ref s) \<and> cstr_ok s \<and>
      (\<forall>rest. ws_decode J (s @ 0 # rest) = ws_decode_case J (Ref root) PUBLISH)"
    by (rule ws_text [OF assms(1) root(2,1)]) (simp add: root(3))
  moreover have "decode_content J (Ref root) = None"
    by (rule decode_content_empty) (simp add: get_string_value_def object_of_get [OF root(2)] root(4,5))
  ultimately show ?thesis by (auto simp: ws_decode_case_def ws_decode_publish_def)
qed

text \<open>A list of one topic.\<close>

lemma ws_topics_undefined:
  fixes i :: u16
  assumes "jansson_laws J" "json_built J 1 kind v" "t = SUBSCRIBE \<or> t = UNSUBSCRIBE"
    and "ws_encode_message J m = Some (json_object_set_new J (set_int J ''packetID'' (uint i)
      (set_int J ''packet'' (int (mt_code t)) (json_object J))) ''topics'' (Ref (json_array_append_new J (json_array J) (Ref v))))"
  shows "\<exists>s. ws_encode J m = Some (Ref s) \<and> ws_decode J (s @ 0 # rest) = None"
proof -
  let ?a = "json_array_append_new J (json_array J) (Ref v)"
  have a: "json_built J 2 JsonArray ?a" "json_array_size J (Ref ?a) = 1"
    using json_built.append [OF json_built.array assms(2)] jansson_lawsD(13) [OF assms(1) json_built.array assms(2)]
      jansson_lawsD(12) [OF assms(1)] by (simp_all add: numeral_2_eq_2)
  have root: "object_of J 2 [''packet'' \<mapsto> json_integer J (int (mt_code t)), ''packetID'' \<mapsto> json_integer J (uint i), ''topics'' \<mapsto> ?a]
      (json_object_set_new J (set_int J ''packetID'' (uint i) (set_int J ''packet'' (int (mt_code t)) (json_object J)))
        ''topics'' (Ref ?a))"
    by (intro object_of_set [OF assms(1) _ a(1)] object_of_set_int [OF assms(1)] object_of_empty [OF assms(1)] uint_json)
      (use mt_code_bound [of t] in \<open>simp_all add: ascii_keys\<close>)
  have "\<exists>s. ws_encode J m = Some (Ref s) \<and> cstr_ok s \<and> (\<forall>rest. ws_decode J (s @ 0 # rest) =
      ws_decode_case J (Ref (json_object_set_new J (set_int J ''packetID'' (uint i)
        (set_int J ''packet'' (int (mt_code t)) (json_object J))) ''topics'' (Ref ?a))) t)"
    by (rule ws_text [OF assms(1) root assms(4)]) simp
  then show ?thesis
    using assms(3) a(2) object_of_get [OF root]
    by (auto simp: ws_decode_case_def ws_decode_subscribe_def ws_decode_unsubscribe_def)
qed

lemma ws_subscribe_undefined:
  assumes "jansson_laws J" "ascii_text name"
  shows "\<exists>s. ws_encode J (decoded SUBSCRIBE (Ref (PSubscribe
      \<lparr>sub_topics = [\<lparr>topic_name = Ref name, qos = level\<rparr>], sub_packet_id = i\<rparr>))) = Some (Ref s) \<and> ws_decode J (s @ 0 # rest) = None"
proof -
  obtain v where v: "json_stringn J name = Ref v" and o1: "object_of J 0 [''name'' \<mapsto> v] (json_object_set_new J (json_object J) ''name'' (Ref v))"
    by (rule object_of_set_string [OF assms(1) object_of_empty [OF assms(1)] key(1) assms(2)])
  have "json_built J 1 JsonObject (set_int J ''qos'' (uint level) (json_object_set_new J (json_object J) ''name'' (Ref v)))"
    using object_of_built [OF object_of_set_int [OF assms(1) o1 _ uint_json(3,4), of "''qos''" level]]
    by (simp add: ascii_keys)
  from assms(1) this show ?thesis
    by (rule ws_topics_undefined [where t = SUBSCRIBE]) (simp_all add: v ws_encode_message_def decoded_def as_subscribe_def ws_encode_subscribe_def Let_def)
qed

lemma ws_unsubscribe_undefined:
  assumes "jansson_laws J" "ascii_text name"
  shows "\<exists>s. ws_encode J (decoded UNSUBSCRIBE (Ref (PUnsubscribe
      \<lparr>unsub_topics = [\<lparr>topic_name = Ref name, qos = level\<rparr>], unsub_packet_id = i\<rparr>))) = Some (Ref s) \<and> ws_decode J (s @ 0 # rest) = None"
proof -
  obtain v where v: "json_stringn J name = Ref v"
    using jansson_lawsD(8) [OF assms] by blast
  from assms(1) json_built.string [OF assms(2) v] show ?thesis
    by (rule ws_topics_undefined [where t = UNSUBSCRIBE]) (simp_all add: v ws_encode_message_def decoded_def as_unsubscribe_def ws_encode_unsubscribe_def json_string_def Let_def)
qed

end
