(* ===== verification/WsClient.thy ===== *)
theory WsClient
  imports MqttClient WsParser
begin

text \<open>
  MQTT over WebSockets: the client of src/src/mqtt with the codec of src/src/ws, which \<open>MqttClient\<close> has as a
  parameter. The properties of the codec, and of the client that uses it.
\<close>

subsection \<open>The codec of the client\<close>

text \<open>The client follows the result of \<open>ws_decode\<close> without testing it for NULL.\<close>

definition ws_of :: "'j jansson \<Rightarrow> ws_codec" where
  "ws_of J = \<lparr>encode_ws = ws_encode J, decode_ws = (\<lambda>data. do { r \<leftarrow> ws_decode J data; deref r })\<rparr>"

lemma ws_fired:
  assumes "ws_encode J m = Some (Ref s)" "account st = Ref acc" "acc_protocol acc \<noteq> MQTT"
  shows "encode_and_fire (ws_of J) m st = Some (emit (Fire (Ref s)) st)"
  using assms by (simp add: encode_and_fire_def ws_of_def)

lemma ws_data_received:
  assumes "ws_decode J buf = Some (Ref m)" "account st = Ref acc" "acc_protocol acc \<noteq> MQTT" "2 \<le> length buf"
  shows "mqtt_data_received (ws_of J) ok buf n st = handle_message (ws_of J) ok m st"
proof -
  have "rd buf 1 = Some (buf ! 1)" using assms(4) by (simp add: rd_def)
  then show ?thesis
    using assms by (simp add: mqtt_data_received_def process_rx_def ws_of_def)
qed

subsection \<open>The properties\<close>

text \<open>
  C11: with a JSON library that does what its documentation says, the message types of the client's sessions but CONNECT,
  SUBSCRIBE and UNSUBSCRIBE (whose decoding is undefined: \<open>ws_decode_undefined\<close>) are encoded to a text that is decoded to the
  same message, whatever follows it. These are PUBACK, PUBREC, PUBREL, PUBCOMP, UNSUBACK, PINGREQ, PINGRESP and DISCONNECT;
  CONNACK with a session flag 0 or 1 and a code up to 5; SUBACK with at least one code, each 0, 1, 2 or 128; and PUBLISH with
  QoS up to 2, flags 0 or 1, no duplicate at QoS 0, a topic of ASCII characters, content that is not empty and has no
  zero byte, and its packet id set. A PUBLISH comes back without what is not transmitted: its packet id at QoS 0, its time
  stamp and whether it came in.
\<close>

theorem ws_message_roundtrip:
  assumes "jansson_laws J" "ws_exchanged t q"
  shows "\<exists>s. ws_encode J (decoded t q) = Some (Ref s) \<and> cstr_ok s \<and>
    ws_decode J (s @ 0 # rest) = Some (Ref (decoded t (ws_received q)))"
  using assms by (rule ws_roundtrip)

definition ws_sample_publish :: Publish where
  "ws_sample_publish = \<lparr>pub_topic = \<lparr>topic_name = Ref [0x61], qos = 1\<rparr>, pub_content = Ref [0x68, 0x69],
     pub_retain = 0, pub_dup = 0, is_incoming = None, pub_packet_id = Some 7, pub_time_stamp = None\<rparr>"

lemma ws_sample_publish_ok: "ws_publish_ok ws_sample_publish"
  by (simp add: ws_publish_ok_def ws_sample_publish_def ascii_text_def cstr_ok_def ws_flag_def)

theorem ws_message_roundtrip_witness:
  "\<exists>s. ws_encode json_model (decoded PUBLISH (Ref (PPublish ws_sample_publish))) = Some (Ref s) \<and> cstr_ok s \<and>
    ws_decode json_model (s @ [0]) = Some (Ref (decoded PUBLISH (Ref (PPublish ws_sample_publish))))"
  using ws_message_roundtrip [OF json_model_laws, of PUBLISH "Ref (PPublish ws_sample_publish)" "[]"] ws_sample_publish_ok
  by (simp add: ws_received_def ws_sample_publish_def)

text \<open>
  C23: over WebSockets a publication with QoS 1 or 2, a topic of ASCII characters, content that is not empty and has no zero
  byte, and flags 0 or 1 is sent as a text that decodes to the same publication under the next packet id, and kept under
  that id.
\<close>

theorem ws_publish_sent:
  assumes "jansson_laws J" "client_inv st" "account st = Ref acc" "acc_protocol acc \<noteq> MQTT"
    and "q = 1 \<or> q = 2" "current_packet_number st < 2 ^ 31 - 1" "i = of_int (current_packet_number st + 1)"
    and "ascii_text topic" "content \<noteq> []" "cstr_ok content" "ws_flag retain" "ws_flag dup"
  shows "\<exists>st' s. send_publish (ws_of J) (Ref content) (Ref topic) q retain dup st = Some st' \<and> client_inv st' \<and>
    events st' = events st @ [Fire (Ref s)] \<and>
    ws_decode J (s @ 0 # rest) = Some (Ref (publish_message (Ref content) (Ref topic) q retain dup i)) \<and>
    id_abs (msg_map st') = (id_abs (msg_map st))(i \<mapsto> publish_message (Ref content) (Ref topic) q retain dup i)"
proof -
  define p where "p = \<lparr>pub_topic = \<lparr>topic_name = Ref topic, qos = of_int q\<rparr>, pub_content = Ref content,
    pub_retain = retain, pub_dup = dup, is_incoming = None, pub_packet_id = Some i, pub_time_stamp = None\<rparr>"
  have m: "publish_message (Ref content) (Ref topic) q retain dup i = decoded PUBLISH (Ref (PPublish p))"
    by (simp add: publish_message_def decoded_def p_def)
  have "ws_publish_ok p" using assms(5,8-12) by (auto simp: ws_publish_ok_def p_def)
  from ws_publish_roundtrip [OF assms(1) this, of rest] obtain s where s:
    "ws_encode J (decoded PUBLISH (Ref (PPublish p))) = Some (Ref s)"
    "ws_decode J (s @ 0 # rest) = Some (Ref (decoded PUBLISH (ws_received (Ref (PPublish p)))))" by blast
  have "ws_received (Ref (PPublish p)) = Ref (PPublish p)"
    using assms(5) by (auto simp: ws_received_def p_def)
  moreover obtain st' where "send_publish (ws_of J) (Ref content) (Ref topic) q retain dup st = Some st'" "client_inv st'"
    "id_abs (msg_map st') = (id_abs (msg_map st))(i \<mapsto> decoded PUBLISH (Ref (PPublish p)))"
    "events st' = events st @ [Fire (Ref s)]"
  proof (rule send_publish_fired [OF assms(2) _ assms(6,7) m [symmetric]])
    show "q \<noteq> 0" using assms(5) by auto
    show "encode_and_fire (ws_of J) (decoded PUBLISH (Ref (PPublish p))) st' = Some (emit (Fire (Ref s)) st')"
      if "account st' = account st" for st' using ws_fired [OF s(1)] that assms(3,4) by simp
  qed
  ultimately show ?thesis using s(2) unfolding m by auto
qed

definition ws_sample :: mqtt_state where
  "ws_sample = fst (init_mqtt_client (sample_account\<lparr>acc_protocol := WEBSOCKETS\<rparr>) 0 mqtt_init)"

lemma ws_sample_simps:
  "client_inv ws_sample" "account ws_sample = Ref (sample_account\<lparr>acc_protocol := WEBSOCKETS\<rparr>)"
  "current_packet_number ws_sample = 0" "events ws_sample = []"
  by (simp_all add: ws_sample_def init_mqtt_client_def client_inv_def mqtt_init_def)

theorem ws_publish_sent_witness:
  "\<exists>st' s. send_publish (ws_of json_model) (Ref [0x68]) (Ref [0x61]) 1 0 0 ws_sample = Some st' \<and>
    events st' = [Fire (Ref s)] \<and>
    ws_decode json_model (s @ [0]) = Some (Ref (publish_message (Ref [0x68]) (Ref [0x61]) 1 0 0 1))"
  using ws_publish_sent [OF json_model_laws ws_sample_simps(1,2), of 1 1 "[0x61]" "[0x68]" 0 0 "[]"]
  by (auto simp: ws_sample_simps ascii_text_def cstr_ok_def ws_flag_def)

text \<open>
  Over WebSockets the text of a CONNACK that accepts the connection starts the session as over MQTT: the
  retransmission of CONNECT stops, CONNECT leaves the table, the application is told, and the pings start at the
  account's interval.
\<close>

theorem ws_connack_starts_session:
  assumes "jansson_laws J" "client_inv st" "account st = Ref acc" "acc_protocol acc \<noteq> MQTT" "connecter st = Running"
    and "ws_flag sp" "m = decoded CONNACK (Ref (PConnack \<lparr>session_present = sp, return_code = ACCEPTED\<rparr>))" "rest \<noteq> []"
  shows "\<exists>s st'. ws_encode J m = Some (Ref s) \<and> mqtt_data_received (ws_of J) True (s @ 0 # rest) n st = Some st' \<and>
    client_inv st' \<and> connecter st' = Cancelled \<and> pinger st' = Running \<and> timer_delay st' = client_delay st \<and>
    id_abs (msg_map st') = (id_abs (msg_map st))(0 := None) \<and> events st' = events st @ [ConnectionSuccessful]"
proof -
  obtain s where s: "ws_encode J m = Some (Ref s)" "ws_decode J (s @ 0 # rest) = Some (Ref m)"
    using ws_connack_roundtrip [OF assms(1), of "\<lparr>session_present = sp, return_code = ACCEPTED\<rparr>" rest] assms(6)
    unfolding assms(7) by auto
  have "2 \<le> length (s @ 0 # rest)" using assms(8) by (cases rest) simp_all
  from ws_data_received [OF s(2) assms(3,4) this]
  have "mqtt_data_received (ws_of J) True (s @ 0 # rest) n st = handle_connack (ws_of J) True m st"
    by (simp add: handle_message_def assms(7) decoded_def)
  moreover have "as_connack m = Some \<lparr>session_present = sp, return_code = ACCEPTED\<rparr>"
    by (simp add: as_connack_def assms(7) decoded_def)
  from handle_connack_ok [OF assms(2,5) this, of "ws_of J"] obtain st' where
    "handle_connack (ws_of J) True m st = Some st'" "client_inv st'" "connecter st' = Cancelled" "pinger st' = Running"
    "timer_delay st' = client_delay st" "id_abs (msg_map st') = (id_abs (msg_map st))(0 := None)"
    "events st' = events st @ [ConnectionSuccessful]" by auto
  ultimately show ?thesis using s(1) by auto
qed

theorem ws_connack_starts_session_witness:
  "\<exists>s st'. ws_encode json_model (decoded CONNACK (Ref (PConnack \<lparr>session_present = 0, return_code = ACCEPTED\<rparr>))) = Some (Ref s) \<and>
    mqtt_data_received (ws_of json_model) True (s @ [0, 0]) 0 (ws_sample\<lparr>connecter := Running\<rparr>) = Some st' \<and>
    pinger st' = Running \<and> events st' = [ConnectionSuccessful]"
  using ws_connack_starts_session [OF json_model_laws, of "ws_sample\<lparr>connecter := Running\<rparr>"
      "sample_account\<lparr>acc_protocol := WEBSOCKETS\<rparr>" 0 _ "[0]" 0]
  by (auto simp: ws_sample_simps ws_flag_def)

text \<open>
  What the decoder cannot take, although the encoder writes it: a CONNECT without a will, whose content it measures
  all the same; a publication without content, for which it reads in front of an empty string; and a SUBSCRIBE or
  UNSUBSCRIBE with a topic, which it stores through a pointer that was never set.
\<close>

theorem ws_decode_undefined:
  assumes "jansson_laws J"
    and "(t = CONNECT \<and> q = PConnect c \<and> will_flag c = 0 \<and> username c = Ref u \<and> password c = Ref pw \<and> client_id c = Ref cid \<and>
        ascii_text u \<and> ascii_text pw \<and> ascii_text cid) \<or>
      (t = PUBLISH \<and> q = PPublish p \<and> pub_content p = Ref [] \<and> topic_name (pub_topic p) = Ref name \<and>
        ascii_text name \<and> pub_packet_id p = Some i) \<or>
      (t = SUBSCRIBE \<and> q = PSubscribe \<lparr>sub_topics = [\<lparr>topic_name = Ref name, qos = level\<rparr>], sub_packet_id = i\<rparr> \<and> ascii_text name) \<or>
      (t = UNSUBSCRIBE \<and> q = PUnsubscribe \<lparr>unsub_topics = [\<lparr>topic_name = Ref name, qos = level\<rparr>], unsub_packet_id = i\<rparr> \<and>
        ascii_text name)"
  shows "\<exists>s. ws_encode J (decoded t (Ref q)) = Some (Ref s) \<and> ws_decode J (s @ 0 # rest) = None"
  using assms(2)
  using ws_connect_undefined [OF assms(1)] ws_empty_undefined [OF assms(1)] ws_subscribe_undefined [OF assms(1)]
    ws_unsubscribe_undefined [OF assms(1)]
  by (elim disjE conjE; simp)

theorem ws_decode_undefined_witness:
  "\<exists>s. ws_encode json_model (decoded SUBSCRIBE (Ref (PSubscribe
      \<lparr>sub_topics = [\<lparr>topic_name = Ref [0x61], qos = 1\<rparr>], sub_packet_id = 1\<rparr>))) = Some (Ref s) \<and>
    ws_decode json_model (s @ [0]) = None"
  using ws_decode_undefined [OF json_model_laws, of SUBSCRIBE "PSubscribe
      \<lparr>sub_topics = [\<lparr>topic_name = Ref [0x61], qos = 1\<rparr>], sub_packet_id = 1\<rparr>" _ _ _ _ _ "[0x61]" 1 1 "[]"]
  by (simp add: ascii_text_def)

end
