(* ===== verification/AppConfig.thy ===== *)
theory AppConfig
  imports MqttTypes
begin

text \<open>
  The configuration of the application: \<open>load_config\<close> of src/src/app.c, which reads the account and the settings of
  the messages from a file, with the functions of the C library it uses.
\<close>

subsection \<open>The C library\<close>

definition c_text :: "string \<Rightarrow> cstr" where
  "c_text s = map of_char s"

definition to_lower :: "byte \<Rightarrow> byte" where
  "to_lower b = (if 65 \<le> b \<and> b \<le> 90 then b + 32 else b)"

text \<open>\<open>strncasecmp(key, lit, strlen(lit)) == 0\<close>\<close>

definition is_key :: "cstr \<Rightarrow> string \<Rightarrow> bool" where
  "is_key key lit \<longleftrightarrow> map to_lower (take (length lit) key) = map to_lower (c_text lit)"

text \<open>The same of memory that need not hold a string: undefined at the first byte that was never written.\<close>

fun mem_is :: "mem \<Rightarrow> byte list \<Rightarrow> bool option" where
  "mem_is m [] = Some True"
| "mem_is [] (c # cs) = None"
| "mem_is (None # m) (c # cs) = None"
| "mem_is (Some b # m) (c # cs) = (if to_lower b = to_lower c then mem_is m cs else Some False)"

text \<open>The string at the start of a block, \<open>Wild\<close> when there is none.\<close>

definition string_at :: "mem \<Rightarrow> cstr ptr" where
  "string_at m = (let w = takeWhile (\<lambda>b. b \<noteq> None \<and> b \<noteq> Some 0) m in
     if length w < length m \<and> m ! length w = Some 0 then Ref (map the w) else Wild)"

definition is_digit :: "byte \<Rightarrow> bool" where "is_digit b \<longleftrightarrow> 48 \<le> b \<and> b \<le> 57"

definition is_space :: "byte \<Rightarrow> bool" where "is_space b \<longleftrightarrow> b = 32 \<or> 9 \<le> b \<and> b \<le> 13"

text \<open>A number that is no \<open>int\<close> makes \<open>atoi\<close> undefined.\<close>

definition atoi :: "cstr \<Rightarrow> int option" where
  "atoi s =
     (let s = dropWhile is_space s;
          (neg, s) = (case s of b # bs \<Rightarrow> if b = 45 then (True, bs) else if b = 43 then (False, bs) else (False, s)
                     | [] \<Rightarrow> (False, []));
          n = int (dec_value (takeWhile is_digit s));
          n = (if neg then - n else n) in do {
        c_assert (- (2 ^ 31) \<le> n \<and> n < 2 ^ 31);
        Some n
      })"

text \<open>\<open>fgets\<close> into \<open>n\<close> bytes: up to a newline or \<open>n - 1\<close> bytes, and what is left of the file.\<close>

definition fgets :: "nat \<Rightarrow> byte list \<Rightarrow> byte list \<times> byte list" where
  "fgets n input =
     (let part = take (n - 1) input; k = length (takeWhile (\<lambda>b. b \<noteq> 10) part); k = (if k < length part then k + 1 else k) in
      (take k input, drop k input))"

subsection \<open>The settings\<close>

record app_config =
  cfg_account :: Account
  cfg_protocol :: u32
  cfg_topic_name :: "cstr ptr"
  cfg_period :: int
  cfg_qos :: int
  cfg_retain :: int
  cfg_dup :: int

text \<open>What \<open>load_config\<close> does not set of the account it allocates is as it was: \<open>acc\<close>.\<close>

definition config_start :: "Account \<Rightarrow> app_config" where
  "config_start acc =
     \<lparr>cfg_account = acc\<lparr>acc_username := Null, acc_password := Null, acc_client_id := Null, acc_server_host := Null,
        acc_server_port := 0, acc_keep_alive := 0, acc_will := Null, acc_will_topic := Null, acc_is_retain := 0,
        acc_qos := 0, acc_is_secure := 0, acc_certificate := Null, acc_certificate_password := Null\<rparr>,
      cfg_protocol = 0, cfg_topic_name = Null, cfg_period = 60, cfg_qos = 0, cfg_retain = 0, cfg_dup = 0\<rparr>"

definition set_account :: "(Account \<Rightarrow> Account) \<Rightarrow> app_config \<Rightarrow> app_config" where
  "set_account f c = c\<lparr>cfg_account := f (cfg_account c)\<rparr>"

text \<open>
  The value without its newline, in a block of the length of the value; the terminator goes behind the end of the
  block.
\<close>

definition get_str_from_value :: "cstr \<Rightarrow> mem option" where
  "get_str_from_value value = do {
     bs \<leftarrow> rd_n value 0 (int (length value) - 1);
     m \<leftarrow> wr_at 0 bs (c_malloc (length value));
     wr_at (length value) [0] m
   }"

text \<open>The value as a string, copied to a block of its own.\<close>

definition config_string :: "cstr \<Rightarrow> cstr ptr option" where
  "config_string value = do {
     tmp_str \<leftarrow> get_str_from_value value;
     Some (string_at (take (length value) tmp_str))
   }"

definition config_flag :: "cstr \<Rightarrow> int option" where
  "config_flag value = do {
     value_str \<leftarrow> get_str_from_value value;
     b \<leftarrow> mem_is value_str (c_text ''true'');
     Some (b2i b)
   }"

definition first_char :: "cstr \<Rightarrow> byte" where
  "first_char s = (case s of [] \<Rightarrow> 0 | b # bs \<Rightarrow> b)"

text \<open>A line \<open>key:value\<close>. A key is recognised by its first letters, in the order of the tests.\<close>

definition config_entry :: "cstr \<Rightarrow> cstr \<Rightarrow> app_config \<Rightarrow> app_config option" where
  "config_entry key value c =
     (let given = first_char value \<noteq> 10 in
      if is_key key ''protocol'' then do { n \<leftarrow> atoi value; Some (c\<lparr>cfg_protocol := of_int n\<rparr>) }
      else if is_key key ''username'' \<and> given then do {
        s \<leftarrow> config_string value; Some (set_account (\<lambda>a. a\<lparr>acc_username := s\<rparr>) c) }
      else if is_key key ''password'' \<and> given then do {
        s \<leftarrow> config_string value; Some (set_account (\<lambda>a. a\<lparr>acc_password := s\<rparr>) c) }
      else if is_key key ''clientId'' then do {
        s \<leftarrow> config_string value; Some (set_account (\<lambda>a. a\<lparr>acc_client_id := s\<rparr>) c) }
      else if is_key key ''host'' then do {
        s \<leftarrow> config_string value; Some (set_account (\<lambda>a. a\<lparr>acc_server_host := s\<rparr>) c) }
      else if is_key key ''port'' then do {
        n \<leftarrow> atoi value; Some (set_account (\<lambda>a. a\<lparr>acc_server_port := n\<rparr>) c) }
      else if is_key key ''cleanSession'' then do {
        b \<leftarrow> config_flag value; Some (set_account (\<lambda>a. a\<lparr>acc_clean_session := b\<rparr>) c) }
      else if is_key key ''keepAlive'' then do {
        n \<leftarrow> atoi value; Some (set_account (\<lambda>a. a\<lparr>acc_keep_alive := n\<rparr>) c) }
      else if is_key key ''will'' \<and> given then
        (if is_key key ''willTopic'' \<and> given then do {
           s \<leftarrow> config_string value; Some (set_account (\<lambda>a. a\<lparr>acc_will_topic := s\<rparr>) c) }
         else do {
           s \<leftarrow> config_string value; Some (set_account (\<lambda>a. a\<lparr>acc_will := s\<rparr>) c) })
      else if is_key key ''retain'' then do {
        b \<leftarrow> config_flag value; Some (set_account (\<lambda>a. a\<lparr>acc_is_retain := b\<rparr>) c) }
      else if is_key key ''qos'' then do {
        n \<leftarrow> atoi value; Some (set_account (\<lambda>a. a\<lparr>acc_qos := of_int n\<rparr>) c) }
      else if is_key key ''isSecure'' then do {
        b \<leftarrow> config_flag value; Some (set_account (\<lambda>a. a\<lparr>acc_is_secure := b\<rparr>) c) }
      else if is_key key ''certKeyPath'' \<and> given then do {
        s \<leftarrow> config_string value; Some (set_account (\<lambda>a. a\<lparr>acc_certificate := s\<rparr>) c) }
      else if is_key key ''certPassword'' \<and> given then do {
        s \<leftarrow> config_string value; Some (set_account (\<lambda>a. a\<lparr>acc_certificate_password := s\<rparr>) c) }
      else if is_key key ''topicName'' then do {
        s \<leftarrow> config_string value; Some (c\<lparr>cfg_topic_name := s\<rparr>) }
      else if is_key key ''period'' then do { n \<leftarrow> atoi value; Some (c\<lparr>cfg_period := n\<rparr>) }
      else if is_key key ''messageQos'' then do { n \<leftarrow> atoi value; Some (c\<lparr>cfg_qos := n\<rparr>) }
      else if is_key key ''messageRetain'' then do { b \<leftarrow> config_flag value; Some (c\<lparr>cfg_retain := b\<rparr>) }
      else if is_key key ''messageDup'' then do { b \<leftarrow> config_flag value; Some (c\<lparr>cfg_dup := b\<rparr>) }
      else Some c)"

text \<open>\<open>strtok(_key, ":")\<close> and \<open>strstr(_value, ":") + 1\<close>, both followed whether NULL or not.\<close>

definition key_of :: "cstr \<Rightarrow> cstr option" where
  "key_of s = (let t = dropWhile (\<lambda>b. b = 58) s in if t = [] then None else Some (takeWhile (\<lambda>b. b \<noteq> 58) t))"

definition value_of :: "cstr \<Rightarrow> cstr option" where
  "value_of s = (if 58 \<in> set s then Some (tl (dropWhile (\<lambda>b. b \<noteq> 58) s)) else None)"

definition config_line :: "byte list \<Rightarrow> app_config \<Rightarrow> app_config option" where
  "config_line line c =
     (if hd line = 35 \<or> hd line = 10 \<or> hd line = 32 then Some c
      else do {
        key \<leftarrow> key_of (cstr_of line);
        value \<leftarrow> value_of (cstr_of line);
        config_entry key value c
      })"

function config_lines :: "byte list \<Rightarrow> app_config \<Rightarrow> app_config option" where
  "config_lines input c =
     (if input = [] then Some c
      else let (line, rest) = fgets 1024 input in do { c \<leftarrow> config_line line c; config_lines rest c })"
  by pat_completeness auto
termination
proof (relation "measure (\<lambda>(input, c). length input)")
  fix input line rest :: "byte list" and c c' :: app_config and x
  assume "input \<noteq> []" "x = fgets 1024 input" "(line, rest) = x"
  moreover have "length (snd (fgets 1024 input)) < length input"
    using calculation(1) by (cases input) (simp_all add: fgets_def Let_def)
  ultimately show "((rest, c'), input, c) \<in> measure (\<lambda>(input, c). length input)"
    by (metis in_measure case_prod_conv snd_conv)
qed simp

declare config_lines.simps [simp del]

text \<open>Whether the settings are accepted; otherwise the process ends.\<close>

definition config_valid :: "app_config \<Rightarrow> bool option" where
  "config_valid c =
     (let acc = cfg_account c in
      if acc_client_id acc = Null then Some False
      else do {
        n \<leftarrow> c_strlen (acc_client_id acc);
        if n = 0 then Some False
        else if acc_keep_alive acc < 0 \<or> 65535 < acc_keep_alive acc then Some False
        else if (acc_will acc = Null) \<noteq> (acc_will_topic acc = Null) then Some False
        else if acc_server_port acc < 1 \<or> 65535 < acc_server_port acc then Some False
        else if cfg_protocol c = 1 \<or> cfg_protocol c = 2 then do {
          n \<leftarrow> c_strlen (acc_will acc);
          Some (n \<le> 1399)
        } else Some True
      })"

text \<open>\<open>Inl\<close> is the status the process exits with.\<close>

definition load_config :: "byte list ptr \<Rightarrow> Account \<Rightarrow> (int + app_config) option" where
  "load_config input acc =
     (case input of
        Ref bs \<Rightarrow> do {
          c \<leftarrow> config_lines bs (config_start acc);
          valid \<leftarrow> config_valid c;
          Some (if valid then Inr c else Inl 1)
        }
      | _ \<Rightarrow> Some (Inl 1))"

subsection \<open>The properties\<close>

lemma get_str_undefined: "get_str_from_value value = None"
  by (auto simp: get_str_from_value_def bind_eq_None_conv rd_n_def wr_at_def c_malloc_def split: if_splits)

lemma config_string_undefined [simp]: "config_string value = None" "config_flag value = None"
  by (simp_all add: config_string_def config_flag_def get_str_undefined)

lemma config_entry_client_id:
  "config_entry key value c = Some c' \<Longrightarrow> acc_client_id (cfg_account c') = acc_client_id (cfg_account c)"
  by (auto simp: config_entry_def set_account_def bind_Some_iff Let_def split: if_splits)

lemma config_lines_client_id:
  "config_lines input c = Some c' \<Longrightarrow> acc_client_id (cfg_account c') = acc_client_id (cfg_account c)"
proof (induction input c rule: config_lines.induct)
  case (1 input c)
  show ?case
  proof (cases "input = []")
    case False
    obtain line rest where f: "fgets 1024 input = (line, rest)" by (cases "fgets 1024 input")
    then obtain c1 where c1: "config_line line c = Some c1" "config_lines rest c1 = Some c'"
      using 1(2) False by (subst (asm) config_lines.simps) (auto simp: bind_Some_iff)
    then have "acc_client_id (cfg_account c1) = acc_client_id (cfg_account c)"
      using config_entry_client_id by (auto simp: config_line_def bind_Some_iff split: if_splits)
    then show ?thesis using 1(1) [OF False f [symmetric] refl] c1 by simp
  qed (use 1(2) in \<open>simp add: config_lines.simps\<close>)
qed

text \<open>
  C34: the application never starts with a configuration: whatever the file, \<open>load_config\<close> is undefined or the process
  exits. A string or a flag is terminated one byte behind the block it was copied to, and without a client
  id the settings are refused.
\<close>

theorem config_never_loaded:
  "load_config input acc \<noteq> Some (Inr c) \<and> get_str_from_value value = None \<and>
    (load_config (Ref (c_text ''clientId:'' @ rest)) acc = None)"
proof -
  have null: "config_lines bs (config_start acc) = Some c' \<Longrightarrow> config_valid c' = Some False" for bs c'
    using config_lines_client_id [of bs "config_start acc" c'] by (simp add: config_valid_def config_start_def)
  have "load_config input acc \<noteq> Some (Inr c)"
    using null by (cases input) (auto simp: load_config_def bind_Some_iff)
  moreover have "config_lines (c_text ''clientId:'' @ rest) (config_start acc) = None"
  proof -
    obtain line more where f: "fgets 1024 (c_text ''clientId:'' @ rest) = (line, more)" by fastforce
    then have "\<exists>r. line = c_text ''clientId:'' @ r"
      by (auto simp: fgets_def Let_def c_text_def split: if_splits)
    then obtain r where "line = c_text ''clientId:'' @ r" by blast
    then have "config_line line (config_start acc) = None"
      by (simp add: config_line_def c_text_def cstr_of_def key_of_def value_of_def config_entry_def is_key_def to_lower_def)
    then show ?thesis using f by (subst config_lines.simps) (simp add: c_text_def)
  qed
  ultimately show ?thesis by (simp add: get_str_undefined load_config_def)
qed

end
