(* ===== verification/App.thy ===== *)
theory App
  imports AppConfig WsClient SnClient CoapClient AmqpSession
begin

text \<open>
  The application over the four clients: \<open>main\<close>, \<open>open_connection\<close>, the callbacks and one round of the thread that
  sends the readings, of src/src/app.c. The clients' functions are reached through the listener, which each client
  fills when it is initialised.
\<close>

subsection \<open>The state\<close>

text \<open>
  \<open>app_client\<close> is the client whose functions the listener holds, \<open>app_worker\<close> says whether the sending thread was
  created, and \<open>app_exit\<close> is the status the process ended with.
\<close>

datatype client = UseMqtt | UseSn | UseCoap | UseAmqp

record app_state =
  app_settings :: app_config
  app_client :: "client option"
  app_mqtt :: mqtt_state
  app_sn :: sn_state
  app_coap :: coap_state
  app_amqp :: amqp_state
  app_worker :: bool
  app_exit :: "int option"

definition app_start :: "app_config \<Rightarrow> app_state" where
  "app_start c = \<lparr>app_settings = c, app_client = None, app_mqtt = mqtt_init, app_sn = sn_init, app_coap = coap_init,
     app_amqp = amqp_init, app_worker = False, app_exit = None\<rparr>"

definition protocol_of :: "u32 \<Rightarrow> Protocol option" where
  "protocol_of n = (if n = 0 then Some MQTT else if n = 1 then Some MQTT_SN else if n = 2 then Some COAP
     else if n = 3 then Some AMQP else if n = 4 then Some WEBSOCKETS else None)"

text \<open>The account with its protocol, which is only looked at for the protocols there are.\<close>

definition app_account :: "app_state \<Rightarrow> Account" where
  "app_account st = (let c = app_settings st in
     case protocol_of (cfg_protocol c) of Some p \<Rightarrow> (cfg_account c)\<lparr>acc_protocol := p\<rparr> | None \<Rightarrow> cfg_account c)"

subsection \<open>Connecting\<close>

text \<open>\<open>connected\<close> is what the network client returns. Any other result than 0 is a failure.\<close>

definition open_connection :: "int \<Rightarrow> app_state \<Rightarrow> bool \<times> app_state" where
  "open_connection connected st =
     (let acc = app_account st;
          mqtt = (let (m, r) = init_mqtt_client acc connected (app_mqtt st)
                  in (r = 0, st\<lparr>app_client := Some UseMqtt, app_mqtt := m\<rparr>)) in
      case protocol_of (cfg_protocol (app_settings st)) of
        Some MQTT \<Rightarrow> mqtt
      | Some MQTT_SN \<Rightarrow> (let (m, r) = init_mqtt_sn_client acc connected (app_sn st)
                         in (r = 0, st\<lparr>app_client := Some UseSn, app_sn := m\<rparr>))
      | Some COAP \<Rightarrow> (let (m, r) = init_coap_client acc connected (app_coap st)
                      in (r = 0, st\<lparr>app_client := Some UseCoap, app_coap := m\<rparr>))
      | Some AMQP \<Rightarrow> (let (m, r) = init_amqp_client acc connected (app_amqp st)
                      in (r = 0, st\<lparr>app_client := Some UseAmqp, app_amqp := m\<rparr>))
      | Some WEBSOCKETS \<Rightarrow> mqtt
      | None \<Rightarrow> (False, st\<lparr>app_exit := Some 1\<rparr>))"

subsection \<open>What the clients call back\<close>

definition connection_success :: "bool \<Rightarrow> app_state \<Rightarrow> app_state" where
  "connection_success ok st = (if ok then st\<lparr>app_worker := True\<rparr> else st)"

definition connection_unsuccessful :: "app_state \<Rightarrow> app_state" where
  "connection_unsuccessful st = st\<lparr>app_exit := Some 1\<rparr>"

text \<open>
  The call a client made, if its event was one. The listener's functions for publications were never set, so that
  giving the application a publication calls an unset pointer.
\<close>

datatype callback = NoCall | Success | Unsuccessful | Publication

definition mqtt_call :: "event \<Rightarrow> callback" where
  "mqtt_call e = (case e of ConnectionSuccessful \<Rightarrow> Success | ConnectionUnsuccessful _ \<Rightarrow> Unsuccessful | _ \<Rightarrow> NoCall)"

definition sn_call :: "sn_event \<Rightarrow> callback" where
  "sn_call e = (case e of SnConnected \<Rightarrow> Success | SnPublication _ _ _ _ _ \<Rightarrow> Publication | _ \<Rightarrow> NoCall)"

definition coap_call :: "coap_event \<Rightarrow> callback" where
  "coap_call e = (case e of CoapConnected \<Rightarrow> Success | CoapPublication _ _ _ \<Rightarrow> Publication | _ \<Rightarrow> NoCall)"

definition amqp_call :: "amqp_event \<Rightarrow> callback" where
  "amqp_call e = (case e of AmqpConnected \<Rightarrow> Success | _ \<Rightarrow> NoCall)"

fun app_called :: "bool \<Rightarrow> callback list \<Rightarrow> app_state \<Rightarrow> app_state option" where
  "app_called ok [] st = Some st"
| "app_called ok (call # calls) st =
     (if app_exit st \<noteq> None then Some st
      else case call of
        NoCall \<Rightarrow> app_called ok calls st
      | Success \<Rightarrow> app_called ok calls (connection_success ok st)
      | Unsuccessful \<Rightarrow> app_called ok calls (connection_unsuccessful st)
      | Publication \<Rightarrow> None)"

text \<open>
  A step \<open>f\<close> of the client the listener belongs to, with the calls it makes; its functions are unset before a client
  was initialised. \<open>new_calls\<close> are those of the events the step added.
\<close>

definition new_calls :: "('e \<Rightarrow> callback) \<Rightarrow> 'e list \<Rightarrow> 'e list \<Rightarrow> callback list" where
  "new_calls call es es' = map call (drop (length es) es')"

definition client_step ::
    "bool \<Rightarrow> (mqtt_state \<Rightarrow> mqtt_state option) \<Rightarrow> (sn_state \<Rightarrow> sn_state option) \<Rightarrow> (coap_state \<Rightarrow> coap_state option) \<Rightarrow>
     (amqp_state \<Rightarrow> amqp_state option) \<Rightarrow> app_state \<Rightarrow> app_state option" where
  "client_step ok mqtt sn coap amqp st =
     (case app_client st of
        None \<Rightarrow> None
      | Some UseMqtt \<Rightarrow> do {
          m \<leftarrow> mqtt (app_mqtt st);
          app_called ok (new_calls mqtt_call (events (app_mqtt st)) (events m)) (st\<lparr>app_mqtt := m\<rparr>)
        }
      | Some UseSn \<Rightarrow> do {
          m \<leftarrow> sn (app_sn st);
          app_called ok (new_calls sn_call (sn_events (app_sn st)) (sn_events m)) (st\<lparr>app_sn := m\<rparr>)
        }
      | Some UseCoap \<Rightarrow> do {
          m \<leftarrow> coap (app_coap st);
          app_called ok (new_calls coap_call (coap_events (app_coap st)) (coap_events m)) (st\<lparr>app_coap := m\<rparr>)
        }
      | Some UseAmqp \<Rightarrow> do {
          m \<leftarrow> amqp (app_amqp st);
          app_called ok (new_calls amqp_call (am_events (app_amqp st)) (am_events m)) (st\<lparr>app_amqp := m\<rparr>)
        })"

text \<open>\<open>mqtt_listener->send_connect(account)\<close>, and data from the network.\<close>

definition app_send_connect :: "'j jansson \<Rightarrow> bool \<Rightarrow> app_state \<Rightarrow> app_state option" where
  "app_send_connect J ok st =
     client_step ok (send_connect (ws_of J) ok (app_account st)) (send_sn_connect ok (app_account st))
       (coap_connect ok) (start_amqp_connect ok) st"

definition app_receive :: "'j jansson \<Rightarrow> bool \<Rightarrow> byte list \<Rightarrow> int \<Rightarrow> app_state \<Rightarrow> app_state option" where
  "app_receive J ok buf n st =
     client_step ok (mqtt_data_received (ws_of J) ok buf n) (process_sn_rx ok buf)
       (process_coap_rx buf n) (amqp_data_received ok buf n) st"

text \<open>
  A round of the sending thread: \<open>content\<close> is the text of the reading, which the JSON library wrote. CoAP ignores
  the flags.
\<close>

definition send_message_round :: "'j jansson \<Rightarrow> bool \<Rightarrow> cstr ptr \<Rightarrow> app_state \<Rightarrow> app_state option" where
  "send_message_round J ok content st =
     (let c = app_settings st; topic = cfg_topic_name c; q = cfg_qos c; retain = cfg_retain c; dup = cfg_dup c in
      client_step ok (send_publish (ws_of J) content topic q retain dup) (send_sn_message content topic q retain dup)
        (send_coap_message content topic q) (send_amqp_transfer content topic q retain dup) st)"

text \<open>\<open>main\<close>: a failed attempt is repeated after five seconds. \<open>results\<close> are those of the attempts made.\<close>

fun app_main :: "'j jansson \<Rightarrow> bool \<Rightarrow> int list \<Rightarrow> app_state \<Rightarrow> app_state option" where
  "app_main J ok [] st = Some st"
| "app_main J ok (r # results) st =
     (case open_connection r st of (good, st) \<Rightarrow>
        if app_exit st \<noteq> None then Some st
        else if good then app_send_connect J ok st
        else app_main J ok results st)"


subsection \<open>Connecting\<close>

lemma new_calls_append [simp]: "new_calls call es es = []" "new_calls call es (es @ es') = map call es'"
  "new_calls call [] es' = map call es'"
  by (simp_all add: new_calls_def)

lemma app_start_simps [simp]:
  "app_settings (app_start c) = c" "app_client (app_start c) = None" "app_mqtt (app_start c) = mqtt_init"
  "app_sn (app_start c) = sn_init" "app_coap (app_start c) = coap_init" "app_amqp (app_start c) = amqp_init"
  "\<not> app_worker (app_start c)" "app_exit (app_start c) = None"
  by (simp_all add: app_start_def)

text \<open>What an attempt leaves: the client of the protocol has the account, and its functions are the listener's.\<close>

definition installed :: "Protocol \<Rightarrow> app_state \<Rightarrow> app_state" where
  "installed p st = (let acc = (cfg_account (app_settings st))\<lparr>acc_protocol := p\<rparr> in
     case p of
       MQTT_SN \<Rightarrow> st\<lparr>app_client := Some UseSn, app_sn := (app_sn st)\<lparr>sn_account := Ref acc, sn_listener := True\<rparr>\<rparr>
     | COAP \<Rightarrow> st\<lparr>app_client := Some UseCoap, app_coap := (app_coap st)\<lparr>coap_account := Ref acc, coap_listener := True,
         coap_client_delay := acc_keep_alive acc\<rparr>\<rparr>
     | AMQP \<Rightarrow> st\<lparr>app_client := Some UseAmqp, app_amqp := (app_amqp st)\<lparr>am_account := Ref acc, am_listener := True\<rparr>\<rparr>
     | _ \<Rightarrow> st\<lparr>app_client := Some UseMqtt, app_mqtt := (app_mqtt st)\<lparr>account := Ref acc\<rparr>\<rparr>)"

lemma app_account_protocol:
  "protocol_of (cfg_protocol (app_settings st)) = Some p \<Longrightarrow>
    app_account st = (cfg_account (app_settings st))\<lparr>acc_protocol := p\<rparr>"
  by (simp add: app_account_def Let_def)

lemma open_connection_installs:
  "protocol_of (cfg_protocol (app_settings st)) = Some p \<Longrightarrow> open_connection r st = (r = 0, installed p st)"
  by (cases p) (simp_all add: open_connection_def installed_def app_account_protocol init_mqtt_client_def
      init_mqtt_sn_client_def init_coap_client_def init_amqp_client_def Let_def)

lemma installed_simps [simp]:
  "app_settings (installed p st) = app_settings st" "app_exit (installed p st) = app_exit st"
  "app_worker (installed p st) = app_worker st" "installed p (installed p st) = installed p st"
  by (cases p; simp add: installed_def)+

lemma app_main_attempts:
  assumes "protocol_of (cfg_protocol (app_settings st)) = Some p" "app_exit st = None" "0 \<notin> set fails"
  shows "app_main J ok (fails @ 0 # rest) st = app_send_connect J ok (installed p st)"
  using assms
proof (induction fails arbitrary: st)
  case (Cons r fails)
  have "app_main J ok (fails @ 0 # rest) (installed p st) = app_send_connect J ok (installed p (installed p st))"
    using Cons.prems by (intro Cons.IH) simp_all
  then show ?case using Cons.prems by (simp add: open_connection_installs)
qed (simp add: open_connection_installs)


definition connect_message :: "Account \<Rightarrow> Message" where
  "connect_message acc = \<lparr>message_type = Some CONNECT, packet = Ref (PConnect (connect_packet acc))\<rparr>"

lemma mqtt_init_ok [simp]: "client_inv mqtt_init" "sn_inv sn_init"
  using mqtt_reachable.start [THEN mqtt_reachable_inv]
  by (simp_all add: sn_inv_def sn_init_def map_init_ok sn_keyed_def)

lemma send_connect_fired:
  assumes "client_inv st"
    and "\<And>st'. account st' = account st \<Longrightarrow> encode_and_fire ws (connect_message acc) st' = Some (emit e st')"
  obtains st' where "send_connect ws True acc st = Some st'" "client_inv st'" "account st' = account st"
    "connecter st' = Running" "current_packet_number st' = current_packet_number st"
    "client_delay st' = of_int (acc_keep_alive acc)" "events st' = events st @ [e]"
    "id_abs (msg_map st') = [0 \<mapsto> connect_message acc]"
proof -
  let ?st = "emit e (st\<lparr>client_delay := of_int (acc_keep_alive acc)\<rparr>)\<lparr>msg_map := map_init, connecter := Running\<rparr>"
  have "client_inv (emit e (st\<lparr>client_delay := of_int (acc_keep_alive acc)\<rparr>))" using assms(1) by simp
  then have "client_inv ?st"
    using start_connect_timer_inv [of ws True "emit e (st\<lparr>client_delay := of_int (acc_keep_alive acc)\<rparr>)" ?st]
    by (simp add: start_connect_timer_def)
  moreover have "message_packet_id (connect_message acc) = Some 0"
    by (simp add: message_packet_id_def connect_message_def)
  ultimately obtain m' where m': "add_message_in_map (connect_message acc) ?st = Some (?st\<lparr>msg_map := m'\<rparr>)"
    "client_inv (?st\<lparr>msg_map := m'\<rparr>)" "id_abs m' = (id_abs (msg_map ?st))(0 \<mapsto> connect_message acc)"
    by (rule add_message_ok)
  show thesis
  proof (rule that [of "?st\<lparr>msg_map := m'\<rparr>"])
    have "\<not> exited ?st" using \<open>client_inv ?st\<close> by (rule client_invD)
    moreover have "encode_and_fire ws (connect_message acc) (st\<lparr>client_delay := of_int (acc_keep_alive acc)\<rparr>) =
        Some (emit e (st\<lparr>client_delay := of_int (acc_keep_alive acc)\<rparr>))"
      by (rule assms(2)) simp
    ultimately show "send_connect ws True acc st = Some (?st\<lparr>msg_map := m'\<rparr>)"
      using m'(1) by (simp add: send_connect_def start_connect_timer_def connect_message_def [symmetric] Let_def)
  qed (use m' in \<open>simp_all add: emit_def\<close>)
qed

lemma send_sn_connect_fired:
  assumes "sn_inv st" "sn_wire (sn_connect_message acc) = Some body" "length body \<le> 253"
  obtains st' where "send_sn_connect True acc st = Some st'" "sn_inv st'" "sn_connecter st' = Running"
    "sn_listener st' = sn_listener st" "sn_events st' = sn_events st @ [sn_sent acc SN_CONNECT body]"
proof -
  let ?e = "sn_sent acc SN_CONNECT body"
  let ?s0 = "sn_emit ?e (st\<lparr>sn_client_delay := acc_keep_alive acc, sn_account := Ref acc\<rparr>)"
  let ?st = "?s0\<lparr>messages_map := map_init, sn_connecter := Running\<rparr>"
  have fire: "sn_encode_and_fire (sn_connect_message acc) (st\<lparr>sn_client_delay := acc_keep_alive acc, sn_account := Ref acc\<rparr>) = Some ?s0"
    using sn_fire_wire [OF _ assms(2), of "st\<lparr>sn_client_delay := acc_keep_alive acc, sn_account := Ref acc\<rparr>" acc] assms(3)
    by (simp add: sn_supports_def sn_connect_message_def)
  have "sn_inv ?st"
    using sn_fire_inv [OF fire] sn_start_connect_inv [of True ?s0 ?st] assms(1)
    by (simp add: sn_inv_def sn_start_connect_timer_def)
  moreover have "sn_message_packet_id (sn_connect_message acc) = Some 0"
    by (simp add: sn_message_packet_id_def sn_connect_message_def)
  ultimately obtain m' where m': "sn_add_message_in_map (sn_connect_message acc) ?st = Some (?st\<lparr>messages_map := m'\<rparr>)"
    "sn_inv (?st\<lparr>messages_map := m'\<rparr>)"
    by (rule sn_add_message_ok)
  have "\<not> sn_exited ?st" using \<open>sn_inv ?st\<close> by (simp add: sn_inv_def)
  then show thesis
    using that [of "?st\<lparr>messages_map := m'\<rparr>"] m' fire
    by (simp add: send_sn_connect_def sn_start_connect_timer_def sn_emit_def)
qed


subsection \<open>Publications for the application\<close>

lemma app_called_publication:
  assumes "Publication \<in> set calls" "Unsuccessful \<notin> set calls" "app_exit st = None"
  shows "app_called ok calls st = None"
  using assms
proof (induction calls arbitrary: st)
  case (Cons call calls)
  then show ?case by (cases call) (auto simp: connection_success_def)
qed simp

lemma sn_call_never_unsuccessful [simp]: "Unsuccessful \<notin> set (new_calls sn_call es es')"
  by (auto simp: new_calls_def sn_call_def split: sn_event.splits)

lemma coap_call_never_unsuccessful [simp]: "Unsuccessful \<notin> set (new_calls coap_call es es')"
  by (auto simp: new_calls_def coap_call_def split: coap_event.splits)

lemma sn_publish_delivered:
  assumes "sn_decode buf = Some \<lparr>sn_message_type = SN_PUBLISH, sn_packet = Ref (PSnPublish p)\<rparr>"
    and "process_sn_rx ok buf st = Some st'"
  shows "Publication \<in> set (new_calls sn_call (sn_events st) (sn_events st'))"
  using assms
  by (auto simp: process_sn_rx_def sn_handle_message_def sn_handle_publish_def bind_Some_iff Let_def
      send_sn_puback_def send_sn_pubrec_def send_sn_id_def sn_encode_and_fire_def sn_emit_def new_calls_def sn_call_def
      split: if_splits)

lemma coap_delivered:
  assumes "coap_decode buf n = Some (Ref m)" "coap_code m \<in> {POST, PUT}" "coap_type m \<noteq> ACKNOWLEDGEMENT"
    and "coap_scan_topic (coap_options m) 0 = Some (name, q)" "name \<noteq> Null"
    and "process_coap_rx buf n st = Some st'"
  shows "Publication \<in> set (new_calls coap_call (coap_events st) (coap_events st'))"
proof -
  have ack: "\<exists>e. s' = coap_emit e s" if "send_coap_ack m True s = Some s'" for s s'
    using that by (auto simp: send_coap_ack_def coap_encode_and_fire_def bind_Some_iff)
  have removed: "coap_events s' = coap_events s" if "coap_remove_message_from_map i s = Some s'" for i s s'
    using that by (auto simp: coap_remove_message_from_map_def bind_Some_iff)
  from assms obtain s1 where s1: "send_coap_ack m True st = Some s1"
    "coap_handle_type m (coap_emit (CoapPublication (coap_payload m) name q) s1) = Some st'"
    by (auto simp: process_coap_rx_def coap_handle_message_def bind_Some_iff)
  obtain e where e: "s1 = coap_emit e st" using ack [OF s1(1)] by blast
  have "\<exists>es. coap_events st' = coap_events st @ e # CoapPublication (coap_payload m) name q # es"
    using s1(2) assms(3) e removed ack
    by (cases "coap_type m") (fastforce simp: coap_handle_type_def coap_emit_def)+
  then show ?thesis by (auto simp: coap_call_def)
qed

text \<open>
  C35: the application cannot be given a publication: it never sets the listener's function for them, so that every
  PUBLISH received over MQTT-SN, and every PUT or POST with a topic received over CoAP, makes the client call an unset
  pointer.
\<close>

theorem app_publication_undefined:
  assumes "app_exit st = None"
    and "app_client st = Some UseSn \<and>
        sn_decode buf = Some \<lparr>sn_message_type = SN_PUBLISH, sn_packet = Ref (PSnPublish p)\<rparr> \<or>
      app_client st = Some UseCoap \<and> coap_decode buf n = Some (Ref m) \<and> coap_code m \<in> {POST, PUT} \<and>
        coap_type m \<noteq> ACKNOWLEDGEMENT \<and> coap_scan_topic (coap_options m) 0 = Some (name, q) \<and> name \<noteq> Null"
  shows "app_receive J ok buf n st = None"
  using assms(2)
proof
  assume sn: "app_client st = Some UseSn \<and> sn_decode buf = Some \<lparr>sn_message_type = SN_PUBLISH, sn_packet = Ref (PSnPublish p)\<rparr>"
  then show ?thesis
    using assms(1) sn_publish_delivered [of buf p ok "app_sn st"]
    by (cases "process_sn_rx ok buf (app_sn st)")
      (auto simp: app_receive_def client_step_def intro!: app_called_publication)
next
  assume "app_client st = Some UseCoap \<and> coap_decode buf n = Some (Ref m) \<and> coap_code m \<in> {POST, PUT} \<and>
        coap_type m \<noteq> ACKNOWLEDGEMENT \<and> coap_scan_topic (coap_options m) 0 = Some (name, q) \<and> name \<noteq> Null"
  then show ?thesis
    using assms(1) coap_delivered [of buf n m name q "app_coap st"]
    by (cases "process_coap_rx buf n (app_coap st)")
      (auto simp: app_receive_def client_step_def intro!: app_called_publication)
qed

definition sample_config :: "u32 \<Rightarrow> app_config" where
  "sample_config p = \<lparr>cfg_account = sample_account, cfg_protocol = p, cfg_topic_name = Ref [0x61], cfg_period = 60,
     cfg_qos = 1, cfg_retain = 0, cfg_dup = 0\<rparr>"

theorem app_publication_undefined_witness:
  "app_receive json_model True [0x41, 3, 0, 7, 0x37, 0xb1, 0x61, 0xff, 0x31, 0] 9 (installed COAP (app_start (sample_config 2))) = None"
  by (rule app_publication_undefined [where name = "Ref [0x61]" and q = 0 and m = "(sample_coap [0x31])\<lparr>coap_token_length := Some 1\<rparr>"])
    (auto simp: installed_def sample_request_decoded sample_coap_def rd_n_def cstr_of_def)


subsection \<open>Sessions\<close>

lemma app_connect_mqtt:
  assumes "protocol_of (cfg_protocol c) = Some p" "p = MQTT \<or> p = WEBSOCKETS" "acc = (cfg_account c)\<lparr>acc_protocol := p\<rparr>"
    and "\<And>st. account st = Ref acc \<Longrightarrow> encode_and_fire (ws_of J) (connect_message acc) st = Some (emit e st)"
    and "mqtt_call e = NoCall"
  obtains m where "client_inv m" "account m = Ref acc" "connecter m = Running" "current_packet_number m = 0"
    "id_abs (msg_map m) = [0 \<mapsto> connect_message acc]" "events m = [e]"
    "app_send_connect J True (installed p (app_start c)) = Some ((installed p (app_start c))\<lparr>app_mqtt := m\<rparr>)"
proof -
  let ?m = "mqtt_init\<lparr>account := Ref acc\<rparr>"
  have inv: "client_inv ?m" by simp
  have fire: "encode_and_fire (ws_of J) (connect_message acc) st' = Some (emit e st')" if "account st' = account ?m" for st'
    using assms(4) that by simp
  obtain m where m: "send_connect (ws_of J) True acc ?m = Some m" "client_inv m" "account m = account ?m"
    "connecter m = Running" "current_packet_number m = current_packet_number ?m" "events m = events ?m @ [e]"
    "id_abs (msg_map m) = [0 \<mapsto> connect_message acc]"
    by (rule send_connect_fired [OF inv fire])
  have "app_account (installed p (app_start c)) = acc"
    using assms(1,3) by (simp add: app_account_protocol)
  moreover have "app_mqtt (installed p (app_start c)) = ?m" "app_client (installed p (app_start c)) = Some UseMqtt"
    using assms(2,3) by (auto simp: installed_def)
  ultimately show thesis
    using that [of m] m assms(5) by (simp add: app_send_connect_def client_step_def mqtt_init_def)
qed

lemma app_connect_sn:
  assumes "protocol_of (cfg_protocol c) = Some MQTT_SN" "acc = (cfg_account c)\<lparr>acc_protocol := MQTT_SN\<rparr>"
    and "sn_wire (sn_connect_message acc) = Some body" "length body \<le> 253"
  obtains m where "sn_connecter m = Running" "sn_events m = [sn_sent acc SN_CONNECT body]"
    "app_send_connect J True (installed MQTT_SN (app_start c)) = Some ((installed MQTT_SN (app_start c))\<lparr>app_sn := m\<rparr>)"
proof -
  let ?m = "sn_init\<lparr>sn_account := Ref acc, sn_listener := True\<rparr>"
  have "sn_inv ?m" using mqtt_init_ok(2) by (simp add: sn_inv_def)
  then obtain m where m: "send_sn_connect True acc ?m = Some m" "sn_connecter m = Running"
    "sn_events m = sn_events ?m @ [sn_sent acc SN_CONNECT body]"
    using send_sn_connect_fired assms(3,4) by metis
  have "app_account (installed MQTT_SN (app_start c)) = acc"
    using assms(1,2) by (simp add: app_account_protocol)
  then show thesis
    using that [of m] m assms(2)
    by (simp add: app_send_connect_def client_step_def sn_init_def installed_def sn_call_def sn_sent_def)
qed

text \<open>
  C28: however many attempts to connect fail, the first that succeeds starts the session of the account's protocol: the
  CONNECT of MQTT, over WebSockets or not, or of MQTT-SN is sent and its retransmission runs, or the header of the SASL
  protocol of AMQP. Over CoAP nothing is sent: the pings start, and the thread that sends the readings, which over the
  other protocols waits for the server, starts at once.
\<close>

theorem app_connects:
  assumes "0 \<notin> set fails" "protocol_of (cfg_protocol c) = Some p" "acc = (cfg_account c)\<lparr>acc_protocol := p\<rparr>"
    and "p = MQTT \<Longrightarrow> mqtt_sent (connect_message acc) = Some (first, body) \<and> length body < 128"
    and "p = WEBSOCKETS \<Longrightarrow> ws_encode J (connect_message acc) = Some (Ref s)"
    and "p = MQTT_SN \<Longrightarrow> sn_wire (sn_connect_message acc) = Some sn_body \<and> length sn_body \<le> 253"
  shows "\<exists>st. app_main J True (fails @ 0 # rest) (app_start c) = Some st \<and> app_exit st = None \<and>
    (case p of
       MQTT \<Rightarrow> events (app_mqtt st) = [RawFire (map Some (packet_bytes first body))] \<and> connecter (app_mqtt st) = Running
     | WEBSOCKETS \<Rightarrow> events (app_mqtt st) = [Fire (Ref s)] \<and> connecter (app_mqtt st) = Running
     | MQTT_SN \<Rightarrow> sn_events (app_sn st) = [sn_sent acc SN_CONNECT sn_body] \<and> sn_connecter (app_sn st) = Running
     | AMQP \<Rightarrow> am_events (app_amqp st) = [AmqpSend (map Some (proto_bytes 3))] \<and> am_connecter (app_amqp st) = Running
     | COAP \<Rightarrow> coap_events (app_coap st) = [CoapConnected] \<and> coap_pinger (app_coap st) = Running) \<and>
    (app_worker st \<longleftrightarrow> p = COAP)"
proof -
  have main: "app_main J True (fails @ 0 # rest) (app_start c) = app_send_connect J True (installed p (app_start c))"
    using assms(1,2) by (intro app_main_attempts) simp_all
  show ?thesis
  proof (cases p)
    case MQTT
    then have p: "protocol_of (cfg_protocol c) = Some p" "p = MQTT \<or> p = WEBSOCKETS" using assms(2) by simp_all
    have "encode_and_fire (ws_of J) (connect_message acc) st =
        Some (emit (RawFire (map Some (packet_bytes first body))) st)" if "account st = Ref acc" for st
      using encode_and_fire_wire [OF that] assms(3,4) MQTT by (simp add: encoder_supports_def connect_message_def)
    from app_connect_mqtt [OF p assms(3) this] obtain m where
      "events m = [RawFire (map Some (packet_bytes first body))]" "connecter m = Running"
      "app_send_connect J True (installed p (app_start c)) = Some ((installed p (app_start c))\<lparr>app_mqtt := m\<rparr>)"
      by (auto simp: mqtt_call_def)
    then show ?thesis using MQTT main by simp
  next
    case WEBSOCKETS
    then have p: "protocol_of (cfg_protocol c) = Some p" "p = MQTT \<or> p = WEBSOCKETS" using assms(2) by simp_all
    have "encode_and_fire (ws_of J) (connect_message acc) st = Some (emit (Fire (Ref s)) st)" if "account st = Ref acc" for st
      using ws_fired [OF assms(5) that] assms(3) WEBSOCKETS by simp
    from app_connect_mqtt [OF p assms(3) this] obtain m where "events m = [Fire (Ref s)]" "connecter m = Running"
      "app_send_connect J True (installed p (app_start c)) = Some ((installed p (app_start c))\<lparr>app_mqtt := m\<rparr>)"
      by (auto simp: mqtt_call_def)
    then show ?thesis using WEBSOCKETS main by simp
  next
    case MQTT_SN
    from app_connect_sn [of c acc sn_body J] obtain m where "sn_connecter m = Running"
      "sn_events m = [sn_sent acc SN_CONNECT sn_body]"
      "app_send_connect J True (installed MQTT_SN (app_start c)) = Some ((installed MQTT_SN (app_start c))\<lparr>app_sn := m\<rparr>)"
      using MQTT_SN assms(2,3,6) by metis
    then show ?thesis using MQTT_SN main by simp
  next
    case COAP
    then show ?thesis
      using assms(3) by (simp add: main installed_def app_send_connect_def client_step_def coap_connect_def coap_init_def
          coap_emit_def start_coap_ping_timer_def coap_call_def new_calls_def connection_success_def)
  next
    case AMQP
    then show ?thesis
      using assms(3) by (simp add: main installed_def app_send_connect_def client_step_def start_amqp_connect_def
          proto_sent amqp_start_connect_timer_def amqp_init_def amqp_emit_def amqp_call_def new_calls_def)
  qed
qed


lemma sample_connect_wire:
  "mqtt_sent (connect_message sample_account) = Some (0x10, [0, 4, 0x4D, 0x51, 0x54, 0x54, 4, 2, 0, 60, 0, 1, 0x63])"
  by (simp add: mqtt_sent_def mqtt_layout_def connect_message_def connect_packet_def sample_account_def as_connect_def
      connect_body_def str_bytes_def short_bytes_def
      opt_string_def wire_string_def)

theorem app_connects_witness:
  "\<exists>st. app_main json_model True [-1, 0] (app_start (sample_config 0)) = Some st \<and>
    events (app_mqtt st) =
      [RawFire (map Some [0x10, 13, 0, 4, 0x4D, 0x51, 0x54, 0x54, 4, 2, 0, 60, 0, 1, 0x63])] \<and> \<not> app_worker st"
  using app_connects [where fails = "[-1]" and c = "sample_config 0" and p = MQTT and acc = sample_account and J = json_model and
      rest = "[]"] sample_connect_wire
  by (auto simp: protocol_of_def sample_config_def packet_bytes_def vbi_small sample_account_def)

lemma app_refused:
  assumes "client_inv m" "account m = Ref acc" "acc_protocol acc = MQTT" "connecter m = Running"
    and "app_mqtt st = m" "app_client st = Some UseMqtt" "app_exit st = None"
    and "sp \<in> {0, 1}" "0 < code" "code \<le> 5"
  shows "\<exists>st'. app_receive J ok (packet_bytes 0x20 [sp, code] @ extra) 4 st = Some st' \<and> app_exit st' = Some 1"
proof -
  have "client_inv (m\<lparr>connecter := Cancelled\<rparr>)" using assms(1) by simp
  then obtain t where t: "remove_message_from_map 0 (m\<lparr>connecter := Cancelled\<rparr>) = Some (m\<lparr>connecter := Cancelled, msg_map := t\<rparr>)"
    by (rule remove_message_ok)
  have code: "(ucast code :: u32) \<noteq> 0" using assms(9) by transfer (simp add: take_bit_int_eq_self)
  let ?m = "emit (ConnectionUnsuccessful (ucast code)) (m\<lparr>connecter := Cancelled, msg_map := t\<rparr>)"
  have "process_rx (ws_of J) ok (packet_bytes 0x20 [sp, code] @ extra) m = Some ?m"
    using decode_connack_packet [OF assms(8,10), of extra] assms(2-4) t code
    by (simp add: process_rx_def handle_message_def handle_connack_def as_connack_def stop_connect_timer_def
        pthread_cancel_def)
  then have "mqtt_data_received (ws_of J) ok (packet_bytes 0x20 [sp, code] @ extra) 4 m = Some ?m"
    using assms(2) by (simp add: mqtt_data_received_def packet_bytes_def rd_def vbi_small)
  then show ?thesis
    using assms(5-7) by (simp add: app_receive_def client_step_def emit_def mqtt_call_def connection_unsuccessful_def)
qed




end
