(* ===== verification/LwsNet.thy ===== *)
theory LwsNet
  imports AmqpSession
begin

text \<open>
  src/src/net/lws_net_client.c, the network client of MQTT and AMQP over the library libwebsockets. The library runs in
  its own thread: it is the order in which it calls \<open>callback_minimal_broker\<close>, and its results are arguments. What the
  library is told to do is a list of calls. All callbacks, and what the clients do in them, are on that one thread.
\<close>

subsection \<open>The state\<close>

datatype lws_call =
    LwsConnect "cstr ptr" int bool bool string
  | LwsTimer
  | WriteText "byte list"
  | WriteRaw mem

text \<open>
  \<open>lws_ssl\<close> and \<open>lws_protocol\<close> are those of the account, \<open>lws_vhd\<close> says whether the library has made the data of the
  virtual host, \<open>lws_wsi\<close> whether there is a connection in it. The calls keep host, port, whether TLS is used, whether
  the connection is raw, and the path. \<open>lws_writable\<close> says that a writeable callback was requested.
\<close>

record lws_state =
  lws_host :: "cstr ptr"
  lws_port :: int
  lws_ssl :: bool
  lws_protocol :: Protocol
  lws_vhd :: bool
  lws_wsi :: bool
  lws_established :: bool
  pending_data :: "mem ptr"
  pending_len :: int
  lws_writable :: bool
  lws_calls :: "lws_call list"
  lws_interrupted :: bool

definition lws_call :: "lws_call \<Rightarrow> lws_state \<Rightarrow> lws_state" where
  "lws_call c st = st\<lparr>lws_calls := lws_calls st @ [c]\<rparr>"

subsection \<open>The callbacks\<close>

text \<open>The connection exists unless the library's result is NULL; 1 is a failure.\<close>

definition connect_ws_client :: "bool \<Rightarrow> lws_state \<Rightarrow> bool \<times> lws_state" where
  "connect_ws_client connected st =
     (\<not> connected,
      lws_call (LwsConnect (lws_host st) (lws_port st) (lws_ssl st) (lws_protocol st \<noteq> WEBSOCKETS)
        (if lws_protocol st \<noteq> WEBSOCKETS then ''/'' else ''/ws'')) (st\<lparr>lws_wsi := connected\<rparr>))"

text \<open>
  The reasons of the library the code has a case for, \<open>User\<close>, which is the reason of a timer that expired, and all
  others.
\<close>

datatype reason =
    ProtocolInit bool
  | ConnectionError
  | Established
  | Closed
  | ClientReceive
  | RawRx
  | ClientWriteable
  | RawWriteable
  | RawAdopt
  | User
  | OtherReason

text \<open>\<open>strlen\<close> of what is pending.\<close>

definition pending_text :: "lws_state \<Rightarrow> byte list option" where
  "pending_text st = do {
     m \<leftarrow> deref (pending_data st);
     let w = takeWhile (\<lambda>b. b \<noteq> None \<and> b \<noteq> Some 0) m;
     c_assert (length w < length m \<and> m ! length w = Some 0);
     Some (map the w)
   }"

definition pending_raw :: "lws_state \<Rightarrow> mem option" where
  "pending_raw st = do {
     m \<leftarrow> deref (pending_data st);
     c_assert (0 \<le> pending_len st \<and> pending_len st \<le> int (length m));
     Some (take (nat (pending_len st)) m)
   }"

text \<open>
  \<open>callback_minimal_broker\<close>. Received data goes to the client, whose handler is \<open>receive\<close>; what it does with the
  network is in the state it returns.
\<close>

definition callback_minimal_broker ::
    "(lws_state \<Rightarrow> lws_state option) \<Rightarrow> reason \<Rightarrow> lws_state \<Rightarrow> lws_state option" where
  "callback_minimal_broker receive r st =
     (case r of
        ProtocolInit connected \<Rightarrow>
          (case connect_ws_client connected (st\<lparr>lws_vhd := True, lws_established := False\<rparr>) of
             (failed, st) \<Rightarrow> Some (if failed then lws_call LwsTimer st else st))
      | ConnectionError \<Rightarrow> do { c_assert (lws_vhd st); Some (lws_call LwsTimer (st\<lparr>lws_wsi := False\<rparr>)) }
      | Established \<Rightarrow> do { c_assert (lws_vhd st); Some (st\<lparr>lws_established := True\<rparr>) }
      | Closed \<Rightarrow> do {
          c_assert (lws_vhd st);
          Some (lws_call LwsTimer (st\<lparr>lws_wsi := False, lws_established := False\<rparr>))
        }
      | ClientReceive \<Rightarrow> receive st
      | RawRx \<Rightarrow> receive st
      | ClientWriteable \<Rightarrow> do {
          s \<leftarrow> pending_text st;
          c_assert (lws_vhd st);
          Some (lws_call (WriteText s) st)
        }
      | RawWriteable \<Rightarrow> do {
          m \<leftarrow> pending_raw st;
          c_assert (lws_vhd st);
          Some (lws_call (WriteRaw m) st)
        }
      | RawAdopt \<Rightarrow> do { c_assert (lws_vhd st); Some (st\<lparr>lws_established := True\<rparr>) }
      | User \<Rightarrow> Some st
      | OtherReason \<Rightarrow> Some st)"

subsection \<open>The operations of the clients\<close>

text \<open>What is to be sent waits in one place until the library calls back. A request needs a connection.\<close>

definition on_writable :: "lws_state \<Rightarrow> lws_state option" where
  "on_writable st = do { c_assert (lws_vhd st \<and> lws_wsi st); Some (st\<lparr>lws_writable := True\<rparr>) }"

definition fire :: "cstr ptr \<Rightarrow> lws_state \<Rightarrow> lws_state option" where
  "fire s st = on_writable (st\<lparr>pending_data := map_ptr (\<lambda>s. map Some s @ [Some 0]) s\<rparr>)"

definition raw_fire :: "mem \<Rightarrow> int \<Rightarrow> lws_state \<Rightarrow> lws_state option" where
  "raw_fire s len st = on_writable (st\<lparr>pending_data := Ref s, pending_len := len\<rparr>)"

definition lws_close_tcp_connection :: "lws_state \<Rightarrow> lws_state" where
  "lws_close_tcp_connection st = st\<lparr>lws_interrupted := True\<rparr>"

text \<open>
  The wait of \<open>open_lws_net_connection\<close>: \<open>seen n\<close> is what the \<open>n\<close>-th look at the virtual host finds, nothing or
  whether it is connected. The wait need not end.
\<close>

partial_function (option) await_established :: "(nat \<Rightarrow> bool option) \<Rightarrow> nat \<Rightarrow> nat option" where
  "await_established seen counter =
     (if seen counter = None \<or> seen counter = Some False \<and> counter < 15
      then await_established seen (counter + 1) else Some counter)"

definition open_lws_net_connection ::
    "cstr ptr \<Rightarrow> int \<Rightarrow> int \<Rightarrow> Protocol \<Rightarrow> bool \<Rightarrow> bool \<Rightarrow> (nat \<Rightarrow> bool option) \<Rightarrow> lws_state \<Rightarrow> (int \<times> lws_state) option" where
  "open_lws_net_connection host port secure protocol made ok seen st =
     (let st = st\<lparr>lws_host := host, lws_port := port, lws_ssl := secure \<noteq> 0, lws_protocol := protocol\<rparr> in
      if \<not> made then Some (- 1, st)
      else if \<not> ok then Some (- 1, st)
      else do {
        n \<leftarrow> await_established seen 0;
        Some (if seen n = Some True then 0 else - 1, st)
      })"


subsection \<open>One place for what is sent\<close>

datatype outgoing = Text cstr | Raw mem

definition send_out :: "outgoing \<Rightarrow> lws_state \<Rightarrow> lws_state option" where
  "send_out m st = (case m of Text s \<Rightarrow> fire (Ref s) st | Raw b \<Rightarrow> raw_fire b (int (length b)) st)"

fun send_all :: "outgoing list \<Rightarrow> lws_state \<Rightarrow> lws_state option" where
  "send_all [] st = Some st"
| "send_all (m # ms) st = do { st \<leftarrow> send_out m st; send_all ms st }"

text \<open>The messages sent before the library's writeable callback, which is the one of the kind of connection, and it.\<close>

definition writeable_of :: "outgoing \<Rightarrow> reason" where
  "writeable_of m = (case m of Text s \<Rightarrow> ClientWriteable | Raw b \<Rightarrow> RawWriteable)"

definition written :: "outgoing \<Rightarrow> lws_call" where
  "written m = (case m of Text s \<Rightarrow> WriteText s | Raw b \<Rightarrow> WriteRaw b)"

fun send_groups :: "outgoing list list \<Rightarrow> lws_state \<Rightarrow> lws_state option" where
  "send_groups [] st = Some st"
| "send_groups (ms # groups) st = do {
     st \<leftarrow> send_all ms st;
     st \<leftarrow> callback_minimal_broker Some (writeable_of (last ms)) st;
     send_groups groups st
   }"

text \<open>What is pending, as long as there is a connection.\<close>

definition holds :: "outgoing \<Rightarrow> lws_state \<Rightarrow> bool" where
  "holds m st = (case m of
     Text s \<Rightarrow> pending_data st = Ref (map Some s @ [Some 0])
   | Raw b \<Rightarrow> pending_data st = Ref b \<and> pending_len st = int (length b))"

lemma send_out_holds:
  assumes "lws_vhd st" "lws_wsi st"
  obtains st' where "send_out m st = Some st'" "holds m st'" "lws_vhd st'" "lws_wsi st'" "lws_calls st' = lws_calls st"
  using assms that by (cases m) (auto simp: send_out_def fire_def raw_fire_def on_writable_def holds_def)

lemma send_all_holds:
  assumes "lws_vhd st" "lws_wsi st" "ms \<noteq> []"
  obtains st' where "send_all ms st = Some st'" "holds (last ms) st'" "lws_vhd st'" "lws_wsi st'"
    "lws_calls st' = lws_calls st"
  using assms
proof (induction ms arbitrary: st thesis)
  case (Cons m ms)
  obtain s1 where s1: "send_out m st = Some s1" "holds m s1" "lws_vhd s1" "lws_wsi s1" "lws_calls s1 = lws_calls st"
    by (rule send_out_holds [OF Cons.prems(2,3)])
  show ?case
  proof (cases "ms = []")
    case True
    then show ?thesis using Cons.prems(1) s1 by simp
  next
    case False
    from Cons.IH [OF _ s1(3,4) this] Cons.prems(1) s1(1,5) False show ?thesis by auto
  qed
qed simp

lemma takeWhile_text: "takeWhile (\<lambda>b. (\<exists>y. b = Some y) \<and> b \<noteq> Some 0) (map Some s @ [Some 0]) = map Some s"
  if "cstr_ok s"
  using that by (induction s) (simp_all add: cstr_ok_def)

lemma holds_written:
  assumes "holds m st" "lws_vhd st" "case m of Text s \<Rightarrow> cstr_ok s | Raw b \<Rightarrow> True"
  shows "callback_minimal_broker receive (writeable_of m) st = Some (lws_call (written m) st)"
  using assms by (cases m) (simp_all add: holds_def callback_minimal_broker_def writeable_of_def written_def pending_text_def
      pending_raw_def takeWhile_text Let_def o_def nth_append)

text \<open>
  C29: of the messages the clients send before the library's writeable callback only the last is written: what waits to be
  sent is in one place. They all arrive, in their order, when the callback comes after each of them.
\<close>

theorem lws_last_written:
  assumes "lws_vhd st" "lws_wsi st" "\<forall>ms \<in> set groups. ms \<noteq> [] \<and> (\<forall>s. last ms = Text s \<longrightarrow> cstr_ok s)"
  shows "\<exists>st'. send_groups groups st = Some st' \<and>
    lws_calls st' = lws_calls st @ map (\<lambda>ms. written (last ms)) groups"
  using assms
proof (induction groups arbitrary: st)
  case (Cons ms groups)
  then have ms: "ms \<noteq> []" "case last ms of Text s \<Rightarrow> cstr_ok s | Raw b \<Rightarrow> True" by (auto split: outgoing.splits)
  obtain s1 where s1: "send_all ms st = Some s1" "holds (last ms) s1" "lws_vhd s1" "lws_wsi s1"
    "lws_calls s1 = lws_calls st"
    by (rule send_all_holds [OF Cons.prems(1,2) ms(1)])
  have s2: "callback_minimal_broker Some (writeable_of (last ms)) s1 = Some (lws_call (written (last ms)) s1)"
    by (rule holds_written [OF s1(2,3) ms(2)])
  have "lws_vhd (lws_call (written (last ms)) s1)" "lws_wsi (lws_call (written (last ms)) s1)"
    using s1(3,4) by (simp_all add: lws_call_def)
  from Cons.IH [OF this] Cons.prems(3) s1(1,5) s2 show ?case by (auto simp: lws_call_def)
qed simp

definition lws_sample :: lws_state where
  "lws_sample = \<lparr>lws_host = Ref [0x68], lws_port = 1883, lws_ssl = False, lws_protocol = MQTT, lws_vhd = True, lws_wsi = True,
     lws_established = True, pending_data = Null, pending_len = 0, lws_writable = False, lws_calls = [],
     lws_interrupted = False\<rparr>"

theorem lws_last_written_witness:
  "\<exists>st'. send_groups [[Raw [Some 1], Raw [Some 2]], [Raw [Some 3]]] lws_sample = Some st' \<and>
    lws_calls st' = [WriteRaw [Some 2], WriteRaw [Some 3]]"
  using lws_last_written [of lws_sample "[[Raw [Some 1], Raw [Some 2]], [Raw [Some 3]]]"]
  by (simp add: lws_sample_def written_def)

subsection \<open>The connection\<close>

definition wait_over :: "(nat \<Rightarrow> bool option) \<Rightarrow> nat \<Rightarrow> bool" where
  "wait_over seen n \<longleftrightarrow> seen n = Some True \<or> seen n = Some False \<and> 15 \<le> n"

lemma await_step:
  "await_established seen k = (if wait_over seen k then Some k else await_established seen (k + 1))"
  by (subst await_established.simps) (cases "seen k"; auto simp: wait_over_def)

lemma await_result:
  assumes ret: "await_established seen k = Some n"
  shows "wait_over seen n"
proof (rule await_established.raw_induct [where P = "\<lambda>seen k n. wait_over seen n", OF _ ret])
  fix f and seen :: "nat \<Rightarrow> bool option" and k n
  assume IH: "\<And>seen k n. f seen k = Some n \<Longrightarrow> wait_over seen n"
    and eq: "(if seen k = None \<or> seen k = Some False \<and> k < 15 then f seen (k + 1) else Some k) = Some n"
  show "wait_over seen n"
  proof (cases "seen k = None \<or> seen k = Some False \<and> k < 15")
    case True
    with eq have "f seen (k + 1) = Some n" by auto
    then show ?thesis by (rule IH)
  next
    case False
    then have "wait_over seen k" by (cases "seen k") (auto simp: wait_over_def)
    with eq False show ?thesis by simp
  qed
qed

lemma await_least:
  assumes "wait_over seen (k + d)" "\<And>j. k \<le> j \<Longrightarrow> j < k + d \<Longrightarrow> \<not> wait_over seen j"
  shows "await_established seen k = Some (k + d)"
  using assms
proof (induction d arbitrary: k)
  case (Suc d)
  have "await_established seen (k + 1) = Some (k + 1 + d)"
    using Suc.prems by (intro Suc.IH) simp_all
  then show ?case using Suc.prems(2) [of k] by (subst await_step) simp
qed (subst await_step, simp)

lemma await_eq:
  "await_established seen 0 = (if \<exists>n. wait_over seen n then Some (LEAST n. wait_over seen n) else None)"
proof (cases "\<exists>n. wait_over seen n")
  case True
  then obtain n where "wait_over seen n" by blast
  then have "wait_over seen (LEAST n. wait_over seen n)" by (rule LeastI)
  then have "await_established seen 0 = Some (0 + (LEAST n. wait_over seen n))"
    by (intro await_least) (simp, metis add_0 not_less_Least)
  then show ?thesis using True by simp
next
  case False
  then show ?thesis using await_result [of seen 0] by (cases "await_established seen 0") auto
qed

text \<open>
  Opening a connection returns if and only if the connection is seen established at some time, or the virtual host is
  seen made at look 15, counted from 0, or later: then with 0 at the first look that finds the connection established, and
  otherwise with a failure. While the library does not make its virtual host the wait has no end.
\<close>

theorem lws_open_returns:
  "map_option fst (open_lws_net_connection host port secure protocol True True seen st) =
    (if \<exists>n. wait_over seen n then Some (if seen (LEAST n. wait_over seen n) = Some True then 0 else - 1) else None) \<and>
   ((\<exists>n. wait_over seen n) \<longleftrightarrow> (\<exists>n. seen n = Some True \<or> 15 \<le> n \<and> seen n \<noteq> None))"
proof (rule conjI)
  show "(\<exists>n. wait_over seen n) \<longleftrightarrow> (\<exists>n. seen n = Some True \<or> 15 \<le> n \<and> seen n \<noteq> None)"
  proof
    assume "\<exists>n. seen n = Some True \<or> 15 \<le> n \<and> seen n \<noteq> None"
    then obtain n b where "seen n = Some b" "b \<or> 15 \<le> n" by auto
    then have "wait_over seen n" by (cases b) (simp_all add: wait_over_def)
    then show "\<exists>n. wait_over seen n" by blast
  qed (auto simp: wait_over_def)
qed (simp add: open_lws_net_connection_def await_eq)

subsection \<open>The AMQP client over it\<close>

text \<open>
  The client's handler in the callback: what it sends is \<open>raw_fire\<close>d in the callback itself, so that the library's
  writeable callback comes after all of it.
\<close>

definition amqp_outgoing :: "amqp_event list \<Rightarrow> outgoing list" where
  "amqp_outgoing es = concat (map (\<lambda>e. case e of AmqpSend m \<Rightarrow> [Raw m] | _ \<Rightarrow> []) es)"

definition amqp_over_lws ::
    "bool \<Rightarrow> byte list \<Rightarrow> int \<Rightarrow> amqp_state \<times> lws_state \<Rightarrow> (amqp_state \<times> lws_state) option" where
  "amqp_over_lws ok buf n st =
     (case st of (am, net) \<Rightarrow> do {
        am' \<leftarrow> amqp_data_received ok buf n am;
        net \<leftarrow> callback_minimal_broker
          (send_all (amqp_outgoing (drop (length (am_events am)) (am_events am')))) RawRx net;
        Some (am', net)
      })"

text \<open>An unsettled message with one data section, and the frame it comes in.\<close>

definition delivery :: "int \<times> int \<times> byte list \<Rightarrow> byte list" where
  "delivery = (\<lambda>(handle, i, content). peer_frame (ATransfer (transfer_packet handle i 1 content)) [content] 0)"

definition delivery_ok :: "int \<times> int \<times> byte list \<Rightarrow> bool" where
  "delivery_ok = (\<lambda>(handle, i, content). c_ulong handle \<and> 0 \<le> i \<and> i < 256 \<and> length content \<le> 255)"

definition disposition_for :: "int \<times> int \<times> byte list \<Rightarrow> amqp_event" where
  "disposition_for = (\<lambda>(handle, i, content). amqp_sent (accepted_disposition i) [] 0)"

lemma delivery_sized:
  assumes "delivery_ok d"
  shows "amqp_sized (delivery d)"
proof -
  obtain h i c where d: "d = (h, i, c)" by (cases d)
  have ok: "packet_ok (ATransfer (transfer_packet h i 1 c))"
    using assms d by (intro transfer_ok) (auto simp: delivery_ok_def)
  have "length (section_bytes c) \<le> 300" using assms d by (simp add: delivery_ok_def section_bytes_def)
  then show ?thesis
    using packet_body_small [OF ok] length_packet_bytes [of "ATransfer (transfer_packet h i 1 c)"]
    unfolding delivery_def d prod.case peer_frame_def by (intro amqp_frame_sized) (simp del: amqp_bytes.simps packet_value.simps packet_body.simps)
qed

lemma delivery_answered:
  assumes "delivery_ok d" "am_channel st = 0"
  shows "process_amqp_rx ok (delivery d) st = Some (amqp_emit (disposition_for d) st)"
proof -
  obtain h i c where d: "d = (h, i, c)" by (cases d)
  have "c_ulong h" "c_ulong i" "length c \<le> 255" using assms d by (auto simp: delivery_ok_def)
  note ok = transfer_ok(1) [OF this(1,2)] transfer_ok(2) [OF this(1,2,3)]
  have "process_amqp_rx ok (peer_frame (ATransfer (transfer_packet h i 1 c)) [c] 0) st =
      Some (if (0 :: int) \<noteq> 0 then st
        else amqp_emit (amqp_sent (accepted_disposition (if i < 256 then i else i div 2 ^ 24)) [] (am_channel st)) st)"
    by (rule amqp_incoming_dropped [OF ok]) (simp_all add: transfer_packet_def)
  then show ?thesis
    using assms d by (simp add: delivery_def disposition_for_def delivery_ok_def)
qed

lemma deliveries_processed:
  assumes "\<forall>d \<in> set ds. delivery_ok d" "am_channel st = 0" "\<not> am_exited st"
  shows "amqp_process_all ok (map delivery ds) st =
    Some (st\<lparr>am_events := am_events st @ map disposition_for ds\<rparr>)"
  using assms
proof (induction ds arbitrary: st)
  case (Cons d ds)
  have "amqp_process_all ok (map delivery ds) (amqp_emit (disposition_for d) st) =
      Some ((amqp_emit (disposition_for d) st)\<lparr>am_events := am_events (amqp_emit (disposition_for d) st) @ map disposition_for ds\<rparr>)"
    using Cons.prems by (intro Cons.IH) (simp_all add: amqp_emit_def)
  then show ?case
    using Cons.prems delivery_answered [of d st ok] by (simp add: amqp_emit_def)
qed simp

text \<open>
  C36: when several unsettled messages come in one read, the client answers each with a DISPOSITION, and only the answer to
  the last one reaches the server: the others are overwritten before the library writes.
\<close>

theorem amqp_replies_lost:
  assumes "\<forall>d \<in> set ds. delivery_ok d" "ds \<noteq> []" "am_channel am = 0" "\<not> am_exited am"
    and "lws_vhd net" "lws_wsi net" "4 \<le> length rest"
  shows "\<exists>am' net' m. amqp_over_lws ok (concat (map delivery ds) @ rest) (int (length (concat (map delivery ds)))) (am, net) =
      Some (am', net') \<and> am_events am' = am_events am @ map disposition_for ds \<and>
    disposition_for (last ds) = AmqpSend m \<and>
    callback_minimal_broker Some RawWriteable net' = Some (lws_call (WriteRaw m) net') \<and> lws_calls net' = lws_calls net"
proof -
  let ?am = "am\<lparr>am_events := am_events am @ map disposition_for ds\<rparr>"
  have "amqp_data_received ok (concat (map delivery ds) @ rest) (int (length (concat (map delivery ds)))) am = Some ?am"
    using amqp_frames_processed [of "map delivery ds" ok rest am] deliveries_processed [OF assms(1,3,4), of ok]
      delivery_sized assms(1,2,4,7)
    by simp
  moreover have out: "amqp_outgoing (map disposition_for ds) =
      map (\<lambda>(h, i, c). Raw (map Some (amqp_frame 2 0 0 (packet_body (accepted_disposition i))))) ds"
    by (induction ds) (auto simp: amqp_outgoing_def disposition_for_def amqp_sent_def)
  obtain net' where net': "send_all (amqp_outgoing (map disposition_for ds)) net = Some net'"
    "holds (last (amqp_outgoing (map disposition_for ds))) net'" "lws_vhd net'" "lws_calls net' = lws_calls net"
    using out assms(2) by (auto intro: send_all_holds [OF assms(5,6), of "amqp_outgoing (map disposition_for ds)"])
  obtain h i c where last: "last ds = (h, i, c)" by (cases "last ds")
  let ?m = "map Some (amqp_frame 2 0 0 (packet_body (accepted_disposition i)))"
  have "last (amqp_outgoing (map disposition_for ds)) = Raw ?m"
    using last assms(2) by (simp add: out last_map)
  moreover from this have "callback_minimal_broker Some RawWriteable net' = Some (lws_call (WriteRaw ?m) net')"
    using holds_written [of "Raw ?m" net' Some] net'(2,3) by (simp add: writeable_of_def written_def)
  moreover have "disposition_for (last ds) = AmqpSend ?m"
    by (simp add: last disposition_for_def amqp_sent_def)
  ultimately show ?thesis
    using net'(1,4) by (auto simp: amqp_over_lws_def callback_minimal_broker_def)
qed

theorem amqp_replies_lost_witness:
  "\<exists>am' net' m. amqp_over_lws True (delivery (4, 1, [0x61]) @ delivery (4, 2, [0x62]) @ [0, 0, 0, 0])
      (int (length (delivery (4, 1, [0x61]) @ delivery (4, 2, [0x62])))) (sample_amqp, lws_sample) = Some (am', net') \<and>
    am_events am' = [disposition_for (4, 1, [0x61]), disposition_for (4, 2, [0x62])] \<and>
    disposition_for (4, 2, [0x62]) = AmqpSend m \<and>
    map_option lws_calls (callback_minimal_broker Some RawWriteable net') = Some [WriteRaw m]"
proof -
  have "am_channel sample_amqp = 0" "\<not> am_exited sample_amqp" "am_events sample_amqp = []"
    by (simp_all add: sample_amqp_def init_amqp_client_def amqp_init_def)
  with amqp_replies_lost [of "[(4, 1, [0x61]), (4, 2, [0x62])]" sample_amqp lws_sample "[0, 0, 0, 0]" True]
  obtain am' net' m where
    "amqp_over_lws True (concat (map delivery [(4, 1, [0x61]), (4, 2, [0x62])]) @ [0, 0, 0, 0])
      (int (length (concat (map delivery [(4, 1, [0x61]), (4, 2, [0x62])])))) (sample_amqp, lws_sample) = Some (am', net')"
    "am_events am' = map disposition_for [(4, 1, [0x61]), (4, 2, [0x62])]"
    "disposition_for (last [(4, 1, [0x61]), (4, 2, [0x62])]) = AmqpSend m"
    "callback_minimal_broker Some RawWriteable net' = Some (lws_call (WriteRaw m) net')" "lws_calls net' = []"
    by (auto simp: delivery_ok_def lws_sample_def)
  then show ?thesis by (simp add: lws_call_def)
qed

end
