(* ===== verification/Spec2Isabelle.thy ===== *)
theory Spec2Isabelle
  imports HashMap MqttParser MqttClient SnClient CoapClient AmqpSession WsClient App LwsNet
begin

text \<open>
  The protocol cores of the IoT broker client for the Raspberry Pi (src/, a C program).

  \<^bold>\<open>The program.\<close> src/src/app.c reads an account (src/src/account.h) and starts the client of its
  protocol: MQTT and MQTT over WebSockets (src/src/mqtt), MQTT-SN (src/src/mqttsn), CoAP (src/src/coap) or
  AMQP (src/src/amqp). A client is three files: a parser, which turns packet structs into bytes and back; a
  timers file, which keeps the unacknowledged messages in a table of src/src/map/map.c and runs the threads
  that ping the server and repeat messages; and the client file, which holds the connection's state, offers the
  operations of src/src/mqtt_listener.h to the application and handles what the network delivers.
  src/src/helpers.c converts integers to and from network order.

  \<^bold>\<open>How it is modelled.\<close> The platform is the one README.md names: 32-bit ARM, little endian, unsigned
  plain \<open>char\<close>. A C computation is an option: \<open>None\<close> is undefined behaviour (an access outside an object,
  through NULL or an indeterminate pointer, or to freed memory; signed overflow), \<open>Some\<close> a computation that
  returns. What the code itself calls an error is an ordinary value. Buffers are lists of bytes or, while
  they are written, of optional bytes (a byte not yet written is \<open>None\<close>); pointers are \<open>Null\<close>, \<open>Wild\<close> (never
  set) or \<open>Ref\<close>. Structs are records, enums datatypes or words, the static variables of a client file and its
  timers file one state record, and what leaves the process a list of events in it.

  \<^item> \<open>Clib\<close>: memory, pointers, strings, buffers written and read, \<open>sprintf\<close> of a number.
  \<^item> \<open>Helpers\<close>: src/src/helpers.c and \<open>decode_remaining_length\<close> of src/src/mqtt/parser.c. Lemmas: the
    integers read back, the variable byte integer of MQTT (\<open>vbi\<close>), reading behind a prefix.
  \<^item> \<open>HashMap\<close>: src/src/map/map.c, with the loops by which its clients walk it. \<open>hm_inv\<close> is its invariant
    and \<open>hm_abs\<close> the finite map it implements. The locales \<open>c_map\<close> (what a client relies on) and
    \<open>c_map_room\<close> (the same while there is room) are interpreted on tables of packet ids and of topic names.
  \<^item> \<open>MqttTypes\<close>, \<open>MqttParser\<close>, \<open>MqttTimers\<close>, \<open>MqttClient\<close>: src/src/mqtt. \<open>packet_bytes\<close> puts the fixed header
    of MQTT 3.1.1 before a body, \<open>mqtt_wire\<close> is the packet of the protocol for a valid message, \<open>mqtt_sent\<close> the one
    the client writes, with two flags of CONNECT exchanged. \<open>mqtt_reachable\<close> are the states the operations,
    the incoming data and the threads lead to, \<open>client_inv\<close> their invariant.
  \<^item> \<open>SnTypes\<close>, \<open>SnParser\<close>, \<open>SnTimers\<close>, \<open>SnClient\<close>: src/src/mqttsn, in the same way; \<open>sn_wire\<close> is the
    packet of MQTT-SN 1.2, with the flags as \<open>sn_flags\<close> has them, \<open>sn_valid\<close> the messages the specification allows,
    \<open>sn_reachable\<close> and \<open>sn_inv\<close> the states.
  \<^item> \<open>CoapParser\<close>, \<open>CoapTimers\<close>, \<open>CoapClient\<close>: src/src/coap; \<open>rfc_message\<close> is the message of RFC 7252,
    \<open>coap_reachable\<close> and \<open>coap_inv\<close> the states.
  \<^item> \<open>AmqpTlv\<close>: src/src/amqp/tlv_factory.c and wrappers/unwrapper.c, the reader of typed values. The readers
    that call each other (\<open>get_tlv\<close>, \<open>get_element\<close>) are defined by a bound on their depth, and by the
    answer at that depth, which \<open>amqp_reader_terminates\<close> shows to be never reached. \<open>reads\<close> says that bytes are read as a value.
  \<^item> \<open>AmqpWrap\<close>: src/src/amqp/wrappers/wrapper.c and amqp_calc.c, the wrapping of values and the bytes of a list.
    \<open>amqp_value\<close> is the value of AMQP's type system that is meant, \<open>amqp_bytes \<delta>\<close> its encoding with size fields given
    by \<open>\<delta>\<close> (\<open>Suc\<close> is the protocol's, \<open>id\<close> the client's), \<open>carries\<close> and \<open>built\<close> relate the two.
  \<^item> \<open>AmqpEncode\<close>, \<open>AmqpDecode\<close>: src/src/amqp/amqp_parser.c and header_factory.c. \<open>packet_value\<close> is the value of a
    packet, \<open>amqp_frame\<close> its frame.
  \<^item> \<open>AmqpRead\<close>: the properties of the AMQP codec; \<open>tlv_abs\<close> is the value a struct of the reader stands for,
    \<open>received\<close> the packet that the decoder makes of one, with its losses, \<open>amqp_faithful\<close> the packets without such a field
    and \<open>same_packet\<close> the equality of packets up to absent fields.
  \<^item> \<open>AmqpTimers\<close>, \<open>AmqpClient\<close>: src/src/amqp/amqp_timers.c and amqp_client.c; \<open>amqp_reachable\<close> are the states.
  \<^item> \<open>AmqpStates\<close>: the invariant \<open>amqp_inv\<close> of these states, kept by every operation.
  \<^item> \<open>AmqpBehaviour\<close>, \<open>AmqpSession\<close>: what the AMQP client sends, keeps and answers.
  \<^item> \<open>Base64\<close>: src/src/ws/base64_parser.c; \<open>rfc4648\<close> is the encoding of the specification, by groups of bits.
  \<^item> \<open>Jansson\<close>: the functions of the JSON library the codec of src/src/ws calls, as a record of functions on an unknown
    type of values, and \<open>jansson_laws\<close>, what the library's documentation says of them. \<open>json_model\<close> is one library with
    these laws.
  \<^item> \<open>WsParser\<close>: src/src/ws/ws_parser.c over such a library. \<open>ws_exchanged\<close> are the messages of the client's sessions
    that it can decode again, \<open>ws_received\<close> what it makes of them.
  \<^item> \<open>WsClient\<close>: the MQTT client with this codec (\<open>ws_of\<close>).
  \<^item> \<open>AppConfig\<close>: \<open>load_config\<close> of src/src/app.c, with the functions of the C library it uses.
  \<^item> \<open>App\<close>: the rest of src/src/app.c over the four clients: \<open>app_main\<close> are the attempts to connect, \<open>client_step\<close> is
    a call through the listener with the callbacks it makes, \<open>send_message_round\<close> a round of the sending thread.
  \<^item> \<open>LwsNet\<close>: src/src/net/lws_net_client.c, the network client of MQTT and AMQP: the callback of libwebsockets, the one
    place where what is sent waits for it, and opening a connection; and the AMQP client over it (\<open>amqp_over_lws\<close>).

  The properties of the MQTT codec, the table and the MQTT client are below, those of the other parts in their theories,
  and those of the whole program in \<open>App\<close> and \<open>LwsNet\<close>.

  \<^bold>\<open>What is shown.\<close> For every codec, that its encoder produces the bytes of the protocol's specification
  for all messages of an explicit class, with the exceptions each property names, and that decoding takes back those of
  an explicit class, with the changes each property names; where the code leaves that class,
  what it does instead: which messages it writes past its buffer, which bytes make its decoder read
  outside the object. For the table, that insertion, lookup and removal refine those of a finite map and
  that a walk visits every key once. For each client, an invariant of all reachable states, what an operation
  sends and keeps, how an incoming packet is answered, and the operations and packets that are undefined. For the program, that its attempts to connect end in
  the session of the account's protocol and how such a session runs over MQTT; that no configuration file is ever
  loaded without undefined behaviour; that an incoming publication is undefined over MQTT-SN and CoAP; that of several
  messages sent before the network library calls back only the last is written, so that answers of the AMQP client get
  lost.

  \<^bold>\<open>Bounds.\<close> Every loop is a terminating recursion or, for the walks over a table, a partial function whose
  result on an intact table is proved to exist. The wait of \<open>open_lws_net_connection\<close>, which need not end, is one too. Only the reader of AMQP values has a bound, on its depth: twice the
  length of the buffer and two more; twice the bytes left and two more are proved to be enough, whatever is answered at that depth. The length of an AMQP frame is assumed to be below
  \<open>2 ^ 30\<close>, far above any buffer of the client, so that it is positive as an \<open>int\<close>. The size of a table is a 32-bit word:
  growing it is shown correct below \<open>2 ^ 28\<close> buckets, which a table of 16-bit packet ids never reaches
  (\<open>id_table\<close>) and which a table of topic names reaches no sooner than \<open>name_room\<close> says.

  \<^bold>\<open>Not modelled.\<close>
  \<^item> The library jansson, a parameter of the WebSocket codec, and the memory its values take.
  \<^item> The sections of an AMQP message other than its data, which the client never sends, and the maps, for which
    its encoder has an empty function.
  \<^item> src/src/net but for lws_net_client.c (sockets, OpenSSL and the copy of dyad), and the library libwebsockets: which
    callbacks it makes is an argument, what it is told to do a list of calls. The fields it is configured with (the
    certificate, the signal handler) and its service loop. In the theories of the clients whether a connection or a
    thread could be made is an argument of the operations, what is sent an event, and what is received an argument.
  \<^item> Of src/src/app.c the clock and the sensor: the text of a reading is an argument of the round that sends it. The
    properties of the sessions are about any configuration, not only about those \<open>load_config\<close> would return.
  \<^item> The time a thread sleeps, and the interleaving of two threads inside an operation: a round of a thread
    is one operation, in any order with the others.
  \<^item> A failing \<open>malloc\<close> in the clients and parsers (in \<open>HashMap\<close> it is an argument), the memory they do not
    free, and what they print. The body of an ENCAPSULATED MQTT-SN message, which the code measures with
    \<open>strlen\<close> of a struct. Shifting a byte above 127 into the sign of an AMQP frame's length wraps, as gcc has it.
\<close>

section \<open>The MQTT codec\<close>

text \<open>
  C1: take a valid message of MQTT 3.1.1 whose packet has a body below 128 bytes, and which is no SUBACK, PINGREQ, PINGRESP
  or DISCONNECT, no SUBSCRIBE to several topics and no CONNECT with an empty will message. \<open>get_length\<close> is the length of the body, and \<open>encode\<close>
  fills its buffer with exactly the bytes of the protocol's packet, with one exception: in a CONNECT that has a user name
  and no password the two highest bits of the connect flags are exchanged, so that a password is announced instead of the
  user name.
\<close>

theorem encoder_correct:
  assumes "mqtt_wire m = Some (first, body)" and "encoder_supports m" and "length body < 128"
  shows "get_length m = Some (length body) \<and>
    encode m (length body) =
      Some (map Some (packet_bytes first (if user_only m then exchange_flags body else body)))"
  using get_length_wire [OF mqtt_wire_sent [OF assms(1)]] encode_wire [OF mqtt_wire_sent [OF assms(1)] assms(2)] assms(3)
  by (simp split: if_splits)

definition sample_publish :: Message where
  "sample_publish = publish_message (Ref [0x68, 0x69]) (Ref [0x61]) 1 0 0 7"

lemma sample_publish_wire:
  "mqtt_wire sample_publish = Some (0x32, [0, 1, 0x61, 0, 7, 0x68, 0x69])"
  "encoder_supports sample_publish"
  by (simp_all add: sample_publish_def mqtt_wire_def mqtt_valid_def mqtt_layout_def publish_message_def as_publish_def
      wire_topic_def wire_string_def encoder_supports_def publish_first_def publish_body_def
      opt_string_def str_bytes_def short_bytes_def)

definition sample_user :: Message where
  "sample_user = \<lparr>message_type = Some CONNECT, packet = Ref (PConnect
     \<lparr>username = Ref [0x75], password = Ref [], client_id = Ref [0x63], clean_session = 1, will_flag = 0, keepalive = 60,
      protocol_level = 4, will = \<lparr>will_topic = \<lparr>topic_name = Null, qos = 0\<rparr>, will_content = Null, will_retain = 0\<rparr>\<rparr>)\<rparr>"

lemma sample_user_wire:
  "mqtt_wire sample_user = Some (0x10, [0, 4, 0x4D, 0x51, 0x54, 0x54, 4, 0x82, 0, 60, 0, 1, 0x63, 0, 1, 0x75])"
  "encoder_supports sample_user" "user_only sample_user"
  by (simp_all add: sample_user_def mqtt_wire_def mqtt_valid_def mqtt_layout_def as_connect_def wire_string_def
      encoder_supports_def user_only_def connect_body_def opt_string_def str_bytes_def short_bytes_def)

theorem encoder_correct_witness:
  "encode sample_publish 7 = Some (map Some [0x32, 7, 0, 1, 0x61, 0, 7, 0x68, 0x69]) \<and>
   encode sample_user 16 =
     Some (map Some [0x10, 16, 0, 4, 0x4D, 0x51, 0x54, 0x54, 4, 0x42, 0, 60, 0, 1, 0x63, 0, 1, 0x75])"
proof -
  have "\<not> user_only sample_publish" by (simp add: sample_publish_def publish_message_def user_only_def)
  with encoder_correct [OF sample_publish_wire] encoder_correct [OF sample_user_wire(1,2)] sample_user_wire(3)
  show ?thesis by (simp add: exchange_flags_def packet_bytes_def vbi_small eval_nat_numeral)
qed

text \<open>
  C2: take any PUBLISH that MQTT 3.1.1 allows and that a message struct can hold (the content is a string, which has no
  zero byte). If its body is below 128 bytes it is encoded to bytes that \<open>decode\<close>, whatever follows them in memory,
  reads back as the same message, but that at QoS 0 it leaves the packet id unset and that it leaves empty content unset;
  if the body has 128 bytes or more the encoder writes past its buffer.
\<close>

theorem publish_roundtrip:
  assumes "q \<in> {0, 1, 2}" and "dup \<noteq> 0 \<Longrightarrow> q \<noteq> 0" and "pid \<noteq> 0 \<longleftrightarrow> q \<noteq> 0"
    and "cstr_ok topic" "topic \<noteq> []" "length topic < 65536" "cstr_ok content"
    and "dup \<in> {0, 1}" "retain \<in> {0, 1}"
  shows "if length (publish_body topic pid content) < 128
    then \<exists>buf. encode (publish_message (Ref content) (Ref topic) q retain dup pid)
                 (length (publish_body topic pid content)) = Some (map Some buf) \<and>
     decode (buf @ rest) =
       Some \<lparr>message_type = Some PUBLISH, packet = Ref (PPublish
         \<lparr>pub_topic = \<lparr>topic_name = Ref topic, qos = of_int q\<rparr>,
          pub_content = (if content = [] then Wild else Ref content),
          pub_retain = retain, pub_dup = dup, is_incoming = None,
          pub_packet_id = (if q = 0 then None else Some pid), pub_time_stamp = None\<rparr>)\<rparr>
    else encode (publish_message (Ref content) (Ref topic) q retain dup pid)
           (length (publish_body topic pid content)) = None"
proof (cases "length (publish_body topic pid content) < 128")
  case True
  let ?p = "\<lparr>pub_topic = \<lparr>topic_name = Ref topic, qos = of_int q\<rparr>, pub_content = Ref content,
     pub_retain = retain, pub_dup = dup, is_incoming = None, pub_packet_id = Some pid,
     pub_time_stamp = None\<rparr>"
  note wire = publish_message_wire [OF assms(5,6), of content q retain dup pid]
  have q: "(of_int q :: u32) \<in> {0, 1, 2}" "(of_int q :: u32) = 0 \<longleftrightarrow> q = 0"
    using assms(1) by auto
  have "decode (packet_bytes (publish_first ?p) (publish_body topic pid content) @ rest) =
      Some (publish_received ?p topic content pid)"
    by (rule decode_publish_packet) (use assms q True in auto)
  moreover have "encode (publish_message (Ref content) (Ref topic) q retain dup pid)
      (length (publish_body topic pid content)) =
      Some (map Some (packet_bytes (publish_first ?p) (publish_body topic pid content)))"
    using encode_wire [OF wire] True by simp
  ultimately show ?thesis
    using True assms(8,9) q by (auto simp: publish_received_def)
next
  case False
  then show ?thesis
    using encode_wire [OF publish_message_wire [OF assms(5,6), of content q retain dup pid]] by simp
qed

theorem publish_roundtrip_witness:
  "\<exists>buf. encode sample_publish 7 = Some (map Some buf) \<and>
     decode buf = Some \<lparr>message_type = Some PUBLISH, packet = Ref (PPublish
         \<lparr>pub_topic = \<lparr>topic_name = Ref [0x61], qos = 1\<rparr>, pub_content = Ref [0x68, 0x69],
          pub_retain = 0, pub_dup = 0, is_incoming = None,
          pub_packet_id = Some 7, pub_time_stamp = None\<rparr>)\<rparr>"
  using publish_roundtrip [of 1 0 7 "[0x61]" "[0x68, 0x69]" 0 "[]"]
  by (simp add: sample_publish_def cstr_ok_def publish_body_def length_opt_string)

text \<open>
  A message whose body has 128 bytes or more does not fit the buffer of \<open>length + 2\<close> bytes that
  \<open>encode\<close> allocates: its length field takes two bytes and the last byte of the packet is written
  past the end.
\<close>

theorem encoder_overflow:
  assumes "mqtt_sent m = Some (first, body)" and "encoder_supports m" and "128 \<le> length body"
  shows "get_length m = Some (length body) \<and> encode m (length body) = None"
  using get_length_wire [OF assms(1)] encode_wire [OF assms(1,2)] assms(3) by simp

theorem encoder_overflow_witness:
  "encode (publish_message (Ref (replicate 125 0x78)) (Ref [0x61]) 0 0 0 0) 128 = None"
  using encoder_overflow [OF publish_message_wire [of "[0x61]" "replicate 125 0x78" 0 0 0 0]]
  by (simp add: publish_body_def length_opt_string)

text \<open>
  The decoder cannot read those packets either: a PUBLISH whose length field has two bytes
  makes \<open>decode\<close> read outside any buffer shorter than 12290 bytes.
\<close>

theorem long_publish_undecodable:
  assumes "drop_bit 4 first AND 0xf = 3" and "128 \<le> unat len"
    and "length bs < 12288"
    and "drop_bit 1 ((first AND 0xf) AND 7) \<le> 2"
    and "bit first 3 \<Longrightarrow> drop_bit 1 ((first AND 0xf) AND 7) \<noteq> 0"
  shows "decode (first # len # bs) = None"
  by (rule decode_publish_long [OF refl assms(1,2) _ assms(4,5)]) (use assms(3) in simp_all)

theorem long_publish_undecodable_witness:
  "decode (0x30 # 0x80 # 0x01 # str_bytes [0x61] @ replicate 125 0x78) = None"
  by (rule long_publish_undecodable) (simp_all add: bit_numeral_rec)

text \<open>
  C39: whatever bytes arrive, a message that \<open>decode\<close> returns is either without a packet or its
  packet is the struct that its type announces, so no cast in a handler reads the wrong struct.
\<close>

theorem decoded_messages_well_tagged:
  assumes "decode buf = Some m"
  shows "well_tagged m"
  using assms by (rule decode_well_tagged)

theorem decoded_messages_well_tagged_witness:
  "well_tagged \<lparr>message_type = Some PUBACK, packet = Ref (PPuback 7)\<rparr>"
  by (rule decoded_messages_well_tagged [of "packet_bytes 0x40 (short_bytes 7) @ []"])
    (rule decode_ack_packet; simp)

lemma ack_wire:
  assumes "ack_packet t i = Some p"
  obtains first where "mqtt_sent \<lparr>message_type = Some t, packet = Ref p\<rparr> = Some (first, short_bytes i)"
    "drop_bit 4 first AND 0xf = of_nat (mt_code t)"
    "encoder_supports \<lparr>message_type = Some t, packet = Ref p\<rparr>"
  using assms
  by (cases t) (auto simp: mqtt_sent_def mqtt_layout_def wire_ack_def as_packet_id_def encoder_supports_def)

text \<open>
  The acknowledgements of the protocol (PUBACK, PUBREC, PUBREL, PUBCOMP, UNSUBACK) and a CONNACK
  with a code of the protocol survive encoding and decoding.
\<close>

theorem ack_roundtrip:
  assumes "ack_packet t i = Some p \<or>
     (t = CONNACK \<and> p = PConnack \<lparr>session_present = uint sp, return_code = ucast code\<rparr> \<and>
      sp \<in> {0, 1 :: byte} \<and> code \<le> (5 :: byte))"
  shows "\<exists>buf. encode \<lparr>message_type = Some t, packet = Ref p\<rparr> 2 = Some (map Some buf) \<and>
           decode (buf @ rest) = Some \<lparr>message_type = Some t, packet = Ref p\<rparr>"
  using assms
proof
  assume a: "ack_packet t i = Some p"
  then obtain first where w:
    "mqtt_sent \<lparr>message_type = Some t, packet = Ref p\<rparr> = Some (first, short_bytes i)"
    "drop_bit 4 first AND 0xf = of_nat (mt_code t)"
    "encoder_supports \<lparr>message_type = Some t, packet = Ref p\<rparr>"
    by (rule ack_wire)
  from encode_wire [OF w(1,3)] decode_ack_packet [OF a w(2), of rest] show ?thesis by simp
next
  assume c: "t = CONNACK \<and> p = PConnack \<lparr>session_present = uint sp, return_code = ucast code\<rparr> \<and>
      sp \<in> {0, 1 :: byte} \<and> code \<le> (5 :: byte)"
  then have w: "mqtt_sent \<lparr>message_type = Some t, packet = Ref p\<rparr> = Some (0x20, [sp, code])"
    and s: "encoder_supports \<lparr>message_type = Some t, packet = Ref p\<rparr>"
    by (auto simp: mqtt_sent_def mqtt_layout_def as_connack_def encoder_supports_def)
  from encode_wire [OF w s] decode_connack_packet [of sp code rest] c show ?thesis
    by (simp add: eval_nat_numeral)
qed

theorem ack_roundtrip_witness:
  "\<exists>buf. encode \<lparr>message_type = Some PUBREL, packet = Ref (PPubrel 300)\<rparr> 2 = Some (map Some buf) \<and>
     decode buf = Some \<lparr>message_type = Some PUBREL, packet = Ref (PPubrel 300)\<rparr>"
  using ack_roundtrip [of PUBREL 300 "PPubrel 300" 0 0 "[]"] by simp

section \<open>Integers on the wire\<close>

text \<open>
  \<open>add_packet_length\<close> writes the variable byte integer of the length after the first byte, into
  any buffer that has room, and a reader of variable byte integers gets the length back.
\<close>

theorem packet_length_roundtrip:
  assumes "length (vbi l) \<le> k"
  shows "\<exists>w. add_packet_length l (fst (wstate [b] k)) = Some w \<and>
           w = wstate (b # vbi l) (k - length (vbi l)) \<and> vbi_decode (vbi l @ rest) = Some (l, rest)"
  using assms vbi_roundtrip by (simp add: add_packet_length_wstate)

theorem packet_length_roundtrip_witness:
  "\<exists>w. add_packet_length 300 (fst (wstate [0x30] 10)) = Some w \<and>
     w = wstate (0x30 # vbi 300) (10 - length (vbi 300)) \<and> vbi_decode (vbi 300 @ []) = Some (300, [])"
  by (rule packet_length_roundtrip) (simp add: vbi.simps)

text \<open>
  \<open>decode_remaining_length\<close> is right for the one-byte lengths and fails for every other: its
  loop reads the same byte again until the multiplier runs out.
\<close>

theorem remaining_length_one_byte_only:
  assumes "decode_remaining_length (first # vbi l @ rest) = Some d"
  shows "d = (if l < 128 then \<lparr>ld_length = int l + 2, ld_bytes_used = 1\<rparr>
              else \<lparr>ld_length = - 1, ld_bytes_used = - 1\<rparr>)"
proof (cases "l < 128")
  case True
  then have "rd (first # vbi l @ rest) 1 = Some (of_nat l)" by (simp add: vbi_small cmem)
  from decode_remaining_length_short [OF this] True assms show ?thesis by (simp add: unat_low7)
next
  case False
  then have r: "rd (first # vbi l @ rest) 1 = Some (of_nat (l mod 128) OR 128)"
    by (simp add: vbi.simps [of l] cmem)
  have "128 \<le> unat ((of_nat (l mod 128) :: byte) OR 128)" by (simp add: unat_or_128)
  from decode_remaining_length_long [OF r this] False assms show ?thesis by simp
qed

theorem remaining_length_one_byte_only_witness:
  "\<lparr>ld_length = - 1, ld_bytes_used = - 1\<rparr> =
     (if (128 :: nat) < 128 then \<lparr>ld_length = int 128 + 2, ld_bytes_used = 1\<rparr>
      else \<lparr>ld_length = - 1, ld_bytes_used = - 1 :: int\<rparr>)"
proof (rule remaining_length_one_byte_only)
  show "decode_remaining_length (0x30 # vbi 128 @ []) = Some \<lparr>ld_length = - 1, ld_bytes_used = - 1\<rparr>"
    by (rule decode_remaining_length_long [of _ "0x80"]) (simp_all add: vbi.simps cmem)
qed

section \<open>The hash table\<close>

text \<open>
  C14: \<open>map_set\<close> implements the update of a finite map. On a table that satisfies the invariant and
  is not near the limit of the address space it is defined, keeps the invariant and returns 0 with
  the key bound to the value, or -1 with the map as it was; -1 only for a new key when an allocation
  failed.
\<close>

theorem map_set_refines:
  assumes "hm_inv m" and "unat (nbuckets m) < 2 ^ 28"
  shows "\<exists>m' r. map_set malloc_ok realloc_ok m key v = Some (m', r) \<and> hm_inv m' \<and>
    (r = 0 \<and> hm_abs m' = (hm_abs m)(key \<mapsto> v) \<or>
     r = - 1 \<and> hm_abs m' = hm_abs m \<and> key \<notin> dom (hm_abs m) \<and> \<not> (malloc_ok \<and> realloc_ok))"
  using map_set_ok [OF assms, of malloc_ok realloc_ok key v] by metis

theorem map_set_refines_witness:
  "\<exists>m'. map_set True True (map_init :: nat map_base) [0x31] 5 = Some (m', 0) \<and> hm_inv m' \<and>
     hm_abs m' = [[0x31] \<mapsto> 5]"
proof -
  have "unat (nbuckets (map_init :: nat map_base)) < 2 ^ 28" by (simp add: map_init_def)
  from map_set_refines [OF map_init_ok(1) this, of True True "[0x31]" 5] show ?thesis
    by (auto simp: map_init_ok(2))
qed

text \<open>
  C15: \<open>map_get\<close> is the lookup and \<open>map_remove\<close> the deletion of the map the table stands for, and
  removal keeps the invariant.
\<close>

theorem map_get_remove_refine:
  assumes "hm_inv m"
  shows "map_get m key = Some (ptr_of (hm_abs m key)) \<and>
    (\<exists>m'. map_remove m key' = Some m' \<and> hm_inv m' \<and> hm_abs m' = (hm_abs m)(key' := None))"
  using map_get_abs [OF assms, of key] map_remove_ok [OF assms, of key']
  by (metis ptr_of_def)

theorem map_get_remove_refine_witness:
  "map_get (map_init :: nat map_base) [0x31] = Some (ptr_of (hm_abs map_init [0x31])) \<and>
    (\<exists>m'. map_remove (map_init :: nat map_base) [0x32] = Some m' \<and> hm_inv m' \<and>
      hm_abs m' = (hm_abs map_init)([0x32] := None))"
  by (rule map_get_remove_refine) (rule map_init_ok)

text \<open>
  C16: a walk with \<open>map_iter\<close> and \<open>map_next\<close> ends and visits every key of the table exactly once,
  with the value that \<open>map_get\<close> returns for it.
\<close>

theorem map_walk_complete:
  assumes "hm_inv m"
  shows "\<exists>es. map_walk m map_iter = Some es \<and> distinct (map fst es) \<and> map_of es = hm_abs m"
proof -
  let ?es = "map (\<lambda>x. (nkey x, the (hm_abs m (nkey x)))) (hm_nodes m)"
  have d: "distinct (map fst ?es)"
    using hm_inv_parts(3) [OF assms] by (simp add: comp_def)
  have "map_of ?es key = hm_abs m key" for key
  proof (cases "key \<in> dom (hm_abs m)")
    case True
    then have "(key, the (hm_abs m key)) \<in> set ?es" by (auto simp: dom_hm_abs)
    with d have "map_of ?es key = Some (the (hm_abs m key))" by (rule map_of_is_SomeI)
    with True show ?thesis by auto
  next
    case False
    then have "key \<notin> fst ` set ?es" by (auto simp: dom_hm_abs)
    then have "map_of ?es key = None" by (simp add: map_of_eq_None_iff)
    with False show ?thesis by (simp add: domIff)
  qed
  with d map_walk_ok [OF assms] show ?thesis by blast
qed

theorem map_walk_complete_witness:
  "\<exists>es. map_walk (map_init :: nat map_base) map_iter = Some es \<and> distinct (map fst es) \<and>
     map_of es = hm_abs map_init"
  by (rule map_walk_complete) (rule map_init_ok)

section \<open>The MQTT client\<close>

text \<open>
  C17: in every state the client can reach, whatever the application asks, whatever arrives and
  however the threads are scheduled between operations, the message table is intact, every message
  in it is stored under its own packet id, and the lookup by scan finds it.
\<close>

theorem mqtt_table_invariant:
  assumes "mqtt_reachable ws st"
  shows "id_table (msg_map st) \<and>
    get_message_from_map i st = Some (ptr_of (id_abs (msg_map st) i)) \<and>
    (id_abs (msg_map st) i = Some msg \<longrightarrow> message_packet_id msg = Some i)"
  using mqtt_reachable_inv [OF assms] get_message_ok [of st i]
  by (simp add: client_inv_def keyed_def)

theorem mqtt_table_invariant_witness:
  "id_table (msg_map mqtt_init) \<and>
    get_message_from_map 1 mqtt_init = Some (ptr_of (id_abs (msg_map mqtt_init) 1))"
  using mqtt_table_invariant [OF mqtt_reachable.start] by blast

text \<open>
  C21: publishing over MQTT with QoS 1 or 2, to a topic of 1 to 65535 bytes, with the retain and duplicate flags 0 or 1 and
  a body below 128 bytes, takes the next packet id, sends the PUBLISH of MQTT 3.1.1 with these flags, this QoS and this id,
  and then keeps the message under that id, so that it is found for a retransmission; the rest of the table stays and the
  invariant survives. (After 65535 publications the id wraps to 0, which the packet then leaves out.)
\<close>

theorem publish_sent_and_kept:
  assumes "client_inv st" "account st = Ref acc" "acc_protocol acc = MQTT"
    and "q = 1 \<or> q = 2" "dup = 0 \<or> dup = 1" "retain = 0 \<or> retain = 1" "current_packet_number st < 2 ^ 31 - 1"
    and "topic \<noteq> []" "length topic < 65536"
    and "i = of_int (current_packet_number st + 1)"
    and "length (publish_body topic i content) < 128"
  shows "\<exists>st'. send_publish ws (Ref content) (Ref topic) q retain dup st = Some st' \<and>
    client_inv st' \<and>
    current_packet_number st' = current_packet_number st + 1 \<and>
    events st' = events st @ [RawFire (map Some (packet_bytes (of_int (0x30 + 8 * dup + 2 * q + retain))
      (publish_body topic i content)))] \<and>
    get_message_from_map i st' = Some (Ref (publish_message (Ref content) (Ref topic) q retain dup i)) \<and>
    (\<forall>j. j \<noteq> i \<longrightarrow> id_abs (msg_map st') j = id_abs (msg_map st) j)"
proof -
  let ?p = "\<lparr>pub_topic = \<lparr>topic_name = Ref topic, qos = of_int q\<rparr>, pub_content = Ref content, pub_retain = retain,
     pub_dup = dup, is_incoming = None, pub_packet_id = Some i, pub_time_stamp = None\<rparr>"
  have "publish_first ?p = of_int (0x30 + 8 * dup + 2 * q + retain)"
    using assms(4-6) by (auto simp: publish_first_def)
  moreover have "q \<noteq> 0" using assms(4) by auto
  ultimately obtain st' where st': "send_publish ws (Ref content) (Ref topic) q retain dup st = Some st'"
    "client_inv st'" "current_packet_number st' = current_packet_number st + 1"
    "id_abs (msg_map st') =
       (id_abs (msg_map st))(i \<mapsto> publish_message (Ref content) (Ref topic) q retain dup i)"
    "events st' = events st @ [RawFire (map Some (packet_bytes (of_int (0x30 + 8 * dup + 2 * q + retain))
       (publish_body topic i content)))]"
    using send_publish_qos [OF assms(1-3) _ assms(7-11), of q ws retain dup] by metis
  with get_message_ok [OF st'(2), of i] show ?thesis by auto
qed

definition sample_ws :: ws_codec where
  "sample_ws = \<lparr>encode_ws = (\<lambda>_. None), decode_ws = (\<lambda>_. None)\<rparr>"

definition sample_state :: mqtt_state where
  "sample_state = fst (init_mqtt_client sample_account 0 mqtt_init)"

lemma sample_state_inv: "client_inv sample_state"
  by (simp add: sample_state_def init_mqtt_client_def client_inv_def mqtt_init_def)

lemma sample_state_account: "account sample_state = Ref sample_account"
  "acc_protocol sample_account = MQTT" "current_packet_number sample_state = 0"
  by (simp_all add: sample_state_def init_mqtt_client_def sample_account_def mqtt_init_def)

theorem publish_sent_and_kept_witness:
  "\<exists>st'. send_publish sample_ws (Ref [0x68]) (Ref [0x61]) 1 0 0 sample_state = Some st' \<and>
    client_inv st' \<and>
    current_packet_number st' = current_packet_number sample_state + 1 \<and>
    events st' = events sample_state @ [RawFire (map Some [0x32, 6, 0, 1, 0x61, 0, 1, 0x68])] \<and>
    get_message_from_map 1 st' = Some (Ref (publish_message (Ref [0x68]) (Ref [0x61]) 1 0 0 1))"
  using publish_sent_and_kept [OF sample_state_inv sample_state_account(1,2),
      of 1 0 0 "[0x61]" 1 "[0x68]" sample_ws]
  by (auto simp: sample_state_account publish_body_def opt_string_def str_bytes_def short_bytes_def packet_bytes_def
      vbi_small)

text \<open>
  A CONNACK that accepts the connection stops the retransmission of CONNECT, takes CONNECT out of
  the table, tells the application, and starts the pings at the account's keep-alive interval.
\<close>

theorem connack_starts_session:
  assumes "client_inv st" "connecter st = Running" "account st = Ref acc" "acc_protocol acc = MQTT"
    and "sp \<in> {0, 1}"
  shows "\<exists>st'. process_rx ws True (packet_bytes 0x20 [sp, 0] @ rest) st = Some st' \<and>
    client_inv st' \<and> connecter st' = Cancelled \<and> pinger st' = Running \<and>
    timer_delay st' = client_delay st \<and> id_abs (msg_map st') = (id_abs (msg_map st))(0 := None) \<and>
    events st' = events st @ [ConnectionSuccessful]"
  using handle_connack_accepted [OF assms, of ws rest] by metis

theorem connack_starts_session_witness:
  "\<exists>st'. process_rx sample_ws True (packet_bytes 0x20 [0, 0] @ []) (sample_state\<lparr>connecter := Running\<rparr>) = Some st' \<and>
    client_inv st' \<and> connecter st' = Cancelled \<and> pinger st' = Running \<and>
    timer_delay st' = client_delay (sample_state\<lparr>connecter := Running\<rparr>) \<and>
    id_abs (msg_map st') = (id_abs (msg_map (sample_state\<lparr>connecter := Running\<rparr>)))(0 := None) \<and>
    events st' = events (sample_state\<lparr>connecter := Running\<rparr>) @ [ConnectionSuccessful]"
  by (rule connack_starts_session [where acc = sample_account])
    (simp_all add: sample_state_inv sample_state_account)

text \<open>
  A CONNACK whose session-present byte or return code the protocol does not have makes the client
  read the return code through a packet pointer that was never set.
\<close>

theorem malformed_connack_undefined:
  assumes "account st = Ref acc" "acc_protocol acc = MQTT" and "sp > 1 \<or> code > 5"
  shows "process_rx ws ok (packet_bytes 0x20 [sp, code] @ rest) st = None"
proof (rule handle_connack_malformed [OF assms(1,2)])
  show "sp \<notin> {0, 1} \<or> code > 5" using assms(3) by auto
qed

theorem malformed_connack_undefined_witness:
  "process_rx sample_ws True (packet_bytes 0x20 [0, 6] @ []) sample_state = None"
  by (rule malformed_connack_undefined [OF sample_state_account(1,2)]) simp

text \<open>
  C30: over MQTT, a read that carries two or more packets, each of them of the size its second byte
  gives (the one-byte length field), and behind which two more bytes can be read, is cut at the packet boundaries, and the packets are processed in order until one
  ends the program or is undefined. (A packet with a longer length field is not cut: see
  \<open>remaining_length_one_byte_only\<close>.)
\<close>

theorem frames_processed_in_order:
  assumes "\<forall>f \<in> set fs. frame_ok f" and "2 \<le> length fs" and "2 \<le> length extra"
    and "account st = Ref acc" "acc_protocol acc = MQTT"
  shows "mqtt_data_received ws ok (concat fs @ extra) (int (length (concat fs))) st =
           process_all ws ok fs st"
  using assms by (rule data_received_frames)

theorem frames_processed_in_order_witness:
  "mqtt_data_received sample_ws True (concat [[0x40, 2, 0, 1], [0xd0, 0]] @ [0, 0])
     (int (length (concat [[0x40, 2, 0, 1], [0xd0, 0 :: byte]]))) sample_state =
   process_all sample_ws True [[0x40, 2, 0, 1], [0xd0, 0]] sample_state"
  by (rule frames_processed_in_order [where acc = sample_account])
    (simp_all add: frame_ok_def sample_state_account)

text \<open>
  C38: in no reachable state can the client disconnect with defined behaviour: \<open>stop_all_timers\<close>
  cancels the retransmission thread, which no operation of the client ever starts. A packet that
  only a server may receive runs into the same call.
\<close>

theorem disconnect_undefined:
  assumes "mqtt_reachable ws st"
  shows "send_disconnect ws st = None \<and> messager st = NotStarted \<and>
    (message_type msg = Some SUBSCRIBE \<longrightarrow> handle_message ws ok msg st = None)"
  using mqtt_reachable_inv [OF assms] send_disconnect_stuck [of st ws]
  by (simp add: client_inv_def handle_message_def handle_unacceptable_def)

theorem disconnect_undefined_witness:
  "send_disconnect sample_ws mqtt_init = None \<and> messager mqtt_init = NotStarted \<and>
    handle_message sample_ws True (no_packet SUBSCRIBE) mqtt_init = None"
  using disconnect_undefined [OF mqtt_reachable.start, of sample_ws "no_packet SUBSCRIBE" True]
  by (simp add: no_packet_def)

text \<open>
  Acknowledgements do not end a delivery: an incoming PUBACK, PUBREC, PUBCOMP, SUBACK or
  UNSUBACK, and an incoming PUBLISH of any QoS, leaves the client as it is, the table included, and
  sends nothing.
\<close>

theorem acknowledgements_ignored:
  assumes "account st = Ref acc" "acc_protocol acc = MQTT" and "decode data = Some message"
    and "message_type message = Some t"
    and "t \<in> {PUBLISH, PUBACK, PUBREC, PUBREL, PUBCOMP, SUBACK, UNSUBACK, PINGRESP}"
  shows "process_rx ws ok data st = Some st"
  using assms handle_ignored [of message t ws ok st]
  by (simp add: process_rx_def ignored_types_def)

theorem acknowledgements_ignored_witness:
  "process_rx sample_ws True (packet_bytes 0x40 (short_bytes 1) @ []) sample_state = Some sample_state"
  by (rule acknowledgements_ignored [OF sample_state_account(1,2),
        where t = PUBACK and message = "\<lparr>message_type = Some PUBACK, packet = Ref (PPuback 1)\<rparr>"])
    (rule decode_ack_packet | simp)+

section \<open>The MQTT-SN codec\<close>

text \<open>
  C3: take a packet of MQTT-SN 1.2 that the client's structs can hold (\<open>sn_valid\<close>: return codes, QoS values and topic types
  are those of the specification; a PUBLISH has a predefined topic id or a short name, for there is no struct with the type of
  a registered id; the other names are not empty), whose strings are below 65000 bytes, which is neither an encapsulated message nor one of the two WILL responses, and which
  for GWINFO, CONNECT and PINGREQ has a body of at most 253 bytes. \<open>sn_get_length\<close> is the length of the packet
  and \<open>sn_encode\<close> fills its buffer with exactly its bytes: one length byte up to 255, three beyond, the type, and a
  body whose flags, if it has any, are those of the specification bit by bit.
\<close>

theorem sn_encoder_correct:
  assumes "sn_wire m = Some body" and "sn_valid m" and "sn_supports m body"
  shows "sn_get_length m = Some (int (sn_len body)) \<and>
    sn_encode m (int (sn_len body)) = Some (map Some (sn_frame (sn_message_type m) body))"
  using sn_get_length_wire [OF assms(1,3)] sn_encode_correct [OF assms(1,3)] by simp

definition sample_sn_publish :: SnPublish where
  "sample_sn_publish = sn_publish_for (Ref [0x68, 0x69]) (Ref [0x61]) 1 0 0 7 3"

lemma sample_sn_publish_wire:
  "sn_wire_publish sample_sn_publish = Some [0x21, 0, 7, 0, 3, 0x68, 0x69]"
  by (simp add: sample_sn_publish_def sn_publish_for_def sn_wire_publish_def sn_wire_topic_def
      sn_wire_string_def short_bytes_def sn_flags_def)

theorem sn_encoder_correct_witness:
  "sn_encode (publish_of sample_sn_publish) 9 =
     Some (map Some [9, 0x0c, 0x21, 0, 7, 0, 3, 0x68, 0x69]) \<and>
   sn_encode \<lparr>sn_message_type = SN_CONNECT, sn_packet = Ref (PSnConnect \<lparr>snc_will_present = 1, snc_clean_session = 1,
       snc_protocol_id = 1, snc_duration = 60, snc_client_id = Ref [0x63]\<rparr>)\<rparr> 7 =
     Some (map Some [7, 4, 0x0c, 1, 0, 60, 0x63])"
proof
  have "sn_valid (publish_of sample_sn_publish)" "sn_supports (publish_of sample_sn_publish) b" for b
    by (simp_all add: sn_valid_def publish_of_def sample_sn_publish_def sn_publish_for_def sn_qos_below_def sn_topic_valid_def
        sn_supports_def)
  moreover have "sn_wire (publish_of sample_sn_publish) = Some [0x21, 0, 7, 0, 3, 0x68, 0x69]"
    using sample_sn_publish_wire by (simp add: sn_wire_publish_of)
  ultimately show "sn_encode (publish_of sample_sn_publish) 9 = Some (map Some [9, 0x0c, 0x21, 0, 7, 0, 3, 0x68, 0x69])"
    using sn_encoder_correct [of "publish_of sample_sn_publish" "[0x21, 0, 7, 0, 3, 0x68, 0x69]"]
    by (simp add: sn_len_def sn_frame_def sn_header_def sn_code_def sn_codes_def)
qed (use sn_encoder_correct [of "\<lparr>sn_message_type = SN_CONNECT, sn_packet = Ref (PSnConnect \<lparr>snc_will_present = 1,
         snc_clean_session = 1, snc_protocol_id = 1, snc_duration = 60, snc_client_id = Ref [0x63]\<rparr>)\<rparr>"] in
    \<open>simp add: sn_len_def sn_frame_def sn_header_def sn_code_def sn_codes_def sn_wire_def
        sn_wire_string_def sn_valid_def sn_supports_def sn_flags_def short_bytes_def\<close>)

text \<open>
  C4: take a message of a length below 65536 that \<open>sn_encode\<close> writes: its strings are below 65000 bytes, and of GWINFO,
  CONNECT and PINGREQ the body has at most 253 bytes. Suppose it is no PUBLISH, SUBSCRIBE, UNSUBSCRIBE, WILL_TOPIC, WILL_TOPIC_UPD, WILL response or encapsulation, its strings are present (but
  for GWINFO and PINGREQ) and have no zero byte, its will and clean session flags are 0 or 1, its return codes and radius
  below 256 and the QoS of a SUBACK below 4, and its packet pointer is NULL exactly if its type has no packet. Then it survives
  \<open>sn_encode\<close> and \<open>sn_decode\<close>, whatever follows it in memory, unchanged, but that a GWINFO without an address comes
  back with an empty one and a PINGREQ with an empty client id without one.
\<close>

theorem sn_message_roundtrip:
  assumes "sn_wire m = Some body" and "sn_supports m body" and "sn_len body < 65536"
    and "case sn_packet m of Null \<Rightarrow> True | Wild \<Rightarrow> False | Ref p \<Rightarrow> sn_carried p"
    and "sn_packet m = Null \<longleftrightarrow> sn_message_type m \<in> {SN_WILL_TOPIC_REQ, SN_WILL_MSG_REQ, SN_PINGRESP}"
  shows "\<exists>buf. sn_encode m (int (sn_len body)) = Some (map Some buf) \<and>
    sn_decode (buf @ rest) = Some (m\<lparr>sn_packet := map_ptr sn_restored (sn_packet m)\<rparr>)"
  using sn_encode_correct [OF assms(1,2)] sn_carried_roundtrip [OF assms(1,3-5), of rest] by blast

theorem sn_message_roundtrip_witness:
  "\<exists>buf. sn_encode (register_of 2 (Ref [0x61, 0x62])) 8 = Some (map Some buf) \<and>
     sn_decode (buf @ [0x7f]) = Some (register_of 2 (Ref [0x61, 0x62]))"
proof -
  let ?b = "short_bytes 0 @ short_bytes 2 @ [0x61, 0x62]"
  have "sn_wire (register_of 2 (Ref [0x61, 0x62])) = Some ?b" by (rule sn_wire_register) simp
  from sn_message_roundtrip [OF this, of "[0x7f]"] show ?thesis
    by (simp add: sn_len_def register_of_def cstr_ok_def sn_supports_def sn_carried_def sn_restored_def)
qed

text \<open>
  A PUBLISH to a topic id with data survives encoding and decoding, but for the name and the type
  of its topic, which the decoder leaves unset.
\<close>

theorem sn_publish_roundtrip:
  assumes "sn_wire_publish x = Some body" and "sn_topic_type (snp_topic x) = Some ID"
    and "sn_qos (snp_topic x) = Some q" "q < 4" "snp_dup x \<in> {0, 1}" "snp_retain x \<in> {0, 1}"
    and "snp_data x = Ref d" "cstr_ok d" "d \<noteq> []"
  shows "\<exists>buf. sn_encode (publish_of x) (int (sn_len body)) = Some (map Some buf) \<and>
    sn_decode (buf @ rest) = Some (publish_of (x\<lparr>snp_topic :=
      \<lparr>sn_id = sn_id (snp_topic x), sn_value = Wild, sn_qos = Some q, sn_topic_type = None\<rparr>\<rparr>))"
proof -
  have "sn_encode (publish_of x) (int (sn_len body)) = Some (map Some (sn_frame SN_PUBLISH body))"
    using sn_encode_correct [of "publish_of x"] assms(1) by (simp add: sn_wire_publish_of)
  moreover have "sn_decode (sn_frame SN_PUBLISH body @ rest) = Some (publish_of (sn_received x))"
    using sn_decode_publish_body [OF assms, of rest] sn_decode_frame [OF sn_publish_len [OF assms(1)]]
    by (simp add: publish_of_def)
  ultimately show ?thesis using assms(3) by (auto simp: sn_received_def blank_topic_def)
qed

theorem sn_publish_roundtrip_witness:
  "\<exists>buf. sn_encode (publish_of sample_sn_publish) 9 = Some (map Some buf) \<and>
    sn_decode (buf @ []) = Some (publish_of (sample_sn_publish\<lparr>snp_topic :=
      \<lparr>sn_id = Some 7, sn_value = Wild, sn_qos = Some 1, sn_topic_type = None\<rparr>\<rparr>))"
  using sn_publish_roundtrip [OF sample_sn_publish_wire, of 1 "[0x68, 0x69]" "[]"]
  by (simp add: sample_sn_publish_def sn_publish_for_def sn_len_def cstr_ok_def)

text \<open>
  \<open>sn_get_length\<close> forgets the long length field of a CONNECT and the return code of the two WILL
  responses, so that \<open>sn_encode\<close> writes past the end of the buffer of that length.
\<close>

theorem sn_encoder_overflow:
  assumes "snc_client_id c = Ref s" "250 \<le> length s" "length s < 65000"
    and "connect = \<lparr>sn_message_type = SN_CONNECT, sn_packet = Ref (PSnConnect c)\<rparr>"
    and "resp = \<lparr>sn_message_type = SN_WILL_TOPIC_RESP, sn_packet = Ref (SnWillTopicResp code)\<rparr>"
  shows "sn_get_length connect = Some (6 + int (length s)) \<and> sn_encode connect (6 + int (length s)) = None \<and>
    sn_get_length resp = Some 2 \<and> sn_encode resp 2 = None"
  using sn_connect_overflow [OF assms(1-4)] sn_response_overflow [of resp code] assms(5) by simp

definition sample_long_connect :: SnConnect where
  "sample_long_connect = \<lparr>snc_will_present = 0, snc_clean_session = 1, snc_protocol_id = 1,
     snc_duration = 60, snc_client_id = Ref (replicate 250 0x61)\<rparr>"

theorem sn_encoder_overflow_witness:
  "sn_encode \<lparr>sn_message_type = SN_CONNECT, sn_packet = Ref (PSnConnect sample_long_connect)\<rparr> 256 = None \<and>
   sn_encode \<lparr>sn_message_type = SN_WILL_TOPIC_RESP, sn_packet = Ref (SnWillTopicResp 0)\<rparr> 2 = None"
  using sn_encoder_overflow [of sample_long_connect "replicate 250 0x61", OF _ _ _ refl refl, of 0]
  by (simp add: sample_long_connect_def)

text \<open>
  Decoding a SUBSCRIBE or UNSUBSCRIBE always writes through a topic pointer that was never set, and
  decoding a PUBLISH without data prints one.
\<close>

theorem sn_decode_undefined:
  assumes "sn_len body < 65536" and "length body' \<le> 5"
  shows "sn_decode (sn_frame SN_SUBSCRIBE body @ rest) = None \<and>
    sn_decode (sn_frame SN_UNSUBSCRIBE body @ rest) = None \<and>
    sn_decode (sn_frame SN_PUBLISH body' @ rest) = None"
proof -
  have "sn_len body' < 65536" using assms(2) by (simp add: sn_len_def)
  then show ?thesis
    using sn_decode_frame [OF assms(1)] sn_decode_frame [of body'] assms(2)
      sn_decode_publish_empty [of "int (length body')"] sn_decode_sub_undefined
    by simp
qed

theorem sn_decode_undefined_witness:
  "sn_decode (sn_frame SN_SUBSCRIBE [0x20, 0, 1, 0x61] @ []) = None \<and>
    sn_decode (sn_frame SN_UNSUBSCRIBE [0x20, 0, 1, 0x61] @ []) = None \<and>
    sn_decode (sn_frame SN_PUBLISH [0x21, 0, 7, 0, 3] @ []) = None"
  by (rule sn_decode_undefined) (simp_all add: sn_len_def)

section \<open>The MQTT-SN client\<close>

text \<open>
  C18: in every state the MQTT-SN client can reach, the tables of messages and of topics are intact,
  every stored message is stored under its own id (a CONNECT or REGISTER under 0), and the lookups by
  scan are lookups.
\<close>

theorem sn_table_invariant:
  assumes "sn_reachable st"
  shows "id_table (messages_map st) \<and> hm_inv (topic_name_map st) \<and>
    id_table (reverse_topic_name_map st) \<and>
    (id_abs (messages_map st) i = Some m \<longrightarrow> sn_message_packet_id m = Some i) \<and>
    sn_get_message_from_map i st = Some (ptr_of (id_abs (messages_map st) i)) \<and>
    sn_get_topic_id_from_map (Ref s) st =
      Some (case hm_abs (topic_name_map st) s of None \<Rightarrow> 0 | Some v \<Rightarrow> of_int v)"
  using sn_reachable_inv [OF assms] sn_get_message_ok [of st i] sn_get_topic_id_ok [of st s]
  by (simp add: sn_inv_def sn_keyed_def)

definition sample_sn :: sn_state where
  "sample_sn = fst (init_mqtt_sn_client sample_account 0 sn_init)"

lemma sample_sn_simps:
  "sn_account sample_sn = Ref sample_account" "sn_listener sample_sn" "sn_packet_number sample_sn = 0"
  "messages_map sample_sn = map_init" "topic_name_map sample_sn = map_init"
  "reverse_topic_name_map sample_sn = map_init" "sn_events sample_sn = []"
  "sn_messager sample_sn = NotStarted" "\<not> sn_exited sample_sn"
  by (simp_all add: sample_sn_def init_mqtt_sn_client_def sn_init_def)

lemma sample_sn_inv: "sn_inv sample_sn" "name_room (topic_name_map sample_sn)"
  by (simp_all add: sn_inv_def sample_sn_simps map_init_ok name_room_def) (simp add: map_init_def)

lemma sample_sn_reachable: "sn_reachable sample_sn"
proof (rule sn_reachable.step [OF sn_reachable.start])
  show "sn_step sn_init sample_sn"
    by (rule sn_step.init [of sample_account 0 _ _ 0])
      (simp add: sample_sn_def init_mqtt_sn_client_def)
qed (rule sample_sn_inv(2))

theorem sn_table_invariant_witness:
  "id_table (messages_map sample_sn) \<and> hm_inv (topic_name_map sample_sn) \<and>
    id_table (reverse_topic_name_map sample_sn) \<and>
    sn_get_topic_id_from_map (Ref [0x61]) sample_sn = Some 0"
  using sn_table_invariant [OF sample_sn_reachable, of _ _ "[0x61]"]
  by (simp add: sample_sn_simps map_init_ok)

text \<open>
  C24: a publication to a topic without an id sends a REGISTER in its wire format, with the second of
  two new ids, and keeps the PUBLISH under the first; the REGISTER itself is kept under 0, where
  nothing but a CONNACK removes it.
\<close>

theorem sn_register_before_publish:
  assumes "sn_inv st" "sn_account st = Ref acc" "hm_abs (topic_name_map st) s = None"
    and "length s < 65000" "n = sn_packet_number st" "n < 2 ^ 31 - 2"
  shows "\<exists>st'. send_sn_message content (Ref s) q retain dup st = Some st' \<and> sn_inv st' \<and>
    sn_events st' = sn_events st @
      [sn_sent acc SN_REGISTER (short_bytes 0 @ short_bytes (of_int (n + 2)) @ s)] \<and>
    id_abs (messages_map st') = (id_abs (messages_map st))
       (of_int (n + 1) \<mapsto> publish_of (sn_publish_for content (Ref s) q retain dup 0 (of_int (n + 1))),
        0 \<mapsto> register_of (of_int (n + 2)) (Ref s)) \<and>
    sn_packet_number st' = n + 2"
proof -
  from send_sn_message_registers [OF assms(1-4), of content q retain dup] obtain m' where
    "send_sn_message content (Ref s) q retain dup st = Some
      (sn_emit (sn_sent acc SN_REGISTER (short_bytes 0 @ short_bytes (of_int (n + 2)) @ s))
        (st\<lparr>messages_map := m', sn_packet_number := n + 2\<rparr>))"
    "sn_inv (st\<lparr>messages_map := m', sn_packet_number := n + 2\<rparr>)"
    "id_abs m' = (id_abs (messages_map st))
       (of_int (n + 1) \<mapsto> publish_of (sn_publish_for content (Ref s) q retain dup 0 (of_int (n + 1))),
        0 \<mapsto> register_of (of_int (n + 2)) (Ref s))"
    using assms(5,6) by metis
  then show ?thesis by simp
qed

theorem sn_register_before_publish_witness:
  "\<exists>st'. send_sn_message (Ref [0x68]) (Ref [0x61]) 1 0 0 sample_sn = Some st' \<and> sn_inv st' \<and>
    sn_events st' = [sn_sent sample_account SN_REGISTER [0, 0, 0, 2, 0x61]] \<and>
    id_abs (messages_map st') = [1 \<mapsto> publish_of (sn_publish_for (Ref [0x68]) (Ref [0x61]) 1 0 0 0 1),
      0 \<mapsto> register_of 2 (Ref [0x61])] \<and> sn_packet_number st' = 2"
  using sn_register_before_publish [OF sample_sn_inv(1) sample_sn_simps(1),
      of "[0x61]" 0 "Ref [0x68]" 1 0 0]
  by (simp add: sample_sn_simps map_init_ok short_bytes_def)

text \<open>
  C25: the REGACK that accepts the topic records it in both directions, sends the waiting PUBLISH in
  its wire format with the topic's id under a new message id, keeps it there when its QoS is above 0,
  and removes it from its old place.
\<close>

theorem sn_regack_publishes:
  assumes "sn_inv st" "name_room (topic_name_map st)" "sn_account st = Ref acc"
    and "n = sn_packet_number st" "n < 2 ^ 31 - 1"
    and "id_abs (messages_map st) (i - 1) = Some (publish_of p)"
    and "sn_value (snp_topic p) = Ref s" "sn_qos (snp_topic p) = Some q"
    and "sn_wire_publish (registered p topic_id (of_int (n + 1))) = Some body"
  shows "\<exists>st'. process_sn_rx ok (sn_frame SN_REGACK (sn_wire_ack
       \<lparr>sna_topic_id = topic_id, sna_message_id = i, sna_code = SN_ACCEPTED\<rparr>) @ rest) st = Some st' \<and>
    sn_inv st' \<and> sn_events st' = sn_events st @ [sn_sent acc SN_PUBLISH body] \<and>
    sn_packet_number st' = n + 1 \<and>
    hm_abs (topic_name_map st') = (hm_abs (topic_name_map st))(s \<mapsto> uint topic_id) \<and>
    id_abs (reverse_topic_name_map st') = (id_abs (reverse_topic_name_map st))(topic_id \<mapsto> Ref s) \<and>
    id_abs (messages_map st') = (if q = 0 then id_abs (messages_map st) else (id_abs (messages_map st))
       (of_int (n + 1) \<mapsto> publish_of (registered p topic_id (of_int (n + 1)))))(i - 1 := None, i := None)"
proof -
  obtain m' m1 m2 where "process_sn_rx ok (sn_frame SN_REGACK (sn_wire_ack
       \<lparr>sna_topic_id = topic_id, sna_message_id = i, sna_code = SN_ACCEPTED\<rparr>) @ rest) st =
     Some (sn_emit (sn_sent acc SN_PUBLISH body) (st\<lparr>messages_map := m', topic_name_map := m1,
       reverse_topic_name_map := m2, sn_packet_number := n + 1\<rparr>))"
    "sn_inv (st\<lparr>messages_map := m', topic_name_map := m1, reverse_topic_name_map := m2,
       sn_packet_number := n + 1\<rparr>)"
    "hm_abs m1 = (hm_abs (topic_name_map st))(s \<mapsto> uint topic_id)"
    "id_abs m2 = (id_abs (reverse_topic_name_map st))(topic_id \<mapsto> Ref s)"
    "id_abs m' = (if q = 0 then id_abs (messages_map st) else (id_abs (messages_map st))
       (of_int (n + 1) \<mapsto> publish_of (registered p topic_id (of_int (n + 1)))))(i - 1 := None, i := None)"
    using sn_regack_sends [OF assms(1-3) _ assms(6-8), of topic_id body ok rest] assms(4,5,9) by metis
  then show ?thesis by simp
qed

theorem sn_regack_publishes_witness:
  "\<exists>st st'. id_abs (messages_map st) =
      [1 \<mapsto> publish_of (sn_publish_for (Ref [0x68]) (Ref [0x61]) 1 0 0 0 1),
       0 \<mapsto> register_of 2 (Ref [0x61])] \<and>
    process_sn_rx True (sn_frame SN_REGACK (sn_wire_ack
       \<lparr>sna_topic_id = 9, sna_message_id = 2, sna_code = SN_ACCEPTED\<rparr>) @ []) st = Some st' \<and>
    hm_abs (topic_name_map st') [0x61] = Some 9 \<and>
    sn_events st' = sn_events st @ [sn_sent sample_account SN_PUBLISH [0x21, 0, 9, 0, 3, 0x68]] \<and>
    id_abs (messages_map st') 1 = None \<and> id_abs (messages_map st') 0 = Some (register_of 2 (Ref [0x61]))"
proof -
  let ?p = "sn_publish_for (Ref [0x68]) (Ref [0x61]) 1 0 0 0 1"
  from send_sn_message_registers [OF sample_sn_inv(1) sample_sn_simps(1),
      of "[0x61]" "Ref [0x68]" 1 0 0] obtain m' where
    inv: "sn_inv (sample_sn\<lparr>messages_map := m', sn_packet_number := 2\<rparr>)"
    and m': "id_abs m' = [1 \<mapsto> publish_of ?p, 0 \<mapsto> register_of 2 (Ref [0x61])]"
    by (auto simp: sample_sn_simps map_init_ok)
  let ?st = "sample_sn\<lparr>messages_map := m', sn_packet_number := 2\<rparr>"
  have room: "name_room (topic_name_map ?st)" using sample_sn_inv(2) by simp
  have "sn_wire_publish (registered ?p 9 (of_int (2 + 1))) = Some [0x21, 0, 9, 0, 3, 0x68]"
    by (simp add: sn_publish_for_def registered_def sn_wire_publish_def sn_wire_topic_def
        sn_wire_string_def short_bytes_def sn_flags_def)
  from sn_regack_publishes [OF inv room _ _ _ _ _ _ this, where i = 2 and acc = sample_account
      and s = "[0x61]" and q = 1 and ok = True and rest = "[]"] m'
  obtain st' where "process_sn_rx True (sn_frame SN_REGACK (sn_wire_ack
       \<lparr>sna_topic_id = 9, sna_message_id = 2, sna_code = SN_ACCEPTED\<rparr>) @ []) ?st = Some st'"
    "hm_abs (topic_name_map st') = (hm_abs map_init)([0x61] \<mapsto> 9)"
    "sn_events st' = sn_events ?st @ [sn_sent sample_account SN_PUBLISH [0x21, 0, 9, 0, 3, 0x68]]"
    "id_abs (messages_map st') = [0 \<mapsto> register_of 2 (Ref [0x61]), 3 \<mapsto> publish_of (registered ?p 9 3)]"
    by (auto simp: sample_sn_simps sn_publish_for_def)
  with m' show ?thesis
    by (intro exI [of _ ?st] exI [of _ st'] conjI) simp_all
qed

text \<open>
  An incoming PUBLISH to a topic id is delivered with the name recorded for the id, or with none,
  and answered by its QoS: PUBACK for 1, PUBREC for 2, nothing for the others. The tables do not
  change.
\<close>

theorem sn_incoming_publish:
  assumes "sn_inv st" "sn_listener st" "sn_account st = Ref acc"
    and "sn_wire_publish x = Some body" "sn_topic_type (snp_topic x) = Some ID"
    and "sn_id (snp_topic x) = Some i" "sn_qos (snp_topic x) = Some q" "q < 4"
    and "snp_dup x \<in> {0, 1}" "snp_retain x \<in> {0, 1}" "snp_data x = Ref d" "cstr_ok d" "d \<noteq> []"
  shows "process_sn_rx ok (sn_frame SN_PUBLISH body @ rest) st = Some (st\<lparr>sn_events := sn_events st @
      SnPublication (Ref d) (case id_abs (reverse_topic_name_map st) i of None \<Rightarrow> Null | Some p \<Rightarrow> p)
        q (snp_retain x) (snp_dup x) # publish_reply acc q i (snp_message_id x)\<rparr>)"
  using assms by (rule sn_incoming_publish_ok)

theorem sn_incoming_publish_witness:
  "process_sn_rx True (sn_frame SN_PUBLISH [0x21, 0, 7, 0, 3, 0x68, 0x69] @ []) sample_sn =
     Some (sample_sn\<lparr>sn_events := [SnPublication (Ref [0x68, 0x69]) Null 1 0 0,
       sn_sent sample_account SN_PUBACK [0, 7, 0, 3, 0]]\<rparr>)"
  using sn_incoming_publish [OF sample_sn_inv(1) sample_sn_simps(2,1) sample_sn_publish_wire,
      of 7 1 "[0x68, 0x69]" True "[]"]
  by (simp add: sample_sn_simps sample_sn_publish_def sn_publish_for_def cstr_ok_def
      publish_reply_def sn_wire_ack_def short_bytes_def)

text \<open>
  C37: while the tables of names have room, subscribing to a topic (of less than 65000 bytes) that has no id sends the
  SUBSCRIBE by name under the next message
  id, and the SUBACK that accepts it, with a granted QoS below 4, records the topic's id in both directions and ends the
  retransmission; nothing else of the three tables changes.
\<close>

theorem sn_subscription_recorded:
  assumes "sn_inv st" "name_room (topic_name_map st)" "sn_account st = Ref acc"
    and "hm_abs (topic_name_map st) s = None" "length s < 65000" "sn_packet_number st < 2 ^ 31 - 1"
    and "i = of_int (sn_packet_number st + 1)"
    and "sa = \<lparr>snsa_topic_id = topic_id, snsa_message_id = i, snsa_code = SN_ACCEPTED,
           snsa_allowedQos = aq\<rparr>" "aq < 4"
  shows "\<exists>st1 st2. send_sn_subscribe (Ref s) q st = Some st1 \<and>
    sn_events st1 = sn_events st @ [sn_sent acc SN_SUBSCRIBE
      (sn_flags False (of_int q) False False False NAMED # short_bytes i @ s)] \<and>
    process_sn_rx ok (sn_frame SN_SUBACK (suback_bytes sa) @ rest) st1 = Some st2 \<and>
    hm_abs (topic_name_map st2) = (hm_abs (topic_name_map st))(s \<mapsto> uint topic_id) \<and>
    id_abs (reverse_topic_name_map st2) = (id_abs (reverse_topic_name_map st))(topic_id \<mapsto> Ref s) \<and>
    id_abs (messages_map st2) = (id_abs (messages_map st))(i := None)"
proof -
  let ?t = "blank_topic\<lparr>sn_value := Ref s, sn_topic_type := Some NAMED, sn_qos := Some (of_int q)\<rparr>"
  let ?b = "sn_flags False (of_int q) False False False NAMED # short_bytes i @ s"
  have t: "sn_topic_for (Ref s) 0 = Some (blank_topic\<lparr>sn_value := Ref s, sn_topic_type := Some NAMED\<rparr>)"
    and id: "sn_get_topic_id_from_map (Ref s) st = Some 0"
    using sn_get_topic_id_ok [OF assms(1), of s] assms(4) by (simp_all add: sn_topic_for_def)
  have wire: "sn_wire (subscribe_of ?t i) = Some ?b"
    using assms(5) by (simp add: subscribe_of_def sn_wire_def sn_wire_topic_def blank_topic_def
        sn_wire_string_def)
  obtain m1 where
    st1: "send_sn_subscribe (Ref s) q st = Some (sn_emit (sn_sent acc SN_SUBSCRIBE ?b)
      (st\<lparr>messages_map := m1, sn_packet_number := sn_packet_number st + 1\<rparr>))"
    "sn_inv (st\<lparr>messages_map := m1, sn_packet_number := sn_packet_number st + 1\<rparr>)"
    "id_abs m1 = (id_abs (messages_map st))(i \<mapsto> subscribe_of ?t i)"
    using send_sn_subscribe_ok [OF assms(1,3,6) id t, of q ?b] wire assms(7)
    by (simp add: blank_topic_def del: of_int_add) metis
  let ?st1 = "sn_emit (sn_sent acc SN_SUBSCRIBE ?b)
      (st\<lparr>messages_map := m1, sn_packet_number := sn_packet_number st + 1\<rparr>)"
  have inv: "sn_inv ?st1" and room: "name_room (topic_name_map ?st1)"
    using st1(2) assms(2) by simp_all
  have sa: "snsa_code sa = SN_ACCEPTED" "snsa_message_id sa = i" "snsa_topic_id sa = topic_id"
    "snsa_allowedQos sa < 4" and val: "sn_value ?t = Ref s"
    using assms(8,9) by (simp_all add: blank_topic_def)
  have kept: "id_abs (messages_map ?st1) (snsa_message_id sa) = Some (subscribe_of ?t i)"
    using st1(3) sa(2) by simp
  obtain m' m2 m3 where "sn_handle_suback sa ?st1 = Some (?st1\<lparr>messages_map := m',
      topic_name_map := m2, reverse_topic_name_map := m3\<rparr>)"
    "hm_abs m2 = (hm_abs (topic_name_map ?st1))(s \<mapsto> uint (snsa_topic_id sa))"
    "id_abs m3 = (id_abs (reverse_topic_name_map ?st1))(snsa_topic_id sa \<mapsto> Ref s)"
    "id_abs m' = (id_abs (messages_map ?st1))(snsa_message_id sa := None)"
    by (rule sn_suback_ok [OF inv room sa(1) kept val])
  then show ?thesis
    using st1(1,3) sn_suback_decoded [of sa ok rest] sa by simp
qed

theorem sn_subscription_recorded_witness:
  "\<exists>st1 st2. send_sn_subscribe (Ref [0x61]) 1 sample_sn = Some st1 \<and>
    sn_events st1 = [sn_sent sample_account SN_SUBSCRIBE [0x20, 0, 1, 0x61]] \<and>
    process_sn_rx True (sn_frame SN_SUBACK [0x20, 0, 9, 0, 1, 0] @ []) st1 = Some st2 \<and>
    hm_abs (topic_name_map st2) = [[0x61] \<mapsto> 9]"
  using sn_subscription_recorded [OF sample_sn_inv sample_sn_simps(1),
      of "[0x61]" 1 "\<lparr>snsa_topic_id = 9, snsa_message_id = 1, snsa_code = SN_ACCEPTED, snsa_allowedQos = 1\<rparr>"
        9 1 1 True "[]"]
  by (simp add: sample_sn_simps map_init_ok short_bytes_def sn_flags_def suback_bytes_def) blast

text \<open>
  As in the MQTT client, no reachable state can disconnect with defined behaviour, and neither can
  it take the DISCONNECT of a server: both cancel the thread that was never started.
\<close>

theorem sn_disconnect_undefined:
  assumes "sn_reachable st"
  shows "send_sn_disconnect st = None \<and>
    process_sn_rx ok (sn_frame SN_DISCONNECT [] @ rest) st = None"
proof -
  have ms: "sn_messager st = NotStarted"
    using sn_reachable_inv [OF assms] sn_invD(5) by blast
  have "sn_decode (sn_frame SN_DISCONNECT [] @ rest) =
      Some \<lparr>sn_message_type = SN_DISCONNECT, sn_packet = Ref (SnDisconnect 0)\<rparr>"
    by (rule sn_decode_wire) (simp_all add: sn_len_def)
  then show ?thesis
    using send_sn_disconnect_stuck [OF ms] sn_stop_all_stuck [OF ms]
    by (simp add: process_sn_rx_def sn_handle_message_def)
qed

theorem sn_disconnect_undefined_witness:
  "send_sn_disconnect sample_sn = None \<and>
    process_sn_rx True (sn_frame SN_DISCONNECT [] @ []) sample_sn = None"
  by (rule sn_disconnect_undefined [OF sample_sn_reachable])

end
